(* ===== verification/Spanner_Prelude.thy ===== *)
theory Spanner_Prelude
  imports
    Main
    "HOL-Library.Signed_Division"
    "HOL-Library.Monad_Syntax"
begin

text \<open>
  Shared vocabulary of the development: the status codes and the status-or-value results every
  operation of the client returns, the C++ integer ranges with checked (undefined on overflow)
  arithmetic, and truncating division. The collection \<open>arith64\<close> holds the rules that
  discharge checked 64-bit steps.
\<close>

named_theorems arith64

section \<open>Results\<close>

text \<open>
  The canonical status codes of \<open>google::cloud::StatusCode\<close>; the code compares and
  returns them by name only.
\<close>

datatype status_code =
    kOk | kCancelled | kUnknown | kInvalidArgument | kDeadlineExceeded | kNotFound
  | kAlreadyExists | kPermissionDenied | kUnauthenticated | kResourceExhausted
  | kFailedPrecondition | kAborted | kOutOfRange | kUnimplemented | kInternal
  | kUnavailable | kDataLoss

text \<open>A \<open>google::cloud::Status\<close> is a code and a message; it is OK when its code is.\<close>

datatype status = Status (code: status_code) (message: string)

abbreviation ok_status :: status where
  "ok_status \<equiv> Status kOk []"

definition status_ok :: "status \<Rightarrow> bool" where
  "status_ok s \<longleftrightarrow> code s = kOk"

lemma status_ok_Status [simp]: "status_ok (Status c m) \<longleftrightarrow> c = kOk"
  by (simp add: status_ok_def)

text \<open>\<open>StatusOr<T>\<close>: an error status (\<open>Inl\<close>) or a value (\<open>Inr\<close>).\<close>

type_synonym 'a status_or = "status + 'a"

fun result_status :: "'a status_or \<Rightarrow> status" where
  "result_status (Inl s) = s"
| "result_status (Inr _) = ok_status"

fun is_value :: "'a status_or \<Rightarrow> bool" where
  "is_value (Inl _) = False"
| "is_value (Inr _) = True"

lemma is_value_iff: "is_value r \<longleftrightarrow> (\<exists>x. r = Inr x)"
  by (cases r) auto

section \<open>C++ integers\<close>

abbreviation int64_min :: int where "int64_min \<equiv> - 9223372036854775808"
abbreviation int64_max :: int where "int64_max \<equiv> 9223372036854775807"
abbreviation int32_min :: int where "int32_min \<equiv> - 2147483648"
abbreviation int32_max :: int where "int32_max \<equiv> 2147483647"

definition in_int64 :: "int \<Rightarrow> bool" where
  "in_int64 x \<longleftrightarrow> int64_min \<le> x \<and> x \<le> int64_max"

definition in_int32 :: "int \<Rightarrow> bool" where
  "in_int32 x \<longleftrightarrow> int32_min \<le> x \<and> x \<le> int32_max"

text \<open>\<open>static_cast<int>\<close> of a wider value keeps its low 32 bits, read as two's complement.\<close>

definition to_int32 :: "int \<Rightarrow> int" where
  "to_int32 x = signed_take_bit 31 x"

lemma to_int32_id [simp]: "in_int32 x \<Longrightarrow> to_int32 x = x"
  by (simp add: to_int32_def in_int32_def signed_take_bit_int_eq_self_iff)

lemma in_int32_to_int32 [simp]: "in_int32 (to_int32 x)"
  using signed_take_bit_int_greater_eq_minus_exp [of 31 x] signed_take_bit_int_less_exp [of 31 x]
  by (simp add: to_int32_def in_int32_def)

text \<open>
  Signed 64-bit arithmetic whose overflow is undefined behaviour: \<open>None\<close> is the undefined
  outcome, so a theorem that a function yields \<open>Some\<close> says no step of it overflows.
\<close>

definition chk64 :: "int \<Rightarrow> int option" where
  "chk64 x = (if in_int64 x then Some x else None)"

definition add64 :: "int \<Rightarrow> int \<Rightarrow> int option" where
  "add64 a b = chk64 (a + b)"

definition sub64 :: "int \<Rightarrow> int \<Rightarrow> int option" where
  "sub64 a b = chk64 (a - b)"

definition mul64 :: "int \<Rightarrow> int \<Rightarrow> int option" where
  "mul64 a b = chk64 (a * b)"

lemma chk64_Some [arith64]: "in_int64 x \<Longrightarrow> chk64 x = Some x"
  by (simp add: chk64_def)

lemma chk64_eq_Some_iff: "chk64 x = Some y \<longleftrightarrow> in_int64 x \<and> y = x"
  by (auto simp: chk64_def)

lemma add64_Some [arith64]: "in_int64 (a + b) \<Longrightarrow> add64 a b = Some (a + b)"
  by (simp add: add64_def chk64_def)

lemma sub64_Some [arith64]: "in_int64 (a - b) \<Longrightarrow> sub64 a b = Some (a - b)"
  by (simp add: sub64_def chk64_def)

lemma mul64_Some [arith64]: "in_int64 (a * b) \<Longrightarrow> mul64 a b = Some (a * b)"
  by (simp add: mul64_def chk64_def)

subsection \<open>Truncating division\<close>

text \<open>C++ \<open>/\<close> and \<open>%\<close> round towards zero: \<open>sdiv\<close> and \<open>smod\<close> of the library.\<close>

lemma sdiv_nonneg: "0 \<le> a \<Longrightarrow> 0 < b \<Longrightarrow> a sdiv b = a div (b::int)"
  by (auto simp: signed_divide_int_def sgn_if)

lemma smod_nonneg: "0 \<le> a \<Longrightarrow> 0 < b \<Longrightarrow> a smod b = a mod (b::int)"
  by (auto simp: smod_int_alt_def sgn_if)

lemma sdiv_neg: "a < 0 \<Longrightarrow> 0 < b \<Longrightarrow> a sdiv b = - (- a div (b::int))"
  by (auto simp: signed_divide_int_def sgn_if)

lemma smod_neg: "a < 0 \<Longrightarrow> 0 < b \<Longrightarrow> a smod b = - (- a mod (b::int))"
  by (auto simp: smod_int_alt_def sgn_if)

text \<open>
  The code's idiom for floor division: divide, and when the remainder is negative add the divisor
  to it and take one from the quotient.
\<close>

lemma floor_by_trunc:
  assumes "0 < b"
  shows "a div b = (if a smod b < 0 then a sdiv b - 1 else a sdiv b)"
    and "a mod b = (if a smod b < 0 then a smod b + b else a smod (b::int))"
proof -
  have split: "a = b * (a sdiv b) + a smod b"
    by (simp add: mult_sdiv_smod_eq)
  have range: "- b < a smod b" "a smod b < b"
    using assms smod_int_range [of b a] by (auto simp: abs_if split: if_splits)
  show d: "a div b = (if a smod b < 0 then a sdiv b - 1 else a sdiv b)"
  proof (cases "a smod b < 0")
    case True
    have "a = b * (a sdiv b - 1) + (a smod b + b)"
      using split by (simp add: algebra_simps)
    moreover have "0 \<le> a smod b + b" "a smod b + b < b"
      using range True by auto
    ultimately have "a div b = a sdiv b - 1"
      by (metis div_pos_pos_trivial div_mult_self4 add.commute add.right_neutral assms
          less_irrefl)
    with True show ?thesis by simp
  next
    case False
    then have "a div b = a sdiv b"
      using split range assms
      by (metis add.commute add.right_neutral div_mult_self4 div_pos_pos_trivial less_irrefl
          linorder_not_less)
    with False show ?thesis by simp
  qed
  have "a mod b = a - b * (a div b)"
    by (simp add: minus_mult_div_eq_mod)
  with d split show "a mod b = (if a smod b < 0 then a smod b + b else a smod b)"
    by (auto simp: algebra_simps)
qed

end
