(* ===== verification/Civil_Time.thy ===== *)
theory Civil_Time
  imports Spanner_Prelude
begin

text \<open>
  The civil-time arithmetic of \<open>timestamp.cc\<close>: \<open>ZTime\<close> turns seconds since the Unix epoch
  into a broken-down \<open>std::tm\<close> and \<open>TimeZ\<close> goes back. Both are stated with the code's
  truncating division and its narrowing to a 32-bit \<open>tm_year\<close>. The lemmas relate them to the
  proleptic Gregorian calendar, given here by the length of a month and the day that follows a
  day, independently of the arithmetic the code uses.
\<close>

section \<open>The code\<close>

text \<open>The fields of \<open>std::tm\<close> the library uses; every field is an \<open>int\<close> of the code.\<close>

record tm =
  tm_year :: int
  tm_mon :: int
  tm_mday :: int
  tm_hour :: int
  tm_min :: int
  tm_sec :: int

abbreviation kSecsPerMinute :: int where "kSecsPerMinute \<equiv> 60"
abbreviation kSecsPerHour :: int where "kSecsPerHour \<equiv> 3600"
abbreviation kSecsPerDay :: int where "kSecsPerDay \<equiv> 86400"

definition ZTime :: "int \<Rightarrow> tm" where
  "ZTime s =
     (let day0 = s sdiv kSecsPerDay;
          sec0 = s smod kSecsPerDay;
          sec1 = (if sec0 < 0 then sec0 + kSecsPerDay else sec0);
          day = (if sec0 < 0 then day0 - 1 else day0);
          hour = sec1 sdiv kSecsPerHour;
          sec2 = sec1 - hour * kSecsPerHour;
          min = sec2 sdiv kSecsPerMinute;
          sec = sec2 - min * kSecsPerMinute;
          aday = day + 719468;
          era = (if aday \<ge> 0 then aday else aday - 146096) sdiv 146097;
          doe = aday - era * 146097;
          yoe = (doe - doe sdiv 1460 + doe sdiv 36524 - doe sdiv 146096) sdiv 365;
          y = yoe + era * 400;
          doy = doe - (365 * yoe + yoe sdiv 4 - yoe sdiv 100);
          mp = (5 * doy + 2) sdiv 153;
          d = doy - (153 * mp + 2) sdiv 5 + 1;
          m = mp + (if mp < 10 then 3 else - 9)
      in \<lparr>tm_year = to_int32 (y - (1900 - (if m \<le> 2 then 1 else 0))),
          tm_mon = to_int32 (m - 1), tm_mday = to_int32 d,
          tm_hour = to_int32 hour, tm_min = to_int32 min, tm_sec = to_int32 sec\<rparr>)"

definition TimeZ :: "tm \<Rightarrow> int" where
  "TimeZ tm =
     (let y = tm_year tm + 1900;
          m = tm_mon tm + 1;
          d = tm_mday tm;
          eyear = (if m \<le> 2 then y - 1 else y);
          era = (if eyear \<ge> 0 then eyear else eyear - 399) sdiv 400;
          yoe = eyear - era * 400;
          doy = (153 * (m + (if m > 2 then - 3 else 9)) + 2) sdiv 5 + d - 1;
          doe = yoe * 365 + yoe sdiv 4 - yoe sdiv 100 + doy;
          aday = era * 146097 + doe - 719468
      in aday * kSecsPerDay + tm_hour tm * kSecsPerHour + tm_min tm * kSecsPerMinute
           + tm_sec tm)"

section \<open>The proleptic Gregorian calendar\<close>

definition leap :: "int \<Rightarrow> bool" where
  "leap y \<longleftrightarrow> y mod 4 = 0 \<and> (y mod 100 \<noteq> 0 \<or> y mod 400 = 0)"

definition days_in_month :: "int \<Rightarrow> int \<Rightarrow> int" where
  "days_in_month y m =
     (if m = 2 then (if leap y then 29 else 28)
      else if m \<in> {4, 6, 9, 11} then 30 else 31)"

definition valid_date :: "int \<Rightarrow> int \<Rightarrow> int \<Rightarrow> bool" where
  "valid_date y m d \<longleftrightarrow> 1 \<le> m \<and> m \<le> 12 \<and> 1 \<le> d \<and> d \<le> days_in_month y m"

definition next_date :: "int \<times> int \<times> int \<Rightarrow> int \<times> int \<times> int" where
  "next_date = (\<lambda>(y, m, d).
     if d < days_in_month y m then (y, m, d + 1)
     else if m < 12 then (y, m + 1, 1) else (y + 1, 1, 1))"

text \<open>
  A broken-down time is civil when its fields name a day of the calendar and a time of day
  (\<open>tm_year\<close> counts from 1900 and \<open>tm_mon\<close> from 0).
\<close>

definition civil_tm :: "tm \<Rightarrow> bool" where
  "civil_tm tm \<longleftrightarrow>
     valid_date (tm_year tm + 1900) (tm_mon tm + 1) (tm_mday tm) \<and>
     0 \<le> tm_hour tm \<and> tm_hour tm \<le> 23 \<and> 0 \<le> tm_min tm \<and> tm_min tm \<le> 59 \<and>
     0 \<le> tm_sec tm \<and> tm_sec tm \<le> 59"

section \<open>Day numbers\<close>

text \<open>
  The number of a day counted from 1970-01-01, in floor division and without eras; \<open>TimeZ\<close>
  computes it.
\<close>

definition march_year :: "int \<Rightarrow> int \<Rightarrow> int" where
  "march_year y m = (if m \<le> 2 then y - 1 else y)"

definition march_month :: "int \<Rightarrow> int" where
  "march_month m = (if m > 2 then m - 3 else m + 9)"

definition year_start :: "int \<Rightarrow> int" where
  "year_start y = 365 * y + y div 4 - y div 100 + y div 400"

definition month_start :: "int \<Rightarrow> int" where
  "month_start m = (153 * march_month m + 2) div 5"

lemma month_start_table [simp]:
  "month_start 1 = 306" "month_start 2 = 337" "month_start 3 = 0" "month_start 4 = 31"
  "month_start 5 = 61" "month_start 6 = 92" "month_start 7 = 122" "month_start 8 = 153"
  "month_start 9 = 184" "month_start 10 = 214" "month_start 11 = 245" "month_start 12 = 275"
  by (simp_all add: month_start_def march_month_def)

definition day_number :: "int \<Rightarrow> int \<Rightarrow> int \<Rightarrow> int" where
  "day_number y m d =
     year_start (march_year y m) + month_start m + d - 1 - 719468"

lemma year_start_era:
  "0 \<le> r \<Longrightarrow> r < 400 \<Longrightarrow>
   year_start (400 * e + r) = e * 146097 + (365 * r + r div 4 - r div 100)"
proof -
  assume "0 \<le> r" "r < 400"
  moreover have "(r + 4 * (100 * e)) div 4 = 100 * e + r div 4"
    "(r + 100 * (4 * e)) div 100 = 4 * e + r div 100" "(r + 400 * e) div 400 = e + r div 400"
    by (simp_all only: div_mult_self2 zero_neq_numeral [symmetric] not_False_eq_True)
  moreover have "r div 400 = 0"
    using \<open>0 \<le> r\<close> \<open>r < 400\<close> by simp
  ultimately show ?thesis by (simp add: year_start_def add.commute)
qed

lemma floor_by_bias:
  assumes b: "0 < b" and c: "c = b - 1"
  shows "(if a \<ge> 0 then a else a - c) sdiv b = a div (b::int)"
proof -
  show ?thesis
  proof (cases "a \<ge> 0")
    case True
    with b show ?thesis by (simp add: sdiv_nonneg)
  next
    case False
    define q r where "q = a div b" and "r = a mod b"
    have a: "a = b * q + r" and r: "0 \<le> r" "r < b"
      using b by (auto simp: q_def r_def)
    have "(- (a - c)) div b = ((b - 1 - r) + b * (- q)) div b"
      by (simp add: a c algebra_simps)
    also have "\<dots> = - q + (b - 1 - r) div b"
      using b by (simp only: div_mult_self2 less_imp_neq [symmetric] not_False_eq_True)
    also have "\<dots> = - q"
      using b r by simp
    finally show ?thesis
      using False b c by (simp add: sdiv_neg q_def)
  qed
qed

lemma floor_by_bias_400: "(if a \<ge> 0 then a else a - 399) sdiv 400 = a div (400::int)"
  by (rule floor_by_bias) simp_all

lemma floor_by_bias_era:
  "(if a \<ge> 0 then a else a - 146096) sdiv 146097 = a div (146097::int)"
  by (rule floor_by_bias) simp_all

lemma TimeZ_day_number:
  assumes "0 \<le> tm_mon tm" "tm_mon tm \<le> 11"
  shows "TimeZ tm =
    day_number (tm_year tm + 1900) (tm_mon tm + 1) (tm_mday tm) * kSecsPerDay
      + tm_hour tm * kSecsPerHour + tm_min tm * kSecsPerMinute + tm_sec tm"
proof -
  define m where "m = tm_mon tm + 1"
  define ey where "ey = march_year (tm_year tm + 1900) m"
  define e r where "e = ey div 400" and "r = ey mod 400"
  have ey: "ey = 400 * e + r" "0 \<le> r" "r < 400" "ey - e * 400 = r"
    by (auto simp: e_def r_def minus_div_mult_eq_mod)
  have mm: "0 \<le> 153 * march_month m + 2" "m + (if m > 2 then - 3 else 9) = march_month m"
    using assms by (auto simp: m_def march_month_def)
  have yd: "year_start ey = e * 146097 + (365 * r + r div 4 - r div 100)"
    by (subst ey(1), rule year_start_era) (use ey(2,3) in simp_all)
  have "TimeZ tm =
     (e * 146097 + (r * 365 + r sdiv 4 - r sdiv 100
        + ((153 * march_month m + 2) sdiv 5 + tm_mday tm - 1)) - 719468) * kSecsPerDay
      + tm_hour tm * kSecsPerHour + tm_min tm * kSecsPerMinute + tm_sec tm"
    unfolding TimeZ_def Let_def floor_by_bias_400 m_def [symmetric] mm(2)
      march_year_def [symmetric] ey_def [symmetric] e_def [symmetric] ey(4) ..
  also have "\<dots> = day_number (tm_year tm + 1900) m (tm_mday tm) * kSecsPerDay
      + tm_hour tm * kSecsPerHour + tm_min tm * kSecsPerMinute + tm_sec tm"
    using mm(1) ey(2)
    by (simp add: day_number_def month_start_def ey_def [symmetric] yd sdiv_nonneg)
  finally show ?thesis by (simp add: m_def)
qed

section \<open>The years of an era\<close>

text \<open>
  The code finds the year of an era from a day of the era by a correction of the day count; the
  correction never decreases, and at the first and last day of each of the 400 years it gives
  the year, so it does so for every day.
\<close>

definition era_year_start :: "int \<Rightarrow> int" where
  "era_year_start r = 365 * r + r div 4 - r div 100"

definition year_of_era_count :: "int \<Rightarrow> int" where
  "year_of_era_count doe = doe - doe div 1460 + doe div 36524 - doe div 146096"

lemma year_of_era_count_step:
  assumes "0 \<le> x" "x < 146096"
  shows "year_of_era_count x \<le> year_of_era_count (x + 1)"
proof -
  have "(x + 1) div 1460 \<le> x div 1460 + 1" "x div 36524 \<le> (x + 1) div 36524"
    by (auto intro: zdiv_mono1)
  moreover have "x div 146096 = 0" using assms by simp
  moreover have "(x + 1) div 146096 = 0 \<or>
      (x + 1) div 146096 = 1 \<and> (x + 1) div 36524 = 4 \<and> x div 36524 = 3 \<and>
      (x + 1) div 1460 = 100 \<and> x div 1460 = 100"
  proof (cases "x = 146095")
    case False
    with assms show ?thesis by simp
  qed simp
  ultimately show ?thesis unfolding year_of_era_count_def by linarith
qed

lemma year_of_era_count_mono:
  assumes "0 \<le> a" "a \<le> b" "b \<le> 146096"
  shows "year_of_era_count a \<le> year_of_era_count b"
proof -
  have "b \<le> 146096 \<longrightarrow> year_of_era_count a \<le> year_of_era_count b"
    using assms(2)
  proof (induction b rule: int_ge_induct)
    case (step i)
    then show ?case using year_of_era_count_step [of i] assms(1) by auto
  qed simp
  with assms(3) show ?thesis by simp
qed

definition era_last_day :: "int \<Rightarrow> int" where
  "era_last_day r = (if r = 399 then 146096 else era_year_start (r + 1) - 1)"

lemma era_years_checked:
  "list_all (\<lambda>r. year_of_era_count (era_year_start r) div 365 = r \<and>
                 year_of_era_count (era_last_day r) div 365 = r \<and>
                 0 \<le> era_year_start r \<and> era_last_day r \<le> 146096) (map int [0..<400])"
  by code_simp

lemma div_incr:
  assumes "0 < k"
  shows "(a + 1) div k = a div k + (if (a + 1) mod k = 0 then 1 else (0::int))"
proof (cases "a mod k + 1 < k")
  case True
  have "0 \<le> a mod k" using assms by simp
  with True have "1 < k" "(a mod k + 1) div k = 0" "0 < a mod k + 1" by simp_all
  then have "(a + 1) div k = a div k" "(a + 1) mod k = a mod k + 1"
    using True div_add1_eq [of a 1 k] mod_add_left_eq [of a k 1] by simp_all
  with \<open>0 < a mod k + 1\<close> show ?thesis by simp
next
  case False
  then have "a mod k + 1 = k" using assms pos_mod_bound [of k a] by linarith
  moreover have "a + 1 = k * (a div k) + (a mod k + 1)" by simp
  ultimately have e: "a + 1 = k * (a div k + 1)" by (simp only: distrib_left mult_1_right)
  have "k * (a div k + 1) div k = a div k + 1" "k * (a div k + 1) mod k = 0"
    using assms by simp_all
  then show ?thesis unfolding e by simp
qed

lemma era_year_start_step:
  "era_year_start (r + 1) =
     era_year_start r + (if (r + 1) mod 4 = 0 \<and> (r + 1) mod 100 \<noteq> 0 then 366 else 365)"
proof -
  have "(r + 1) mod 100 = 0 \<Longrightarrow> (r + 1) mod 4 = 0" by presburger
  then show ?thesis
    by (simp add: era_year_start_def div_incr [of 4] div_incr [of 100])
qed

lemma era_year_ex:
  assumes "0 \<le> doe" "doe \<le> 146096"
  shows "\<exists>r. 0 \<le> r \<and> r < 400 \<and> era_year_start r \<le> doe \<and> doe \<le> era_last_day r"
proof -
  let ?in = "\<lambda>r. era_year_start r \<le> doe \<and> doe < era_year_start (r + 1)"
  have "(\<exists>r. 0 \<le> r \<and> r < n \<and> ?in r) \<or> era_year_start n \<le> doe" if "0 \<le> n" for n
    using that
  proof (induction n rule: int_ge_induct)
    case base
    then show ?case using assms by (simp add: era_year_start_def)
  next
    case (step n)
    then consider r where "0 \<le> r" "r < n" "?in r" | "era_year_start n \<le> doe" by blast
    then show ?case
    proof cases
      case 1
      then have "r < n + 1" by simp
      with 1 show ?thesis by blast
    next
      case 2
      with step.hyps show ?thesis by (cases "doe < era_year_start (n + 1)") force+
    qed
  qed
  from this [of 399] consider r where "0 \<le> r" "r < 399" "?in r" | "era_year_start 399 \<le> doe"
    by auto
  then show ?thesis
  proof cases
    case 1
    then show ?thesis by (intro exI [of _ r]) (simp add: era_last_day_def)
  next
    case 2
    with assms show ?thesis by (intro exI [of _ 399]) (simp add: era_last_day_def)
  qed
qed

lemma year_of_era:
  assumes "0 \<le> doe" "doe \<le> 146096"
  defines "r \<equiv> year_of_era_count doe div 365"
  shows "0 \<le> r" "r < 400" "era_year_start r \<le> doe" "doe \<le> era_last_day r"
proof -
  obtain q where q: "0 \<le> q" "q < 400" "era_year_start q \<le> doe" "doe \<le> era_last_day q"
    using era_year_ex [OF assms(1,2)] by blast
  have "q \<in> set (map int [0..<400])"
    using q by (auto simp: image_iff intro!: bexI [of _ "nat q"])
  then have "year_of_era_count (era_year_start q) div 365 = q"
    "year_of_era_count (era_last_day q) div 365 = q"
    "0 \<le> era_year_start q" "era_last_day q \<le> 146096"
    using era_years_checked unfolding list_all_iff by blast+
  moreover have "year_of_era_count (era_year_start q) div 365 \<le> r"
    "r \<le> year_of_era_count (era_last_day q) div 365"
    unfolding r_def using q calculation(3,4) assms(1,2)
    by (auto intro!: zdiv_mono1 year_of_era_count_mono)
  ultimately have "r = q" by linarith
  with q show "0 \<le> r" "r < 400" "era_year_start r \<le> doe" "doe \<le> era_last_day r" by auto
qed

section \<open>From day numbers back to dates\<close>

text \<open>
  March-based months: day \<open>doy\<close> of a year that starts in March lies in month \<open>mp\<close> with day
  of the month \<open>d\<close>. The 366 days are checked one by one.
\<close>

definition month_of_doy :: "int \<Rightarrow> int" where
  "month_of_doy doy = (5 * doy + 2) div 153"

definition civil_month :: "int \<Rightarrow> int" where
  "civil_month mp = mp + (if mp < 10 then 3 else - 9)"

lemma doy_checked:
  "list_all (\<lambda>doy. let mp = month_of_doy doy; m = civil_month mp;
       d = doy - (153 * mp + 2) div 5 + 1
     in 0 \<le> mp \<and> mp \<le> 11 \<and> 1 \<le> m \<and> m \<le> 12 \<and> march_month m = mp \<and> 1 \<le> d \<and>
        d \<le> (if m = 2 then (if doy = 365 then 29 else 28) else days_in_month 0 m))
   (map int [0..<366])"
  by code_simp

lemma doy_month:
  assumes "0 \<le> doy" "doy \<le> 365"
  defines "mp \<equiv> month_of_doy doy" and "d \<equiv> doy - (153 * month_of_doy doy + 2) div 5 + 1"
  shows "0 \<le> mp" "mp \<le> 11" "1 \<le> civil_month mp" "civil_month mp \<le> 12"
    "march_month (civil_month mp) = mp" "1 \<le> d"
    "d \<le> (if civil_month mp = 2 then (if doy = 365 then 29 else 28)
           else days_in_month 0 (civil_month mp))"
proof -
  have "doy \<in> set (map int [0..<366])"
    using assms(1,2) by (auto simp: image_iff intro!: bexI [of _ "nat doy"])
  then show "0 \<le> mp" "mp \<le> 11" "1 \<le> civil_month mp" "civil_month mp \<le> 12"
    "march_month (civil_month mp) = mp" "1 \<le> d"
    "d \<le> (if civil_month mp = 2 then (if doy = 365 then 29 else 28)
           else days_in_month 0 (civil_month mp))"
    using doy_checked unfolding list_all_iff Let_def mp_def d_def by blast+
qed

lemma days_in_month_not_feb: "m \<noteq> 2 \<Longrightarrow> days_in_month y m = days_in_month y' m"
  by (simp add: days_in_month_def)

text \<open>The date of a day number, as \<open>ZTime\<close> computes it, in floor division.\<close>

definition date_of_number :: "int \<Rightarrow> int \<times> int \<times> int" where
  "date_of_number n =
     (let aday = n + 719468; era = aday div 146097; doe = aday - era * 146097;
          yoe = year_of_era_count doe div 365; doy = doe - era_year_start yoe;
          mp = month_of_doy doy; m = civil_month mp
      in (yoe + era * 400 + (if m \<le> 2 then 1 else 0), m, doy - (153 * mp + 2) div 5 + 1))"

lemma leap_era: "leap (400 * e + x) = leap x"
proof -
  have "(x + 4 * (100 * e)) mod 4 = x mod 4" "(x + 100 * (4 * e)) mod 100 = x mod 100"
    "(x + 400 * e) mod 400 = x mod 400"
    by (simp_all only: mod_mult_self2)
  then show ?thesis by (simp add: leap_def add.commute)
qed

lemma leap_end_of_era_year:
  assumes "0 \<le> r" "r < 400" "era_last_day r - era_year_start r \<ge> 365"
  shows "leap (400 * e + r + 1)"
proof (cases "r = 399")
  case True
  then show ?thesis using leap_era [of e 400] by (simp add: leap_def)
next
  case False
  then have "(r + 1) mod 4 = 0 \<and> (r + 1) mod 100 \<noteq> 0"
    using assms by (auto simp: era_last_day_def era_year_start_step split: if_splits)
  then have "leap (r + 1)" by (simp add: leap_def)
  then show ?thesis using leap_era [of e "r + 1"] by (simp add: add.assoc)
qed

lemma era_last_day_bound: "0 \<le> r \<Longrightarrow> era_last_day r \<le> era_year_start r + 365"
  by (cases "r = 399") (auto simp: era_last_day_def era_year_start_step era_year_start_def)

lemma date_of_number_valid:
  assumes "date_of_number n = (y, m, d)"
  shows "valid_date y m d" "day_number y m d = n"
proof -
  define aday era doe yoe doy mp where "aday = n + 719468" and "era = aday div 146097"
    and "doe = aday - era * 146097" and "yoe = year_of_era_count doe div 365"
    and "doy = doe - era_year_start yoe" and "mp = month_of_doy doy"
  have doe: "0 \<le> doe" "doe \<le> 146096"
    using pos_mod_sign [of 146097 aday] pos_mod_bound [of 146097 aday]
    by (auto simp: doe_def era_def minus_div_mult_eq_mod)
  note yoe = year_of_era [OF doe, folded yoe_def]
  have doy: "0 \<le> doy" "doy \<le> 365"
    using yoe era_last_day_bound [of yoe] by (auto simp: doy_def)
  note month = doy_month [OF doy, folded mp_def]
  have ymd: "y = yoe + era * 400 + (if m \<le> 2 then 1 else 0)" "m = civil_month mp"
    "d = doy - (153 * mp + 2) div 5 + 1"
    using assms by (auto simp: date_of_number_def Let_def aday_def [symmetric] era_def [symmetric]
        doe_def [symmetric] yoe_def [symmetric] doy_def [symmetric] mp_def [symmetric])
  have my: "march_year y m = 400 * era + yoe"
    by (simp add: march_year_def ymd(1))
  show "day_number y m d = n"
    unfolding day_number_def my year_start_era [OF yoe(1,2)] month_start_def
    unfolding ymd(2) month(5) ymd(3)
    by (simp add: doy_def doe_def aday_def era_year_start_def)
  have "leap y" if "m = 2" "doy = 365"
    using that yoe leap_end_of_era_year [of yoe era] by (simp add: ymd(1) doy_def algebra_simps)
  with month show "valid_date y m d"
    unfolding valid_date_def ymd(2,3) [symmetric]
    by (cases "m = 2") (auto simp: days_in_month_def split: if_splits)
qed

text \<open>
  The code's chain of truncating divisions computes that date and the time of day of the second
  within it; the narrowing of the year is the one step that can lose information.
\<close>

lemma ZTime_eq:
  assumes "date_of_number (s div kSecsPerDay) = (y, m, d)"
  defines "sec \<equiv> s mod kSecsPerDay"
  shows "ZTime s = \<lparr>tm_year = to_int32 (y - 1900), tm_mon = m - 1, tm_mday = d,
     tm_hour = sec div 3600, tm_min = sec mod 3600 div 60, tm_sec = sec mod 60\<rparr>"
proof -
  define aday era doe yoe doy mp where "aday = s div kSecsPerDay + 719468"
    and "era = aday div 146097"
    and "doe = aday - era * 146097" and "yoe = year_of_era_count doe div 365"
    and "doy = doe - era_year_start yoe" and "mp = month_of_doy doy"
  have doe: "0 \<le> doe" "doe \<le> 146096"
    using pos_mod_sign [of 146097 aday] pos_mod_bound [of 146097 aday]
    by (auto simp: doe_def era_def minus_div_mult_eq_mod)
  note yoe = year_of_era [OF doe, folded yoe_def]
  have doy: "0 \<le> doy" "doy \<le> 365"
    using yoe era_last_day_bound [of yoe] by (auto simp: doy_def)
  note month = doy_month [OF doy, folded mp_def]
  have ymd: "y = yoe + era * 400 + (if m \<le> 2 then 1 else 0)" "m = civil_month mp"
    "d = doy - (153 * mp + 2) div 5 + 1"
    using assms(1) by (auto simp: date_of_number_def Let_def aday_def [symmetric]
        era_def [symmetric] doe_def [symmetric] yoe_def [symmetric] doy_def [symmetric]
        mp_def [symmetric])
  have sec: "0 \<le> sec" "sec < 86400" by (auto simp: sec_def)
  have count: "0 \<le> doe - doe div 1460 + doe div 36524 - doe div 146096"
    using year_of_era_count_mono [of 0 doe] doe by (simp add: year_of_era_count_def)
  have hms: "sec sdiv 3600 = sec div 3600" "sec - sec div 3600 * 3600 = sec mod 3600"
    "sec mod 3600 sdiv 60 = sec mod 3600 div 60"
    "sec mod 3600 - sec mod 3600 div 60 * 60 = sec mod 60"
  proof -
    show "sec sdiv 3600 = sec div 3600" "sec mod 3600 sdiv 60 = sec mod 3600 div 60"
      using sec by (simp_all add: sdiv_nonneg)
    show "sec - sec div 3600 * 3600 = sec mod 3600" by (rule minus_div_mult_eq_mod)
    have "sec mod 3600 mod 60 = sec mod 60" by (rule mod_mod_cancel) simp
    then show "sec mod 3600 - sec mod 3600 div 60 * 60 = sec mod 60"
      by (simp only: minus_div_mult_eq_mod)
  qed
  have divs: "doe sdiv 1460 = doe div 1460" "doe sdiv 36524 = doe div 36524"
    "doe sdiv 146096 = doe div 146096" "yoe sdiv 4 = yoe div 4" "yoe sdiv 100 = yoe div 100"
    using doe(1) yoe(1) by (simp_all add: sdiv_nonneg)
  have yoe_div: "(doe - doe div 1460 + doe div 36524 - doe div 146096) sdiv 365 = yoe"
    unfolding yoe_def year_of_era_count_def by (rule sdiv_nonneg [OF count]) simp
  have mp_div: "(5 * doy + 2) sdiv 153 = mp" "(153 * mp + 2) sdiv 5 = (153 * mp + 2) div 5"
    unfolding mp_def month_of_doy_def using doy(1) month(1) [unfolded mp_def month_of_doy_def]
    by (simp_all add: sdiv_nonneg)
  have doy_fold: "doe - (365 * yoe + yoe div 4 - yoe div 100) = doy"
    by (simp add: doy_def era_year_start_def)
  have d: "1 \<le> d" "d \<le> 31"
    using month(6,7) unfolding ymd(3) mp_def [symmetric]
    by (auto simp: days_in_month_def split: if_splits)
  have sec_parts: "0 \<le> sec div 3600" "sec div 3600 \<le> 23" "0 \<le> sec mod 3600 div 60"
    "sec mod 3600 div 60 \<le> 59" "0 \<le> sec mod 60" "sec mod 60 \<le> 59"
  proof -
    have "sec mod 3600 < 3600" "sec mod 60 < 60" by simp_all
    then show "sec mod 3600 div 60 \<le> 59" "sec mod 60 \<le> 59"
      using zdiv_mono1 [of "sec mod 3600" 3599 60] by simp_all
    show "sec div 3600 \<le> 23" "0 \<le> sec div 3600"
      using sec zdiv_mono1 [of sec 86399 3600] by (simp_all add: pos_imp_zdiv_nonneg_iff)
    show "0 \<le> sec mod 3600 div 60" "0 \<le> sec mod 60" by (simp_all add: pos_imp_zdiv_nonneg_iff)
  qed
  have small: "in_int32 (m - 1)" "in_int32 d" "in_int32 (sec div 3600)"
    "in_int32 (sec mod 3600 div 60)" "in_int32 (sec mod 60)"
    using month(3,4) d sec_parts unfolding ymd(2) in_int32_def by linarith+
  have m: "mp + (if mp < 10 then 3 else - 9) = m"
    by (simp add: ymd(2) civil_month_def)
  have yr: "yoe + era * 400 - (1900 - (if m \<le> 2 then 1 else 0)) = y - 1900"
    by (simp add: ymd(1))
  show ?thesis
    unfolding ZTime_def Let_def floor_by_trunc(1) [of kSecsPerDay s, simplified, symmetric]
      floor_by_trunc(2) [of kSecsPerDay s, simplified, symmetric]
      sec_def [symmetric] hms aday_def [symmetric] floor_by_bias_era era_def [symmetric]
      doe_def [symmetric] divs yoe_div doy_fold mp_div m ymd(3) [symmetric] yr
    using small by simp
qed

section \<open>The two directions against the calendar\<close>

definition civil_year :: "int \<Rightarrow> int" where
  "civil_year s = fst (date_of_number (s div kSecsPerDay))"

lemma year_start_step:
  "year_start (y + 1) = year_start y + (if leap (y + 1) then 366 else 365)"
proof -
  define A B C where "A \<longleftrightarrow> (y + 1) mod 4 = 0" and "B \<longleftrightarrow> (y + 1) mod 100 = 0"
    and "C \<longleftrightarrow> (y + 1) mod 400 = 0"
  have "C \<Longrightarrow> B" "B \<Longrightarrow> A" unfolding A_def B_def C_def by presburger+
  moreover have "leap (y + 1) = (A \<and> (\<not> B \<or> C))"
    unfolding leap_def A_def B_def C_def by (rule refl)
  ultimately have leap: "365 + (if A then 1 else 0) - (if B then 1 else 0) + (if C then 1 else 0) =
      (if leap (y + 1) then 366 else (365::int))"
    by (cases A; cases B; cases C) auto
  have divs: "(y + 1) div 4 = y div 4 + (if A then 1 else 0)"
    "(y + 1) div 100 = y div 100 + (if B then 1 else 0)"
    "(y + 1) div 400 = y div 400 + (if C then 1 else 0)"
    unfolding A_def B_def C_def by (rule div_incr, simp)+
  have shift: "365 * (y + 1) + (p + a) - (q + b) + (r + c) = 365 * y + p - q + r + (365 + a - b + c)"
    for p q r a b c :: int
    by simp
  show ?thesis
    unfolding year_start_def divs shift leap ..
qed

lemma year_start_strict: "a < b \<Longrightarrow> year_start a + 365 \<le> year_start b"
proof -
  assume "a < b"
  then have "a + 1 \<le> b" by simp
  then show ?thesis
  proof (induction b rule: int_ge_induct)
    case base
    then show ?case using year_start_step [of a] by simp
  next
    case (step b)
    then show ?case using year_start_step [of b] by (simp split: if_splits)
  qed
qed

lemma month_cases: "1 \<le> m \<Longrightarrow> m \<le> 12 \<Longrightarrow> m \<in> {1,2,3,4,5,6,7,8,9,10,11,12::int}"
  unfolding insert_iff empty_iff by presburger

lemma days_in_month_ge: "28 \<le> days_in_month y m"
  by (simp add: days_in_month_def)

text \<open>Consecutive days have consecutive numbers.\<close>

lemma day_number_next:
  assumes "valid_date y m d" "next_date (y, m, d) = (y', m', d')"
  shows "day_number y' m' d' = day_number y m d + 1" "valid_date y' m' d'"
proof -
  have m: "m \<in> {1,2,3,4,5,6,7,8,9,10,11,12}" and d: "1 \<le> d" "d \<le> days_in_month y m"
    using assms(1) month_cases by (auto simp: valid_date_def)
  have march: "year_start y = year_start (y - 1) + (if leap y then 366 else 365)"
    using year_start_step [of "y - 1"] by simp
  show "day_number y' m' d' = day_number y m d + 1"
  proof (cases "d < days_in_month y m")
    case True
    with assms(2) show ?thesis by (auto simp: next_date_def day_number_def)
  next
    case False
    with d have "d = days_in_month y m" by simp
    with assms(2) have n: "(y', m', d') = (if m < 12 then (y, m + 1, 1) else (y + 1, 1, 1))"
      by (auto simp: next_date_def)
    from m n \<open>d = _\<close> march show ?thesis
      by (elim insertE emptyE)
        (simp_all add: day_number_def march_year_def days_in_month_def)
  qed
  show "valid_date y' m' d'"
    using assms days_in_month_ge [of y' m'] by (auto simp: next_date_def valid_date_def split: if_splits)
qed

text \<open>A date is determined by its number.\<close>

definition doy_of :: "int \<Rightarrow> int \<Rightarrow> int" where
  "doy_of m d = month_start m + d - 1"

lemma doy_of_inverse:
  assumes "valid_date y m d"
  shows "month_of_doy (doy_of m d) = march_month m" "0 \<le> doy_of m d"
    "year_start (march_year y m) + doy_of m d < year_start (march_year y m + 1)"
proof -
  have m: "m \<in> {1,2,3,4,5,6,7,8,9,10,11,12}" and d: "1 \<le> d" "d \<le> days_in_month y m"
    using assms month_cases by (auto simp: valid_date_def)
  have "month_of_doy x = march_month m"
    if "month_start m \<le> x" "x < month_start m + days_in_month y m" for x
    using m that by (elim insertE emptyE)
      (simp_all add: month_of_doy_def march_month_def days_in_month_def split: if_splits)
  then show "month_of_doy (doy_of m d) = march_month m"
    using d by (simp add: doy_of_def)
  show "0 \<le> doy_of m d"
    using m d(1) by (elim insertE emptyE) (simp_all add: doy_of_def)
  show "year_start (march_year y m) + doy_of m d < year_start (march_year y m + 1)"
    using m d year_start_step [of "march_year y m"]
    by (elim insertE emptyE)
      (simp_all add: doy_of_def march_year_def days_in_month_def split: if_splits)
qed

lemma day_number_inject:
  assumes v: "valid_date y m d" and v': "valid_date y' m' d'"
    and eq: "day_number y m d = day_number y' m' d'"
  shows "(y, m, d) = (y', m', d')"
proof -
  let ?a = "march_year y m" and ?a' = "march_year y' m'"
  note i = doy_of_inverse [OF v] and i' = doy_of_inverse [OF v']
  have sum: "year_start ?a + doy_of m d = year_start ?a' + doy_of m' d'"
    using eq by (simp add: day_number_def doy_of_def)
  have "\<not> ?a < ?a'"
    using sum i i' year_start_strict [of "?a + 1" ?a'] by (cases "?a + 1 = ?a'") auto
  moreover have "\<not> ?a' < ?a"
    using sum i i' year_start_strict [of "?a' + 1" ?a] by (cases "?a' + 1 = ?a") auto
  ultimately have a: "?a = ?a'" by simp
  with sum have doy: "doy_of m d = doy_of m' d'" by simp
  then have mm: "march_month m = march_month m'" using i(1) i'(1) by simp
  then have "m = m'"
    using v v' by (auto simp: valid_date_def march_month_def split: if_splits)
  with a doy show ?thesis by (simp add: march_year_def doy_of_def split: if_splits)
qed

lemma date_of_number_day_number:
  assumes "valid_date y m d"
  shows "date_of_number (day_number y m d) = (y, m, d)"
proof -
  obtain y' m' d' where e: "date_of_number (day_number y m d) = (y', m', d')"
    by (metis prod_cases3)
  with day_number_inject [OF date_of_number_valid(1) [OF e] assms date_of_number_valid(2) [OF e]]
  show ?thesis by simp
qed

lemma time_of_day:
  "s mod kSecsPerDay div 3600 * 3600 + s mod kSecsPerDay mod 3600 div 60 * 60
     + s mod kSecsPerDay mod 60 = s mod (kSecsPerDay::int)"
  for s :: int
proof -
  let ?r = "s mod kSecsPerDay"
  have "?r mod 60 = ?r mod 3600 mod 60" by (rule mod_mod_cancel [symmetric]) simp
  then show ?thesis by (simp only: add.assoc div_mult_mod_eq)
qed

lemma date_of_number_civil_year:
  "\<exists>m d. date_of_number (s div kSecsPerDay) = (civil_year s, m, d)"
  by (metis civil_year_def fst_conv prod_cases3)

lemma TimeZ_ZTime_aux:
  assumes "in_int32 (civil_year s - 1900)"
  shows "TimeZ (ZTime s) = s" "civil_tm (ZTime s)"
proof -
  obtain m d where e: "date_of_number (s div kSecsPerDay) = (civil_year s, m, d)"
    using date_of_number_civil_year by blast
  note v = date_of_number_valid [OF e]
  let ?r = "s mod kSecsPerDay"
  have z: "ZTime s = \<lparr>tm_year = civil_year s - 1900, tm_mon = m - 1, tm_mday = d,
      tm_hour = ?r div 3600, tm_min = ?r mod 3600 div 60, tm_sec = ?r mod 60\<rparr>"
    using ZTime_eq [OF e] assms by simp
  have m: "1 \<le> m" "m \<le> 12" using v(1) by (auto simp: valid_date_def)
  have "TimeZ (ZTime s) = s div kSecsPerDay * kSecsPerDay
     + (?r div 3600 * 3600 + ?r mod 3600 div 60 * 60 + ?r mod 60)"
    using m v(2) by (subst TimeZ_day_number) (simp_all add: z)
  then show "TimeZ (ZTime s) = s" by (simp only: time_of_day div_mult_mod_eq)
  have "?r div 3600 \<le> 86399 div 3600" "?r mod 3600 div 60 \<le> 3599 div 60"
    by (auto intro!: zdiv_mono1)
  then show "civil_tm (ZTime s)"
    using v(1) by (simp add: z civil_tm_def pos_imp_zdiv_nonneg_iff)
qed

section \<open>Properties\<close>

lemma year_start_mono: "a \<le> b \<Longrightarrow> year_start a \<le> year_start b"
  using year_start_strict [of a b] by (cases "a = b") auto

lemma civil_year_bounds:
  assumes "- 67000000000000000 \<le> s" "s \<le> 67000000000000000"
  shows "in_int32 (civil_year s - 1900)"
proof -
  define n where "n = s div kSecsPerDay"
  obtain m d where e: "date_of_number n = (civil_year s, m, d)"
    using date_of_number_civil_year unfolding n_def by blast
  note v = date_of_number_valid [OF e]
  let ?y = "march_year (civil_year s) m"
  have c: "(- 67000000000000000) div kSecsPerDay = (- 775462962963 :: int)"
    "67000000000000000 div kSecsPerDay = (775462962962 :: int)"
    "year_start 2147483646 = 784352295574" "year_start (- 2147481000) = - 784351329143"
    by (simp_all add: year_start_def)
  have n: "- 775462962963 \<le> n" "n \<le> 775462962962"
    using zdiv_mono1 [of "- 67000000000000000" s kSecsPerDay]
      zdiv_mono1 [of s 67000000000000000 kSecsPerDay] assms unfolding n_def c by simp_all
  have doy: "0 \<le> doy_of m d" "year_start ?y + doy_of m d = n + 719468"
    "year_start ?y + doy_of m d < year_start (?y + 1)"
    using doy_of_inverse [OF v(1)] v(2) by (auto simp: day_number_def doy_of_def)
  have "\<not> 2147483646 \<le> ?y"
  proof
    assume "2147483646 \<le> ?y"
    then have "year_start 2147483646 \<le> year_start ?y"
      by (rule year_start_mono)
    with c doy n show False by linarith
  qed
  moreover have "\<not> ?y + 1 \<le> - 2147481000"
  proof
    assume "?y + 1 \<le> - 2147481000"
    then have "year_start (?y + 1) \<le> year_start (- 2147481000)"
      by (rule year_start_mono)
    with c doy n show False by linarith
  qed
  ultimately show ?thesis
    by (auto simp: in_int32_def march_year_def split: if_splits)
qed

text \<open>
  C21: Every instant whose civil year fits the 32-bit \<open>tm_year\<close> survives the trip through the
  broken-down time: \<open>ZTime\<close> yields a date of the Gregorian calendar with a valid time of day,
  and \<open>TimeZ\<close> of it is the instant again.
\<close>

theorem ztime_timez:
  assumes "in_int32 (civil_year s - 1900)"
  shows "TimeZ (ZTime s) = s \<and> civil_tm (ZTime s)"
  using TimeZ_ZTime_aux [OF assms] by simp

theorem ztime_timez_witness:
  "civil_tm (ZTime (- 1)) \<and> TimeZ (ZTime (- 1)) = - 1 \<and> tm_year (ZTime (- 1)) = 69"
proof -
  have "in_int32 (civil_year (- 1) - 1900)" by (rule civil_year_bounds) simp_all
  moreover have "tm_year (ZTime (- 1)) = 69" by code_simp
  ultimately show ?thesis using ztime_timez [of "- 1"] by blast
qed

lemma divmod_unique_eq:
  assumes "x = r + k * q" "0 \<le> r" "r < (k::int)"
  shows "x div k = q" "x mod k = r"
proof -
  have "k \<noteq> 0" using assms by simp
  then have "x div k = q + r div k" "x mod k = r mod k"
    by (simp_all only: assms(1) div_mult_self2 mod_mult_self2 not_False_eq_True)
  then show "x div k = q" "x mod k = r" using assms(2,3) by simp_all
qed

text \<open>
  \<open>TimeZ\<close> is the inverse on the other side too: a broken-down time that names a day of the
  calendar and a time of day is what \<open>ZTime\<close> gives for its instant.
\<close>

theorem timez_ztime:
  assumes "civil_tm tm" "in_int32 (tm_year tm)"
  shows "ZTime (TimeZ tm) = tm"
proof -
  let ?n = "day_number (tm_year tm + 1900) (tm_mon tm + 1) (tm_mday tm)"
  let ?t = "tm_hour tm * 3600 + tm_min tm * 60 + tm_sec tm"
  have v: "valid_date (tm_year tm + 1900) (tm_mon tm + 1) (tm_mday tm)"
    and t: "0 \<le> tm_hour tm" "tm_hour tm \<le> 23" "0 \<le> tm_min tm" "tm_min tm \<le> 59"
      "0 \<le> tm_sec tm" "tm_sec tm \<le> 59"
    using assms(1) by (auto simp: civil_tm_def)
  have Z: "TimeZ tm = ?t + kSecsPerDay * ?n"
    using v by (subst TimeZ_day_number) (auto simp: valid_date_def)
  have "?t = (tm_min tm * 60 + tm_sec tm) + 3600 * tm_hour tm"
    "0 \<le> tm_min tm * 60 + tm_sec tm" "tm_min tm * 60 + tm_sec tm < 3600"
    using t by simp_all
  note h = divmod_unique_eq [OF this]
  have "tm_min tm * 60 + tm_sec tm = tm_sec tm + 60 * tm_min tm" by simp
  note mi = divmod_unique_eq [OF this]
  have "?t = tm_sec tm + 60 * (60 * tm_hour tm + tm_min tm)" by simp
  note se = divmod_unique_eq [OF this]
  have "0 \<le> ?t" "?t < kSecsPerDay" using t by simp_all
  note day = divmod_unique_eq [OF Z this]
  note z = ZTime_eq [of "TimeZ tm", unfolded day(1), OF date_of_number_day_number [OF v]]
  have "ZTime (TimeZ tm) = \<lparr>tm_year = tm_year tm, tm_mon = tm_mon tm, tm_mday = tm_mday tm,
      tm_hour = tm_hour tm, tm_min = tm_min tm, tm_sec = tm_sec tm\<rparr>"
    unfolding z day(2) h mi(1) se(2) using t assms(2)
    by (simp add: mi se)
  then show ?thesis by simp
qed

theorem timez_ztime_witness:
  "ZTime (TimeZ \<lparr>tm_year = 120, tm_mon = 1, tm_mday = 29, tm_hour = 23, tm_min = 59, tm_sec = 59\<rparr>)
     = \<lparr>tm_year = 120, tm_mon = 1, tm_mday = 29, tm_hour = 23, tm_min = 59, tm_sec = 59\<rparr>"
  by (rule timez_ztime)
    (simp_all add: civil_tm_def valid_date_def days_in_month_def leap_def in_int32_def)

text \<open>
  \<open>TimeZ\<close> counts the days of the proleptic Gregorian calendar: 1970-01-01 at midnight is 0,
  and moving a broken-down time to the next day of the calendar, whatever month, year, century or
  leap day is crossed, adds exactly one day of seconds.
\<close>

theorem timez_calendar:
  assumes "valid_date y m d" "next_date (y, m, d) = (y', m', d')"
  shows "TimeZ \<lparr>tm_year = 70, tm_mon = 0, tm_mday = 1, tm_hour = 0, tm_min = 0, tm_sec = 0\<rparr> = 0
    \<and> TimeZ \<lparr>tm_year = y' - 1900, tm_mon = m' - 1, tm_mday = d',
             tm_hour = h, tm_min = mi, tm_sec = sec\<rparr>
    = TimeZ \<lparr>tm_year = y - 1900, tm_mon = m - 1, tm_mday = d,
             tm_hour = h, tm_min = mi, tm_sec = sec\<rparr> + kSecsPerDay"
proof -
  have "1 \<le> m" "m \<le> 12" "1 \<le> m'" "m' \<le> 12"
    using assms(1) day_number_next(2) [OF assms] by (auto simp: valid_date_def)
  with day_number_next(1) [OF assms] show ?thesis
    by (simp add: TimeZ_day_number) (simp add: day_number_def march_year_def year_start_def)
qed

theorem timez_calendar_witness:
  "TimeZ \<lparr>tm_year = 0, tm_mon = 2, tm_mday = 1, tm_hour = 5, tm_min = 0, tm_sec = 7\<rparr>
   = TimeZ \<lparr>tm_year = 0, tm_mon = 1, tm_mday = 28, tm_hour = 5, tm_min = 0, tm_sec = 7\<rparr> + 86400"
  using timez_calendar [of 1900 2 28 1900 3 1 5 0 7]
  by (simp add: valid_date_def days_in_month_def leap_def next_date_def)

end
