(* ===== verification/Decimal_Text.thy ===== *)
theory Decimal_Text
  imports Spanner_Prelude
begin

text \<open>
  Decimal text as the code reads and writes it: the digits of \<open>kDigits\<close>, the value of a
  digit string, \<open>std::to_string\<close>, and two-digit fields. The collection \<open>decimal\<close>
  holds the rules about digit strings.
\<close>

named_theorems decimal

definition kDigits :: string where
  "kDigits = ''0123456789''"

text \<open>
  \<open>strchr(kDigits, c) - kDigits\<close>, when it names a digit: the NUL character finds the
  terminator of \<open>kDigits\<close>, which the callers treat as a non-digit.
\<close>

definition digit_of :: "char \<Rightarrow> int option" where
  "digit_of c =
     (let n = of_char c :: int in if 48 \<le> n \<and> n \<le> 57 then Some (n - 48) else None)"

definition digit_char :: "nat \<Rightarrow> char" where
  "digit_char d = kDigits ! d"

lemma digit_of_kDigits: "list_all (\<lambda>d. digit_of (digit_char d) = Some (int d)) [0..<10]"
  by code_simp

lemma digit_of_digit_char [decimal]: "d < 10 \<Longrightarrow> digit_of (digit_char d) = Some (int d)"
  using digit_of_kDigits by (simp add: list_all_iff)

lemma digit_of_range: "digit_of c = Some d \<Longrightarrow> 0 \<le> d \<and> d \<le> 9"
  by (auto simp: digit_of_def Let_def split: if_splits)

lemma digit_of_nondigits [simp, decimal]:
  "digit_of CHR ''-'' = None" "digit_of CHR ''+'' = None" "digit_of CHR '':'' = None"
  "digit_of CHR ''T'' = None" "digit_of CHR ''t'' = None" "digit_of CHR ''.'' = None"
  "digit_of CHR ''Z'' = None" "digit_of CHR ''z'' = None"
  by code_simp+

text \<open>Decimal digits of a natural number, most significant first (\<open>std::to_string\<close>).\<close>

fun dec :: "nat \<Rightarrow> string" where
  "dec n = (if n < 10 then [digit_char n] else dec (n div 10) @ [digit_char (n mod 10)])"

declare dec.simps [simp del]

definition to_string :: "int \<Rightarrow> string" where
  "to_string i = (if i < 0 then CHR ''-'' # dec (nat (- i)) else dec (nat i))"

lemma dec_nonempty [simp, decimal]: "dec n \<noteq> []"
  by (subst dec.simps) simp

lemma set_dec: "set (dec n) \<subseteq> digit_char ` {..<10}"
proof (induction n rule: dec.induct)
  case (1 n)
  have "digit_char (n mod 10) \<in> digit_char ` {..<10}" by simp
  with 1 show ?case by (subst dec.simps) auto
qed

text \<open>
  The value of a digit string, and the functions that read one: \<open>all_digits ds\<close> says that
  every character is a digit, \<open>no_digit s\<close> that the text \<open>s\<close> does not go on with one.
\<close>

definition digit_val :: "char \<Rightarrow> int" where
  "digit_val c = (case digit_of c of None \<Rightarrow> 0 | Some d \<Rightarrow> d)"

definition digits_val :: "string \<Rightarrow> int" where
  "digits_val ds = foldl (\<lambda>v c. v * 10 + digit_val c) 0 ds"

definition all_digits :: "string \<Rightarrow> bool" where
  "all_digits ds \<longleftrightarrow> list_all (\<lambda>c. digit_of c \<noteq> None) ds"

fun no_digit :: "string \<Rightarrow> bool" where
  "no_digit [] = True"
| "no_digit (c # _) = (digit_of c = None)"

lemma digit_val_range: "0 \<le> digit_val c" "digit_val c \<le> 9"
  by (auto simp: digit_val_def dest: digit_of_range split: option.splits)

lemma digit_val_digit_char [simp]: "d < 10 \<Longrightarrow> digit_val (digit_char d) = int d"
  by (simp add: digit_val_def digit_of_digit_char)

lemma all_digits_simps [simp]:
  "all_digits []" "all_digits (c # ds) \<longleftrightarrow> digit_of c \<noteq> None \<and> all_digits ds"
  "all_digits (ds @ es) \<longleftrightarrow> all_digits ds \<and> all_digits es"
  by (simp_all add: all_digits_def)

lemma digit_of_digit_char_not_None [simp]:
  "d < 10 \<Longrightarrow> \<exists>y. digit_of (digit_char d) = Some y"
  by (simp add: digit_of_digit_char)

lemma digits_val_foldl:
  "foldl (\<lambda>v c. v * 10 + digit_val c) a ds = a * 10 ^ length ds + digits_val ds"
proof (induction ds arbitrary: a)
  case (Cons c ds)
  show ?case
    using Cons [of "a * 10 + digit_val c"] Cons [of "digit_val c"]
    by (simp add: digits_val_def algebra_simps)
qed (simp add: digits_val_def)

lemma digits_val_Nil [simp]: "digits_val [] = 0"
  by (simp add: digits_val_def)

lemma digits_val_Cons: "digits_val (c # ds) = digit_val c * 10 ^ length ds + digits_val ds"
  using digits_val_foldl [of "digit_val c" ds] by (simp add: digits_val_def)

lemma digits_val_append: "digits_val (ds @ es) = digits_val ds * 10 ^ length es + digits_val es"
  using digits_val_foldl [of "digits_val ds" es] by (simp add: digits_val_def)

lemma digits_val_bounds: "0 \<le> digits_val ds" "digits_val ds < 10 ^ length ds"
proof (induction ds)
  case (Cons c ds)
  {
    case 1
    show ?case using Cons(1) digit_val_range(1) [of c] by (simp add: digits_val_Cons)
  next
    case 2
    have "digit_val c * 10 ^ length ds \<le> 9 * 10 ^ length ds"
      using digit_val_range(2) [of c] by (intro mult_right_mono) auto
    with Cons(2) show ?case
      unfolding digits_val_Cons by (simp only: list.size power_Suc add_0_right One_nat_def add_Suc_right)
  }
qed simp_all

lemma all_digits_dec [simp]: "all_digits (dec n)"
proof (induction n rule: dec.induct)
  case (1 n)
  then show ?case by (subst dec.simps) (auto simp: digit_of_digit_char)
qed

lemma digits_val_dec [simp]: "digits_val (dec n) = int n"
proof (induction n rule: dec.induct)
  case (1 n)
  show ?case
  proof (cases "n < 10")
    case True
    then show ?thesis by (subst dec.simps) (simp add: digits_val_Cons)
  next
    case False
    have "int (n div 10) * 10 + int (n mod 10) = int (n div 10 * 10 + n mod 10)"
      by (simp only: of_nat_add of_nat_mult of_nat_numeral)
    also have "\<dots> = int n" by (simp only: div_mult_mod_eq)
    finally show ?thesis
      using False 1 [OF False]
      by (subst dec.simps) (simp add: digits_val_append digits_val_Cons)
  qed
qed

text \<open>Two digits, as \<open>%02d\<close> writes a number below 100.\<close>

definition pad02 :: "int \<Rightarrow> string" where
  "pad02 v = [digit_char (nat (v div 10)), digit_char (nat (v mod 10))]"

lemma pad02_digits:
  assumes "0 \<le> v" "v \<le> 99"
  shows "all_digits (pad02 v)" "digits_val (pad02 v) = v"
proof -
  have "0 \<le> v div 10" "v div 10 \<le> 99 div 10" "0 \<le> v mod 10" "v mod 10 < 10"
    using assms by (auto intro: zdiv_mono1)
  then have *: "nat (v div 10) < 10" "nat (v mod 10) < 10"
    "int (nat (v div 10)) = v div 10" "int (nat (v mod 10)) = v mod 10" by linarith+
  have "digits_val (pad02 v) = v div 10 * 10 + v mod 10"
    unfolding pad02_def by (simp only: digits_val_Cons digits_val_Nil digit_val_digit_char * list.size
        power_0 power_one_right One_nat_def[symmetric] add_0 add_0_right mult_1_right)
  then show "digits_val (pad02 v) = v" by (simp only: div_mult_mod_eq)
  show "all_digits (pad02 v)" using * by (simp add: pad02_def)
qed

lemma length_pad02 [simp]: "length (pad02 v) = 2"
  by (simp add: pad02_def)

lemma pad02_not_Nil [simp]: "pad02 v \<noteq> []"
  by (simp add: pad02_def)

lemma no_digit_simps [simp]: "all_digits ds \<Longrightarrow> ds \<noteq> [] \<Longrightarrow> \<not> no_digit (ds @ s)"
  by (cases ds) auto

lemma length_dec_le: "0 < k \<Longrightarrow> n < 10 ^ k \<Longrightarrow> length (dec n) \<le> k"
proof (induction k arbitrary: n)
  case (Suc k)
  show ?case
  proof (cases "n < 10")
    case True
    then show ?thesis by (subst dec.simps) simp
  next
    case False
    then have "0 < k" using Suc.prems(2) by (cases k) simp_all
    moreover have "n div 10 < 10 ^ k"
      using Suc.prems(2) by (simp add: less_mult_imp_div_less mult.commute)
    ultimately have "length (dec (n div 10)) \<le> k" by (rule Suc.IH)
    with False show ?thesis by (subst dec.simps) simp
  qed
qed simp

lemma all_digits_replicate [simp]: "all_digits (replicate n CHR ''0'')"
  by (induction n) (simp_all add: digit_of_def)

lemma digits_val_zeros [simp]: "digits_val (replicate n CHR ''0'' @ s) = digits_val s"
  by (induction n) (simp_all add: digits_val_Cons digit_val_def digit_of_def)

end
