(* ===== verification/Time_Format.thy ===== *)
theory Time_Format
  imports Civil_Time Decimal_Text
begin

text \<open>
  The fixed-format date-time text of \<open>internal/time_format.cc\<close>: \<open>FormatTime\<close> writes
  \<open>YYYY-MM-DDTHH:MM:SS\<close> from the end of its buffer backwards, \<open>ParseTime\<close> reads it with
  the overflow-checked \<open>ParseInt\<close>. A position in a C string is modelled by the text that is
  left; the empty list stands at the terminating NUL. Reading \<open>kDigits\<close> at a negative index
  (\<open>Format02d\<close> of a negative field) is undefined and yields \<open>None\<close>. So does, in what reads text,
  an arithmetic step that leaves the width of its type; a failure to match is \<open>Some None\<close>.
\<close>

section \<open>The code\<close>

definition kYearMin :: int where "kYearMin = int32_min + 1900"
definition kYearMax :: int where "kYearMax = int32_max + 1900"

definition at_kDigits :: "int \<Rightarrow> char option" where
  "at_kDigits i = (if 0 \<le> i \<and> i < 10 then Some (digit_char (nat i)) else None)"

definition Format02d :: "string \<Rightarrow> int \<Rightarrow> string option" where
  "Format02d ep v = do {
     lo \<leftarrow> at_kDigits (v smod 10);
     hi \<leftarrow> at_kDigits ((v sdiv 10) smod 10);
     Some (hi # lo # ep)
   }"

text \<open>What comes next in a parser, when it is defined and has matched so far.\<close>

definition parse_then :: "'a option option \<Rightarrow> ('a \<Rightarrow> 'b option option) \<Rightarrow> 'b option option" where
  "parse_then m f = do { r \<leftarrow> m; case r of None \<Rightarrow> Some None | Some x \<Rightarrow> f x }"

text \<open>A signed value of the type whose least value is \<open>kMin\<close>.\<close>

definition chk_width :: "int \<Rightarrow> int \<Rightarrow> int option" where
  "chk_width kMin x = (if kMin \<le> x \<and> x \<le> - kMin - 1 then Some x else None)"

text \<open>The digit loop of \<open>ParseInt\<close>; it accumulates negatively, so that \<open>kMin\<close> is reachable.\<close>

fun ParseInt_loop :: "int \<Rightarrow> string \<Rightarrow> int \<Rightarrow> (string \<times> int) option option" where
  "ParseInt_loop kMin [] value = Some (Some ([], value))"
| "ParseInt_loop kMin (c # dp) value =
     (case digit_of c of
        None \<Rightarrow> Some (Some (c # dp, value))
      | Some d \<Rightarrow>
          if value < kMin sdiv 10 then Some None
          else do {
            value \<leftarrow> chk_width kMin (value * 10);
            lim \<leftarrow> chk_width kMin (kMin + d);
            if value < lim then Some None
            else do { value \<leftarrow> chk_width kMin (value - d); ParseInt_loop kMin dp value }
          })"

definition ParseInt :: "int \<Rightarrow> string \<Rightarrow> int \<Rightarrow> int \<Rightarrow> (string \<times> int) option option" where
  "ParseInt kMin dp vmin vmax =
     (let neg = (case dp of c # _ \<Rightarrow> c = CHR ''-'' | [] \<Rightarrow> False);
          bp = (if neg then tl dp else dp)
      in parse_then (ParseInt_loop kMin bp 0) (\<lambda>(dp, value).
           if length dp = length bp then Some None
           else if \<not> neg \<and> value = kMin then Some None
           else do {
             value \<leftarrow> (if neg then Some value else chk_width kMin (- value));
             Some (if value < vmin \<or> vmax < value then None else Some (dp, value))
           }))"

definition LeapYear :: "int \<Rightarrow> bool" where
  "LeapYear y \<longleftrightarrow> y smod 4 = 0 \<and> (y smod 100 \<noteq> 0 \<or> y smod 400 = 0)"

definition kMonthDays :: "int list" where
  "kMonthDays = [-1, 31, 28, 31, 30, 31, 30, 31, 31, 30, 31, 30, 31]"

definition ValidDay :: "tm \<Rightarrow> bool" where
  "ValidDay tm =
     (if tm_mon tm = 2 \<and> LeapYear (tm_year tm) then tm_mday tm \<le> 29
      else tm_mday tm \<le> kMonthDays ! nat (tm_mon tm))"

text \<open>The leading digits of the year, from the least significant one.\<close>

function year_digits :: "int \<Rightarrow> string \<Rightarrow> string option" where
  "year_digits year ep =
     (if year = 0 then Some ep
      else if year < 0 then None
      else do { c \<leftarrow> at_kDigits (year smod 10); year_digits (year sdiv 10) (c # ep) })"
  by auto
termination
  by (relation "measure (\<lambda>(year, _). nat year)") (auto simp: sdiv_nonneg)

declare year_digits.simps [simp del]

definition FormatTime :: "tm \<Rightarrow> string option" where
  "FormatTime tm = do {
     ep \<leftarrow> Format02d [] (tm_sec tm);
     ep \<leftarrow> Format02d (CHR '':'' # ep) (tm_min tm);
     ep \<leftarrow> Format02d (CHR '':'' # ep) (tm_hour tm);
     ep \<leftarrow> Format02d (CHR ''T'' # ep) (tm_mday tm);
     ep \<leftarrow> Format02d (CHR ''-'' # ep) (tm_mon tm + 1);
     let year = tm_year tm + 1900;
     let neg = (year < 0);
     let year = (if neg then - year else year);
     ep \<leftarrow> Format02d (CHR ''-'' # ep) (to_int32 (year smod 100));
     let year = year sdiv 100;
     ep \<leftarrow> (if neg then map_option (\<lambda>c. c # ep) (at_kDigits (year smod 10))
           else Format02d ep (to_int32 (year smod 100)));
     let year = (if neg then year sdiv 10 else year sdiv 100);
     ep \<leftarrow> year_digits year ep;
     Some (if neg then CHR ''-'' # ep else ep)
   }"

text \<open>A literal separator at the current position.\<close>

fun skip_char :: "char set \<Rightarrow> string \<Rightarrow> string option" where
  "skip_char cs [] = None"
| "skip_char cs (c # dp) = (if c \<in> cs then Some dp else None)"

definition zero_tm :: tm where
  "zero_tm = \<lparr>tm_year = 0, tm_mon = 0, tm_mday = 0, tm_hour = 0, tm_min = 0, tm_sec = 0\<rparr>"

text \<open>
  The result is the position after the match and the broken-down time; \<open>Some None\<close> is
  \<open>std::string::npos\<close>. As in the code, the day is checked before the year is stored in
  \<open>tmp\<close>.
\<close>

definition ParseTime :: "string \<Rightarrow> (nat \<times> tm) option option" where
  "ParseTime s =
     parse_then (ParseInt int64_min s kYearMin kYearMax) (\<lambda>(dp, year).
     parse_then (Some (skip_char {CHR ''-''} dp)) (\<lambda>dp.
     parse_then (ParseInt int32_min dp 1 12) (\<lambda>(dp, mon).
     parse_then (Some (skip_char {CHR ''-''} dp)) (\<lambda>dp.
     parse_then (ParseInt int32_min dp 1 31) (\<lambda>(dp, mday).
     let tmp = zero_tm \<lparr>tm_mon := mon, tm_mday := mday\<rparr> in
     parse_then (Some (if ValidDay tmp then skip_char {CHR ''T'', CHR ''t''} dp else None)) (\<lambda>dp.
     parse_then (ParseInt int32_min dp 0 23) (\<lambda>(dp, hour).
     parse_then (Some (skip_char {CHR '':''} dp)) (\<lambda>dp.
     parse_then (ParseInt int32_min dp 0 59) (\<lambda>(dp, min).
     parse_then (Some (skip_char {CHR '':''} dp)) (\<lambda>dp.
     parse_then (ParseInt int32_min dp 0 60) (\<lambda>(dp, sec).
       Some (Some (length s - length dp,
         tmp \<lparr>tm_hour := hour, tm_min := min, tm_sec := sec,
              tm_year := to_int32 (year - 1900), tm_mon := mon - 1\<rparr>)))))))))))))"

section \<open>Reading an integer\<close>

lemma nonpos_scaled: "v \<le> 0 \<Longrightarrow> v * 10 ^ n \<le> (v::int)"
  using mult_left_mono_neg [of 1 "10 ^ n" v] by simp

lemma parse_then_simps [simp]:
  "parse_then (Some (Some x)) f = f x" "parse_then (Some None) f = Some None"
  by (simp_all add: parse_then_def)

lemma parse_then_Some:
  "parse_then m f = Some (Some y) \<longleftrightarrow> (\<exists>x. m = Some (Some x) \<and> f x = Some (Some y))"
  by (cases m) (auto simp: parse_then_def split: option.splits)

lemma parse_then_defined:
  "m \<noteq> None \<Longrightarrow> (\<And>x. m = Some (Some x) \<Longrightarrow> f x \<noteq> None) \<Longrightarrow> parse_then m f \<noteq> None"
  by (cases m) (auto simp: parse_then_def split: option.splits)

lemma case_prod_defined: "(\<And>a b. f a b \<noteq> None) \<Longrightarrow> case_prod f p \<noteq> None"
  by (cases p) simp

text \<open>The test before each step is what keeps it in the width.\<close>

lemma ParseInt_loop_step:
  assumes "kMin \<le> - 10" "acc \<le> 0" "kMin \<le> acc" "digit_of c = Some d"
  shows "ParseInt_loop kMin (c # dp) acc =
      (if acc * 10 - d < kMin then Some None else ParseInt_loop kMin dp (acc * 10 - d))"
proof -
  note d = digit_of_range [OF assms(4)]
  have q: "kMin sdiv 10 = - (- kMin div 10)" using assms(1) by (simp add: sdiv_neg)
  show ?thesis
  proof (cases "acc < kMin sdiv 10")
    case True
    then have "- kMin < - acc * 10" using q by presburger
    with True d assms(4) show ?thesis by simp
  next
    case False
    then have "- acc * 10 \<le> - kMin" using q by presburger
    then show ?thesis using False assms d by (simp add: chk_width_def)
  qed
qed

lemma ParseInt_loop_digits:
  assumes "all_digits ds" "no_digit rest" "acc \<le> 0" "kMin \<le> - 10"
    "kMin \<le> acc * 10 ^ length ds - digits_val ds"
  shows "ParseInt_loop kMin (ds @ rest) acc
    = Some (Some (rest, acc * 10 ^ length ds - digits_val ds))"
  using assms
proof (induction ds arbitrary: acc)
  case Nil
  then show ?case by (cases rest) auto
next
  case (Cons c ds)
  obtain d where d: "digit_of c = Some d" "0 \<le> d" "digit_val c = d"
    using Cons.prems(1) digit_of_range by (auto simp: digit_val_def)
  define v where "v = acc * 10 - d"
  have v: "v \<le> 0" "v \<le> acc" using Cons.prems(3) d by (simp_all add: v_def)
  have s: "acc * 10 ^ length (c # ds) - digits_val (c # ds) = v * 10 ^ length ds - digits_val ds"
    by (simp add: digits_val_Cons d v_def algebra_simps)
  have kv: "kMin \<le> v"
    using Cons.prems(5) nonpos_scaled [OF v(1), of "length ds"] digits_val_bounds(1) [of ds]
    unfolding s by linarith
  have "ParseInt_loop kMin (c # ds @ rest) acc = ParseInt_loop kMin (ds @ rest) v"
    using ParseInt_loop_step [OF Cons.prems(4,3) _ d(1)] kv v(2) by (simp add: v_def)
  then show ?case using Cons.IH [of v] Cons.prems v(1) unfolding s by simp
qed

lemma ParseInt_loop_sound:
  assumes "ParseInt_loop kMin s acc = Some (Some (dp, v))"
  shows "\<exists>ds. s = ds @ dp \<and> all_digits ds \<and> no_digit dp \<and>
    v = acc * 10 ^ length ds - digits_val ds"
  using assms
proof (induction s arbitrary: acc)
  case (Cons c s)
  show ?case
  proof (cases "digit_of c")
    case None
    then show ?thesis using Cons.prems by (intro exI [of _ "[]"]) auto
  next
    case (Some d)
    then have "ParseInt_loop kMin s (acc * 10 - d) = Some (Some (dp, v))"
      using Cons.prems by (auto simp: chk_width_def bind_eq_Some_conv split: if_splits)
    from Cons.IH [OF this] obtain ds where "s = ds @ dp" "all_digits ds" "no_digit dp"
      "v = (acc * 10 - d) * 10 ^ length ds - digits_val ds" by blast
    with Some show ?thesis
      by (intro exI [of _ "c # ds"]) (auto simp: digits_val_Cons digit_val_def algebra_simps)
  qed
qed auto

lemma ParseInt_loop_defined:
  assumes "kMin \<le> - 10" "acc \<le> 0" "kMin \<le> acc"
  shows "ParseInt_loop kMin s acc = Some None \<or>
    (\<exists>dp v. ParseInt_loop kMin s acc = Some (Some (dp, v)) \<and> kMin \<le> v \<and> v \<le> 0)"
  using assms
proof (induction s arbitrary: acc)
  case (Cons c s)
  show ?case
  proof (cases "digit_of c")
    case (Some d)
    note step = ParseInt_loop_step [OF Cons.prems Some]
    show ?thesis
      using Cons.IH [of "acc * 10 - d"] Cons.prems digit_of_range [OF Some] unfolding step by auto
  qed (use Cons.prems in simp)
qed simp

lemma ParseInt_defined:
  assumes "kMin \<le> - 10"
  shows "ParseInt kMin s vmin vmax \<noteq> None"
proof -
  define neg where "neg \<longleftrightarrow> (case s of c # _ \<Rightarrow> c = CHR ''-'' | [] \<Rightarrow> False)"
  define bp where "bp = (if neg then tl s else s)"
  from ParseInt_loop_defined [OF assms, of 0 bp] assms
  consider "ParseInt_loop kMin bp 0 = Some None"
    | dp v where "ParseInt_loop kMin bp 0 = Some (Some (dp, v))" "kMin \<le> v" "v \<le> 0" by force
  then show ?thesis
    unfolding ParseInt_def neg_def [symmetric] Let_def bp_def [symmetric]
    by cases (auto simp: chk_width_def)
qed

lemma ParseInt_digits:
  assumes "all_digits ds" "ds \<noteq> []" "no_digit rest" "kMin \<le> - 10" "digits_val ds < - kMin"
    "vmin \<le> digits_val ds" "digits_val ds \<le> vmax"
  shows "ParseInt kMin (ds @ rest) vmin vmax = Some (Some (rest, digits_val ds))"
proof -
  have "(case ds @ rest of c # _ \<Rightarrow> c = CHR ''-'' | [] \<Rightarrow> False) = False"
    using assms(1,2) by (cases ds) auto
  then show ?thesis
    using ParseInt_loop_digits [of ds rest 0 kMin] assms digits_val_bounds(1) [of ds]
    by (simp add: ParseInt_def chk_width_def)
qed

lemma ParseInt_negative:
  assumes "all_digits ds" "ds \<noteq> []" "no_digit rest" "kMin \<le> - 10" "digits_val ds \<le> - kMin"
    "vmin \<le> - digits_val ds" "- digits_val ds \<le> vmax"
  shows "ParseInt kMin (CHR ''-'' # ds @ rest) vmin vmax = Some (Some (rest, - digits_val ds))"
  using ParseInt_loop_digits [of ds rest 0 kMin] assms digits_val_bounds(1) [of ds]
    by (simp add: ParseInt_def chk_width_def)

lemma ParseInt_sound:
  assumes "ParseInt kMin s vmin vmax = Some (Some (dp, v))"
  shows "vmin \<le> v" "v \<le> vmax" "no_digit dp"
    "\<exists>neg ds. s = (if neg then ''-'' else []) @ ds @ dp \<and> all_digits ds \<and> ds \<noteq> [] \<and>
      v = (if neg then - digits_val ds else digits_val ds)"
proof -
  define neg where "neg \<longleftrightarrow> (case s of c # _ \<Rightarrow> c = CHR ''-'' | [] \<Rightarrow> False)"
  define bp where "bp = (if neg then tl s else s)"
  have s: "s = (if neg then ''-'' else []) @ bp"
    by (cases s) (auto simp: neg_def bp_def)
  obtain w where w: "ParseInt_loop kMin bp 0 = Some (Some (dp, w))" "length dp \<noteq> length bp"
    "v = (if neg then w else - w)" "vmin \<le> v" "v \<le> vmax"
    using assms unfolding ParseInt_def neg_def [symmetric] Let_def bp_def [symmetric]
    by (auto simp: parse_then_Some chk_width_def bind_eq_Some_conv split: if_splits)
  from ParseInt_loop_sound [OF w(1)] obtain ds
    where ds: "bp = ds @ dp" "all_digits ds" "no_digit dp" "w = - digits_val ds"
    by auto
  show "vmin \<le> v" "v \<le> vmax" "no_digit dp" by fact+
  show "\<exists>neg ds. s = (if neg then ''-'' else []) @ ds @ dp \<and> all_digits ds \<and> ds \<noteq> [] \<and>
      v = (if neg then - digits_val ds else digits_val ds)"
    by (rule exI [of _ neg], rule exI [of _ ds])
      (use ds w s in \<open>auto split: if_splits\<close>)
qed

section \<open>Writing and reading back\<close>

lemma at_kDigits_mod: "0 \<le> v \<Longrightarrow> at_kDigits (v smod 10) = Some (digit_char (nat (v mod 10)))"
  by (simp add: at_kDigits_def smod_nonneg)

lemma Format02d_pad02:
  assumes "0 \<le> v" "v \<le> 99"
  shows "Format02d ep v = Some (pad02 v @ ep)"
proof -
  have "0 \<le> v div 10" "v div 10 \<le> 99 div 10" using assms by (auto intro: zdiv_mono1)
  then have "v div 10 mod 10 = v div 10" by simp
  then show ?thesis
    using assms \<open>0 \<le> v div 10\<close>
    by (simp add: Format02d_def at_kDigits_mod pad02_def sdiv_nonneg)
qed

lemma year_digits_digits:
  assumes "0 \<le> y"
  shows "\<exists>ds. year_digits y ep = Some (ds @ ep) \<and> all_digits ds \<and> digits_val ds = y"
  using assms
proof (induction y ep rule: year_digits.induct)
  case (1 y ep)
  show ?case
  proof (cases "y = 0")
    case True
    then show ?thesis by (subst year_digits.simps) simp
  next
    case False
    define q r where "q = y div 10" and "r = y mod 10"
    have qr: "0 \<le> q" "0 \<le> r" "r < 10" "q * 10 + r = y"
      using 1(2) by (auto simp: q_def r_def pos_imp_zdiv_nonneg_iff)
    let ?c = "digit_char (nat r)"
    have c: "at_kDigits (y smod 10) = Some ?c" "y sdiv 10 = q"
      using 1(2) by (simp_all add: at_kDigits_mod sdiv_nonneg q_def r_def)
    obtain ds where ds: "year_digits q (?c # ep) = Some (ds @ ?c # ep)" "all_digits ds"
      "digits_val ds = q"
      using 1(1) [of ?c] False 1(2) c qr by auto
    have "nat r < 10" using qr by linarith
    then show ?thesis
      using 1(2) False c ds qr
      by (subst year_digits.simps)
        (auto simp: digits_val_append digits_val_Cons intro!: exI [of _ "ds @ [?c]"])
  qed
qed

lemma to_int32_small: "0 \<le> v \<Longrightarrow> v \<le> 99 \<Longrightarrow> to_int32 v = v"
  by (rule to_int32_id) (simp add: in_int32_def)

text \<open>The text of the year: at least two digits, after a sign when it is negative.\<close>

definition year_text :: "int \<Rightarrow> string \<Rightarrow> bool" where
  "year_text y t \<longleftrightarrow> (\<exists>ds. ds \<noteq> [] \<and> all_digits ds \<and> digits_val ds = \<bar>y\<bar> \<and>
     t = (if y < 0 then CHR ''-'' # ds else ds))"

lemma ParseInt_year_text:
  assumes "year_text y t" "in_int32 (y - 1900)" "no_digit rest"
  shows "ParseInt int64_min (t @ rest) kYearMin kYearMax = Some (Some (rest, y))"
proof -
  obtain ds where ds: "ds \<noteq> []" "all_digits ds" "digits_val ds = \<bar>y\<bar>"
    "t = (if y < 0 then CHR ''-'' # ds else ds)"
    using assms(1) by (auto simp: year_text_def)
  show ?thesis
  proof (cases "y < 0")
    case True
    then show ?thesis
      using ParseInt_negative [of ds rest int64_min kYearMin kYearMax] ds assms
      by (simp add: in_int32_def kYearMin_def kYearMax_def)
  next
    case False
    then show ?thesis
      using ParseInt_digits [of ds rest int64_min kYearMin kYearMax] ds assms
      by (simp add: in_int32_def kYearMin_def kYearMax_def)
  qed
qed

definition date_time_text :: "string \<Rightarrow> tm \<Rightarrow> string" where
  "date_time_text t tm = t @ CHR ''-'' # pad02 (tm_mon tm + 1) @ CHR ''-'' # pad02 (tm_mday tm)
     @ CHR ''T'' # pad02 (tm_hour tm) @ CHR '':'' # pad02 (tm_min tm)
     @ CHR '':'' # pad02 (tm_sec tm)"

lemma civil_tm_bounds:
  assumes "civil_tm tm"
  shows "0 \<le> tm_mon tm" "tm_mon tm \<le> 11" "1 \<le> tm_mday tm" "tm_mday tm \<le> 31"
    "0 \<le> tm_hour tm" "tm_hour tm \<le> 23" "0 \<le> tm_min tm" "tm_min tm \<le> 59"
    "0 \<le> tm_sec tm" "tm_sec tm \<le> 59"
  using assms by (auto simp: civil_tm_def valid_date_def days_in_month_def split: if_splits)

lemma FormatTime_year:
  assumes "0 \<le> y"
  obtains t where "year_digits (y div 100 div 100) (pad02 (y div 100 mod 100) @ pad02 (y mod 100) @ ep)
    = Some (t @ ep)" "t \<noteq> []" "all_digits t" "digits_val t = y"
proof -
  have p: "0 \<le> y div 100" "0 \<le> y div 100 div 100"
    using assms by (simp_all add: pos_imp_zdiv_nonneg_iff)
  obtain ds where ds: "year_digits (y div 100 div 100)
      (pad02 (y div 100 mod 100) @ pad02 (y mod 100) @ ep)
    = Some (ds @ pad02 (y div 100 mod 100) @ pad02 (y mod 100) @ ep)"
    "all_digits ds" "digits_val ds = y div 100 div 100"
    using year_digits_digits [OF p(2)] by blast
  have m: "x mod 100 \<le> 99" "0 \<le> x mod 100" for x :: int
    using pos_mod_bound [of 100 x] by simp_all
  have "digits_val (ds @ pad02 (y div 100 mod 100) @ pad02 (y mod 100))
      = (digits_val ds * 100 + digits_val (pad02 (y div 100 mod 100))) * 100
        + digits_val (pad02 (y mod 100))"
    by (simp add: digits_val_append algebra_simps)
  also have "\<dots> = y" by (simp only: pad02_digits(2) [OF m(2) m(1)] ds(3) div_mult_mod_eq)
  finally show ?thesis
    using that [of "ds @ pad02 (y div 100 mod 100) @ pad02 (y mod 100)"] ds m
    by (simp add: pad02_digits(1))
qed

lemma FormatTime_year_neg:
  assumes "0 \<le> y"
  obtains t where "year_digits (y div 100 div 10)
      (digit_char (nat (y div 100 mod 10)) # pad02 (y mod 100) @ ep) = Some (t @ ep)"
    "t \<noteq> []" "all_digits t" "digits_val t = y"
proof -
  let ?c = "digit_char (nat (y div 100 mod 10))"
  have p: "0 \<le> y div 100" "0 \<le> y div 100 div 10"
    using assms by (simp_all add: pos_imp_zdiv_nonneg_iff)
  obtain ds where ds: "year_digits (y div 100 div 10) (?c # pad02 (y mod 100) @ ep)
    = Some (ds @ ?c # pad02 (y mod 100) @ ep)"
    "all_digits ds" "digits_val ds = y div 100 div 10"
    using year_digits_digits [OF p(2)] by blast
  have m: "y mod 100 \<le> 99" "0 \<le> y mod 100"
    using pos_mod_bound [of 100 y] by simp_all
  have "0 \<le> y div 100 mod 10" "y div 100 mod 10 < 10" by simp_all
  then have c: "nat (y div 100 mod 10) < 10" "digit_val ?c = y div 100 mod 10"
    by (simp_all add: nat_less_iff)
  have "digits_val (ds @ ?c # pad02 (y mod 100))
      = (digits_val ds * 10 + digit_val ?c) * 100 + digits_val (pad02 (y mod 100))"
    by (simp add: digits_val_append digits_val_Cons algebra_simps)
  also have "\<dots> = y" by (simp only: pad02_digits(2) [OF m(2) m(1)] ds(3) c(2) div_mult_mod_eq)
  finally show ?thesis
    using that [of "ds @ ?c # pad02 (y mod 100)"] ds m c
    by (simp add: pad02_digits(1))
qed

lemma FormatTime_text:
  assumes "civil_tm tm"
  shows "\<exists>t. year_text (tm_year tm + 1900) t \<and> FormatTime tm = Some (date_time_text t tm)"
proof -
  note b = civil_tm_bounds [OF assms]
  let ?y = "tm_year tm + 1900"
  let ?ep = "CHR ''-'' # pad02 (tm_mon tm + 1) @ CHR ''-'' # pad02 (tm_mday tm)
     @ CHR ''T'' # pad02 (tm_hour tm) @ CHR '':'' # pad02 (tm_min tm)
     @ CHR '':'' # pad02 (tm_sec tm)"
  have m: "x mod 100 \<le> 99" "0 \<le> x mod 100" for x :: int
    using pos_mod_bound [of 100 x] by simp_all
  have zless: "0 < (100::int)" "0 < (10::int)" by simp_all
  have f: "Format02d [] (tm_sec tm) = Some (pad02 (tm_sec tm))"
    "Format02d e (tm_min tm) = Some (pad02 (tm_min tm) @ e)"
    "Format02d e (tm_hour tm) = Some (pad02 (tm_hour tm) @ e)"
    "Format02d e (tm_mday tm) = Some (pad02 (tm_mday tm) @ e)"
    "Format02d e (tm_mon tm + 1) = Some (pad02 (tm_mon tm + 1) @ e)" for e
    using b by (simp_all add: Format02d_pad02)
  have g: "Format02d e (to_int32 (y smod 100)) = Some (pad02 (y mod 100) @ e)" if "0 \<le> y" for e y
    using that m [of y] by (simp add: smod_nonneg to_int32_small Format02d_pad02)
  show ?thesis
  proof (cases "?y < 0")
    case True
    then have y: "0 \<le> - ?y" "0 \<le> (- ?y) div 100"
      by (simp_all add: pos_imp_zdiv_nonneg_iff)
    from FormatTime_year_neg [OF y(1), of ?ep] obtain t where
      t: "year_digits (- ?y div 100 div 10)
         (digit_char (nat (- ?y div 100 mod 10)) # pad02 (- ?y mod 100) @ ?ep) = Some (t @ ?ep)"
      "t \<noteq> []" "all_digits t" "digits_val t = - ?y" .
    have n: "(if ?y < 0 then a else b) = a" for a b :: 'x using True by simp
    have "FormatTime tm = Some (CHR ''-'' # t @ ?ep)"
      unfolding FormatTime_def Let_def f Option.bind.simps n g [OF y(1)] sdiv_nonneg [OF y(1) zless(1)]
        sdiv_nonneg [OF y(2) zless(2)] at_kDigits_mod [OF y(2)] option.map t(1) ..
    then show ?thesis
      using True t by (intro exI [of _ "CHR ''-'' # t"]) (simp add: date_time_text_def year_text_def)
  next
    case False
    then have y: "0 \<le> ?y" "0 \<le> ?y div 100"
      by (simp_all add: pos_imp_zdiv_nonneg_iff)
    from FormatTime_year [OF y(1), of ?ep] obtain t where
      t: "year_digits (?y div 100 div 100) (pad02 (?y div 100 mod 100) @ pad02 (?y mod 100) @ ?ep)
        = Some (t @ ?ep)" "t \<noteq> []" "all_digits t" "digits_val t = ?y" .
    have "FormatTime tm = Some (t @ ?ep)"
      unfolding FormatTime_def Let_def f Option.bind.simps
      using False by (simp add: g [OF y(1)] g [OF y(2)] sdiv_nonneg [OF y(1)]
          sdiv_nonneg [OF y(2)] t(1))
    then show ?thesis
      using False t by (intro exI [of _ t]) (simp add: date_time_text_def year_text_def)
  qed
qed

lemma ParseInt_pad02:
  assumes "0 \<le> v" "v \<le> 99" "vmin \<le> v" "v \<le> vmax" "no_digit rest"
  shows "ParseInt int32_min (pad02 v @ rest) vmin vmax = Some (Some (rest, v))"
  using ParseInt_digits [of "pad02 v" rest int32_min vmin vmax] assms
  by (simp add: pad02_digits)

lemma months_cases:
  assumes "1 \<le> m" "m \<le> (12::int)"
  shows "m \<in> {1, 2, 3, 4, 5, 6, 7, 8, 9, 10, 11, 12}"
  using assms by (simp only: insert_iff empty_iff) presburger

lemma ValidDay_leap:
  assumes "1 \<le> m" "m \<le> 12" "1 \<le> d"
  shows "ValidDay (zero_tm \<lparr>tm_mon := m, tm_mday := d\<rparr>) \<longleftrightarrow> valid_date 2000 m d"
  using months_cases [OF assms(1,2)] assms(3)
  by (elim insertE emptyE) (simp_all add: ValidDay_def zero_tm_def LeapYear_def valid_date_def
      days_in_month_def leap_def kMonthDays_def numeral_2_eq_2 [symmetric] smod_nonneg)

lemma valid_date_leap: "valid_date y m d \<Longrightarrow> valid_date 2000 m d"
  by (auto simp: valid_date_def days_in_month_def leap_def split: if_splits)

text \<open>The broken-down times \<open>ParseTime\<close> can yield.\<close>

definition parse_tm :: "tm \<Rightarrow> bool" where
  "parse_tm tm \<longleftrightarrow> in_int32 (tm_year tm) \<and> valid_date 2000 (tm_mon tm + 1) (tm_mday tm) \<and>
     0 \<le> tm_hour tm \<and> tm_hour tm \<le> 23 \<and> 0 \<le> tm_min tm \<and> tm_min tm \<le> 59 \<and>
     0 \<le> tm_sec tm \<and> tm_sec tm \<le> 60"

lemma parse_tm_civil: "civil_tm tm \<Longrightarrow> in_int32 (tm_year tm) \<Longrightarrow> parse_tm tm"
  by (auto simp: parse_tm_def civil_tm_def dest: valid_date_leap)

lemma ParseTime_date_time_text:
  assumes "year_text (tm_year tm + 1900) t" "parse_tm tm" "no_digit rest"
  shows "ParseTime (date_time_text t tm @ rest) = Some (Some (length (date_time_text t tm), tm))"
proof -
  have b: "0 \<le> tm_mon tm" "tm_mon tm \<le> 11" "1 \<le> tm_mday tm" "tm_mday tm \<le> 31"
    "0 \<le> tm_hour tm" "tm_hour tm \<le> 23" "0 \<le> tm_min tm" "tm_min tm \<le> 59"
    "0 \<le> tm_sec tm" "tm_sec tm \<le> 60" "in_int32 (tm_year tm)"
    using assms(2)
    by (auto simp: parse_tm_def valid_date_def days_in_month_def split: if_splits)
  have v: "ValidDay (zero_tm \<lparr>tm_mon := tm_mon tm + 1, tm_mday := tm_mday tm\<rparr>)"
    using b assms(2) by (subst ValidDay_leap) (auto simp: parse_tm_def)
  have y: "ParseInt int64_min (t @ CHR ''-'' # r) kYearMin kYearMax
    = Some (Some (CHR ''-'' # r, tm_year tm + 1900))" for r
    by (rule ParseInt_year_text) (use assms b in simp_all)
  have p: "ParseInt int32_min (pad02 (tm_mon tm + 1) @ CHR ''-'' # r) 1 12 = Some (Some (CHR ''-'' # r, tm_mon tm + 1))"
    "ParseInt int32_min (pad02 (tm_mday tm) @ CHR ''T'' # r) 1 31 = Some (Some (CHR ''T'' # r, tm_mday tm))"
    "ParseInt int32_min (pad02 (tm_hour tm) @ CHR '':'' # r) 0 23 = Some (Some (CHR '':'' # r, tm_hour tm))"
    "ParseInt int32_min (pad02 (tm_min tm) @ CHR '':'' # r) 0 59 = Some (Some (CHR '':'' # r, tm_min tm))"
    "ParseInt int32_min (pad02 (tm_sec tm) @ rest) 0 60 = Some (Some (rest, tm_sec tm))" for r
    using b assms(3) by (simp_all add: ParseInt_pad02)
  show ?thesis
    using b(11) v unfolding ParseTime_def date_time_text_def
    by (simp add: y p zero_tm_def)
qed

lemma skip_char_Some: "skip_char cs s = Some r \<longleftrightarrow> (\<exists>c. s = c # r \<and> c \<in> cs)"
  by (cases s) auto

lemma skip_char_len: "skip_char cs s = Some r \<Longrightarrow> length r < length s"
  by (auto simp: skip_char_Some)

lemma ParseInt_len: "ParseInt k s a b = Some (Some (r, v)) \<Longrightarrow> length r < length s"
  using ParseInt_sound(4) by fastforce

lemma ParseTime_sound:
  assumes "ParseTime s = Some (Some (pos, tm))"
  shows "0 < pos" "pos \<le> length s" "parse_tm tm"
proof -
  obtain dp1 y dp2 dp3 mon dp4 dp5 d dp6 dp7 h dp8 dp9 mi dp10 dp11 sec where
    p: "ParseInt int64_min s kYearMin kYearMax = Some (Some (dp1, y))" "skip_char {CHR ''-''} dp1 = Some dp2"
      "ParseInt int32_min dp2 1 12 = Some (Some (dp3, mon))" "skip_char {CHR ''-''} dp3 = Some dp4"
      "ParseInt int32_min dp4 1 31 = Some (Some (dp5, d))"
      "ValidDay (zero_tm\<lparr>tm_mon := mon, tm_mday := d\<rparr>)"
      "skip_char {CHR ''T'', CHR ''t''} dp5 = Some dp6"
      "ParseInt int32_min dp6 0 23 = Some (Some (dp7, h))" "skip_char {CHR '':''} dp7 = Some dp8"
      "ParseInt int32_min dp8 0 59 = Some (Some (dp9, mi))" "skip_char {CHR '':''} dp9 = Some dp10"
      "ParseInt int32_min dp10 0 60 = Some (Some (dp11, sec))"
    and pos: "pos = length s - length dp11"
    and tm: "tm = \<lparr>tm_year = to_int32 (y - 1900), tm_mon = mon - 1, tm_mday = d, tm_hour = h, tm_min = mi, tm_sec = sec\<rparr>"
    using assms unfolding ParseTime_def Let_def zero_tm_def
    by (auto simp: parse_then_Some split: if_splits)
  have "length dp11 < length s"
    using ParseInt_len [OF p(1)] ParseInt_len [OF p(3)] ParseInt_len [OF p(5)]
      ParseInt_len [OF p(8)] ParseInt_len [OF p(10)] ParseInt_len [OF p(12)]
      skip_char_len [OF p(2)] skip_char_len [OF p(4)] skip_char_len [OF p(7)]
      skip_char_len [OF p(9)] skip_char_len [OF p(11)] by linarith
  with pos show "0 < pos" "pos \<le> length s" by simp_all
  have "valid_date 2000 (tm_mon tm + 1) (tm_mday tm)"
    using p(6) ParseInt_sound(1,2) [OF p(3)] ParseInt_sound(1) [OF p(5)]
    by (simp add: tm ValidDay_leap)
  then show "parse_tm tm"
    using ParseInt_sound(1,2) [OF p(8)] ParseInt_sound(1,2) [OF p(10)]
      ParseInt_sound(1,2) [OF p(12)] by (simp add: tm parse_tm_def)
qed

lemma ParseTime_defined: "ParseTime s \<noteq> None"
  unfolding ParseTime_def Let_def
  by (intro parse_then_defined case_prod_defined ParseInt_defined) simp_all

lemma year_text_ex: "\<exists>t. year_text y t"
  unfolding year_text_def
  by (intro exI [of _ "if y < 0 then CHR ''-'' # dec (nat \<bar>y\<bar>) else dec (nat \<bar>y\<bar>)"]
      exI [of _ "dec (nat \<bar>y\<bar>)"]) simp

section \<open>Properties\<close>

text \<open>
  What \<open>FormatTime\<close> writes for a date and time of the calendar, \<open>ParseTime\<close> reads back, to
  the last character of it, whatever non-digit text follows (the years before 0000 and after
  9999 included); and no field makes \<open>FormatTime\<close> read outside its digits.
\<close>

theorem format_time_parse_time:
  assumes "civil_tm tm" "in_int32 (tm_year tm)"
  shows "\<exists>s. FormatTime tm = Some s \<and>
    (\<forall>rest. no_digit rest \<longrightarrow> ParseTime (s @ rest) = Some (Some (length s, tm)))"
  using FormatTime_text [OF assms(1)] ParseTime_date_time_text parse_tm_civil [OF assms] by blast

theorem format_time_parse_time_witness:
  "\<exists>s. FormatTime \<lparr>tm_year = -1905, tm_mon = 1, tm_mday = 28, tm_hour = 5, tm_min = 0, tm_sec = 7\<rparr>
      = Some s \<and>
    (\<forall>rest. no_digit rest \<longrightarrow> ParseTime (s @ rest) = Some (Some (length s,
       \<lparr>tm_year = -1905, tm_mon = 1, tm_mday = 28, tm_hour = 5, tm_min = 0, tm_sec = 7\<rparr>)))"
  by (rule format_time_parse_time)
    (simp_all add: civil_tm_def valid_date_def days_in_month_def in_int32_def)

text \<open>
  The broken-down times that \<open>ParseTime\<close> can yield are exactly those with fields in range
  (60 seconds included) whose day exists in that month of a leap year: because the day is checked
  while \<open>tmp.tm_year\<close> is still zero, February 29 is accepted in every year.
\<close>

theorem parse_time_range:
  "(\<exists>s pos. ParseTime s = Some (Some (pos, tm))) \<longleftrightarrow>
     in_int32 (tm_year tm) \<and> valid_date 2000 (tm_mon tm + 1) (tm_mday tm) \<and>
     0 \<le> tm_hour tm \<and> tm_hour tm \<le> 23 \<and> 0 \<le> tm_min tm \<and> tm_min tm \<le> 59 \<and>
     0 \<le> tm_sec tm \<and> tm_sec tm \<le> 60"
proof -
  obtain t where "year_text (tm_year tm + 1900) t" using year_text_ex by blast
  then have "parse_tm tm \<Longrightarrow> \<exists>s pos. ParseTime s = Some (Some (pos, tm))"
    using ParseTime_date_time_text [of tm t "[]"] by auto
  then show ?thesis
    unfolding parse_tm_def [symmetric] using ParseTime_sound(3) by blast
qed

end
