(* ===== verification/Time_Library.thy ===== *)
theory Time_Library
  imports Time_Format
begin

text \<open>
  The overloads of \<open>FormatTime\<close> and \<open>ParseTime\<close> in \<open>internal/time_format.cc\<close> that take a format. They
  pass it on to the standard library: to \<open>strftime\<close> and \<open>strptime\<close> if the compiler is an old GCC,
  else to \<open>std::put_time\<close> and \<open>std::get_time\<close>. These four are parameters.
\<close>

section \<open>The code\<close>

text \<open>
  \<open>strftime\<close> gets the size of its buffer and gives a length and the buffer; \<open>strptime\<close> a position,
  unless it fails. Reading with \<open>std::get_time\<close> gives whether the stream is good and what \<open>tellg\<close>
  then says. Both change the broken-down time, also when they fail.
\<close>

record time_library =
  strftime :: "nat \<Rightarrow> string \<Rightarrow> tm \<Rightarrow> nat \<times> string"
  put_time :: "tm \<Rightarrow> string \<Rightarrow> string"
  strptime :: "string \<Rightarrow> string \<Rightarrow> tm \<Rightarrow> nat option \<times> tm"
  get_time :: "string \<Rightarrow> tm \<Rightarrow> string \<Rightarrow> bool \<times> int \<times> tm"

text \<open>The loop doubles the buffer until \<open>strftime\<close> does not give 0.\<close>

partial_function (option) FormatTime_loop ::
    "time_library \<Rightarrow> string \<Rightarrow> tm \<Rightarrow> nat \<Rightarrow> string option" where
  "FormatTime_loop lib fmt tm buffer_size =
     (let (len, s) = strftime lib buffer_size fmt tm
      in if len \<noteq> 0 then Some (take len s) else FormatTime_loop lib fmt tm (buffer_size * 2))"

definition FormatTime_with :: "bool \<Rightarrow> time_library \<Rightarrow> string \<Rightarrow> tm \<Rightarrow> string option" where
  "FormatTime_with old_gcc lib fmt tm =
     (if old_gcc then FormatTime_loop lib fmt tm 64 else Some (put_time lib tm fmt))"

definition ParseTime_with :: "bool \<Rightarrow> time_library \<Rightarrow> string \<Rightarrow> string \<Rightarrow> tm \<Rightarrow> nat option \<times> tm" where
  "ParseTime_with old_gcc lib fmt s tm =
     (if old_gcc then strptime lib s fmt tm
      else
        let (good, pos, tm) = get_time lib s tm fmt
        in if \<not> good then (None, tm)
           else if 0 \<le> pos then (Some (nat pos), tm)
           else (Some (length s), tm))"

section \<open>What the standard says of the library\<close>

text \<open>
  \<open>expand\<close> is what a format stands for. \<open>strftime\<close> gives 0 unless the expansion and its final NUL
  fit into the buffer.
\<close>

definition formats :: "time_library \<Rightarrow> (string \<Rightarrow> tm \<Rightarrow> string) \<Rightarrow> bool" where
  "formats lib expand \<longleftrightarrow>
     (\<forall>size fmt tm. if length (expand fmt tm) < size
        then fst (strftime lib size fmt tm) = length (expand fmt tm) \<and>
          take (length (expand fmt tm)) (snd (strftime lib size fmt tm)) = expand fmt tm
        else fst (strftime lib size fmt tm) = 0) \<and>
     (\<forall>fmt tm. put_time lib tm fmt = expand fmt tm)"

lemma FormatTime_loop_step:
  assumes "formats lib expand" "expand fmt tm \<noteq> []"
  shows "FormatTime_loop lib fmt tm n =
    (if length (expand fmt tm) < n then Some (expand fmt tm) else FormatTime_loop lib fmt tm (n * 2))"
proof -
  let ?e = "expand fmt tm"
  obtain len s where s: "strftime lib n fmt tm = (len, s)" by fastforce
  have "if length ?e < n then len = length ?e \<and> take (length ?e) s = ?e else len = 0"
    using assms(1) [unfolded formats_def, THEN conjunct1, rule_format, of fmt tm n] by (simp only: s fst_conv snd_conv)
  then show ?thesis
    using assms(2) by (subst FormatTime_loop.simps) (auto simp: s)
qed

lemma FormatTime_loop_ends:
  assumes "formats lib expand" "expand fmt tm \<noteq> []" "length (expand fmt tm) < n * 2 ^ k"
  shows "FormatTime_loop lib fmt tm n = Some (expand fmt tm)"
  using assms(3)
proof (induction k arbitrary: n)
  case 0
  then show ?case by (simp add: FormatTime_loop_step [OF assms(1,2), of n])
next
  case (Suc k)
  then have "FormatTime_loop lib fmt tm (n * 2) = Some (expand fmt tm)" by (simp add: mult.assoc)
  then show ?case by (simp add: FormatTime_loop_step [OF assms(1,2), of n])
qed

lemma FormatTime_loop_empty:
  assumes "FormatTime_loop lib fmt tm n = Some y" "formats lib expand"
  shows "expand fmt tm \<noteq> []"
proof (rule FormatTime_loop.raw_induct [OF _ assms(1), where P = "\<lambda>lib fmt tm n y.
    formats lib expand \<longrightarrow> expand fmt tm \<noteq> []", THEN mp, OF _ assms(2)], intro impI, goal_cases)
  case (1 loop lib fmt tm n y)
  obtain len s where s: "strftime lib n fmt tm = (len, s)" by fastforce
  have "len = 0" if "expand fmt tm = []"
  proof -
    have "fst (strftime lib n fmt tm) = 0"
      using 1(3) [unfolded formats_def, THEN conjunct1, rule_format, of fmt tm n] that by (simp split: if_splits)
    then show ?thesis by (simp add: s)
  qed
  then show ?case using 1 by (auto simp: s split: if_splits)
qed

section \<open>Properties\<close>

text \<open>
  Both overloads of \<open>FormatTime\<close> give the expansion of the format, and the loop over the size of the
  buffer ends, unless the expansion is empty: then it doubles the buffer for ever.
\<close>

theorem format_time_with_expands:
  assumes "formats lib expand"
  shows "FormatTime_with old_gcc lib fmt tm =
    (if old_gcc \<and> expand fmt tm = [] then None else Some (expand fmt tm))"
proof -
  have "FormatTime_loop lib fmt tm 64 = Some (expand fmt tm)" if e: "expand fmt tm \<noteq> []"
  proof (rule FormatTime_loop_ends [OF assms e])
    have "length (expand fmt tm) < 2 ^ length (expand fmt tm)" by (rule less_exp)
    also have "\<dots> \<le> 64 * 2 ^ length (expand fmt tm)" by simp
    finally show "length (expand fmt tm) < 64 * 2 ^ length (expand fmt tm)" .
  qed
  moreover have "FormatTime_loop lib fmt tm 64 = None" if "expand fmt tm = []"
    using FormatTime_loop_empty [OF _ assms] that by (cases "FormatTime_loop lib fmt tm 64") auto
  ultimately show ?thesis using assms by (simp add: FormatTime_with_def formats_def)
qed

text \<open>A library that knows only literal text.\<close>

definition literal_library :: time_library where
  "literal_library =
     \<lparr>strftime = (\<lambda>size fmt tm. if length fmt < size then (length fmt, fmt) else (0, [])),
      put_time = (\<lambda>tm fmt. fmt),
      strptime = (\<lambda>s fmt tm. (if take (length fmt) s = fmt then Some (length fmt) else None, tm)),
      get_time = (\<lambda>s tm fmt. (take (length fmt) s = fmt,
        if length s = length fmt then - 1 else int (length fmt), tm))\<rparr>"

theorem format_time_with_expands_witness:
  "FormatTime_with True literal_library (replicate 100 CHR ''-'') zero_tm = Some (replicate 100 CHR ''-'') \<and>
   FormatTime_with True literal_library [] zero_tm = None"
proof -
  have "formats literal_library (\<lambda>fmt tm. fmt)" by (simp add: formats_def literal_library_def)
  from format_time_with_expands [OF this] show ?thesis by simp
qed

text \<open>
  A position that \<open>ParseTime\<close> gives is in the text if those of the library are: \<open>tellg\<close> at the end
  of the stream, which is negative, stands for the whole text.
\<close>

theorem parse_time_with_position:
  assumes "\<And>pos tm'. strptime lib s fmt tm = (Some pos, tm') \<Longrightarrow> pos \<le> length s"
    and "\<And>pos tm'. get_time lib s tm fmt = (True, pos, tm') \<Longrightarrow> pos \<le> int (length s)"
    and "ParseTime_with old_gcc lib fmt s tm = (Some p, tm')"
  shows "p \<le> length s"
  using assms by (auto simp: ParseTime_with_def split: prod.splits if_splits)

theorem parse_time_with_position_witness:
  "ParseTime_with False literal_library ''ab'' ''ab'' zero_tm = (Some 2, zero_tm) \<and> (2::nat) \<le> length ''ab''"
proof -
  have p: "ParseTime_with False literal_library ''ab'' ''ab'' zero_tm = (Some 2, zero_tm)"
    by (simp add: ParseTime_with_def literal_library_def)
  have "2 \<le> length ''ab''"
    by (rule parse_time_with_position [OF _ _ p]) (auto simp: literal_library_def split: if_splits)
  with p show ?thesis by simp
qed

end
