(* ===== verification/Timestamps.thy ===== *)
theory Timestamps
  imports Time_Format
begin

text \<open>
  \<open>spanner::Timestamp\<close> (\<open>timestamp.cc\<close>, \<open>timestamp.h\<close>): seconds and nanoseconds since the
  epoch, their normalisation, the conversions from and to \<open>std::chrono\<close> ratios, RFC 3339 text
  and \<open>protobuf::Timestamp\<close>. 64-bit steps are checked: a result \<open>None\<close> is undefined
  behaviour (overflow), so \<open>Some\<close> in a theorem says that no step overflows.
\<close>

section \<open>The code\<close>

datatype timestamp = Timestamp (ts_sec: int) (ts_nsec: int)

abbreviation kNanosPerSecond :: int where "kNanosPerSecond \<equiv> 1000000000"

definition PositiveOverflow :: "string \<Rightarrow> status" where
  "PositiveOverflow ty = Status kOutOfRange (ty @ '' positive overflow'')"

definition NegativeOverflow :: "string \<Rightarrow> status" where
  "NegativeOverflow ty = Status kOutOfRange (ty @ '' negative overflow'')"

definition InvalidArgument :: "string \<Rightarrow> status" where
  "InvalidArgument m = Status kInvalidArgument m"

definition kTimestampType :: string where
  "kTimestampType = ''google::cloud::spanner::Timestamp''"

definition FromCounts :: "int \<Rightarrow> int \<Rightarrow> timestamp status_or option" where
  "FromCounts sec nsec =
     (let carry0 = nsec sdiv kNanosPerSecond;
          nanos0 = to_int32 (nsec smod kNanosPerSecond);
          nanos = (if nanos0 < 0 then nanos0 + kNanosPerSecond else nanos0);
          carry = (if nanos0 < 0 then carry0 - 1 else carry0)
      in do {
        high \<leftarrow> (if sec \<ge> 0 \<and> carry > 0
                then map_option (\<lambda>lim. sec > lim) (sub64 int64_max carry) else Some False);
        low \<leftarrow> (if sec < 0 \<and> carry < 0
               then map_option (\<lambda>lim. sec < lim) (sub64 int64_min carry) else Some False);
        if high then Some (Inl (PositiveOverflow kTimestampType))
        else if low then Some (Inl (NegativeOverflow kTimestampType))
        else do { s \<leftarrow> add64 sec carry; Some (Inr (Timestamp s nanos)) }
      })"

definition FromRatio :: "int \<Rightarrow> int \<Rightarrow> int \<Rightarrow> timestamp status_or option" where
  "FromRatio count numerator denominator =
     (let sec = count sdiv denominator
      in if sec \<ge> 0 \<and> sec > int64_max sdiv numerator
         then Some (Inl (PositiveOverflow kTimestampType))
         else if \<not> sec \<ge> 0 \<and> sec < int64_min sdiv numerator
         then Some (Inl (NegativeOverflow kTimestampType))
         else do {
           sec \<leftarrow> mul64 sec numerator;
           back \<leftarrow> mul64 sec denominator;
           sscount \<leftarrow> sub64 count (back sdiv numerator);
           if denominator > kNanosPerSecond
           then do {
             let divider = denominator sdiv kNanosPerSecond;
             sscount \<leftarrow> (if sscount < 0 then sub64 sscount (divider - 1) else Some sscount);
             nsec \<leftarrow> mul64 (sscount sdiv divider) numerator;
             FromCounts sec nsec
           }
           else do {
             let multiplier = kNanosPerSecond sdiv denominator;
             nsec \<leftarrow> mul64 sscount multiplier;
             nsec \<leftarrow> mul64 nsec numerator;
             FromCounts sec nsec
           }
         })"

definition kTimePointType :: string where
  "kTimePointType = ''std::chrono::time_point''"

definition ToRatio :: "timestamp \<Rightarrow> int \<Rightarrow> int \<Rightarrow> int \<Rightarrow> int \<Rightarrow> int status_or option" where
  "ToRatio ts vmin vmax numerator denominator =
     (let count = ts_sec ts sdiv numerator
      in if count \<ge> 0 \<and> count > int64_max sdiv denominator
         then Some (Inl (PositiveOverflow kTimePointType))
         else if \<not> count \<ge> 0 \<and> count < int64_min sdiv denominator
         then Some (Inl (NegativeOverflow kTimePointType))
         else do {
           count \<leftarrow> mul64 count denominator;
           let ncount = ts_nsec ts sdiv numerator;
           ncount \<leftarrow> (if denominator < kNanosPerSecond
                      then Some (ncount sdiv (kNanosPerSecond sdiv denominator))
                      else mul64 ncount (denominator sdiv kNanosPerSecond));
           lim \<leftarrow> sub64 int64_max ncount;
           if count > lim then Some (Inl (PositiveOverflow kTimePointType))
           else do {
             count \<leftarrow> add64 count ncount;
             Some (if count > vmax then Inl (PositiveOverflow kTimePointType)
                   else if count < vmin then Inl (NegativeOverflow kTimePointType)
                   else Inr count)
           }
         })"

text \<open>
  \<open>MakeTimestamp\<close> and \<open>ConvertTo\<close> for a system clock whose epoch is the Unix epoch
  (\<open>UnixEpoch()\<close> is then zero), with the representation's limits and the period's ratio.
\<close>

definition MakeTimestamp :: "int \<times> int \<Rightarrow> int \<Rightarrow> timestamp status_or option" where
  "MakeTimestamp period tp = FromRatio tp (fst period) (snd period)"

definition ConvertTo ::
    "int \<times> int \<Rightarrow> int \<times> int \<Rightarrow> timestamp \<Rightarrow> int status_or option" where
  "ConvertTo rep period ts = ToRatio ts (fst rep) (snd rep) (fst period) (snd period)"

text \<open>
  The digits of the fraction: text left, scale left and digits read so far. As in \<open>Time_Format\<close>,
  \<open>None\<close> is a step that overflows its 64 bits.
\<close>

fun secfrac_loop :: "string \<Rightarrow> int \<Rightarrow> int \<Rightarrow> (string \<times> int \<times> int) option" where
  "secfrac_loop [] scale v = Some ([], scale, v)"
| "secfrac_loop (c # s) scale v =
     (case digit_of c of
        None \<Rightarrow> Some (c # s, scale, v)
      | Some d \<Rightarrow>
          if scale = 1 then secfrac_loop s scale v
          else do { v \<leftarrow> mul64 v 10; v \<leftarrow> add64 v d; secfrac_loop s (scale sdiv 10) v })"

text \<open>
  The \<open>HH:MM\<close> loop of the offset: text left, start of the digits of the field (as text left),
  index \<open>it\<close> of the field, and the two fields.
\<close>

fun offset_loop ::
    "string \<Rightarrow> string \<Rightarrow> nat \<Rightarrow> int list \<Rightarrow> (string \<times> string \<times> nat \<times> int list) option" where
  "offset_loop [] ipos it fs = Some ([], ipos, it, fs)"
| "offset_loop (c # s) ipos it fs =
     (if c = CHR '':'' then
        (if it + 1 = length fs then Some (c # s, ipos, it + 1, fs)
         else if c # s = ipos then Some (c # s, ipos, it + 1, fs)
         else offset_loop s s (it + 1) fs)
      else case digit_of c of
          None \<Rightarrow> Some (c # s, ipos, it, fs)
        | Some d \<Rightarrow> do {
            f \<leftarrow> mul64 (fs ! it) 10;
            f \<leftarrow> add64 f d;
            if f \<ge> 100 then Some (c # s, ipos, it, fs[it := f])
            else offset_loop s ipos it (fs[it := f])
          })"

text \<open>The time-offset: \<open>Some None\<close> is \<open>offset_error\<close>, else the text left and the seconds.\<close>

fun parse_offset :: "string \<Rightarrow> (string \<times> int) option option" where
  "parse_offset [] = Some None"
| "parse_offset (c # s) =
     (if c = CHR ''Z'' \<or> c = CHR ''z'' then Some (Some (s, 0))
      else if c = CHR ''+'' \<or> c = CHR ''-'' then do {
        let sign = (if c = CHR ''-'' then - 1 else 1);
        (pos, ipos, it, fs) \<leftarrow> offset_loop s s 0 [0, 0];
        if pos = ipos \<or> it < 1 \<or> fs ! 0 \<ge> 24 \<or> fs ! 1 \<ge> 60 then Some None
        else do {
          h \<leftarrow> mul64 (fs ! 0) kSecsPerHour;
          m \<leftarrow> mul64 (fs ! 1) kSecsPerMinute;
          secs \<leftarrow> add64 h m;
          secs \<leftarrow> mul64 secs sign;
          Some (Some (pos, secs))
        }
      }
      else Some None)"

text \<open>The time-secfrac: an error when no digit follows the period.\<close>

fun parse_secfrac :: "string \<Rightarrow> (string \<times> int) option option" where
  "parse_secfrac (CHR ''.'' # s) = do {
     (pos, scale, v) \<leftarrow> secfrac_loop s kNanosPerSecond 0;
     if pos = s then Some None
     else do { nanos \<leftarrow> mul64 scale v; Some (Some (pos, nanos)) }
   }"
| "parse_secfrac s = Some (Some (s, 0))"

definition FromRFC3339 :: "string \<Rightarrow> timestamp status_or option" where
  "FromRFC3339 s = do {
     parsed \<leftarrow> ParseTime s;
     case parsed of
       None \<Rightarrow> Some (Inl (InvalidArgument (s @ '': Failed to match RFC3339 date-time'')))
     | Some (pos, tm) \<Rightarrow> do {
         secfrac \<leftarrow> parse_secfrac (drop pos s);
         case secfrac of
           None \<Rightarrow> Some (Inl (InvalidArgument
             (s @ '': RFC3339 time-secfrac must include a digit'')))
         | Some (rest, nanos) \<Rightarrow> do {
             offset \<leftarrow> parse_offset rest;
             case offset of
               None \<Rightarrow> Some (Inl (InvalidArgument
                 (s @ '': Failed to match RFC3339 time-offset'')))
             | Some (rest, utc_offset_secs) \<Rightarrow>
                 if rest \<noteq> [] then Some (Inl (InvalidArgument
                   (s @ '': Extra data after RFC3339 date-time'')))
                 else do {
                   let sec = TimeZ tm;
                   lim \<leftarrow> sub64 (if utc_offset_secs \<ge> 0 then int64_max else int64_min)
                     utc_offset_secs;
                   if utc_offset_secs \<ge> 0 \<and> sec > lim
                   then Some (Inl (PositiveOverflow ''UTC offset''))
                   else if \<not> utc_offset_secs \<ge> 0 \<and> sec < lim
                   then Some (Inl (NegativeOverflow ''UTC offset''))
                   else do { t \<leftarrow> add64 sec utc_offset_secs; FromCounts t nanos }
                 }
           }
       }
   }"

partial_function (option) fraction_width :: "int \<Rightarrow> int \<Rightarrow> int option" where
  "fraction_width scale width =
     (if scale = 1 then Some width else fraction_width (scale sdiv 10) (width + 1))"

partial_function (option) strip_zeros :: "int \<Rightarrow> int \<Rightarrow> (int \<times> int) option" where
  "strip_zeros ss width =
     (if ss smod 10 = 0 then strip_zeros (ss sdiv 10) (width - 1) else Some (ss, width))"

text \<open>\<open>std::setfill('0') << std::setw(width)\<close>.\<close>

definition setw0 :: "int \<Rightarrow> string \<Rightarrow> string" where
  "setw0 width s = replicate (nat width - length s) CHR ''0'' @ s"

definition ToRFC3339 :: "timestamp \<Rightarrow> string option" where
  "ToRFC3339 ts = do {
     date_time \<leftarrow> FormatTime (ZTime (ts_sec ts + 0));
     fraction \<leftarrow>
       (if ts_nsec ts \<noteq> 0
        then do {
          width \<leftarrow> fraction_width kNanosPerSecond 0;
          (ss, width) \<leftarrow> strip_zeros (ts_nsec ts) width;
          Some (CHR ''.'' # setw0 width (to_string ss))
        }
        else Some []);
     Some (date_time @ fraction @ ''Z'')
   }"

text \<open>The \<open>seconds\<close> and \<open>nanos\<close> of a \<open>protobuf::Timestamp\<close>.\<close>

datatype proto_timestamp = ProtoTimestamp (proto_seconds: int) (proto_nanos: int)

definition FromProto :: "proto_timestamp \<Rightarrow> timestamp option" where
  "FromProto p =
     map_option
       (\<lambda>ts. case ts of
          Inl _ \<Rightarrow> (if proto_seconds p \<ge> 0 then Timestamp int64_max (kNanosPerSecond - 1)
                    else Timestamp int64_min 0)
        | Inr ts \<Rightarrow> ts)
       (FromCounts (proto_seconds p) (proto_nanos p))"

definition ToProto :: "timestamp \<Rightarrow> proto_timestamp" where
  "ToProto ts = ProtoTimestamp (ts_sec ts) (ts_nsec ts)"

text \<open>\<open>operator<\<close> compares the pairs; \<open>operator<=\<close> is \<open>!(b < a)\<close>.\<close>

definition Timestamp_less :: "timestamp \<Rightarrow> timestamp \<Rightarrow> bool" where
  "Timestamp_less a b \<longleftrightarrow> ts_sec a < ts_sec b \<or> ts_sec a = ts_sec b \<and> ts_nsec a < ts_nsec b"

definition Timestamp_less_eq :: "timestamp \<Rightarrow> timestamp \<Rightarrow> bool" where
  "Timestamp_less_eq a b \<longleftrightarrow> \<not> Timestamp_less b a"

instantiation timestamp :: linorder
begin

definition less_timestamp :: "timestamp \<Rightarrow> timestamp \<Rightarrow> bool" where
  "less_timestamp = Timestamp_less"

definition less_eq_timestamp :: "timestamp \<Rightarrow> timestamp \<Rightarrow> bool" where
  "less_eq_timestamp = Timestamp_less_eq"

instance
proof
  fix x y z :: timestamp
  note order_defs = less_timestamp_def less_eq_timestamp_def Timestamp_less_eq_def Timestamp_less_def
  show "x < y \<longleftrightarrow> x \<le> y \<and> \<not> y \<le> x"
    by (auto simp: order_defs)
  show "x \<le> x" by (simp add: order_defs)
  show "x \<le> y \<Longrightarrow> y \<le> z \<Longrightarrow> x \<le> z"
    by (auto simp: order_defs)
  show "x \<le> y \<Longrightarrow> y \<le> x \<Longrightarrow> x = y"
    by (auto simp: order_defs intro: timestamp.expand)
  show "x \<le> y \<or> y \<le> x"
    by (auto simp: order_defs)
qed

end

section \<open>Normalisation\<close>

lemma smod_nanos_range: "- kNanosPerSecond < x smod kNanosPerSecond" "x smod kNanosPerSecond < kNanosPerSecond"
  using smod_int_range [of kNanosPerSecond x] by (auto simp: abs_if split: if_splits)

lemma to_int32_smod_nanos: "to_int32 (x smod kNanosPerSecond) = x smod kNanosPerSecond"
  using smod_nanos_range [of x] by (intro to_int32_id) (simp add: in_int32_def)

lemma div_nanos_bounds:
  assumes "in_int64 x"
  shows "- 9223372037 \<le> x div kNanosPerSecond" "x div kNanosPerSecond \<le> 9223372036"
proof -
  have c: "int64_min div kNanosPerSecond = - 9223372037" "int64_max div kNanosPerSecond = 9223372036"
    by simp_all
  show "- 9223372037 \<le> x div kNanosPerSecond" "x div kNanosPerSecond \<le> 9223372036"
    using assms zdiv_mono1 [of int64_min x kNanosPerSecond] zdiv_mono1 [of x int64_max kNanosPerSecond]
    unfolding c in_int64_def by simp_all
qed

lemma FromCounts_exact:
  assumes "in_int64 sec" "in_int64 nsec"
  shows "FromCounts sec nsec =
    Some (let s = sec + nsec div kNanosPerSecond in
      if s > int64_max then Inl (PositiveOverflow kTimestampType)
      else if s < int64_min then Inl (NegativeOverflow kTimestampType)
      else Inr (Timestamp s (nsec mod kNanosPerSecond)))"
proof -
  define c where "c = nsec div kNanosPerSecond"
  define n where "n = nsec mod kNanosPerSecond"
  have c: "- 9223372037 \<le> c" "c \<le> 9223372036"
    unfolding c_def using div_nanos_bounds [OF assms(2)] .
  have "(0::int) < kNanosPerSecond" by simp
  note f = floor_by_trunc [OF this, of nsec]
  have F: "FromCounts sec nsec = do {
        high \<leftarrow> (if sec \<ge> 0 \<and> c > 0
                then map_option (\<lambda>lim. sec > lim) (sub64 int64_max c) else Some False);
        low \<leftarrow> (if sec < 0 \<and> c < 0
               then map_option (\<lambda>lim. sec < lim) (sub64 int64_min c) else Some False);
        if high then Some (Inl (PositiveOverflow kTimestampType))
        else if low then Some (Inl (NegativeOverflow kTimestampType))
        else do { s \<leftarrow> add64 sec c; Some (Inr (Timestamp s n)) }
      }"
    unfolding FromCounts_def Let_def to_int32_smod_nanos f(1) [symmetric] f(2) [symmetric] c_def n_def ..
  have s: "0 < c \<Longrightarrow> sub64 int64_max c = Some (int64_max - c)"
    "c < 0 \<Longrightarrow> sub64 int64_min c = Some (int64_min - c)"
    using c by (auto intro!: sub64_Some simp: in_int64_def)
  have a: "int64_min \<le> sec + c \<Longrightarrow> sec + c \<le> int64_max \<Longrightarrow> add64 sec c = Some (sec + c)"
    by (auto intro!: add64_Some simp: in_int64_def)
  show ?thesis
    unfolding F c_def [symmetric] n_def [symmetric]
    using assms(1) c by (auto simp: s a Let_def in_int64_def)
qed

lemma FromCounts_total:
  assumes "in_int64 sec" "in_int64 nsec" "in_int64 ((sec * kNanosPerSecond + nsec) div kNanosPerSecond)"
  shows "FromCounts sec nsec =
    Some (Inr (Timestamp ((sec * kNanosPerSecond + nsec) div kNanosPerSecond)
                         ((sec * kNanosPerSecond + nsec) mod kNanosPerSecond)))"
proof -
  have e: "(sec * kNanosPerSecond + nsec) div kNanosPerSecond = sec + nsec div kNanosPerSecond"
    "(sec * kNanosPerSecond + nsec) mod kNanosPerSecond = nsec mod kNanosPerSecond"
    by (simp_all add: add.commute)
  show ?thesis
    using assms(3) unfolding e FromCounts_exact [OF assms(1,2)]
    by (auto simp: Let_def in_int64_def)
qed

section \<open>Ratios\<close>

text \<open>The subsecond periods the code is designed for.\<close>

definition subsecond :: "int \<Rightarrow> bool" where
  "subsecond d \<longleftrightarrow> 0 < d \<and> d \<le> 1000000000000000000 \<and>
     (d dvd kNanosPerSecond \<or> kNanosPerSecond dvd d)"

lemma in_int64_between:
  "in_int64 a \<Longrightarrow> (0 \<le> b \<and> b \<le> a) \<or> (a \<le> b \<and> b \<le> 0) \<Longrightarrow> in_int64 b"
  by (auto simp: in_int64_def)

lemma trunc_parts:
  fixes a b :: int
  assumes "0 < b"
  shows "a = (a sdiv b) * b + a smod b" "0 \<le> a \<Longrightarrow> 0 \<le> a smod b \<and> 0 \<le> a sdiv b"
    "a < 0 \<Longrightarrow> a smod b \<le> 0 \<and> a sdiv b \<le> 0" "- b < a smod b" "a smod b < b"
proof -
  show "a = (a sdiv b) * b + a smod b" by (simp add: sdiv_mult_smod_eq)
  show "0 \<le> a \<Longrightarrow> 0 \<le> a smod b \<and> 0 \<le> a sdiv b"
    using assms by (simp add: smod_nonneg sdiv_nonneg pos_imp_zdiv_nonneg_iff)
  show "a < 0 \<Longrightarrow> a smod b \<le> 0 \<and> a sdiv b \<le> 0"
    using assms by (simp add: smod_neg sdiv_neg pos_imp_zdiv_nonneg_iff)
  show "- b < a smod b" "a smod b < b"
    using assms smod_int_range [of b a] by (auto simp: abs_if split: if_splits)
qed

lemma in_int64_trunc:
  assumes "0 < b" "in_int64 a"
  shows "in_int64 (a sdiv b * b)" "in_int64 (a smod b)" "in_int64 (a sdiv b)"
proof -
  define q r where "q = a sdiv b" and "r = a smod b"
  have a: "a = q * b + r" "0 \<le> a \<Longrightarrow> 0 \<le> r \<and> 0 \<le> q" "a < 0 \<Longrightarrow> r \<le> 0 \<and> q \<le> 0"
    using trunc_parts(1-3) [OF assms(1), of a] unfolding q_def r_def by blast+
  have q: "0 \<le> q \<Longrightarrow> q \<le> q * b" "q \<le> 0 \<Longrightarrow> q * b \<le> q"
    using assms(1) mult_left_mono [of 1 b q] mult_left_mono_neg [of 1 b q] by simp_all
  have "in_int64 (q * b) \<and> in_int64 r \<and> in_int64 q"
  proof (cases "0 \<le> a")
    case True
    with a q have "0 \<le> r" "0 \<le> q" "q \<le> q * b" by simp_all
    with a(1) have "0 \<le> q * b \<and> q * b \<le> a" "0 \<le> r \<and> r \<le> a" "0 \<le> q \<and> q \<le> a" by linarith+
    then show ?thesis using in_int64_between [OF assms(2)] by blast
  next
    case False
    with a q have "r \<le> 0" "q \<le> 0" "q * b \<le> q" by simp_all
    with a(1) have "a \<le> q * b \<and> q * b \<le> 0" "a \<le> r \<and> r \<le> 0" "a \<le> q \<and> q \<le> 0" by linarith+
    then show ?thesis using in_int64_between [OF assms(2)] by blast
  qed
  then show "in_int64 (a sdiv b * b)" "in_int64 (a smod b)" "in_int64 (a sdiv b)"
    by (simp_all add: q_def r_def)
qed

lemma div_in_int64: "0 < d \<Longrightarrow> in_int64 x \<Longrightarrow> in_int64 (x div d)"
proof -
  assume d: "0 < d" and x: "in_int64 x"
  show "in_int64 (x div d)"
  proof (cases "0 \<le> x")
    case True
    then have "0 \<le> x div d" "x div d \<le> x"
      using d zdiv_mono2 [of x 1 d] by (simp_all add: pos_imp_zdiv_nonneg_iff)
    then show ?thesis using in_int64_between [OF x] by blast
  next
    case False
    then have "x \<le> x div d" "x div d < 0"
      using d zdiv_mono2_neg [of x 1 d] by (simp_all add: neg_imp_zdiv_neg_iff pos_imp_zdiv_neg_iff)
    then show ?thesis using in_int64_between [OF x, of "x div d"] by simp
  qed
qed

text \<open>The code's floor of the sub-second count, and what it is worth in nanoseconds.\<close>

lemma floor_by_bias_neg:
  "0 < b \<Longrightarrow> (if a < 0 then a - (b - 1) else a) sdiv b = a div (b::int)"
  using floor_by_bias [of b "b - 1" a] by (simp add: if_distrib split: if_splits)

lemma scaled_seconds: "0 < d \<Longrightarrow> count * kNanosPerSecond div d div kNanosPerSecond = count div (d::int)"
proof -
  assume d: "0 < d"
  have "count * kNanosPerSecond div d div kNanosPerSecond = count * kNanosPerSecond div (d * kNanosPerSecond)"
    by (simp add: zdiv_zmult2_eq d)
  then show ?thesis by simp
qed

lemma FromRatio_floor:
  assumes "in_int64 count" "subsecond d"
  shows "FromRatio count 1 d =
    Some (Inr (Timestamp (count * kNanosPerSecond div d div kNanosPerSecond)
                         (count * kNanosPerSecond div d mod kNanosPerSecond)))"
proof -
  define s r where "s = count sdiv d" and "r = count smod d"
  have d: "0 < d" "d \<le> 1000000000000000000" using assms(2) by (auto simp: subsecond_def)
  have c: "count = s * d + r" "- d < r" "r < d"
    using trunc_parts(1,4,5) [OF d(1), of count] unfolding s_def r_def by auto
  have i: "in_int64 (s * d)" "in_int64 r" "in_int64 s"
    using in_int64_trunc [OF d(1) assms(1)] unfolding s_def r_def by auto
  have one: "int64_max sdiv 1 = int64_max" "int64_min sdiv 1 = int64_min" "(x::int) sdiv 1 = x" for x
    by simp_all
  have nlim: "\<not> int64_max < s" "\<not> s < int64_min" using i(3) by (auto simp: in_int64_def)
  have m1: "mul64 s 1 = Some s" "mul64 s d = Some (s * d)" "sub64 count (s * d) = Some r"
    using i c(1) mul64_Some [of s 1] mul64_Some [of s d] sub64_Some [of count "s * d"] by simp_all
  have F: "FromRatio count 1 d =
    (if d > kNanosPerSecond
     then do {
       let divider = d sdiv kNanosPerSecond;
       sscount \<leftarrow> (if r < 0 then sub64 r (divider - 1) else Some r);
       nsec \<leftarrow> mul64 (sscount sdiv divider) 1;
       FromCounts s nsec
     }
     else do {
       let multiplier = kNanosPerSecond sdiv d;
       nsec \<leftarrow> mul64 r multiplier;
       nsec \<leftarrow> mul64 nsec 1;
       FromCounts s nsec
     })"
    unfolding FromRatio_def Let_def one s_def [symmetric] by (simp add: nlim m1)
  have ii: "in_int64 (count * kNanosPerSecond div d div kNanosPerSecond)"
    unfolding scaled_seconds [OF d(1)] by (rule div_in_int64 [OF d(1) assms(1)])
  show ?thesis
  proof (cases "d > kNanosPerSecond")
    case True
    have "\<not> d dvd kNanosPerSecond" using True zdvd_imp_le [of d kNanosPerSecond] by auto
    then obtain q where q: "d = kNanosPerSecond * q" using assms(2) by (auto simp: subsecond_def)
    have q0: "0 < q" using d(1) q by simp
    have qd: "d sdiv kNanosPerSecond = q" using d(1) q by (simp add: sdiv_nonneg)
    define f where "f = r div q"
    have fb: "- kNanosPerSecond \<le> f" "f \<le> kNanosPerSecond"
    proof -
      have a: "(- kNanosPerSecond) * q \<le> r" "r \<le> kNanosPerSecond * q" using c(2,3) q by simp_all
      have e: "(- kNanosPerSecond) * q div q = - kNanosPerSecond"
        "kNanosPerSecond * q div q = kNanosPerSecond"
        using q0 by (simp_all only: nonzero_mult_div_cancel_right less_imp_neq [symmetric] not_False_eq_True)
      show "- kNanosPerSecond \<le> f" "f \<le> kNanosPerSecond"
        using zdiv_mono1 [OF a(1) q0] zdiv_mono1 [OF a(2) q0] unfolding e f_def .
    qed
    have sub: "r < 0 \<Longrightarrow> sub64 r (q - 1) = Some (r - (q - 1))"
      using c(2) d q q0 by (intro sub64_Some) (simp add: in_int64_def)
    have "FromRatio count 1 d = do { nsec \<leftarrow> mul64 f 1; FromCounts s nsec }"
      using True sub floor_by_bias_neg [OF q0, of r]
      unfolding F qd Let_def f_def by (cases "r < 0") simp_all
    also have "\<dots> = FromCounts s f"
      using fb mul64_Some [of f 1] by (simp add: in_int64_def)
    finally have 1: "FromRatio count 1 d = FromCounts s f" .
    have "count * kNanosPerSecond div d = count div q"
      unfolding q by (simp add: mult.commute [of count])
    also have "\<dots> = (r + q * (s * kNanosPerSecond)) div q"
      unfolding c(1) by (simp add: q algebra_simps)
    also have "\<dots> = s * kNanosPerSecond + f" using q0 by (simp add: f_def)
    finally have 2: "s * kNanosPerSecond + f = count * kNanosPerSecond div d" by simp
    have "in_int64 f" using fb by (simp add: in_int64_def)
    from FromCounts_total [OF i(3) this] show ?thesis unfolding 1 2 using ii by simp
  next
    case False
    have "d dvd kNanosPerSecond"
    proof (cases "d dvd kNanosPerSecond")
      case n: False
      then have "kNanosPerSecond dvd d" using assms(2) by (auto simp: subsecond_def)
      then have "d = kNanosPerSecond" using zdvd_imp_le [of kNanosPerSecond d] d(1) False by simp
      then show ?thesis by simp
    qed
    then obtain m where m: "kNanosPerSecond = d * m" by (elim dvdE)
    have m0: "0 < m" using d(1) m by (metis zero_less_mult_pos zero_less_numeral)
    have md: "kNanosPerSecond sdiv d = m" using d(1) m0 unfolding m by (simp add: sdiv_nonneg)
    have "- kNanosPerSecond \<le> r * m" "r * m \<le> kNanosPerSecond"
      using mult_right_mono [of "- d" r m] mult_right_mono [of r d m] c(2,3) m0
      unfolding m by simp_all
    then have rm: "in_int64 (r * m)" by (simp add: in_int64_def)
    have 1: "FromRatio count 1 d = FromCounts s (r * m)"
      using False mul64_Some [OF rm] mul64_Some [of "r * m" 1] rm
      unfolding F md Let_def by simp
    have "count * kNanosPerSecond div d = count * m" unfolding m using d(1) by simp
    also have "\<dots> = s * kNanosPerSecond + r * m" unfolding c(1) m by (simp add: algebra_simps)
    finally have 2: "s * kNanosPerSecond + r * m = count * kNanosPerSecond div d" by simp
    from FromCounts_total [OF i(3) rm] show ?thesis unfolding 1 2 using ii by simp
  qed
qed

lemma less_mult_iff_div: "0 < n \<Longrightarrow> a div n < c \<longleftrightarrow> a < c * (n::int)"
proof -
  assume n: "0 < n"
  have "c \<le> a div n \<longleftrightarrow> c * n \<le> a"
  proof
    assume "c \<le> a div n"
    then have "c * n \<le> a div n * n" using n by (intro mult_right_mono) simp_all
    also have "\<dots> \<le> a" using n pos_mod_sign [of n a] div_mult_mod_eq [of a n] by linarith
    finally show "c * n \<le> a" .
  next
    assume "c * n \<le> a"
    from zdiv_mono1 [OF this n] n show "c \<le> a div n" by simp
  qed
  then show "a div n < c \<longleftrightarrow> a < c * n" by linarith
qed

lemma FromRatio_multiple:
  assumes "in_int64 count" "0 < n" "in_int64 n"
  shows "FromRatio count n 1 =
    Some (if count * n > int64_max then Inl (PositiveOverflow kTimestampType)
          else if count * n < int64_min then Inl (NegativeOverflow kTimestampType)
          else Inr (Timestamp (count * n) 0))"
proof -
  have pos: "0 \<le> count \<Longrightarrow> int64_max sdiv n < count \<longleftrightarrow> int64_max < count * n"
    and neg: "count < 0 \<Longrightarrow> count < int64_min sdiv n \<longleftrightarrow> count * n < int64_min"
  proof -
    show "int64_max sdiv n < count \<longleftrightarrow> int64_max < count * n"
      using assms(2) by (simp add: sdiv_nonneg less_mult_iff_div)
    show "count < int64_min sdiv n \<longleftrightarrow> count * n < int64_min" if "count < 0"
    proof -
      have "count < int64_min sdiv n \<longleftrightarrow> 9223372036854775808 div n < - count"
        using assms(2) by (simp add: sdiv_nonneg less_minus_iff)
      also have "\<dots> \<longleftrightarrow> 9223372036854775808 < - count * n"
        using assms(2) by (simp add: less_mult_iff_div)
      also have "\<dots> \<longleftrightarrow> count * n < int64_min"
        using less_minus_iff [of 9223372036854775808 "count * n"] by simp
      finally show ?thesis .
    qed
  qed
  have s1: "count sdiv 1 = count" by simp
  have cn: "count * n sdiv n = count"
    using assms(2) mult_nonneg_nonneg [of count n] mult_neg_pos [of count n]
    by (cases "0 \<le> count") (simp_all add: sdiv_nonneg sdiv_neg flip: mult_minus_left)
  consider "0 \<le> count \<and> count * n > int64_max" | "count < 0 \<and> count * n < int64_min"
    | "in_int64 (count * n)" "\<not> (0 \<le> count \<and> count * n > int64_max)"
      "\<not> (count < 0 \<and> count * n < int64_min)"
    using mult_nonneg_nonneg [of count n] mult_neg_pos [of count n] assms(2)
    unfolding in_int64_def by linarith
  then show ?thesis
  proof cases
    case 1
    then show ?thesis unfolding FromRatio_def Let_def s1 using pos by simp
  next
    case 2
    then show ?thesis unfolding FromRatio_def Let_def s1 using neg by (simp add: sgn_if)
  next
    case 3
    have "FromRatio count n 1 = FromCounts (count * n) 0"
      unfolding FromRatio_def Let_def s1
      using 3 pos neg mul64_Some [OF 3(1)] mul64_Some [of "count * n" 1] assms
        sub64_Some [of count count] mul64_Some [of 0 n] mul64_Some [of 0 kNanosPerSecond]
      by (auto simp: sdiv_nonneg in_int64_def cn)
    then show ?thesis
      using 3 FromCounts_exact [OF 3(1), of 0] by (simp add: in_int64_def)
  qed
qed


lemma ToRatio_FromRatio:
  assumes "in_int64 count" "0 < d" "d dvd kNanosPerSecond" "vmin \<le> count" "count \<le> vmax"
  shows "ToRatio (Timestamp (count * kNanosPerSecond div d div kNanosPerSecond)
                            (count * kNanosPerSecond div d mod kNanosPerSecond)) vmin vmax 1 d =
    Some (if count div d < int64_min sdiv d then Inl (NegativeOverflow kTimePointType)
          else Inr count)"
proof -
  obtain m where m: "kNanosPerSecond = d * m" using assms(3) by (elim dvdE)
  have m0: "0 < m" using assms(2) m by (metis zero_less_mult_pos zero_less_numeral)
  have md: "kNanosPerSecond sdiv d = m" using assms(2) m0 unfolding m by (simp add: sdiv_nonneg)
  define s r where "s = count div d" and "r = count mod d"
  have c: "count = s * d + r" "0 \<le> r" "r < d"
    using assms(2) by (simp_all add: s_def r_def)
  have "count * kNanosPerSecond div d = count * m" unfolding m using assms(2) by simp
  then have T: "count * kNanosPerSecond div d div kNanosPerSecond = s"
    "count * kNanosPerSecond div d mod kNanosPerSecond = r * m"
    unfolding m s_def r_def using m0 by (simp_all add: mult_mod_left)
  have dl: "d \<le> kNanosPerSecond" using assms(2,3) zdvd_imp_le by auto
  have si: "in_int64 s" unfolding s_def by (rule div_in_int64) (use assms in auto)
  have up: "\<not> int64_max sdiv d < s" if "0 \<le> s"
  proof -
    have "s \<le> int64_max div d" unfolding s_def
      using assms(1,2) by (intro zdiv_mono1) (auto simp: in_int64_def)
    then show ?thesis using assms(2) by (simp add: sdiv_nonneg)
  qed
  have one: "(x::int) sdiv 1 = x" for x by simp
  show ?thesis
  proof (cases "s < int64_min sdiv d")
    case True
    have "int64_min sdiv d \<le> 0" using trunc_parts(3) [OF assms(2), of int64_min] by simp
    with True have "\<not> 0 \<le> s" by simp
    then show ?thesis
      using True unfolding T ToRatio_def Let_def timestamp.sel one s_def [symmetric] by simp
  next
    case False
    have sd: "in_int64 (s * d)"
    proof (cases "0 \<le> s")
      case True
      with assms(2) c have "0 \<le> s * d" "s * d \<le> count" by simp_all
      then show ?thesis using assms(1) in_int64_between by blast
    next
      case neg: False
      have "(int64_min sdiv d) * d \<le> s * d" using False assms(2) by (intro mult_right_mono) simp_all
      moreover have "int64_min \<le> (int64_min sdiv d) * d"
        using trunc_parts(1,3) [OF assms(2), of int64_min] by simp
      moreover have "s * d \<le> 0" using neg assms(2) by (simp add: mult_nonpos_nonneg)
      ultimately show ?thesis by (simp add: in_int64_def)
    qed
    have nc: "(if d < kNanosPerSecond then Some (r * m sdiv (kNanosPerSecond sdiv d))
        else mul64 (r * m) (d sdiv kNanosPerSecond)) = Some r"
    proof (cases "d < kNanosPerSecond")
      case True
      then show ?thesis unfolding md using c m0 by (simp add: sdiv_nonneg)
    next
      case False
      then have d: "d = kNanosPerSecond" using dl by simp
      then have "m = 1" using m assms(2) by simp
      with d show ?thesis using c mul64_Some [of r 1] by (simp add: sdiv_nonneg in_int64_def)
    qed
    have lim: "sub64 int64_max r = Some (int64_max - r)"
      using c dl by (intro sub64_Some) (simp add: in_int64_def)
    have nl: "\<not> int64_max - r < s * d" using assms(1) c by (simp add: in_int64_def)
    have ad: "add64 (s * d) r = Some count" using assms(1) c by (simp add: add64_Some)
    show ?thesis
      using False up assms(4,5)
      unfolding T ToRatio_def Let_def timestamp.sel one s_def [symmetric] mul64_Some [OF sd]
        Option.bind.simps nc lim ad by (simp add: nl)
  qed
qed

section \<open>RFC 3339 text\<close>

lemma power10_sdiv: "(10::int) ^ Suc k sdiv 10 = 10 ^ k"
  by (simp add: sdiv_nonneg)

text \<open>
  One digit more: the value times what is left of the scale stays below a second, so the step is in
  the 64 bits.
\<close>

lemma secfrac_loop_step:
  assumes "digit_of c = Some d" "0 \<le> v" "v * 10 ^ Suc k + 10 ^ Suc k \<le> kNanosPerSecond"
  shows "secfrac_loop (c # s) (10 ^ Suc k) v = secfrac_loop s (10 ^ k) (v * 10 + d)"
    "0 \<le> v * 10 + d" "(v * 10 + d) * 10 ^ k + 10 ^ k \<le> kNanosPerSecond"
proof -
  note d = digit_of_range [OF assms(1)]
  have pos: "(1::int) \<le> 10 ^ k" by simp
  have le: "(v * 10 + 9) * 10 ^ k + 10 ^ k \<le> kNanosPerSecond"
    using assms(3) by (simp add: algebra_simps)
  have "(v * 10 + d) * 10 ^ k \<le> (v * 10 + 9) * 10 ^ k" using d by (intro mult_right_mono) auto
  with le show "(v * 10 + d) * 10 ^ k + 10 ^ k \<le> kNanosPerSecond" by linarith
  have "v * 10 + 9 \<le> (v * 10 + 9) * 10 ^ k"
    using mult_left_mono [OF pos, of "v * 10 + 9"] assms(2) by simp
  also have "\<dots> \<le> kNanosPerSecond" using order.trans [OF _ le] pos by simp
  finally have "v * 10 + 9 \<le> kNanosPerSecond" .
  then have "in_int64 (v * 10)" "in_int64 (v * 10 + d)"
    using d assms(2) by (simp_all add: in_int64_def)
  moreover have "(1::int) < 10 ^ Suc k" by (rule one_less_power) simp_all
  then have "(10::int) ^ Suc k \<noteq> 1" by linarith
  ultimately show "secfrac_loop (c # s) (10 ^ Suc k) v = secfrac_loop s (10 ^ k) (v * 10 + d)"
    using assms(1) by (simp add: arith64 power10_sdiv del: power_Suc)
  show "0 \<le> v * 10 + d" using assms(2) d by simp
qed

lemma secfrac_loop_digits:
  assumes "all_digits ds" "length ds \<le> k" "no_digit rest" "0 \<le> v"
    "v * 10 ^ k + 10 ^ k \<le> kNanosPerSecond"
  shows "secfrac_loop (ds @ rest) (10 ^ k) v
    = Some (rest, 10 ^ (k - length ds), v * 10 ^ length ds + digits_val ds)"
  using assms
proof (induction ds arbitrary: k v)
  case Nil
  then show ?case by (cases rest) auto
next
  case (Cons c ds)
  obtain d where d: "digit_of c = Some d" "digit_val c = d"
    using Cons.prems(1) by (auto simp: digit_val_def)
  obtain j where k: "k = Suc j" using Cons.prems(2) by (cases k) auto
  note step = secfrac_loop_step [OF d(1) Cons.prems(4) Cons.prems(5) [unfolded k]]
  have "secfrac_loop (ds @ rest) (10 ^ j) (v * 10 + d) =
      Some (rest, 10 ^ (j - length ds), (v * 10 + d) * 10 ^ length ds + digits_val ds)"
    using Cons.prems k by (intro Cons.IH step(2,3)) simp_all
  moreover have "(v * 10 + d) * 10 ^ length ds + digits_val ds
      = v * 10 ^ length (c # ds) + digits_val (c # ds)"
    using d by (simp add: digits_val_Cons algebra_simps)
  ultimately show ?case unfolding k by (simp only: append_Cons step(1) length_Cons diff_Suc_Suc)
qed

lemma secfrac_loop_bounds:
  assumes "0 \<le> v" "v * 10 ^ k + 10 ^ k \<le> kNanosPerSecond"
  shows "\<exists>rest scale' v'. secfrac_loop s (10 ^ k) v = Some (rest, scale', v') \<and>
    0 \<le> v' \<and> v' * scale' + scale' \<le> kNanosPerSecond \<and> 0 < scale'"
  using assms
proof (induction s arbitrary: k v)
  case (Cons c s)
  show ?case
  proof (cases "digit_of c")
    case (Some d)
    show ?thesis
    proof (cases k)
      case 0
      then show ?thesis using Cons.IH [of v 0] Cons.prems Some by simp
    next
      case (Suc j)
      note step = secfrac_loop_step [OF Some Cons.prems(1) Cons.prems(2) [unfolded Suc]]
      show ?thesis unfolding Suc step(1) by (rule Cons.IH [OF step(2,3)])
    qed
  qed (use Cons.prems in simp)
qed simp

lemma parse_secfrac_bounds:
  "parse_secfrac s = Some None \<or>
     (\<exists>rest n. parse_secfrac s = Some (Some (rest, n)) \<and> 0 \<le> n \<and> n < kNanosPerSecond)"
proof (induction s rule: parse_secfrac.induct)
  case (1 s)
  have "(0::int) * 10 ^ 9 + 10 ^ 9 \<le> kNanosPerSecond" by simp
  from secfrac_loop_bounds [OF order.refl this, of s] obtain p sc v
    where l: "secfrac_loop s kNanosPerSecond 0 = Some (p, sc, v)"
      "0 \<le> v" "v * sc + sc \<le> kNanosPerSecond" "0 < sc" by auto
  then have n: "0 \<le> sc * v" "sc * v < kNanosPerSecond" by (simp_all add: mult.commute)
  then have "mul64 sc v = Some (sc * v)" by (simp add: arith64 in_int64_def)
  with l(1) n show ?case by simp
qed simp_all

text \<open>The fields stay below 1000: the loop leaves a field as soon as it reaches 100.\<close>

lemma offset_loop_fields:
  assumes "length fs = 2" "it < 2" "\<forall>f \<in> set fs. 0 \<le> f \<and> f < 100"
  shows "\<exists>rest ipos' it' fs'. offset_loop s ipos it fs = Some (rest, ipos', it', fs') \<and>
    length fs' = 2 \<and> (\<forall>f \<in> set fs'. 0 \<le> f)"
  using assms
proof (induction s arbitrary: ipos it fs)
  case (Cons c s)
  show ?case
  proof (cases "c = CHR '':''")
    case True
    show ?thesis
    proof (cases "it + 1 = length fs \<or> c # s = ipos")
      case False
      then have "it = 0" using Cons.prems(1,2) by auto
      with Cons.IH [of fs "it + 1" s] Cons.prems True False show ?thesis by simp
    qed (use Cons.prems True in auto)
  next
    case colon: False
    show ?thesis
    proof (cases "digit_of c")
      case (Some d)
      define f where "f = fs ! it * 10 + d"
      have "fs ! it \<in> set fs" using Cons.prems(1,2) by simp
      then have r: "0 \<le> fs ! it" "fs ! it < 100" using Cons.prems(3) by auto
      then have f: "0 \<le> f" "mul64 (fs ! it) 10 = Some (fs ! it * 10)" "add64 (fs ! it * 10) d = Some f"
        using digit_of_range [OF Some] unfolding f_def by (simp_all add: arith64 in_int64_def)
      show ?thesis
      proof (cases "f \<ge> 100")
        case True
        then show ?thesis
          using Cons.prems(1,3) f colon Some set_update_subset_insert [of fs it f] by fastforce
      next
        case False
        then have "\<forall>x \<in> set (fs[it := f]). 0 \<le> x \<and> x < 100"
          using Cons.prems(3) f(1) set_update_subset_insert [of fs it f] by fastforce
        with Cons.IH [of "fs[it := f]" it ipos] Cons.prems(1,2) False f colon Some show ?thesis by simp
      qed
    qed (use Cons.prems colon in auto)
  qed
qed simp

lemma parse_offset_bounds:
  "parse_offset s = Some None \<or>
     (\<exists>rest off. parse_offset s = Some (Some (rest, off)) \<and> \<bar>off\<bar> < kSecsPerDay)"
proof (cases s)
  case (Cons c s')
  obtain p ip it fs where l: "offset_loop s' s' 0 [0, 0] = Some (p, ip, it, fs)"
    "length fs = 2" "\<forall>f \<in> set fs. 0 \<le> f"
    using offset_loop_fields [of "[0, 0]" 0 s' s'] by auto
  then have r: "0 \<le> fs ! 0" "0 \<le> fs ! 1" by simp_all
  show ?thesis
  proof (cases "fs ! 0 \<ge> 24 \<or> fs ! 1 \<ge> 60")
    case False
    define secs where "secs = fs ! 0 * kSecsPerHour + fs ! 1 * kSecsPerMinute"
    have secs: "0 \<le> secs" "secs < kSecsPerDay" using r False by (simp_all add: secs_def)
    have "mul64 (fs ! 0) kSecsPerHour = Some (fs ! 0 * kSecsPerHour)"
      "mul64 (fs ! 1) kSecsPerMinute = Some (fs ! 1 * kSecsPerMinute)"
      "add64 (fs ! 0 * kSecsPerHour) (fs ! 1 * kSecsPerMinute) = Some secs"
      "mul64 secs (- 1) = Some (- secs)" "mul64 secs 1 = Some secs"
      using r False secs by (simp_all add: mul64_def add64_def chk64_def in_int64_def secs_def)
    with l secs show ?thesis unfolding Cons by (simp add: Let_def)
  qed (use l Cons in auto)
qed simp

lemma TimeZ_parse_bounds:
  assumes "parse_tm tm"
  shows "\<bar>TimeZ tm\<bar> \<le> 68000000000000000"
proof -
  let ?y = "march_year (tm_year tm + 1900) (tm_mon tm + 1)"
  have b: "0 \<le> tm_mon tm" "tm_mon tm \<le> 11" "1 \<le> tm_mday tm" "tm_mday tm \<le> 31"
    "0 \<le> tm_hour tm" "tm_hour tm \<le> 23" "0 \<le> tm_min tm" "tm_min tm \<le> 59"
    "0 \<le> tm_sec tm" "tm_sec tm \<le> 60" "int32_min \<le> tm_year tm" "tm_year tm \<le> int32_max"
    using assms
    by (auto simp: parse_tm_def in_int32_def valid_date_def days_in_month_def split: if_splits)
  have m: "tm_mon tm + 1 \<in> {1,2,3,4,5,6,7,8,9,10,11,12}"
    using b(1,2) by (intro months_cases) simp_all
  then have ms: "0 \<le> month_start (tm_mon tm + 1)" "month_start (tm_mon tm + 1) \<le> 337"
    by (elim insertE emptyE; simp)+
  have "int32_min + 1899 \<le> ?y" "?y \<le> int32_max + 1900"
    using b(11,12) by (auto simp: march_year_def)
  then have "year_start (int32_min + 1899) \<le> year_start ?y" "year_start ?y \<le> year_start (int32_max + 1900)"
    by (simp_all only: year_start_mono)
  moreover have "year_start (int32_min + 1899) = - 784351602710"
    "year_start (int32_max + 1900) = 784352989899"
    by (simp_all add: year_start_def)
  ultimately have "- 784351602710 \<le> year_start ?y" "year_start ?y \<le> 784352989899"
    by simp_all
  then have "- 784352322179 \<le> day_number (tm_year tm + 1900) (tm_mon tm + 1) (tm_mday tm)"
    "day_number (tm_year tm + 1900) (tm_mon tm + 1) (tm_mday tm) \<le> 784352270799"
    using b(3,4) ms unfolding day_number_def by linarith+
  then show ?thesis
    using b(5-10) unfolding TimeZ_day_number [OF b(1,2)] abs_le_iff by linarith
qed

lemma FromRFC3339_parsed:
  assumes "ParseTime s = Some (Some (pos, tm))" "parse_secfrac (drop pos s) = Some (Some (r, n))"
    "parse_offset r = Some (Some ([], off))"
  shows "FromRFC3339 s = Some (Inr (Timestamp (TimeZ tm + off) n))"
    "in_int64 (TimeZ tm + off)" "0 \<le> n" "n < kNanosPerSecond"
proof -
  have t: "\<bar>TimeZ tm\<bar> \<le> 68000000000000000" and f: "\<bar>off\<bar> < kSecsPerDay"
    using TimeZ_parse_bounds [OF ParseTime_sound(3) [OF assms(1)]] parse_offset_bounds [of r] assms(3)
    by auto
  show nb: "0 \<le> n" "n < kNanosPerSecond" using parse_secfrac_bounds [of "drop pos s"] assms(2) by auto
  show i: "in_int64 (TimeZ tm + off)"
    using t f unfolding in_int64_def abs_le_iff abs_less_iff by linarith
  have s1: "sub64 int64_max off = Some (int64_max - off)" if "0 \<le> off"
    using that f by (intro sub64_Some) (simp add: in_int64_def)
  have s2: "sub64 int64_min off = Some (int64_min - off)" if "\<not> 0 \<le> off"
    using that f by (intro sub64_Some) (simp add: in_int64_def)
  have l: "\<not> int64_max - off < TimeZ tm" "\<not> TimeZ tm < int64_min - off"
    using i unfolding in_int64_def by linarith+
  have "FromRFC3339 s = FromCounts (TimeZ tm + off) n"
    unfolding FromRFC3339_def assms option.case prod.case Let_def Option.bind.simps add64_Some [OF i]
    using s1 s2 l by (cases "0 \<le> off") simp_all
  also have "\<dots> = Some (Inr (Timestamp (TimeZ tm + off) n))"
    using i nb by (subst FromCounts_exact) (auto simp: in_int64_def)
  finally show "FromRFC3339 s = Some (Inr (Timestamp (TimeZ tm + off) n))" .
qed

lemma FromRFC3339_total:
  "\<exists>r. FromRFC3339 s = Some r \<and>
     (case r of Inl e \<Rightarrow> code e = kInvalidArgument
      | Inr ts \<Rightarrow> in_int64 (ts_sec ts) \<and> 0 \<le> ts_nsec ts \<and> ts_nsec ts < kNanosPerSecond)"
proof -
  obtain parsed where p: "ParseTime s = Some parsed" using ParseTime_defined by blast
  show ?thesis
  proof (cases parsed)
    case None
    then show ?thesis using p by (simp add: FromRFC3339_def InvalidArgument_def)
  next
    case (Some pt)
    then obtain pos tm where p: "ParseTime s = Some (Some (pos, tm))" using p by (cases pt) auto
    from parse_secfrac_bounds [of "drop pos s"]
    consider (bad) "parse_secfrac (drop pos s) = Some None"
      | (frac) r n where "parse_secfrac (drop pos s) = Some (Some (r, n))" by blast
    then show ?thesis
    proof cases
      case bad
      then show ?thesis using p by (simp add: FromRFC3339_def InvalidArgument_def)
    next
      case n: frac
      from parse_offset_bounds [of r] consider (bad) "parse_offset r = Some None"
        | (off) r' off where "parse_offset r = Some (Some (r', off))" by blast
      then show ?thesis
      proof cases
        case bad
        then show ?thesis using p n by (simp add: FromRFC3339_def InvalidArgument_def)
      next
        case o: off
        show ?thesis
        proof (cases "r' = []")
          case False
          then show ?thesis using p n o by (simp add: FromRFC3339_def InvalidArgument_def)
        next
          case True
          show ?thesis using FromRFC3339_parsed [OF p n o [unfolded True]] by simp
        qed
      qed
    qed
  qed
qed


text \<open>Writing the fraction.\<close>

lemma fraction_width_9: "fraction_width kNanosPerSecond 0 = Some 9"
  by (simp add: fraction_width.simps sdiv_nonneg)

lemma strip_zeros_ex:
  assumes "0 < ss"
  shows "\<exists>j ss'. strip_zeros ss w = Some (ss', w - int j) \<and> ss = ss' * 10 ^ j \<and> 0 < ss' \<and> ss' mod 10 \<noteq> 0"
  using assms
proof (induction "nat ss" arbitrary: ss w rule: less_induct)
  case less
  show ?case
  proof (cases "ss mod 10 = 0")
    case False
    then show ?thesis
      using less.prems by (intro exI [of _ 0] exI [of _ ss]) (simp add: strip_zeros.simps smod_nonneg)
  next
    case True
    define q where "q = ss div 10"
    have q: "ss = q * 10" using True by (auto simp: q_def)
    have "0 < q" using q less.prems by simp
    moreover have "nat q < nat ss" using q less.prems by simp
    ultimately obtain j ss' where "strip_zeros q (w - 1) = Some (ss', w - 1 - int j)"
      "q = ss' * 10 ^ j" "0 < ss'" "ss' mod 10 \<noteq> 0"
      using less.hyps [of q "w - 1"] by blast
    moreover have "strip_zeros ss w = strip_zeros q (w - 1)"
      using True less.prems by (subst strip_zeros.simps) (simp add: smod_nonneg sdiv_nonneg q_def)
    ultimately show ?thesis
      using q by (intro exI [of _ "Suc j"] exI [of _ ss']) (simp add: algebra_simps)
  qed
qed

lemma fraction_text:
  assumes "0 < n" "n < kNanosPerSecond" "no_digit rest"
  shows "\<exists>ss w. strip_zeros n 9 = Some (ss, w) \<and>
    parse_secfrac (CHR ''.'' # setw0 w (to_string ss) @ rest) = Some (Some (rest, n))"
proof -
  obtain j ss where j: "strip_zeros n 9 = Some (ss, 9 - int j)" "n = ss * 10 ^ j" "0 < ss"
    using strip_zeros_ex [OF assms(1)] by blast
  have "(10::int) ^ j \<le> ss * 10 ^ j" using j(3) by simp
  also have "\<dots> < 10 ^ 9" using assms(2) j(2) by simp
  finally have "(10::int) ^ j < 10 ^ 9" .
  then have j9: "j < 9" by (rule power_less_imp_less_exp [rotated]) simp
  have "ss * 10 ^ j < 10 ^ (9 - j) * 10 ^ j" using j9 assms(2) j(2) by (simp flip: power_add)
  then have "ss < 10 ^ (9 - j)" by simp
  then have "nat ss < 10 ^ (9 - j)" using j(3) by (simp add: nat_less_iff)
  then have len: "length (dec (nat ss)) \<le> 9 - j" using j9 by (intro length_dec_le) simp_all
  define ds where "ds = setw0 (9 - int j) (to_string ss)"
  have ds: "all_digits ds" "length ds = 9 - j" "digits_val ds = ss" "ds \<noteq> []"
  proof -
    have n: "nat (9 - int j) = 9 - j" by simp
    show "all_digits ds" "length ds = 9 - j" "digits_val ds = ss"
      using j(3) len unfolding ds_def setw0_def to_string_def n by simp_all
    then show "ds \<noteq> []" using j9 by auto
  qed
  have "secfrac_loop (ds @ rest) (10 ^ 9) 0 = Some (rest, 10 ^ (9 - length ds), ss)"
    using secfrac_loop_digits [OF ds(1) _ assms(3), of 9 0] ds by simp
  moreover have "mul64 (10 ^ j) ss = Some n"
    using j(2) assms(1,2) by (simp add: mul64_def chk64_def in_int64_def mult.commute)
  moreover have "9 - length ds = j" using ds(2) j9 by simp
  moreover have "rest \<noteq> ds @ rest" using ds(4) by simp
  ultimately have "parse_secfrac (CHR ''.'' # ds @ rest) = Some (Some (rest, n))"
    by simp
  then show ?thesis using j(1) unfolding ds_def by blast
qed

definition normalized :: "timestamp \<Rightarrow> bool" where
  "normalized ts \<longleftrightarrow> in_int64 (ts_sec ts) \<and> 0 \<le> ts_nsec ts \<and> ts_nsec ts < kNanosPerSecond"

lemma in_int32_tm_year: "in_int32 (tm_year (ZTime s))"
  unfolding ZTime_def Let_def tm.select_convs by (rule in_int32_to_int32)

lemma ToRFC3339_FromRFC3339:
  assumes "normalized ts" "in_int32 (civil_year (ts_sec ts) - 1900)"
  shows "\<exists>s. ToRFC3339 ts = Some s \<and> FromRFC3339 s = Some (Inr ts)"
proof -
  let ?tm = "ZTime (ts_sec ts)"
  have tm: "TimeZ ?tm = ts_sec ts" "civil_tm ?tm" using TimeZ_ZTime_aux [OF assms(2)] .
  note y = in_int32_tm_year [of "ts_sec ts"]
  obtain t where t: "year_text (tm_year ?tm + 1900) t" "FormatTime ?tm = Some (date_time_text t ?tm)"
    using FormatTime_text [OF tm(2)] by blast
  have p: "no_digit rest \<Longrightarrow> ParseTime (date_time_text t ?tm @ rest) =
      Some (Some (length (date_time_text t ?tm), ?tm))" for rest
    by (rule ParseTime_date_time_text [OF t(1) parse_tm_civil [OF tm(2) y]])
  obtain fr where fr: "ToRFC3339 ts = Some (date_time_text t ?tm @ fr @ ''Z'')"
    "parse_secfrac (fr @ ''Z'') = Some (Some (''Z'', ts_nsec ts))" "no_digit (fr @ ''Z'')"
  proof (cases "ts_nsec ts = 0")
    case True
    then show ?thesis using that [of "[]"] t(2) by (simp add: ToRFC3339_def)
  next
    case False
    then obtain ss w where "strip_zeros (ts_nsec ts) 9 = Some (ss, w)"
      "parse_secfrac (CHR ''.'' # setw0 w (to_string ss) @ ''Z'') = Some (Some (''Z'', ts_nsec ts))"
      using fraction_text [of "ts_nsec ts" "''Z''"] assms(1) by (auto simp: normalized_def)
    then show ?thesis
      using that [of "CHR ''.'' # setw0 w (to_string ss)"] t(2) False
      by (simp add: ToRFC3339_def fraction_width_9)
  qed
  have "FromRFC3339 (date_time_text t ?tm @ fr @ ''Z'') =
      Some (Inr (Timestamp (TimeZ ?tm + 0) (ts_nsec ts)))"
    by (rule FromRFC3339_parsed(1) [OF p [OF fr(3)], where r = "''Z''"]) (simp_all add: fr(2))
  with fr(1) tm(1) show ?thesis by simp
qed

lemma offset_loop_digits:
  assumes "a < 10" "b < 10" "c < 10" "d < 10"
  defines "s \<equiv> [digit_char a, digit_char b, CHR '':'', digit_char c, digit_char d]"
  shows "offset_loop s s 0 [0, 0]
    = Some ([], [digit_char c, digit_char d], 1, [int a * 10 + int b, int c * 10 + int d])"
proof -
  have n: "digit_char d \<noteq> CHR '':''" if "d < 10" for d
    using digit_of_digit_char [OF that] by auto
  show ?thesis
    using assms(1-4) n unfolding s_def
    by (simp add: digit_of_digit_char mul64_def add64_def chk64_def in_int64_def)
qed

lemma pad02_nat:
  assumes "0 \<le> v" "v \<le> 99"
  obtains a b where "pad02 v = [digit_char a, digit_char b]" "v = int a * 10 + int b" "a < 10" "b < 10"
proof (rule that [OF pad02_def])
  have "0 \<le> v div 10" "v div 10 \<le> 99 div 10" "0 \<le> v mod 10" "v mod 10 < 10"
    using assms by (auto intro: zdiv_mono1)
  then show "nat (v div 10) < 10" "nat (v mod 10) < 10"
    "v = int (nat (v div 10)) * 10 + int (nat (v mod 10))"
    by (simp_all only: nat_less_iff of_nat_numeral nat_0_le div_mult_mod_eq)
qed

lemma offset_loop_pad02:
  assumes "0 \<le> h" "h \<le> 23" "0 \<le> mi" "mi \<le> 59"
  shows "offset_loop (pad02 h @ CHR '':'' # pad02 mi) (pad02 h @ CHR '':'' # pad02 mi) 0 [0, 0]
    = Some ([], pad02 mi, 1, [h, mi])"
proof -
  obtain a b where "pad02 h = [digit_char a, digit_char b]" "h = int a * 10 + int b" "a < 10" "b < 10"
    using pad02_nat [of h] assms by auto
  moreover obtain c d where "pad02 mi = [digit_char c, digit_char d]" "mi = int c * 10 + int d"
    "c < 10" "d < 10"
    using pad02_nat [of mi] assms by auto
  ultimately show ?thesis using offset_loop_digits [of a b c d] by simp
qed

lemma FromRFC3339_offset:
  assumes "year_text (tm_year tm + 1900) t" "parse_tm tm" "0 \<le> h" "h \<le> 23" "0 \<le> mi" "mi \<le> 59"
    "c \<in> {CHR ''+'', CHR ''-''}"
  shows "FromRFC3339 (date_time_text t tm @ c # pad02 h @ CHR '':'' # pad02 mi) =
    Some (Inr (Timestamp (TimeZ tm + (if c = CHR ''-'' then - 1 else 1) * (h * 3600 + mi * 60)) 0))"
proof -
  let ?o = "pad02 h @ CHR '':'' # pad02 mi"
  have "no_digit (c # ?o)" using assms(7) by auto
  note p = ParseTime_date_time_text [OF assms(1,2) this]
  have f: "parse_secfrac (drop (length (date_time_text t tm)) (date_time_text t tm @ c # ?o))
      = Some (Some (c # ?o, 0))"
    using assms(7) by auto
  have o: "parse_offset (c # ?o) = Some (Some ([], (h * 3600 + mi * 60) * (if c = CHR ''-'' then - 1 else 1)))"
    using offset_loop_pad02 [OF assms(3-6)] assms(3-7) pad02_not_Nil [of mi, symmetric]
    by (elim insertE emptyE) (simp_all add: mul64_def add64_def chk64_def in_int64_def)
  show ?thesis using FromRFC3339_parsed(1) [OF p f o] by (simp add: mult.commute)
qed

section \<open>Order and protobufs\<close>

definition total_nanos :: "timestamp \<Rightarrow> int" where
  "total_nanos ts = ts_sec ts * kNanosPerSecond + ts_nsec ts"

lemma normalized_less_iff:
  assumes "normalized a" "normalized b"
  shows "a < b \<longleftrightarrow> total_nanos a < total_nanos b"
  using assms unfolding normalized_def less_timestamp_def Timestamp_less_def total_nanos_def by linarith

lemma FromProto_ToProto: "normalized ts \<Longrightarrow> FromProto (ToProto ts) = Some ts"
  by (cases ts) (auto simp: FromProto_def ToProto_def normalized_def FromCounts_exact in_int64_def)

lemma FromProto_saturates:
  assumes "in_int64 (proto_seconds p)" "in_int64 (proto_nanos p)"
  defines "t \<equiv> proto_seconds p + proto_nanos p div kNanosPerSecond"
  shows "FromProto p = Some
    (if t > int64_max then Timestamp int64_max (kNanosPerSecond - 1)
     else if t < int64_min then Timestamp int64_min 0
     else Timestamp t (proto_nanos p mod kNanosPerSecond))"
  using div_nanos_bounds [OF assms(2)] assms(1)
  by (auto simp: FromProto_def FromCounts_exact [OF assms(1,2)] t_def Let_def in_int64_def)

section \<open>Properties\<close>

text \<open>
  C22: For the ratios that \<open>FromRatio\<close> is designed for, a period of whole seconds (any numerator over
  1) or a fraction of a second (1 over a divisor or a multiple of a billion, down to attoseconds), and
  for any count of the representation, the extreme ones included: no intermediate step overflows, and
  the result is the instant's floor to a whole nanosecond, normalised, or the overflow error of the
  right sign exactly when the seconds of that floor leave 64 bits.
\<close>

theorem from_ratio_floor:
  assumes "in_int64 count"
    and "num = 1 \<and> 0 < d \<and> d \<le> 1000000000000000000 \<and> (d dvd kNanosPerSecond \<or> kNanosPerSecond dvd d) \<or>
      d = 1 \<and> 0 < num \<and> in_int64 num"
  shows "FromRatio count num d =
    Some (let nanos = count * num * kNanosPerSecond div d;
              sec = nanos div kNanosPerSecond
          in if sec > int64_max then Inl (PositiveOverflow kTimestampType)
             else if sec < int64_min then Inl (NegativeOverflow kTimestampType)
             else Inr (Timestamp sec (nanos mod kNanosPerSecond)))"
  using assms(2)
proof
  assume d: "num = 1 \<and> 0 < d \<and> d \<le> 1000000000000000000 \<and> (d dvd kNanosPerSecond \<or> kNanosPerSecond dvd d)"
  then have "in_int64 (count * kNanosPerSecond div d div kNanosPerSecond)"
    using div_in_int64 [of d count] assms(1) by (simp add: scaled_seconds)
  with d FromRatio_floor [OF assms(1), of d] show ?thesis
    by (simp add: subsecond_def Let_def in_int64_def)
next
  assume "d = 1 \<and> 0 < num \<and> in_int64 num"
  then show ?thesis using FromRatio_multiple [OF assms(1), of num] by (simp add: Let_def)
qed

theorem from_ratio_floor_witness:
  "FromRatio (- 9223372036854775808) 1 1000000000000 = Some (Inr (Timestamp (- 9223373) 963145224)) \<and>
   FromRatio 2562047788015215 3600 1 = Some (Inr (Timestamp 9223372036854774000 0)) \<and>
   FromRatio (- 2562047788015216) 3600 1 = Some (Inl (NegativeOverflow kTimestampType))"
  using from_ratio_floor [of "- 9223372036854775808" 1 1000000000000]
    from_ratio_floor [of 2562047788015215 3600 1] from_ratio_floor [of "- 2562047788015216" 3600 1]
  by (simp add: in_int64_def Let_def)

text \<open>
  Reading a count back with \<open>ToRatio\<close> at the period it was made with gives the count, except
  where the whole seconds alone, scaled to the period, are below the 64-bit range: there the code
  declares a negative overflow although the sum with the nanoseconds is representable.
\<close>

theorem to_ratio_from_ratio:
  assumes "in_int64 count" "0 < d" "d dvd kNanosPerSecond" "vmin \<le> count" "count \<le> vmax"
  shows "\<exists>ts. FromRatio count 1 d = Some (Inr ts) \<and>
    ToRatio ts vmin vmax 1 d =
      Some (if count div d < int64_min sdiv d then Inl (NegativeOverflow kTimePointType)
            else Inr count)"
proof -
  have "d \<le> kNanosPerSecond" using assms(2,3) zdvd_imp_le by auto
  then have "subsecond d" using assms(2,3) by (simp add: subsecond_def)
  then show ?thesis using FromRatio_floor ToRatio_FromRatio assms by blast
qed

theorem to_ratio_from_ratio_witness:
  "(\<exists>ts. FromRatio (- 9223372036854775808) 1 kNanosPerSecond = Some (Inr ts) \<and>
     ToRatio ts int64_min int64_max 1 kNanosPerSecond = Some (Inl (NegativeOverflow kTimePointType)))
   \<and> (\<exists>ts. FromRatio (- 9223372036000000000) 1 kNanosPerSecond = Some (Inr ts) \<and>
     ToRatio ts int64_min int64_max 1 kNanosPerSecond = Some (Inr (- 9223372036000000000)))"
  using to_ratio_from_ratio [of "- 9223372036854775808" kNanosPerSecond int64_min int64_max]
    to_ratio_from_ratio [of "- 9223372036000000000" kNanosPerSecond int64_min int64_max]
  by (simp add: in_int64_def)

text \<open>
  C16: A normalised timestamp whose year, less 1900, fits the 32 bits of \<open>tm_year\<close> survives RFC 3339 text:
  \<open>ToRFC3339\<close> ends (its zero-stripping loop too) and \<open>FromRFC3339\<close> reads the same seconds and
  nanoseconds back.
\<close>

theorem rfc3339_round_trip:
  assumes "in_int64 (ts_sec ts)" "0 \<le> ts_nsec ts" "ts_nsec ts < kNanosPerSecond"
    "in_int32 (civil_year (ts_sec ts) - 1900)"
  shows "\<exists>s. ToRFC3339 ts = Some s \<and> FromRFC3339 s = Some (Inr ts)"
  using ToRFC3339_FromRFC3339 [of ts] assms by (simp add: normalized_def)

theorem rfc3339_round_trip_witness:
  "\<exists>s. ToRFC3339 (Timestamp (- 1) 120000000) = Some s \<and>
     FromRFC3339 s = Some (Inr (Timestamp (- 1) 120000000))"
  by (rule rfc3339_round_trip) (simp_all add: in_int64_def civil_year_bounds)

text \<open>
  C26: \<open>FromRFC3339\<close> has a result for every text, however long its digits: no digit accumulated in
  \<open>ParseInt\<close>, in the fraction or in a field of the offset, nor any sum made of them, leaves the width
  of its C++ type (the calendar arithmetic of \<open>TimeZ\<close> is in exact integers). The result is an error
  with the code \<open>kInvalidArgument\<close> (the overflow branches on the UTC offset are unreachable) or a
  timestamp with 64-bit seconds and nanoseconds below one second.
\<close>

theorem from_rfc3339_total:
  "\<exists>r. FromRFC3339 s = Some r \<and>
     (case r of Inl e \<Rightarrow> code e = kInvalidArgument
      | Inr ts \<Rightarrow> in_int64 (ts_sec ts) \<and> 0 \<le> ts_nsec ts \<and> ts_nsec ts < kNanosPerSecond)"
  by (rule FromRFC3339_total)

text \<open>
  A numeric UTC offset is added to the civil time that was read: \<open>...+01:02\<close> is 3720 seconds
  later than \<open>...Z\<close>, whereas in RFC 3339 it names the instant 3720 seconds earlier.
\<close>

theorem from_rfc3339_offset:
  assumes "civil_tm tm" "in_int32 (tm_year tm)" "0 \<le> h" "h \<le> 23" "0 \<le> mi" "mi \<le> 59"
  shows "\<exists>text. FormatTime tm = Some text \<and>
     FromRFC3339 (text @ ''Z'') = Some (Inr (Timestamp (TimeZ tm) 0)) \<and>
     FromRFC3339 (text @ ''+'' @ pad02 h @ '':'' @ pad02 mi)
       = Some (Inr (Timestamp (TimeZ tm + (h * 3600 + mi * 60)) 0)) \<and>
     FromRFC3339 (text @ ''-'' @ pad02 h @ '':'' @ pad02 mi)
       = Some (Inr (Timestamp (TimeZ tm - (h * 3600 + mi * 60)) 0))"
proof -
  note p = parse_tm_civil [OF assms(1,2)]
  obtain t where t: "year_text (tm_year tm + 1900) t" "FormatTime tm = Some (date_time_text t tm)"
    using FormatTime_text [OF assms(1)] by blast
  have "FromRFC3339 (date_time_text t tm @ ''Z'') = Some (Inr (Timestamp (TimeZ tm + 0) 0))"
    by (rule FromRFC3339_parsed(1) [OF ParseTime_date_time_text [OF t(1) p], where r = "''Z''"])
      simp_all
  then show ?thesis
    using t(2) FromRFC3339_offset [OF t(1) p assms(3-6), of "CHR ''+''"]
      FromRFC3339_offset [OF t(1) p assms(3-6), of "CHR ''-''"] by simp
qed

theorem from_rfc3339_offset_witness:
  "\<exists>text. FormatTime \<lparr>tm_year = 119, tm_mon = 0, tm_mday = 2, tm_hour = 3, tm_min = 4, tm_sec = 5\<rparr>
       = Some text \<and>
     FromRFC3339 (text @ ''Z'') = Some (Inr (Timestamp 1546398245 0)) \<and>
     FromRFC3339 (text @ ''+'' @ pad02 1 @ '':'' @ pad02 2)
       = Some (Inr (Timestamp (1546398245 + 3720) 0))"
proof -
  let ?tm = "\<lparr>tm_year = 119, tm_mon = 0, tm_mday = 2, tm_hour = 3, tm_min = 4, tm_sec = 5\<rparr>"
  have "TimeZ ?tm = 1546398245" by code_simp
  moreover have "civil_tm ?tm" "in_int32 (tm_year ?tm)"
    by (simp_all add: civil_tm_def valid_date_def days_in_month_def in_int32_def)
  ultimately show ?thesis using from_rfc3339_offset [of ?tm 1 2] by auto
qed

end
