(* ===== verification/Dates.thy ===== *)
theory Dates
  imports Civil_Time Decimal_Text
begin

text \<open>
  \<open>spanner::Date\<close> (\<open>date.cc\<close>, \<open>date.h\<close>) and its text (\<open>internal/date.cc\<close>). The constructor
  normalises any year, month and day; its day loop is a partial function, so that its ending is
  a theorem, and the 64-bit year is checked: \<open>None\<close> is overflow (or a loop that does not end).
  \<open>sscanf\<close> and \<open>snprintf\<close> are modelled for the formats the code passes.
\<close>

section \<open>The code\<close>

datatype date = Date (date_year: int) (date_month: int) (date_day: int)

definition IsLeapYear :: "int \<Rightarrow> bool" where
  "IsLeapYear y \<longleftrightarrow> y smod 4 = 0 \<and> (y smod 100 \<noteq> 0 \<or> y smod 400 = 0)"

definition kKDaysPerMonth :: "int list" where
  "kKDaysPerMonth = [-1, 31, 28, 31, 30, 31, 30, 31, 31, 30, 31, 30, 31]"

definition DaysPerMonth :: "int \<Rightarrow> int \<Rightarrow> int" where
  "DaysPerMonth y m = kKDaysPerMonth ! nat m + (if m = 2 \<and> IsLeapYear y then 1 else 0)"

partial_function (option) Date_loop :: "int \<Rightarrow> int \<Rightarrow> int \<Rightarrow> date option" where
  "Date_loop year month day =
     (let n = DaysPerMonth year month
      in if day > n then
           (if month + 1 > 12 then do { year \<leftarrow> add64 year 1; Date_loop year 1 (day - n) }
            else Date_loop year (month + 1) (day - n))
         else Some (Date year month day))"

definition MakeDate :: "int \<Rightarrow> int \<Rightarrow> int \<Rightarrow> date option" where
  "MakeDate year month day = do {
     year \<leftarrow> add64 year (month sdiv 12);
     let month = month smod 12;
     (year, month) \<leftarrow> (if month \<le> 0 then do { year \<leftarrow> sub64 year 1; Some (year, month + 12) }
                        else Some (year, month));
     year \<leftarrow> add64 year (day sdiv 146097 * 400);
     let day = day smod 146097;
     (year, day) \<leftarrow> (if day \<le> 0 then do { year \<leftarrow> sub64 year 400; Some (year, day + 146097) }
                      else Some (year, day));
     Date_loop year month day
   }"

text \<open>\<open>operator<\<close> compares the triples; \<open>operator<=\<close> is \<open>!(b < a)\<close>.\<close>

definition Date_less :: "date \<Rightarrow> date \<Rightarrow> bool" where
  "Date_less a b \<longleftrightarrow> date_year a < date_year b \<or> date_year a = date_year b \<and>
     (date_month a < date_month b \<or> date_month a = date_month b \<and> date_day a < date_day b)"

definition Date_less_eq :: "date \<Rightarrow> date \<Rightarrow> bool" where
  "Date_less_eq a b \<longleftrightarrow> \<not> Date_less b a"

instantiation date :: linorder
begin

definition less_date :: "date \<Rightarrow> date \<Rightarrow> bool" where
  "less_date = Date_less"

definition less_eq_date :: "date \<Rightarrow> date \<Rightarrow> bool" where
  "less_eq_date = Date_less_eq"

instance
proof
  fix x y z :: date
  note order_defs = less_date_def less_eq_date_def Date_less_eq_def Date_less_def
  show "x < y \<longleftrightarrow> x \<le> y \<and> \<not> y \<le> x"
    by (auto simp: order_defs)
  show "x \<le> x" by (simp add: order_defs)
  show "x \<le> y \<Longrightarrow> y \<le> z \<Longrightarrow> x \<le> z"
    by (auto simp: order_defs)
  show "x \<le> y \<Longrightarrow> y \<le> x \<Longrightarrow> x = y"
    by (auto simp: order_defs intro: date.expand)
  show "x \<le> y \<or> y \<le> x"
    by (auto simp: order_defs)
qed

end

text \<open>\<open>%0<width>d\<close>: the sign counts towards the width.\<close>

definition printf0 :: "nat \<Rightarrow> int \<Rightarrow> string" where
  "printf0 width v =
     (let ds = dec (nat \<bar>v\<bar>)
      in if v < 0 then CHR ''-'' # replicate (width - 1 - length ds) CHR ''0'' @ ds
         else replicate (width - length ds) CHR ''0'' @ ds)"

text \<open>The buffer has room for 26 characters and the terminator.\<close>

definition DateToString :: "date \<Rightarrow> string" where
  "DateToString d =
     take (length ''-9223372036854775808-01-01'')
       (printf0 4 (date_year d) @ ''-'' @ printf0 2 (date_month d) @ ''-''
          @ printf0 2 (date_day d))"

definition is_space :: "char \<Rightarrow> bool" where
  "is_space c \<longleftrightarrow> c \<in> {CHR '' '', CHR 0x09, CHR 0x0A, CHR 0x0B, CHR 0x0C, CHR 0x0D}"

text \<open>The result of a \<open>sscanf\<close> directive; a value outside its type is undefined behaviour.\<close>

datatype scanned = Undefined | NoMatch | Scanned int string

definition scan_int :: "int \<Rightarrow> int \<Rightarrow> string \<Rightarrow> scanned" where
  "scan_int lo hi s =
     (let s1 = dropWhile is_space s;
          neg = (s1 \<noteq> [] \<and> hd s1 = CHR ''-'');
          s2 = (if s1 \<noteq> [] \<and> hd s1 \<in> {CHR ''-'', CHR ''+''} then tl s1 else s1);
          ds = takeWhile (\<lambda>c. digit_of c \<noteq> None) s2;
          v = (if neg then - digits_val ds else digits_val ds)
      in if ds = [] then NoMatch
         else if v < lo \<or> hi < v then Undefined
         else Scanned v (drop (length ds) s2))"

text \<open>
  \<open>sscanf(s.c_str(), "%ld-%d-%d%c", ...)\<close>: the fields and the number of conversions done, of
  which only 3 and 4 matter to the code; \<open>None\<close> is undefined behaviour.
\<close>

definition scan_date :: "string \<Rightarrow> (nat \<times> int \<times> int \<times> int) option" where
  "scan_date s =
     (let s = takeWhile (\<lambda>c. c \<noteq> CHR 0x00) s
      in case scan_int int64_min int64_max s of
          Undefined \<Rightarrow> None
        | NoMatch \<Rightarrow> Some (0, 0, 0, 0)
        | Scanned y s \<Rightarrow>
            (if s = [] \<or> hd s \<noteq> CHR ''-'' then Some (1, y, 0, 0)
             else case scan_int int32_min int32_max (tl s) of
                 Undefined \<Rightarrow> None
               | NoMatch \<Rightarrow> Some (1, y, 0, 0)
               | Scanned m s \<Rightarrow>
                   (if s = [] \<or> hd s \<noteq> CHR ''-'' then Some (2, y, m, 0)
                    else case scan_int int32_min int32_max (tl s) of
                        Undefined \<Rightarrow> None
                      | NoMatch \<Rightarrow> Some (2, y, m, 0)
                      | Scanned d s \<Rightarrow> Some (if s = [] then 3 else 4, y, m, d))))"

definition DateFromString :: "string \<Rightarrow> date status_or option" where
  "DateFromString s = do {
     (n, year, month, day) \<leftarrow> scan_date s;
     if n = 3 then do {
       date \<leftarrow> MakeDate year month day;
       if date_month date \<noteq> month \<or> date_day date \<noteq> day
       then Some (Inl (Status kInvalidArgument (s @ '': RFC3339 full-date field out of range'')))
       else Some (Inr date)
     }
     else if n = 4
     then Some (Inl (Status kInvalidArgument (s @ '': Extra data after RFC3339 full-date'')))
     else Some (Inl (Status kInvalidArgument (s @ '': Failed to match RFC3339 full-date'')))
   }"

section \<open>The constructor normalises\<close>

lemma smod_eq_0_iff: "0 < b \<Longrightarrow> a smod b = 0 \<longleftrightarrow> a mod b = (0::int)"
  by (cases "0 \<le> a") (simp_all add: smod_nonneg smod_neg mod_eq_0_iff_dvd)

lemma IsLeapYear_leap: "IsLeapYear y \<longleftrightarrow> leap y"
  by (simp add: IsLeapYear_def leap_def smod_eq_0_iff)

lemma DaysPerMonth_days_in_month:
  assumes "1 \<le> m" "m \<le> 12"
  shows "DaysPerMonth y m = days_in_month y m"
proof -
  have "m \<in> {1, 2, 3, 4, 5, 6, 7, 8, 9, 10, 11, 12}"
    using assms by (simp only: insert_iff empty_iff) presburger
  then show ?thesis
    by (elim insertE emptyE)
      (simp_all add: DaysPerMonth_def days_in_month_def kKDaysPerMonth_def IsLeapYear_leap)
qed

lemma days_in_month_bounds: "28 \<le> days_in_month y m" "days_in_month y m \<le> 31"
  by (auto simp: days_in_month_def)

lemma day_number_linear: "day_number y m d = day_number y m 1 + d - 1"
  by (simp add: day_number_def)

lemma day_number_next_month:
  assumes "1 \<le> m" "m \<le> 12"
  shows "day_number y m (days_in_month y m + d) =
    (if m < 12 then day_number y (m + 1) d else day_number (y + 1) 1 d)"
proof -
  let ?n = "days_in_month y m"
  have v: "valid_date y m ?n"
    using assms days_in_month_bounds(1) [of y m] by (simp add: valid_date_def)
  have nd: "next_date (y, m, ?n) = (if m < 12 then (y, m + 1, 1) else (y + 1, 1, 1))"
    by (simp add: next_date_def)
  have "day_number y m ?n + 1 = (if m < 12 then day_number y (m + 1) 1 else day_number (y + 1) 1 1)"
    using day_number_next(1) [OF v] nd by (cases "m < 12") auto
  then show ?thesis
    using day_number_linear [of y m "?n + d"] day_number_linear [of y m ?n]
      day_number_linear [of y "m + 1" d] day_number_linear [of "y + 1" 1 d]
    by (cases "m < 12") auto
qed

lemma Date_loop_normalizes:
  assumes "1 \<le> m" "m \<le> 12" "1 \<le> d" "int64_min \<le> y" "y + d \<le> int64_max"
  shows "\<exists>y' m' d'. Date_loop y m d = Some (Date y' m' d') \<and> valid_date y' m' d' \<and>
    day_number y' m' d' = day_number y m d"
  using assms
proof (induction "nat d" arbitrary: y m d rule: less_induct)
  case less
  let ?n = "days_in_month y m"
  note n = DaysPerMonth_days_in_month [OF less.prems(1,2), of y] days_in_month_bounds [of y m]
  show ?case
  proof (cases "d > ?n")
    case False
    then have "Date_loop y m d = Some (Date y m d)"
      by (subst Date_loop.simps) (simp add: n)
    then show ?thesis using False less.prems by (auto simp: valid_date_def)
  next
    case True
    have small: "nat (d - ?n) < nat d" "1 \<le> d - ?n" using True n by auto
    show ?thesis
    proof (cases "m = 12")
      case True12: True
      have "add64 y 1 = Some (y + 1)"
        using less.prems by (intro add64_Some) (simp add: in_int64_def)
      then have "Date_loop y m d = Date_loop (y + 1) 1 (d - ?n)"
        using True True12 by (subst Date_loop.simps) (simp add: DaysPerMonth_days_in_month)
      moreover have "day_number y m d = day_number (y + 1) 1 (d - ?n)"
        using day_number_next_month [of m y "d - ?n"] True12 by simp
      ultimately show ?thesis
        using less.hyps [OF small(1), of 1 "y + 1"] small less.prems n by simp
    next
      case False
      then have "Date_loop y m d = Date_loop y (m + 1) (d - ?n)"
        using True less.prems by (subst Date_loop.simps) (simp add: n)
      moreover have "day_number y m d = day_number y (m + 1) (d - ?n)"
        using day_number_next_month [of m y "d - ?n"] False less.prems by simp
      ultimately show ?thesis
        using less.hyps [OF small(1), of "m + 1" y] small less.prems False n by simp
    qed
  qed
qed

lemma year_start_400: "year_start (y + 400 * k) = year_start y + 146097 * k"
proof -
  have "(y + 4 * (100 * k)) div 4 = 100 * k + y div 4"
    "(y + 100 * (4 * k)) div 100 = 4 * k + y div 100" "(y + 400 * k) div 400 = k + y div 400"
    by (simp_all only: div_mult_self2 zero_neq_numeral [symmetric] not_False_eq_True)
  then show ?thesis by (simp add: year_start_def)
qed

lemma day_number_400: "day_number (y + 400 * k) m (d - 146097 * k) = day_number y m d"
proof -
  have "march_year (y + 400 * k) m = march_year y m + 400 * k" by (simp add: march_year_def)
  then show ?thesis by (simp add: day_number_def year_start_400)
qed

text \<open>
  The code's shift of a truncated remainder into \<open>[1, b]\<close> is floor division of the
  predecessor.
\<close>

lemma trunc_excess_one:
  assumes "0 < b"
  shows "a smod b \<le> 0 \<Longrightarrow> a sdiv b - 1 = (a - 1) div b \<and> a smod b + b = (a - 1) mod b + 1"
    and "\<not> a smod b \<le> 0 \<Longrightarrow> a sdiv b = (a - 1) div b \<and> a smod b = (a - 1) mod (b::int) + 1"
proof -
  define q r where "q = a sdiv b" and "r = a smod b"
  have a: "a = q * b + r" by (simp add: q_def r_def sdiv_mult_smod_eq)
  have r: "- b < r" "r < b"
    using assms smod_int_range [of b a] by (auto simp: r_def abs_if split: if_splits)
  show "a sdiv b - 1 = (a - 1) div b \<and> a smod b + b = (a - 1) mod b + 1" if "a smod b \<le> 0"
  proof -
    have "a - 1 = (r + b - 1) + b * (q - 1)" by (simp add: a algebra_simps)
    from divmod_unique_eq [OF this] r that show ?thesis by (simp add: q_def r_def)
  qed
  show "a sdiv b = (a - 1) div b \<and> a smod b = (a - 1) mod b + 1" if "\<not> a smod b \<le> 0"
  proof -
    have "a - 1 = (r - 1) + b * q" by (simp add: a algebra_simps)
    from divmod_unique_eq [OF this] r that show ?thesis by (simp add: q_def r_def)
  qed
qed

lemma div_bounds_int32:
  assumes "in_int32 x"
  shows "- 178956971 \<le> (x - 1) div 12" "(x - 1) div 12 \<le> 178956970"
    "- 14700 \<le> (x - 1) div 146097" "(x - 1) div 146097 \<le> 14699"
    "- 178956971 \<le> x sdiv 12" "x sdiv 12 \<le> 178956971"
    "- 14700 \<le> x sdiv 146097" "x sdiv 146097 \<le> 14700"
proof -
  have c: "(- 2147483649) div 12 = (- 178956971 :: int)" "2147483646 div 12 = (178956970 :: int)"
    "(- 2147483649) div 146097 = (- 14700 :: int)" "2147483646 div 146097 = (14699 :: int)"
    by simp_all
  have x: "- 2147483649 \<le> x - 1" "x - 1 \<le> 2147483646" using assms by (auto simp: in_int32_def)
  show a: "- 178956971 \<le> (x - 1) div 12" "(x - 1) div 12 \<le> 178956970"
    "- 14700 \<le> (x - 1) div 146097" and b: "(x - 1) div 146097 \<le> 14699"
    using zdiv_mono1 [OF x(1), of 12] zdiv_mono1 [OF x(2), of 12] zdiv_mono1 [OF x(1), of 146097]
      zdiv_mono1 [OF x(2), of 146097]
    unfolding c by simp_all
  show "- 178956971 \<le> x sdiv 12" "x sdiv 12 \<le> 178956971"
    using a trunc_excess_one [of 12 x] by (cases "x smod 12 \<le> 0"; simp)+
  show "- 14700 \<le> x sdiv 146097" "x sdiv 146097 \<le> 14700"
    using a b trunc_excess_one [of 146097 x] by (cases "x smod 146097 \<le> 0"; simp)+
qed

lemma shift_years:
  assumes "r \<le> 0 \<Longrightarrow> q - 1 = k \<and> r + b = dd" "\<not> r \<le> 0 \<Longrightarrow> q = k \<and> r = dd"
    "sub64 (y + q * 400) 400 = Some (y + q * 400 - 400)"
  shows "(if r \<le> 0 then do { year \<leftarrow> sub64 (y + q * 400) 400; Some (year, r + b) }
      else Some (y + q * 400, r)) = Some (y + 400 * k, dd)"
  using assms by (cases "r \<le> 0") (auto simp: algebra_simps)

lemma MakeDate_normalizes:
  assumes "int64_min + 200000000 \<le> y" "y \<le> int64_max - 200000000" "in_int32 m" "in_int32 d"
  shows "\<exists>y' m' d'. MakeDate y m d = Some (Date y' m' d') \<and> valid_date y' m' d' \<and>
    day_number y' m' d' = day_number (y + (m - 1) div 12) ((m - 1) mod 12 + 1) d"
proof -
  note bm = div_bounds_int32(1,2,5,6) [OF assms(3)] and bd = div_bounds_int32(3,4,7,8) [OF assms(4)]
  define ym mm where "ym = y + (m - 1) div 12" and "mm = (m - 1) mod 12 + 1"
  define k dd where "k = (d - 1) div 146097" and "dd = (d - 1) mod 146097 + 1"
  have mm: "1 \<le> mm" "mm \<le> 12" using pos_mod_bound [of 12 "m - 1"] by (simp_all add: mm_def)
  have dd: "1 \<le> dd" "dd \<le> 146097" "d = dd + 146097 * k"
    using pos_mod_bound [of 146097 "d - 1"] by (simp_all add: dd_def k_def)
  have p: "(0::int) < 12" "(0::int) < 146097" by simp_all
  note tr1 = trunc_excess_one [OF p(1), of m, folded mm_def]
    and tr2 = trunc_excess_one [OF p(2), of d, folded k_def, folded dd_def]
  have a1: "add64 y (m sdiv 12) = Some (y + m sdiv 12)"
    using assms bm by (intro add64_Some) (simp add: in_int64_def)
  have s1: "sub64 (y + m sdiv 12) 1 = Some (y + m sdiv 12 - 1)"
    using assms bm by (intro sub64_Some) (simp add: in_int64_def)
  have 1: "(if m smod 12 \<le> 0
      then do { year \<leftarrow> sub64 (y + m sdiv 12) 1; Some (year, m smod 12 + 12) }
      else Some (y + m sdiv 12, m smod 12)) = Some (ym, mm)"
    using tr1 s1 by (cases "m smod 12 \<le> 0") (simp_all add: ym_def algebra_simps)
  have a2: "add64 ym (d sdiv 146097 * 400) = Some (ym + d sdiv 146097 * 400)"
    using assms bm bd by (intro add64_Some) (simp add: in_int64_def ym_def)
  have s2: "sub64 (ym + d sdiv 146097 * 400) 400 = Some (ym + d sdiv 146097 * 400 - 400)"
    using assms bm bd by (intro sub64_Some) (simp add: in_int64_def ym_def)
  have 2: "(if d smod 146097 \<le> 0
      then do { year \<leftarrow> sub64 (ym + d sdiv 146097 * 400) 400; Some (year, d smod 146097 + 146097) }
      else Some (ym + d sdiv 146097 * 400, d smod 146097)) = Some (ym + 400 * k, dd)"
    using tr2 s2 by (rule shift_years)
  have "MakeDate y m d = Date_loop (ym + 400 * k) mm dd"
    unfolding MakeDate_def Let_def a1 Option.bind.simps 1 prod.case a2 2 ..
  moreover have "int64_min \<le> ym + 400 * k" "ym + 400 * k + dd \<le> int64_max"
    using assms(1,2) bm(1,2) bd(1,2) [folded k_def] dd(1,2) unfolding ym_def by linarith+
  ultimately obtain y' m' d' where "MakeDate y m d = Some (Date y' m' d')" "valid_date y' m' d'"
    "day_number y' m' d' = day_number (ym + 400 * k) mm dd"
    using Date_loop_normalizes [OF mm dd(1)] by metis
  moreover have "day_number (ym + 400 * k) mm dd = day_number ym mm d"
    using day_number_400 [of ym k mm d] dd(3) by (simp add: algebra_simps)
  ultimately show ?thesis unfolding ym_def mm_def by auto
qed

lemma MakeDate_valid:
  assumes "int64_min + 200000000 \<le> y" "y \<le> int64_max - 200000000" "in_int32 m" "in_int32 d"
    "MakeDate y m d = Some (Date y' m' d')"
  shows "m' = m \<and> d' = d \<longleftrightarrow> valid_date y m d"
    and "valid_date y m d \<Longrightarrow> y' = y"
proof -
  have v: "valid_date y' m' d'"
    and n: "day_number y' m' d' = day_number (y + (m - 1) div 12) ((m - 1) mod 12 + 1) d"
    using MakeDate_normalizes [OF assms(1-4)] assms(5) by auto
  have p: "(m - 1) div 12 = 0 \<and> (m - 1) mod 12 + 1 = m" if "1 \<le> m" "m \<le> 12"
    using that by simp
  have f: "y' = y \<and> m' = m \<and> d' = d" if w: "valid_date y m d"
  proof -
    have "1 \<le> m" "m \<le> 12" using w by (auto simp: valid_date_def)
    then have "day_number y' m' d' = day_number y m d" using n p by simp
    from day_number_inject [OF v w this] show ?thesis by simp
  qed
  have b: "valid_date y m d" if e: "m' = m" "d' = d"
  proof -
    have m: "1 \<le> m" "m \<le> 12" using v e by (auto simp: valid_date_def)
    then have "day_number y' m d = day_number y m d" using n p e by simp
    then have "year_start (march_year y' m) = year_start (march_year y m)"
      by (simp add: day_number_def)
    then have "march_year y' m = march_year y m"
      by (metis linorder_less_linear year_start_strict less_add_same_cancel1 not_le zero_less_numeral)
    then have "y' = y" by (auto simp: march_year_def split: if_splits)
    with v e show ?thesis by simp
  qed
  show "m' = m \<and> d' = d \<longleftrightarrow> valid_date y m d" using f b by blast
  show "valid_date y m d \<Longrightarrow> y' = y" using f by blast
qed

section \<open>Text\<close>

lemma digit_not_space: "digit_of c = Some d \<Longrightarrow> \<not> is_space c \<and> c \<noteq> CHR ''-'' \<and> c \<noteq> CHR ''+''"
  by (auto simp: digit_of_def is_space_def Let_def split: if_splits)

lemma takeWhile_digits:
  assumes "all_digits ds" "no_digit rest"
  shows "takeWhile (\<lambda>c. digit_of c \<noteq> None) (ds @ rest) = ds"
proof -
  have "takeWhile (\<lambda>c. digit_of c \<noteq> None) rest = []" using assms(2) by (cases rest) auto
  then show ?thesis using assms(1) by (simp add: all_digits_def list_all_iff)
qed

lemma scan_int_digits:
  assumes "all_digits ds" "ds \<noteq> []" "no_digit rest" "lo \<le> digits_val ds" "digits_val ds \<le> hi"
  shows "scan_int lo hi (ds @ rest) = Scanned (digits_val ds) rest"
proof -
  obtain c cs d where c: "ds = c # cs" "digit_of c = Some d" using assms(1,2) by (cases ds) auto
  have "dropWhile is_space (ds @ rest) = ds @ rest" using c digit_not_space by simp
  then show ?thesis
    using assms digit_not_space [OF c(2)] takeWhile_digits [OF assms(1,3)]
    by (simp add: scan_int_def Let_def hd_append c(1))
qed

lemma scan_int_negative:
  assumes "all_digits ds" "ds \<noteq> []" "no_digit rest" "lo \<le> - digits_val ds" "- digits_val ds \<le> hi"
  shows "scan_int lo hi (CHR ''-'' # ds @ rest) = Scanned (- digits_val ds) rest"
proof -
  have "\<not> is_space CHR ''-''" by (simp add: is_space_def)
  then show ?thesis
    using assms takeWhile_digits [OF assms(1,3)] by (simp add: scan_int_def Let_def)
qed

lemma printf0_digits:
  obtains ds where "printf0 w v = (if v < 0 then CHR ''-'' # ds else ds)" "all_digits ds"
    "ds \<noteq> []" "digits_val ds = \<bar>v\<bar>"
    "length (printf0 w v) = max w (length (dec (nat \<bar>v\<bar>)) + (if v < 0 then 1 else 0))"
proof
  let ?ds = "replicate (w - (if v < 0 then 1 else 0) - length (dec (nat \<bar>v\<bar>))) CHR ''0''
    @ dec (nat \<bar>v\<bar>)"
  show "printf0 w v = (if v < 0 then CHR ''-'' # ?ds else ?ds)"
    by (simp add: printf0_def Let_def)
  show "all_digits ?ds" "?ds \<noteq> []" "digits_val ?ds = \<bar>v\<bar>" by simp_all
  have "length (dec (nat \<bar>v\<bar>)) \<noteq> 0" by (simp del: length_greater_0_conv)
  then show "length (printf0 w v) = max w (length (dec (nat \<bar>v\<bar>)) + (if v < 0 then 1 else 0))"
    by (auto simp: printf0_def Let_def)
qed

lemma scan_int_printf0:
  assumes "no_digit rest" "lo \<le> v" "v \<le> hi"
  shows "scan_int lo hi (printf0 w v @ rest) = Scanned v rest"
proof -
  obtain ds where ds: "printf0 w v = (if v < 0 then CHR ''-'' # ds else ds)" "all_digits ds"
    "ds \<noteq> []" "digits_val ds = \<bar>v\<bar>"
    using printf0_digits [of w v] by metis
  show ?thesis
  proof (cases "v < 0")
    case True
    then show ?thesis using scan_int_negative [OF ds(2,3) assms(1), of lo hi] ds assms by simp
  next
    case False
    then show ?thesis using scan_int_digits [OF ds(2,3) assms(1), of lo hi] ds assms by simp
  qed
qed

lemma printf0_no_NUL: "CHR 0x00 \<notin> set (printf0 w v)"
proof -
  obtain ds where ds: "printf0 w v = (if v < 0 then CHR ''-'' # ds else ds)" "all_digits ds"
    using printf0_digits [of w v] by metis
  have "digit_of CHR 0x00 = None" by code_simp
  then have "CHR 0x00 \<notin> set ds" using ds(2) by (auto simp: all_digits_def list_all_iff)
  then show ?thesis using ds(1) by (simp split: if_splits)
qed

lemma DateToString_untruncated:
  assumes "in_int64 y" "valid_date y m d"
  shows "DateToString (Date y m d) =
    printf0 4 y @ ''-'' @ printf0 2 m @ ''-'' @ printf0 2 d"
proof -
  have md: "\<bar>m\<bar> < 10 ^ 2" "\<bar>d\<bar> < 10 ^ 2" "\<not> m < 0" "\<not> d < 0"
    using assms(2) days_in_month_bounds(2) [of y m] by (auto simp: valid_date_def)
  have "length (dec (nat \<bar>m\<bar>)) \<le> 2" "length (dec (nat \<bar>d\<bar>)) \<le> 2"
    using md by (auto intro!: length_dec_le simp: nat_less_iff)
  then have l2: "length (printf0 2 m) = 2" "length (printf0 2 d) = 2"
    using printf0_digits [of 2 m] printf0_digits [of 2 d] md by (metis add_0_right max_absorb1)+
  have "nat \<bar>y\<bar> < 10 ^ 19" using assms(1) by (auto simp: in_int64_def nat_less_iff)
  then have "length (dec (nat \<bar>y\<bar>)) \<le> 19" by (intro length_dec_le) simp_all
  moreover have "length (printf0 4 y) = max 4 (length (dec (nat \<bar>y\<bar>)) + (if y < 0 then 1 else 0))"
    using printf0_digits [of 4 y] by metis
  ultimately have "length (printf0 4 y) \<le> 20" by auto
  with l2 show ?thesis by (simp add: DateToString_def)
qed

lemma scan_date_DateToString:
  assumes "in_int64 y" "valid_date y m d"
  shows "scan_date (DateToString (Date y m d)) = Some (3, y, m, d)"
proof -
  have md: "int32_min \<le> m" "m \<le> int32_max" "int32_min \<le> d" "d \<le> int32_max"
    using assms(2) days_in_month_bounds(2) [of y m] by (auto simp: valid_date_def)
  let ?s = "printf0 4 y @ ''-'' @ printf0 2 m @ ''-'' @ printf0 2 d"
  have t: "takeWhile (\<lambda>c. c \<noteq> CHR 0x00) ?s = ?s"
    using printf0_no_NUL [of 4 y] printf0_no_NUL [of 2 m] printf0_no_NUL [of 2 d]
    by (intro takeWhile_eq_all_conv [THEN iffD2]) auto
  have "scan_int int64_min int64_max ?s = Scanned y (''-'' @ printf0 2 m @ ''-'' @ printf0 2 d)"
    using assms(1) by (intro scan_int_printf0) (auto simp: in_int64_def)
  moreover have "scan_int int32_min int32_max (printf0 2 m @ ''-'' @ printf0 2 d)
    = Scanned m (''-'' @ printf0 2 d)"
    using md by (intro scan_int_printf0) simp_all
  moreover have "scan_int int32_min int32_max (printf0 2 d) = Scanned d []"
    using scan_int_printf0 [of "[]" int32_min d int32_max 2] md by simp
  ultimately show ?thesis
    unfolding scan_date_def DateToString_untruncated [OF assms] t Let_def by simp
qed

lemma DateFromString_DateToString:
  assumes "valid_date y m d" "int64_min + 200000000 \<le> y" "y \<le> int64_max - 200000000"
  shows "DateFromString (DateToString (Date y m d)) = Some (Inr (Date y m d))"
proof -
  have md: "in_int32 m" "in_int32 d"
    using assms(1) days_in_month_bounds(2) [of y m] by (auto simp: valid_date_def in_int32_def)
  have "in_int64 y" using assms(2,3) by (simp add: in_int64_def)
  note s = scan_date_DateToString [OF this assms(1)]
  obtain y' m' d' where w: "MakeDate y m d = Some (Date y' m' d')"
    using MakeDate_normalizes [OF assms(2,3) md] by blast
  show ?thesis
    using MakeDate_valid [OF assms(2,3) md w] assms(1) by (auto simp: DateFromString_def s w)
qed

section \<open>Properties\<close>

text \<open>
  C38: The \<open>Date\<close> constructor normalises any month and any day of the month, negative ones
  included: its loop ends, no step overflows (the year away from the 64-bit limits by the carry
  of a 32-bit month and day), the result is a day of the proleptic Gregorian calendar, and it is
  the day that lies \<open>day - 1\<close> days after the first of the month that lies \<open>month - 1\<close> months
  after January of the year.
\<close>

theorem date_ctor_normalizes:
  assumes "int64_min + 200000000 \<le> y" "y \<le> int64_max - 200000000" "in_int32 m" "in_int32 d"
  shows "\<exists>y' m' d'. MakeDate y m d = Some (Date y' m' d') \<and> valid_date y' m' d' \<and>
    day_number y' m' d' = day_number (y + (m - 1) div 12) ((m - 1) mod 12 + 1) 1 + (d - 1)"
  using MakeDate_normalizes [OF assms]
    day_number_linear [of "y + (m - 1) div 12" "(m - 1) mod 12 + 1" d] by auto

theorem date_ctor_normalizes_witness:
  "\<exists>y' m' d'. MakeDate 2020 (- 14) 2147483647 = Some (Date y' m' d') \<and> valid_date y' m' d' \<and>
    day_number y' m' d' = day_number (2020 + (- 14 - 1) div 12) ((- 14 - 1) mod 12 + 1) 1
      + (2147483647 - 1)"
  by (rule date_ctor_normalizes) (simp_all add: in_int32_def)

text \<open>
  When \<open>sscanf\<close> reads exactly the three fields, \<open>DateFromString\<close> accepts them if and only if
  they name a day of the calendar, and yields that day; any other text is an error. The check
  by comparing with the normalised date is therefore exact.
\<close>

theorem date_from_string_exact:
  assumes "scan_date s = Some (n, y, m, d)"
    "int64_min + 200000000 \<le> y" "y \<le> int64_max - 200000000" "in_int32 m" "in_int32 d"
  shows "\<exists>r. DateFromString s = Some r \<and>
    (if n = 3 \<and> valid_date y m d then r = Inr (Date y m d)
     else \<exists>e. r = Inl e \<and> code e = kInvalidArgument)"
proof (cases "n = 3")
  case True
  obtain y' m' d' where w: "MakeDate y m d = Some (Date y' m' d')"
    using MakeDate_normalizes [OF assms(2-5)] by blast
  show ?thesis
    using True MakeDate_valid [OF assms(2-5) w] by (auto simp: DateFromString_def assms(1) w)
next
  case False
  then show ?thesis by (simp add: DateFromString_def assms(1))
qed

theorem date_from_string_exact_witness:
  "(\<exists>r. DateFromString ''2019-02-29'' = Some r \<and> (\<exists>e. r = Inl e \<and> code e = kInvalidArgument)) \<and>
   (\<exists>r. DateFromString '' +2020-2-29'' = Some r \<and> r = Inr (Date 2020 2 29))"
proof -
  have 1: "scan_date ''2019-02-29'' = Some (3, 2019, 2, 29)"
    "scan_date '' +2020-2-29'' = Some (3, 2020, 2, 29)" by code_simp+
  have 2: "\<not> valid_date 2019 2 29" "valid_date 2020 2 29"
    by (simp_all add: valid_date_def days_in_month_def leap_def)
  from date_from_string_exact [OF 1(1)] date_from_string_exact [OF 1(2)] 2
  show ?thesis by (simp add: in_int32_def)
qed

text \<open>The text of a date is never cut off by its buffer and reads back as the date.\<close>

theorem date_to_string_round_trip:
  assumes "valid_date y m d" "int64_min + 200000000 \<le> y" "y \<le> int64_max - 200000000"
  shows "DateFromString (DateToString (Date y m d)) = Some (Inr (Date y m d))"
  by (rule DateFromString_DateToString [OF assms])

theorem date_to_string_round_trip_witness:
  "DateFromString (DateToString (Date (- 44) 3 15)) = Some (Inr (Date (- 44) 3 15))"
  by (rule date_to_string_round_trip) (simp_all add: valid_date_def days_in_month_def)

end
