(* ===== verification/Base64.thy ===== *)
theory Base64
  imports Decimal_Text "HOL-Library.Word"
begin

unbundle bit_operations_syntax

text \<open>
  \<open>spanner::Bytes\<close> (\<open>bytes.cc\<close>, \<open>bytes.h\<close>): octets held as base64 text. The encoder keeps up to
  three octets in a buffer and flushes them as four characters; the decoder is an input iterator
  that refills its buffer from four characters and hands the octets out from the top. Octets are
  8-bit words, the encoder's \<open>unsigned int\<close> a 32-bit word, and the decoder's \<open>int\<close> indices
  integers (an arithmetic shift on \<open>int\<close>).
\<close>

section \<open>The code\<close>

definition kPadding :: char where
  "kPadding = CHR ''=''"

definition kIndexToChar :: string where
  "kIndexToChar =
     ''ABCDEFGHIJKLM'' @ ''NOPQRSTUVWXYZ'' @ ''abcdefghijklm'' @ ''nopqrstuvwxyz'' @
     ''0123456789+/''"

text \<open>Entries that the initialiser leaves out are zero.\<close>

definition kCharToIndexExcessOne :: "8 word list" where
  "kCharToIndexExcessOne =
    [0,  0,  0,  0,  0,  0,  0,  0,  0,  0,  0,  0,  0,  0,  0,  0,  0,  0,
     0,  0,  0,  0,  0,  0,  0,  0,  0,  0,  0,  0,  0,  0,  0,  0,  0,  0,
     0,  0,  0,  0,  0,  0,  0,  63, 0,  0,  0,  64, 53, 54, 55, 56, 57, 58,
     59, 60, 61, 62, 0,  0,  0,  0,  0,  0,  0,  1,  2,  3,  4,  5,  6,  7,
     8,  9,  10, 11, 12, 13, 14, 15, 16, 17, 18, 19, 20, 21, 22, 23, 24, 25,
     26, 0,  0,  0,  0,  0,  0,  27, 28, 29, 30, 31, 32, 33, 34, 35, 36, 37,
     38, 39, 40, 41, 42, 43, 44, 45, 46, 47, 48, 49, 50, 51, 52] @ replicate 133 0"

definition char_index1 :: "char \<Rightarrow> 8 word" where
  "char_index1 c = kCharToIndexExcessOne ! of_char c"

text \<open>The representation: valid base64 text.\<close>

datatype bytes = Bytes (base64_rep: string)

record encoder =
  enc_rep :: string
  enc_buf :: "8 word list"

definition Encoder_Flush :: "encoder \<Rightarrow> encoder" where
  "Encoder_Flush e =
     (let v = push_bit 16 (ucast (enc_buf e ! 0)) OR push_bit 8 (ucast (enc_buf e ! 1))
                OR ucast (enc_buf e ! 2) :: 32 word
      in e \<lparr>enc_rep := enc_rep e @ [kIndexToChar ! unat (drop_bit 18 v),
                                   kIndexToChar ! unat (drop_bit 12 v AND 0x3f),
                                   kIndexToChar ! unat (drop_bit 6 v AND 0x3f),
                                   kIndexToChar ! unat (v AND 0x3f)],
            enc_buf := []\<rparr>)"

definition Encoder_FlushAndPad :: "encoder \<Rightarrow> encoder" where
  "Encoder_FlushAndPad e =
     (if length (enc_buf e) = 2 then
        let v = push_bit 16 (ucast (enc_buf e ! 0)) OR push_bit 8 (ucast (enc_buf e ! 1)) :: 32 word
        in e \<lparr>enc_rep := enc_rep e @ [kIndexToChar ! unat (drop_bit 18 v),
                                     kIndexToChar ! unat (drop_bit 12 v AND 0x3f),
                                     kIndexToChar ! unat (drop_bit 6 v AND 0x3f),
                                     kPadding]\<rparr>
      else if length (enc_buf e) = 1 then
        let v = push_bit 16 (ucast (enc_buf e ! 0)) :: 32 word
        in e \<lparr>enc_rep := enc_rep e @ [kIndexToChar ! unat (drop_bit 18 v),
                                     kIndexToChar ! unat (drop_bit 12 v AND 0x3f)]
                                  @ replicate 2 kPadding\<rparr>
      else e)"

text \<open>The constructor from a range of octets; \<open>len_\<close> is the length of the buffered list.\<close>

definition Encoder_put :: "8 word \<Rightarrow> encoder \<Rightarrow> encoder" where
  "Encoder_put b e =
     (let e = e \<lparr>enc_buf := enc_buf e @ [b]\<rparr>
      in if length (enc_buf e) = 3 then Encoder_Flush e else e)"

definition MakeBytes :: "8 word list \<Rightarrow> bytes" where
  "MakeBytes bs =
     (let e = fold Encoder_put bs \<lparr>enc_rep = [], enc_buf = []\<rparr>
      in Bytes (enc_rep (if enc_buf e \<noteq> [] then Encoder_FlushAndPad e else e)))"

text \<open>
  The iterator: the text not yet decoded, and \<open>buf_[len_ .. 1]\<close>. Reading past the end of the
  text is undefined (\<open>None\<close>).
\<close>

record iterator =
  it_pos :: string
  it_len :: nat
  it_buf :: "8 word list"

definition it_push :: "int \<Rightarrow> iterator \<Rightarrow> iterator" where
  "it_push v it = it \<lparr>it_len := it_len it + 1, it_buf := (it_buf it)[it_len it + 1 := word_of_int v]\<rparr>"

definition Iterator_Fill :: "iterator \<Rightarrow> iterator option" where
  "Iterator_Fill it =
     (if it_pos it = [] then Some it
      else case it_pos it of
        p0 # p1 # p2 # p3 # pos \<Rightarrow>
          let i0 = uint (char_index1 p0) - 1;
              i1 = uint (char_index1 p1) - 1;
              it = it \<lparr>it_pos := pos\<rparr>
          in if p3 = kPadding then
               (if p2 = kPadding then
                  Some (it_push (push_bit 2 i0 OR drop_bit 4 i1) it)
                else
                  let i2 = uint (char_index1 p2) - 1
                  in Some (it_push (push_bit 2 i0 OR drop_bit 4 i1)
                          (it_push (push_bit 4 i1 OR drop_bit 2 i2) it)))
             else
               let i2 = uint (char_index1 p2) - 1;
                   i3 = uint (char_index1 p3) - 1
               in Some (it_push (push_bit 2 i0 OR drop_bit 4 i1)
                       (it_push (push_bit 4 i1 OR drop_bit 2 i2)
                       (it_push (push_bit 6 i2 OR i3) it)))
      | _ \<Rightarrow> None)"

definition MakeIterator :: "string \<Rightarrow> iterator option" where
  "MakeIterator pos = Iterator_Fill \<lparr>it_pos = pos, it_len = 0, it_buf = replicate 4 0\<rparr>"

definition Iterator_deref :: "iterator \<Rightarrow> 8 word" where
  "Iterator_deref it = it_buf it ! it_len it"

definition Iterator_next :: "iterator \<Rightarrow> iterator option" where
  "Iterator_next it =
     (let it = it \<lparr>it_len := it_len it - 1\<rparr>
      in if it_len it = 0 then Iterator_Fill it else Some it)"

text \<open>Copying the range \<open>[it, end)\<close> into a container.\<close>

partial_function (option) copy_range :: "iterator \<Rightarrow> 8 word list option" where
  "copy_range it =
     (if it_pos it = [] \<and> it_len it = 0 then Some []
      else Option.bind (Iterator_next it) (\<lambda>it'.
           Option.bind (copy_range it') (\<lambda>bs. Some (Iterator_deref it # bs))))"

definition Bytes_get :: "bytes \<Rightarrow> 8 word list option" where
  "Bytes_get b = Option.bind (MakeIterator (base64_rep b)) copy_range"

text \<open>The loop of \<open>BytesFromBase64\<close>: the text that is left when it stops.\<close>

fun FromBase64_loop :: "string \<Rightarrow> string" where
  "FromBase64_loop (p0 # p1 # p2 # p3 # p) =
     (let i0 = char_index1 p0 - 1; i1 = char_index1 p1 - 1
      in if i0 \<ge> 64 \<or> i1 \<ge> 64 then p0 # p1 # p2 # p3 # p
         else if p3 = kPadding then
           (if p2 = kPadding then
              (if i1 AND 0xf \<noteq> 0 then p0 # p1 # p2 # p3 # p else p)
            else
              let i2 = char_index1 p2 - 1
              in if i2 \<ge> 64 \<or> i2 AND 0x3 \<noteq> 0 then p0 # p1 # p2 # p3 # p else p)
         else
           let i2 = char_index1 p2 - 1; i3 = char_index1 p3 - 1
           in if i2 \<ge> 64 \<or> i3 \<ge> 64 then p0 # p1 # p2 # p3 # p
              else FromBase64_loop p)"
| "FromBase64_loop p = p"

definition BytesFromBase64 :: "string \<Rightarrow> bytes status_or" where
  "BytesFromBase64 input =
     (let p = FromBase64_loop input
      in if p \<noteq> [] then
           let offset = length input - length p; bad_chunk = take 4 (drop offset input)
           in Inl (Status kInvalidArgument
                (''Invalid base64 chunk '' @ [CHR 0x22] @ bad_chunk @ [CHR 0x22] @ '' at offset ''
                   @ to_string (int offset)))
         else Inr (Bytes input))"

definition BytesToBase64 :: "bytes \<Rightarrow> string" where
  "BytesToBase64 b = base64_rep b"

text \<open>\<open>operator<<\<close>: printable octets as they are, a quote escaped, others in octal.\<close>

definition octal3 :: "nat \<Rightarrow> string" where
  "octal3 n = [digit_char (n div 64 mod 8), digit_char (n div 8 mod 8), digit_char (n mod 8)]"

definition print_byte :: "8 word \<Rightarrow> string" where
  "print_byte b =
     (if b = 0x22 then [CHR 0x5C, CHR 0x22]
      else if 0x20 \<le> b \<and> b \<le> 0x7e then [char_of (unat b)]
      else CHR 0x5C # octal3 (unat b))"

definition PrintBytes :: "bytes \<Rightarrow> string option" where
  "PrintBytes b =
     map_option (\<lambda>bs. ''B'' @ [CHR 0x22] @ concat (map print_byte bs) @ [CHR 0x22]) (Bytes_get b)"

section \<open>Characters and indices\<close>

lemma length_kIndexToChar [simp]: "length kIndexToChar = 64"
  by (simp add: kIndexToChar_def)

lemma index_table: "map char_index1 kIndexToChar = map (\<lambda>i. of_nat i + 1) [0..<64]"
  by (simp add: kIndexToChar_def char_index1_def kCharToIndexExcessOne_def upt_rec)

lemma char_table:
  "list_all (\<lambda>(n, x). x = 0 \<or> of_char (kIndexToChar ! unat (x - 1)) = n)
    (zip [0..<123] (take 123 kCharToIndexExcessOne))"
  by (simp add: kIndexToChar_def kCharToIndexExcessOne_def upt_rec)

lemma index_of_char:
  assumes "i < 64"
  shows "char_index1 (kIndexToChar ! i) = of_nat i + 1"
proof -
  have "map char_index1 kIndexToChar ! i = char_index1 (kIndexToChar ! i)" using assms by simp
  then show ?thesis using assms unfolding index_table by simp
qed

lemma char_not_padding: "i < 64 \<Longrightarrow> kIndexToChar ! i \<noteq> kPadding"
proof -
  assume "i < 64"
  then have "kIndexToChar ! i \<in> set kIndexToChar" by simp
  moreover have "kPadding \<notin> set kIndexToChar" by (simp add: kIndexToChar_def kPadding_def)
  ultimately show ?thesis by metis
qed

lemma index_of_char_int: "i < 64 \<Longrightarrow> uint (char_index1 (kIndexToChar ! i)) - 1 = int i"
proof -
  assume i: "i < 64"
  then have "of_nat i + 1 = (of_nat (i + 1) :: 8 word)" by simp
  then have "uint (of_nat i + 1 :: 8 word) = int (i + 1)"
    using i by (simp only: uint_nat unat_of_nat) simp
  then show ?thesis by (simp add: index_of_char [OF i])
qed

lemma index_of_char_word: "i < 64 \<Longrightarrow> char_index1 (kIndexToChar ! i) - 1 = of_nat i"
  by (simp add: index_of_char)

lemma char_of_index:
  assumes "char_index1 c - 1 < 64"
  obtains i where "i < 64" "c = kIndexToChar ! i"
proof -
  define n :: nat where "n = of_char c"
  have n: "n < 256" by (simp add: n_def)
  have ne: "kCharToIndexExcessOne ! n \<noteq> 0"
    using assms by (auto simp: char_index1_def n_def)
  have len: "length (take 123 kCharToIndexExcessOne) = 123" "length kCharToIndexExcessOne = 256"
    by (simp_all add: kCharToIndexExcessOne_def)
  have "n < 123"
  proof (rule ccontr)
    assume "\<not> n < 123"
    moreover have "drop 123 kCharToIndexExcessOne = replicate 133 0"
      by (simp add: kCharToIndexExcessOne_def)
    ultimately have "kCharToIndexExcessOne ! n = replicate 133 0 ! (n - 123)"
      using nth_drop [of 123 kCharToIndexExcessOne "n - 123"] len by simp
    with n ne \<open>\<not> n < 123\<close> show False by simp
  qed
  then have "(n, kCharToIndexExcessOne ! n) \<in> set (zip [0..<123] (take 123 kCharToIndexExcessOne))"
    unfolding set_zip using len by (auto intro!: exI [of _ n])
  with char_table ne have "of_char (kIndexToChar ! unat (char_index1 c - 1)) = n"
    by (fastforce simp: list_all_iff char_index1_def n_def)
  then have "kIndexToChar ! unat (char_index1 c - 1) = c"
    by (simp add: n_def)
  moreover have "unat (char_index1 c - 1) < 64"
    using assms by (simp add: word_less_nat_alt)
  ultimately show ?thesis using that by metis
qed

section \<open>Four characters, three octets\<close>

definition join3 :: "8 word \<Rightarrow> 8 word \<Rightarrow> 8 word \<Rightarrow> 32 word" where
  "join3 b0 b1 b2 = push_bit 16 (ucast b0) OR push_bit 8 (ucast b1) OR ucast b2"

lemma mask6: "(0x3f :: 32 word) = mask 6"
  by (simp add: mask_eq_exp_minus_1)

lemma bit_join3:
  "bit (join3 b0 b1 b2) n \<longleftrightarrow>
     (16 \<le> n \<and> n < 24 \<and> bit b0 (n - 16)) \<or> (8 \<le> n \<and> n < 16 \<and> bit b1 (n - 8)) \<or> (n < 8 \<and> bit b2 n)"
proof -
  have "bit b k \<Longrightarrow> k < 8" for b :: "8 word" and k
    using bit_imp_le_length [of b k] by simp
  then show ?thesis
    unfolding join3_def by (auto simp: bit_or_iff bit_push_bit_iff bit_unsigned_iff) fastforce+
qed

definition six :: "nat \<Rightarrow> 32 word \<Rightarrow> nat" where
  "six k v = unat (drop_bit k v AND 0x3f)"

lemma six_less [simp]: "six k v < 64"
proof -
  have "drop_bit k v AND 0x3f \<le> 0x3f" by (rule word_and_le1)
  then show ?thesis by (simp add: six_def word_le_nat_alt)
qed

lemma bit_six: "bit (six k v) n \<longleftrightarrow> n < 6 \<and> bit v (k + n)"
  unfolding six_def mask6
  by (auto simp: bit_unsigned_iff bit_and_iff bit_mask_iff bit_drop_bit_eq dest: bit_imp_le_length)

lemma six_top: "unat (drop_bit 18 (join3 b0 b1 b2)) = six 18 (join3 b0 b1 b2)"
proof -
  have "drop_bit 18 (join3 b0 b1 b2) AND mask 6 = drop_bit 18 (join3 b0 b1 b2)"
    by (rule bit_word_eqI) (auto simp: bit_and_iff bit_mask_iff bit_drop_bit_eq bit_join3)
  then show ?thesis by (simp add: six_def mask6)
qed

lemma six_bottom: "unat (v AND 0x3f) = six 0 v"
  by (simp add: six_def)

definition oct0 :: "nat \<Rightarrow> nat \<Rightarrow> 8 word" where
  "oct0 i0 i1 = word_of_int (push_bit 2 (int i0) OR drop_bit 4 (int i1))"

definition oct1 :: "nat \<Rightarrow> nat \<Rightarrow> 8 word" where
  "oct1 i1 i2 = word_of_int (push_bit 4 (int i1) OR drop_bit 2 (int i2))"

definition oct2 :: "nat \<Rightarrow> nat \<Rightarrow> 8 word" where
  "oct2 i2 i3 = word_of_int (push_bit 6 (int i2) OR int i3)"

lemma bit_less64: "i < 64 \<Longrightarrow> bit i n \<Longrightarrow> n < (6::nat)" for i :: nat
proof -
  assume "i < 64" "bit i n"
  then have "take_bit 6 i = i" by (simp add: take_bit_nat_eq_self)
  then show "n < 6" using \<open>bit i n\<close> by (metis bit_take_bit_iff)
qed

lemma bit_oct:
  "bit (oct0 i0 i1) n \<longleftrightarrow> n < 8 \<and> ((2 \<le> n \<and> bit i0 (n - 2)) \<or> bit i1 (n + 4))"
  "bit (oct1 i1 i2) n \<longleftrightarrow> n < 8 \<and> ((4 \<le> n \<and> bit i1 (n - 4)) \<or> bit i2 (n + 2))"
  "bit (oct2 i2 i3) n \<longleftrightarrow> n < 8 \<and> ((6 \<le> n \<and> bit i2 (n - 6)) \<or> bit i3 n)"
  unfolding oct0_def oct1_def oct2_def
  by (auto simp: bit_word_of_int_iff bit_or_iff bit_push_bit_iff bit_drop_bit_eq bit_of_nat_iff add.commute)

lemma small_numerals:
  "(2::nat) = Suc (Suc 0)" "(3::nat) = Suc (Suc (Suc 0))" "(4::nat) = Suc (Suc (Suc (Suc 0)))"
  "(5::nat) = Suc (Suc (Suc (Suc (Suc 0))))"
  by simp_all

lemma less_8_cases:
  assumes "n < (8::nat)"
  shows "n \<in> {0, 1, 2, 3, 4, 5, 6, 7}"
  using assms by (simp only: insert_iff empty_iff) presburger

lemma oct_six:
  "oct0 (six 18 (join3 b0 b1 b2)) (six 12 (join3 b0 b1 b2)) = b0"
  "oct1 (six 12 (join3 b0 b1 b2)) (six 6 (join3 b0 b1 b2)) = b1"
  "oct2 (six 6 (join3 b0 b1 b2)) (six 0 (join3 b0 b1 b2)) = b2"
proof -
  have c: "n \<in> {0, 1, 2, 3, 4, 5, 6, 7}" if "n < LENGTH(8)" for n
    using less_8_cases [of n] that by simp
  show "oct0 (six 18 (join3 b0 b1 b2)) (six 12 (join3 b0 b1 b2)) = b0"
    by (rule bit_word_eqI, drule c, elim insertE emptyE)
      (simp_all only: bit_oct bit_six bit_join3, simp_all add: small_numerals)
  show "oct1 (six 12 (join3 b0 b1 b2)) (six 6 (join3 b0 b1 b2)) = b1"
    by (rule bit_word_eqI, drule c, elim insertE emptyE)
      (simp_all only: bit_oct bit_six bit_join3, simp_all add: small_numerals)
  show "oct2 (six 6 (join3 b0 b1 b2)) (six 0 (join3 b0 b1 b2)) = b2"
    by (rule bit_word_eqI, drule c, elim insertE emptyE)
      (simp_all only: bit_oct bit_six bit_join3, simp_all add: small_numerals)
qed

lemma six_eqI:
  assumes "i < 64" "\<And>n. n \<in> {0, 1, 2, 3, 4, 5} \<Longrightarrow> bit v (k + n) \<longleftrightarrow> bit i n"
  shows "six k v = i"
proof (rule bit_eqI)
  fix n
  show "bit (six k v) n \<longleftrightarrow> bit i n"
  proof (cases "n < 6")
    case True
    then have "n \<in> {0, 1, 2, 3, 4, 5}"
      by (simp only: insert_iff empty_iff) presburger
    with True assms(2) show ?thesis by (simp add: bit_six)
  next
    case False
    then show ?thesis using bit_less64 [OF assms(1), of n] by (auto simp: bit_six)
  qed
qed

lemma six_oct:
  assumes "i0 < 64" "i1 < 64" "i2 < 64" "i3 < 64"
  shows "six 18 (join3 (oct0 i0 i1) (oct1 i1 i2) (oct2 i2 i3)) = i0"
    "six 12 (join3 (oct0 i0 i1) (oct1 i1 i2) (oct2 i2 i3)) = i1"
    "six 6 (join3 (oct0 i0 i1) (oct1 i1 i2) (oct2 i2 i3)) = i2"
    "six 0 (join3 (oct0 i0 i1) (oct1 i1 i2) (oct2 i2 i3)) = i3"
proof -
  have z: "\<not> bit i n" if "n \<in> {6, 7, 8, 9, 10, 11}" "i \<in> {i0, i1, i2, i3}" for n i
    using that assms bit_less64 [of i n] by auto
  note z = z [of 6] z [of 7] z [of 8] z [of 9] z [of 10] z [of 11]
  show "six 18 (join3 (oct0 i0 i1) (oct1 i1 i2) (oct2 i2 i3)) = i0"
    using assms z by (intro six_eqI; (elim insertE emptyE)?; simp only: bit_join3 bit_oct; simp; simp add: small_numerals)
  show "six 12 (join3 (oct0 i0 i1) (oct1 i1 i2) (oct2 i2 i3)) = i1"
    using assms z by (intro six_eqI; (elim insertE emptyE)?; simp only: bit_join3 bit_oct; simp; simp add: small_numerals)
  show "six 6 (join3 (oct0 i0 i1) (oct1 i1 i2) (oct2 i2 i3)) = i2"
    using assms z by (intro six_eqI; (elim insertE emptyE)?; simp only: bit_join3 bit_oct; simp; simp add: small_numerals)
  show "six 0 (join3 (oct0 i0 i1) (oct1 i1 i2) (oct2 i2 i3)) = i3"
    using assms z by (intro six_eqI; (elim insertE emptyE)?; simp only: bit_join3 bit_oct; simp; simp add: small_numerals)
qed


section \<open>The encoder\<close>

definition encode3 :: "8 word \<Rightarrow> 8 word \<Rightarrow> 8 word \<Rightarrow> string" where
  "encode3 b0 b1 b2 = [kIndexToChar ! six 18 (join3 b0 b1 b2), kIndexToChar ! six 12 (join3 b0 b1 b2),
     kIndexToChar ! six 6 (join3 b0 b1 b2), kIndexToChar ! six 0 (join3 b0 b1 b2)]"

text \<open>The base64 text of octets, three at a time.\<close>

fun encode :: "8 word list \<Rightarrow> string" where
  "encode (b0 # b1 # b2 # bs) = encode3 b0 b1 b2 @ encode bs"
| "encode [b0, b1] = take 3 (encode3 b0 b1 0) @ [kPadding]"
| "encode [b0] = take 2 (encode3 b0 0 0) @ [kPadding, kPadding]"
| "encode [] = []"

lemma Encoder_Flush_encode3:
  "Encoder_Flush e = \<lparr>enc_rep = enc_rep e @ encode3 (enc_buf e ! 0) (enc_buf e ! 1) (enc_buf e ! 2),
     enc_buf = []\<rparr>"
  unfolding Encoder_Flush_def Let_def join3_def [symmetric] six_top six_def [symmetric]
  unfolding six_bottom encode3_def by (cases e) simp

lemma Encoder_FlushAndPad_encode3:
  "Encoder_FlushAndPad \<lparr>enc_rep = r, enc_buf = [b0, b1]\<rparr>
     = \<lparr>enc_rep = r @ take 3 (encode3 b0 b1 0) @ [kPadding], enc_buf = [b0, b1]\<rparr>"
  "Encoder_FlushAndPad \<lparr>enc_rep = r, enc_buf = [b0]\<rparr>
     = \<lparr>enc_rep = r @ take 2 (encode3 b0 0 0) @ [kPadding, kPadding], enc_buf = [b0]\<rparr>"
proof -
  have j: "push_bit 16 (ucast b0) OR push_bit 8 (ucast b1) = join3 b0 b1 0"
    "push_bit 16 (ucast b0) = join3 b0 0 0"
    by (simp_all add: join3_def)
  have n: "[b0, b1] ! 0 = b0" "[b0, b1] ! 1 = b1" "[b0] ! 0 = b0" by simp_all
  show "Encoder_FlushAndPad \<lparr>enc_rep = r, enc_buf = [b0, b1]\<rparr>
     = \<lparr>enc_rep = r @ take 3 (encode3 b0 b1 0) @ [kPadding], enc_buf = [b0, b1]\<rparr>"
    unfolding Encoder_FlushAndPad_def Let_def encoder.select_convs n j(1) six_top six_def [symmetric]
    by (simp add: encode3_def)
  show "Encoder_FlushAndPad \<lparr>enc_rep = r, enc_buf = [b0]\<rparr>
     = \<lparr>enc_rep = r @ take 2 (encode3 b0 0 0) @ [kPadding, kPadding], enc_buf = [b0]\<rparr>"
    unfolding Encoder_FlushAndPad_def Let_def encoder.select_convs n j(2) six_top six_def [symmetric]
    by (simp add: encode3_def numeral_2_eq_2)
qed

lemma fold_Encoder_put:
  "(let e = fold Encoder_put bs \<lparr>enc_rep = r, enc_buf = []\<rparr>
    in enc_rep (if enc_buf e \<noteq> [] then Encoder_FlushAndPad e else e)) = r @ encode bs"
  by (induction bs arbitrary: r rule: encode.induct)
    (simp_all add: Encoder_put_def Encoder_Flush_encode3 Encoder_FlushAndPad_encode3
      numeral_2_eq_2 numeral_3_eq_3)

lemma MakeBytes_encode: "MakeBytes bs = Bytes (encode bs)"
  using fold_Encoder_put [of bs "[]"] by (simp add: MakeBytes_def Let_def)

section \<open>The decoder\<close>

lemma it_push_simps:
  "it_pos (it_push v it) = it_pos it" "it_len (it_push v it) = it_len it + 1"
  "length (it_buf (it_push v it)) = length (it_buf it)"
  by (simp_all add: it_push_def)

lemma copy_range_step:
  assumes "it_len it \<noteq> 0"
  shows "copy_range it = Option.bind (Iterator_next it) (\<lambda>it'.
    Option.bind (copy_range it') (\<lambda>bs. Some (Iterator_deref it # bs)))"
  using assms by (subst copy_range.simps) simp

lemma char_index_six [simp]:
  "uint (char_index1 (kIndexToChar ! six k v)) - 1 = int (six k v)"
  "kIndexToChar ! six k v \<noteq> kPadding"
  by (simp_all add: index_of_char_int char_not_padding)

lemma word_of_int_oct:
  "word_of_int (push_bit 2 (int i0) OR drop_bit 4 (int i1)) = oct0 i0 i1"
  "word_of_int (push_bit 4 (int i1) OR drop_bit 2 (int i2)) = oct1 i1 i2"
  "word_of_int (push_bit 6 (int i2) OR int i3) = oct2 i2 i3"
  "word_of_int (4 * int i0 OR drop_bit 4 (int i1)) = oct0 i0 i1"
  by (simp_all add: oct0_def oct1_def oct2_def push_bit_eq_mult mult.commute)

lemma copy_range_top:
  assumes "length buf = 4"
  shows "copy_range \<lparr>it_pos = p, it_len = 1, it_buf = buf\<rparr>
      = Option.bind (Option.bind (Iterator_Fill \<lparr>it_pos = p, it_len = 0, it_buf = buf\<rparr>) copy_range)
          (\<lambda>bs. Some (buf ! 1 # bs))"
    and "copy_range \<lparr>it_pos = p, it_len = 2, it_buf = buf\<rparr>
      = Option.bind (Option.bind (Iterator_Fill \<lparr>it_pos = p, it_len = 0, it_buf = buf\<rparr>) copy_range)
          (\<lambda>bs. Some (buf ! 2 # buf ! 1 # bs))"
    and "copy_range \<lparr>it_pos = p, it_len = 3, it_buf = buf\<rparr>
      = Option.bind (Option.bind (Iterator_Fill \<lparr>it_pos = p, it_len = 0, it_buf = buf\<rparr>) copy_range)
          (\<lambda>bs. Some (buf ! 3 # buf ! 2 # buf ! 1 # bs))"
proof -
  show 1: "copy_range \<lparr>it_pos = p, it_len = 1, it_buf = buf\<rparr>
      = Option.bind (Option.bind (Iterator_Fill \<lparr>it_pos = p, it_len = 0, it_buf = buf\<rparr>) copy_range)
          (\<lambda>bs. Some (buf ! 1 # bs))"
    by (subst copy_range_step) (simp_all add: Iterator_next_def Iterator_deref_def Let_def)
  show 2: "copy_range \<lparr>it_pos = p, it_len = 2, it_buf = buf\<rparr>
      = Option.bind (Option.bind (Iterator_Fill \<lparr>it_pos = p, it_len = 0, it_buf = buf\<rparr>) copy_range)
          (\<lambda>bs. Some (buf ! 2 # buf ! 1 # bs))"
    using 1 by (subst copy_range_step) (simp_all add: Iterator_next_def Iterator_deref_def Let_def)
  show "copy_range \<lparr>it_pos = p, it_len = 3, it_buf = buf\<rparr>
      = Option.bind (Option.bind (Iterator_Fill \<lparr>it_pos = p, it_len = 0, it_buf = buf\<rparr>) copy_range)
          (\<lambda>bs. Some (buf ! 3 # buf ! 2 # buf ! 1 # bs))"
    using 2 by (subst copy_range_step) (simp_all add: Iterator_next_def Iterator_deref_def Let_def)
qed

lemma Fill_chunk:
  assumes "length buf = 4"
  shows "Iterator_Fill \<lparr>it_pos = encode3 b0 b1 b2 @ s, it_len = 0, it_buf = buf\<rparr>
      = Some \<lparr>it_pos = s, it_len = 3, it_buf = buf[1 := b2, 2 := b1, 3 := b0]\<rparr>"
    and "Iterator_Fill \<lparr>it_pos = take 3 (encode3 b0 b1 b2) @ kPadding # s, it_len = 0, it_buf = buf\<rparr>
      = Some \<lparr>it_pos = s, it_len = 2, it_buf = buf[1 := b1, 2 := b0]\<rparr>"
    and "Iterator_Fill \<lparr>it_pos = take 2 (encode3 b0 b1 b2) @ kPadding # kPadding # s, it_len = 0, it_buf = buf\<rparr>
      = Some \<lparr>it_pos = s, it_len = 1, it_buf = buf[1 := b0]\<rparr>"
  unfolding Iterator_Fill_def encode3_def
  by (simp_all add: Let_def word_of_int_oct it_push_def oct_six,
    simp_all add: numeral_2_eq_2 numeral_3_eq_3)

lemma copy_range_end:
  "Option.bind (Iterator_Fill \<lparr>it_pos = [], it_len = 0, it_buf = buf\<rparr>) copy_range = Some []"
  by (simp add: Iterator_Fill_def copy_range.simps)

lemma Fill_encode:
  assumes "length buf = 4"
  shows "Option.bind (Iterator_Fill \<lparr>it_pos = encode bs, it_len = 0, it_buf = buf\<rparr>) copy_range
    = Some bs"
  using assms
proof (induction bs arbitrary: buf rule: encode.induct)
  case (1 b0 b1 b2 bs)
  show ?case
    unfolding encode.simps Fill_chunk(1) [OF 1(2)] Option.bind.simps
    by (subst copy_range_top(3)) (simp_all only: 1 length_list_update Option.bind.simps,
      simp add: 1)
next
  case (2 b0 b1)
  show ?case
    unfolding encode.simps append_assoc append.simps Fill_chunk(2) [OF 2] Option.bind.simps
    by (subst copy_range_top(2)) (simp_all only: 2 length_list_update copy_range_end Option.bind.simps,
      simp add: 2)
next
  case (3 b0)
  show ?case
    unfolding encode.simps append_assoc append.simps Fill_chunk(3) [OF 3] Option.bind.simps
    by (subst copy_range_top(1)) (simp_all only: 3 length_list_update copy_range_end Option.bind.simps,
      simp add: 3)
next
  case 4
  show ?case unfolding encode.simps by (rule copy_range_end)
qed

lemma Bytes_get_encode: "Bytes_get (Bytes (encode bs)) = Some bs"
  using Fill_encode [of "replicate 4 0" bs] by (simp add: Bytes_get_def MakeIterator_def)

section \<open>Accepted text\<close>

lemma index_word_less: "i < 64 \<Longrightarrow> (of_nat i :: 8 word) < 64"
  by (simp add: word_less_nat_alt unat_of_nat)

lemma char_index_ok: "i < 64 \<Longrightarrow> \<not> 64 \<le> char_index1 (kIndexToChar ! i) - 1"
  by (simp only: index_of_char_word index_word_less linorder_not_le)

lemma low_bits_zero:
  "i < 64 \<Longrightarrow> (of_nat i :: 8 word) AND 0xf = 0 \<longleftrightarrow> (\<forall>n < 4. \<not> bit i n)"
  "i < 64 \<Longrightarrow> (of_nat i :: 8 word) AND 0x3 = 0 \<longleftrightarrow> (\<forall>n < 2. \<not> bit i n)"
proof -
  have m: "(0xf :: 8 word) = mask 4" "(0x3 :: 8 word) = mask 2"
    by (simp_all add: mask_eq_exp_minus_1)
  have b: "bit (of_nat i :: 8 word) n \<longleftrightarrow> n < 8 \<and> bit i n" for n
    using bit_word_of_int_iff [where 'a = 8, of "int i" n] by (simp add: bit_of_nat_iff)
  have small2: "n < 8" if "n < 2" for n :: nat using that by simp
  have small: "n < 8" if "n < 4" for n :: nat using that by simp
  show "(of_nat i :: 8 word) AND 0xf = 0 \<longleftrightarrow> (\<forall>n < 4. \<not> bit i n)"
    unfolding m by (auto simp: bit_eq_iff bit_and_iff bit_mask_iff b) (meson small)
  show "(of_nat i :: 8 word) AND 0x3 = 0 \<longleftrightarrow> (\<forall>n < 2. \<not> bit i n)"
    unfolding m by (auto simp: bit_eq_iff bit_and_iff bit_mask_iff b) (meson small2)
qed

lemma six_padded:
  "n < 4 \<Longrightarrow> \<not> bit (six 12 (join3 b0 0 0)) n"
  "n < 2 \<Longrightarrow> \<not> bit (six 6 (join3 b0 b1 0)) n"
  by (auto simp: bit_six bit_join3)

lemma oct_padded:
  assumes "i2 < 64" "\<forall>n < 2. \<not> bit i2 n"
  shows "oct2 i2 0 = 0"
  using assms bit_less64 [of i2] by (intro bit_word_eqI) (auto simp: bit_oct)

lemma oct_padded2:
  assumes "i1 < 64" "\<forall>n < 4. \<not> bit i1 n"
  shows "oct1 i1 0 = 0"
  using assms bit_less64 [of i1] by (intro bit_word_eqI) (auto simp: bit_oct)

lemma FromBase64_loop_encode: "FromBase64_loop (encode bs) = []"
proof (induction bs rule: encode.induct)
  case (1 b0 b1 b2 bs)
  then show ?case
    by (simp add: encode3_def Let_def char_not_padding char_index_ok)
next
  case (2 b0 b1)
  have "(of_nat (six 6 (join3 b0 b1 0)) :: 8 word) AND 0x3 = 0"
    using low_bits_zero(2) [OF six_less] six_padded(2) by blast
  then show ?case
    by (simp add: encode3_def Let_def char_not_padding char_index_ok numeral_3_eq_3)
      (simp add: index_of_char)
next
  case (3 b0)
  have "(of_nat (six 12 (join3 b0 0 0)) :: 8 word) AND 0xf = 0"
    using low_bits_zero(1) [OF six_less] six_padded(1) by blast
  then show ?case
    by (simp add: encode3_def Let_def char_not_padding char_index_ok numeral_2_eq_2)
      (simp add: index_of_char)
next
  case 4
  show ?case by simp
qed

lemma FromBase64_loop_only_encode:
  assumes "FromBase64_loop s = []"
  shows "\<exists>bs. s = encode bs"
  using assms
proof (induction s rule: FromBase64_loop.induct)
  case (1 p0 p1 p2 p3 p)
  have "char_index1 p0 - 1 < 64" "char_index1 p1 - 1 < 64"
    using 1(2) by (auto simp: Let_def not_le split: if_splits)
  then obtain i0 i1 where i: "i0 < 64" "p0 = kIndexToChar ! i0" "i1 < 64" "p1 = kIndexToChar ! i1"
    using char_of_index by metis
  have z: "(0::nat) < 64" by simp
  consider (two) "p3 = kPadding" "p2 = kPadding" | (one) "p3 = kPadding" "p2 \<noteq> kPadding"
    | (full) "p3 \<noteq> kPadding" by blast
  then show ?case
  proof cases
    case two
    then have "p = []" "char_index1 p1 - 1 AND 0xf = 0"
      using 1(2) by (auto simp: Let_def split: if_splits)
    then have o: "oct1 i1 0 = 0" "oct2 0 0 = 0"
      using i low_bits_zero(1) [of i1] oct_padded2 oct_padded [OF z]
      by (auto simp: index_of_char_word)
    have "p0 # p1 # p2 # p3 # p = encode [oct0 i0 i1]"
      using six_oct [OF i(1,3) z z] i two \<open>p = []\<close> unfolding o
      by (simp add: encode3_def numeral_2_eq_2)
    then show ?thesis by blast
  next
    case one
    then have p: "p = []" "char_index1 p2 - 1 < 64" "char_index1 p2 - 1 AND 0x3 = 0"
      using 1(2) by (auto simp: Let_def not_le split: if_splits)
    from p(2) obtain i2 where i2: "i2 < 64" "p2 = kIndexToChar ! i2" by (rule char_of_index)
    then have o: "oct2 i2 0 = 0"
      using p(3) low_bits_zero(2) [of i2] oct_padded by (auto simp: index_of_char_word)
    have "p0 # p1 # p2 # p3 # p = encode [oct0 i0 i1, oct1 i1 i2]"
      using six_oct [OF i(1,3) i2(1) z] i i2 one p(1) unfolding o
      by (simp add: encode3_def numeral_3_eq_3)
    then show ?thesis by blast
  next
    case full
    then have p: "char_index1 p2 - 1 < 64" "char_index1 p3 - 1 < 64" "FromBase64_loop p = []"
      using 1(2) by (auto simp: Let_def not_le split: if_splits)
    then obtain i2 i3 where i2: "i2 < 64" "p2 = kIndexToChar ! i2" "i3 < 64" "p3 = kIndexToChar ! i3"
      using char_of_index by metis
    have c: "\<not> (64 \<le> char_index1 p0 - 1 \<or> 64 \<le> char_index1 p1 - 1)"
      "\<not> (64 \<le> char_index1 p2 - 1 \<or> 64 \<le> char_index1 p3 - 1)"
      using i i2 char_index_ok by auto
    obtain bs where "p = encode bs"
      using 1(1) [OF refl refl c(1) full refl refl c(2) p(3)] by blast
    then have "p0 # p1 # p2 # p3 # p
        = encode (oct0 i0 i1 # oct1 i1 i2 # oct2 i2 i3 # bs)"
      using six_oct [OF i(1,3) i2(1,3)] i i2 by (simp add: encode3_def)
    then show ?thesis by blast
  qed
qed (auto intro: exI [of _ "[]"])

lemma FromBase64_loop_suffix: "\<exists>k. FromBase64_loop s = drop (4 * k) s \<and> 4 * k \<le> length s"
proof (induction s rule: FromBase64_loop.induct)
  case (1 p0 p1 p2 p3 p)
  let ?s = "p0 # p1 # p2 # p3 # p"
  have same: "\<exists>k. ?s = drop (4 * k) ?s \<and> 4 * k \<le> length ?s"
    by (intro exI [of _ 0]) simp
  have next1: "\<exists>k. p = drop (4 * k) ?s \<and> 4 * k \<le> length ?s"
    by (intro exI [of _ 1]) simp
  show ?case
  proof (cases "64 \<le> char_index1 p0 - 1 \<or> 64 \<le> char_index1 p1 - 1")
    case True
    then have "FromBase64_loop ?s = ?s" by auto
    with same show ?thesis by simp
  next
    case c: False
    show ?thesis
    proof (cases "p3 = kPadding")
      case True
      then have "FromBase64_loop ?s = ?s \<or> FromBase64_loop ?s = p" using c by (auto simp: Let_def)
      with same next1 show ?thesis by auto
    next
      case f: False
      show ?thesis
      proof (cases "64 \<le> char_index1 p2 - 1 \<or> 64 \<le> char_index1 p3 - 1")
        case True
        then have "FromBase64_loop ?s = ?s" using c f by auto
        with same show ?thesis by simp
      next
        case False
        then have "FromBase64_loop ?s = FromBase64_loop p" using c f by auto
        moreover obtain k where "FromBase64_loop p = drop (4 * k) p" "4 * k \<le> length p"
          using 1 [OF refl refl c f refl refl False] by blast
        moreover have "4 * (k + 1) = Suc (Suc (Suc (Suc (4 * k))))" by simp
        ultimately show ?thesis
          by (intro exI [of _ "k + 1"]) (simp only: drop_Suc_Cons list.size, simp)
      qed
    qed
  qed
qed (auto intro: exI [of _ 0])

section \<open>Properties\<close>

text \<open>
  The octets a \<open>Bytes\<close> was made from are what \<open>get()\<close> returns: the encoder's three buffered
  octets, its padded tail of one or two, and the decoder's iterator fit together, and the
  iteration ends without reading past the text.
\<close>

theorem bytes_get_round_trip: "Bytes_get (MakeBytes bs) = Some bs"
  unfolding MakeBytes_encode by (rule Bytes_get_encode)

text \<open>
  C17: \<open>BytesFromBase64\<close> accepts exactly the canonical base64 texts, those that the encoder
  writes for some octets (so trailing bits of a padded chunk must be zero and nothing may follow
  the padding), keeps the text as it is, and otherwise names the offset of the first bad chunk,
  a multiple of four.
\<close>

theorem bytes_from_base64_exact:
  "(BytesFromBase64 s = Inr b \<longleftrightarrow> (\<exists>bs. b = MakeBytes bs \<and> BytesToBase64 b = s)) \<and>
   (BytesFromBase64 s = Inl e \<longrightarrow>
      (\<exists>k. 4 * k < length s \<and> code e = kInvalidArgument \<and>
        message e = ''Invalid base64 chunk '' @ [CHR 0x22] @ take 4 (drop (4 * k) s) @ [CHR 0x22]
          @ '' at offset '' @ to_string (int (4 * k))))"
proof -
  have "BytesFromBase64 s = Inr b \<longleftrightarrow> FromBase64_loop s = [] \<and> b = Bytes s"
    by (auto simp: BytesFromBase64_def Let_def)
  moreover have "FromBase64_loop s = [] \<longleftrightarrow> (\<exists>bs. s = encode bs)"
    using FromBase64_loop_encode FromBase64_loop_only_encode by blast
  moreover obtain k where k: "FromBase64_loop s = drop (4 * k) s" "4 * k \<le> length s"
    using FromBase64_loop_suffix by blast
  have "\<exists>k. 4 * k < length s \<and> code e = kInvalidArgument \<and>
        message e = ''Invalid base64 chunk '' @ [CHR 0x22] @ take 4 (drop (4 * k) s) @ [CHR 0x22]
          @ '' at offset '' @ to_string (int (4 * k))"
    if "BytesFromBase64 s = Inl e"
  proof (intro exI [of _ k] conjI)
    show "4 * k < length s" using that k by (auto simp: BytesFromBase64_def Let_def split: if_splits)
    have "length s - length (FromBase64_loop s) = 4 * k" using k by simp
    then show "code e = kInvalidArgument"
      "message e = ''Invalid base64 chunk '' @ [CHR 0x22] @ take 4 (drop (4 * k) s) @ [CHR 0x22]
          @ '' at offset '' @ to_string (int (4 * k))"
      using that by (auto simp: BytesFromBase64_def Let_def split: if_splits)
  qed
  ultimately show ?thesis by (auto simp: MakeBytes_encode BytesToBase64_def)
qed

theorem bytes_from_base64_exact_witness:
  "BytesFromBase64 ''Zm8='' = Inr (MakeBytes [102, 111]) \<and>
   BytesFromBase64 ''Zm9='' = Inl (Status kInvalidArgument
     (''Invalid base64 chunk '' @ [CHR 0x22] @ ''Zm9='' @ [CHR 0x22] @ '' at offset 0''))"
proof -
  have "MakeBytes [102, 111] = Bytes ''Zm8=''" by code_simp
  then have "BytesFromBase64 ''Zm8='' = Inr (MakeBytes [102, 111])"
    using bytes_from_base64_exact [of "''Zm8=''" "MakeBytes [102, 111]"]
    by (simp add: BytesToBase64_def) (metis bytes.sel)
  moreover have "BytesFromBase64 ''Zm9='' = Inl (Status kInvalidArgument
     (''Invalid base64 chunk '' @ [CHR 0x22] @ ''Zm9='' @ [CHR 0x22] @ '' at offset 0''))"
    by code_simp
  ultimately show ?thesis by blast
qed

end
