(* ===== verification/Proto_Values.thy ===== *)
theory Proto_Values
  imports Spanner_Prelude "HOL-Library.Word"
begin

text \<open>
  The messages the library receives: \<open>google::protobuf::Value\<close> and the Spanner types as trees
  (a double is its 64-bit pattern), and \<open>MergeChunk\<close> of \<open>merge_chunk.cc\<close>, which joins the pieces
  of a value that the service split over two messages. The lemmas relate it to the splitting that
  the protocol allows.
\<close>

section \<open>Values\<close>

datatype pvalue =
    PNotSet | PNull | PNumber "64 word" | PString string | PBool bool
  | PStruct "(string \<times> pvalue) list" | PList "pvalue list"

datatype kind_case =
    KIND_NOT_SET | kNullValue | kNumberValue | kStringValue | kBoolValue | kStructValue | kListValue

fun kind_of :: "pvalue \<Rightarrow> kind_case" where
  "kind_of PNotSet = KIND_NOT_SET"
| "kind_of PNull = kNullValue"
| "kind_of (PNumber _) = kNumberValue"
| "kind_of (PString _) = kStringValue"
| "kind_of (PBool _) = kBoolValue"
| "kind_of (PStruct _) = kStructValue"
| "kind_of (PList _) = kListValue"

text \<open>\<open>google::spanner::v1::Type\<close>.\<close>

datatype ptype =
    TYPE_CODE_UNSPECIFIED | TBool | TInt64 | TFloat64 | TTimestamp | TDate | TString | TBytes
  | TArray ptype | TStruct "(string \<times> ptype) list"

section \<open>Merging chunks\<close>

definition mismatched_types :: status where
  "mismatched_types = Status kInvalidArgument ''mismatched types''"

definition invalid_type :: status where
  "invalid_type = Status kInvalidArgument ''invalid type''"

definition unknown_value_type :: status where
  "unknown_value_type = Status kUnknown ''unknown Value type''"

text \<open>
  On success the result is the new content of \<open>value\<close>; on an error \<open>value\<close> is unchanged (no
  branch of the code changes it before it returns an error). \<open>value_list.rbegin()\<close> is the last
  element, \<open>chunk_list.begin()\<close> the first.
\<close>

function (sequential) MergeChunk :: "pvalue \<Rightarrow> pvalue \<Rightarrow> pvalue status_or" where
  "MergeChunk (PString s) (PString t) = Inr (PString (s @ t))"
| "MergeChunk (PList vs) (PList cs) =
     (if vs = [] then Inr (PList cs)
      else if cs = [] then Inr (PList vs)
      else if kind_of (last vs) = kStringValue \<or> kind_of (last vs) = kListValue then
        (case MergeChunk (last vs) (hd cs) of
           Inl status \<Rightarrow> Inl status
         | Inr merged \<Rightarrow> Inr (PList (butlast vs @ merged # tl cs)))
      else Inr (PList (vs @ cs)))"
| "MergeChunk value chunk =
     (if kind_of value \<noteq> kind_of chunk then Inl mismatched_types
      else if kind_of value \<in> {kBoolValue, kNumberValue, kNullValue, kStructValue}
      then Inl invalid_type
      else Inl unknown_value_type)"
  by pat_completeness auto

lemma size_last_PList: "vs \<noteq> [] \<Longrightarrow> size (last vs) < Suc (size_list size vs)"
  by (induction vs) (auto split: if_splits)

termination MergeChunk
  by (relation "measure (\<lambda>(value, _). size value)") (auto simp: size_last_PList)

text \<open>
  How the service may split a value in two: a string anywhere, a list between two elements
  (after a last element that is neither a string nor a list) or inside an element, which is then
  split itself. An empty list may go on either side.
\<close>

definition mergeable :: "pvalue \<Rightarrow> bool" where
  "mergeable v \<longleftrightarrow> kind_of v \<in> {kStringValue, kListValue}"

inductive splits :: "pvalue \<Rightarrow> pvalue \<Rightarrow> pvalue \<Rightarrow> bool" where
  string: "splits (PString (s @ t)) (PString s) (PString t)"
| first_empty: "splits (PList ys) (PList []) (PList ys)"
| second_empty: "splits (PList xs) (PList xs) (PList [])"
| between: "xs \<noteq> [] \<Longrightarrow> ys \<noteq> [] \<Longrightarrow> \<not> mergeable (last xs) \<Longrightarrow>
    splits (PList (xs @ ys)) (PList xs) (PList ys)"
| inside: "splits v a b \<Longrightarrow> splits (PList (xs @ v # ys)) (PList (xs @ [a])) (PList (b # ys))"

inductive_cases splits_stringE: "splits v (PString s) b"
inductive_cases splits_listE: "splits v (PList xs) b"

lemma splits_mergeable: "splits v a b \<Longrightarrow> mergeable a"
  by (induction rule: splits.induct) (auto simp: mergeable_def)

lemma splits_MergeChunk: "splits v a b \<Longrightarrow> MergeChunk a b = Inr v"
proof (induction rule: splits.induct)
  case (inside v a b xs ys)
  then show ?case using splits_mergeable [OF inside(1)] by (auto simp: mergeable_def)
qed (auto simp: mergeable_def)

lemma MergeChunk_splits: "MergeChunk a b = Inr v \<Longrightarrow> splits v a b"
proof (induction a b arbitrary: v rule: MergeChunk.induct)
  case (1 s t)
  then show ?case by (auto intro: splits.string)
next
  case (2 vs cs)
  consider "vs = []" | "vs \<noteq> []" "cs = []" | "vs \<noteq> []" "cs \<noteq> []" "\<not> mergeable (last vs)"
    | "vs \<noteq> []" "cs \<noteq> []" "mergeable (last vs)" by blast
  then show ?case
  proof cases
    case 1
    then show ?thesis using 2(2) by (auto intro: splits.first_empty)
  next
    case 2
    then show ?thesis using 2(1) "2.prems" by (auto intro: splits.second_empty)
  next
    case 3
    then show ?thesis using 2(2) by (auto simp: mergeable_def intro: splits.between)
  next
    case 4
    then obtain m where m: "MergeChunk (last vs) (hd cs) = Inr m"
      "v = PList (butlast vs @ m # tl cs)"
      using 2(2) by (auto simp: mergeable_def split: sum.splits)
    then have "splits m (last vs) (hd cs)" using 2(1) 4 by (auto simp: mergeable_def)
    then have "splits v (PList (butlast vs @ [last vs])) (PList (hd cs # tl cs))"
      unfolding m(2) by (rule splits.inside)
    with 4 show ?thesis by simp
  qed
qed (auto split: if_splits)

lemma MergeChunk_iff_splits: "MergeChunk a b = Inr v \<longleftrightarrow> splits v a b"
  using splits_MergeChunk MergeChunk_splits by blast

text \<open>Merging is associative, so a value may span any number of messages.\<close>

definition merge :: "pvalue \<Rightarrow> pvalue \<Rightarrow> pvalue option" where
  "merge a b = (case MergeChunk a b of Inl _ \<Rightarrow> None | Inr v \<Rightarrow> Some v)"

lemma merge_simps:
  "merge (PString s) (PString t) = Some (PString (s @ t))"
  "merge (PList []) (PList ys) = Some (PList ys)"
  "merge (PList xs) (PList []) = Some (PList xs)"
  "\<not> mergeable x \<Longrightarrow> merge (PList (xs @ [x])) (PList (y # ys)) = Some (PList (xs @ x # y # ys))"
  "mergeable x \<Longrightarrow> merge (PList (xs @ [x])) (PList (y # ys)) =
     map_option (\<lambda>m. PList (xs @ m # ys)) (merge x y)"
  by (auto simp: merge_def mergeable_def split: sum.splits)

lemma merge_None:
  "\<not> mergeable a \<Longrightarrow> merge a b = None" "kind_of a \<noteq> kind_of b \<Longrightarrow> merge a b = None"
  by (cases a; cases b; simp add: merge_def mergeable_def)+

lemma merge_kind: "merge a b = Some v \<Longrightarrow> kind_of v = kind_of a \<and> kind_of b = kind_of a \<and> mergeable a"
  by (cases a; cases b; auto simp: merge_def mergeable_def split: sum.splits if_splits)

lemma merge_mergeable: "merge a b = Some v \<Longrightarrow> mergeable v"
  using merge_kind by (fastforce simp: mergeable_def)

lemma merge_snoc:
  "merge (PList (xs @ [x])) (PList (y # ys)) =
     (if mergeable x then map_option (\<lambda>m. PList (xs @ m # ys)) (merge x y)
      else Some (PList (xs @ x # y # ys)))"
  by (simp add: merge_simps)

lemma merge_snoc2:
  "merge (PList (z # xs @ [x])) (PList (y # ys)) =
     (if mergeable x then map_option (\<lambda>m. PList (z # xs @ m # ys)) (merge x y)
      else Some (PList (z # xs @ x # y # ys)))"
  using merge_snoc [of "z # xs"] by simp

lemma merge_single:
  "merge (PList [x]) (PList (y # ys)) =
     (if mergeable x then map_option (\<lambda>m. PList (m # ys)) (merge x y)
      else Some (PList (x # y # ys)))"
  using merge_snoc [of "[]"] by simp

lemma merge_assoc_lists:
  assumes IH: "\<And>c. mergeable x \<Longrightarrow> Option.bind (merge x y) (\<lambda>m. merge m c) = Option.bind (merge y c) (merge x)"
  shows "Option.bind (merge (PList (xs @ [x])) (PList (y # ys))) (\<lambda>m. merge m (PList (d # ds)))
    = Option.bind (merge (PList (y # ys)) (PList (d # ds))) (merge (PList (xs @ [x])))"
proof (cases ys rule: rev_cases)
  case Nil
  show ?thesis
  proof (cases "mergeable x")
    case True
    show ?thesis
    proof (cases "mergeable y")
      case y: True
      have "map_option (\<lambda>m. PList (xs @ m # ds)) (Option.bind (merge x y) (\<lambda>m. merge m d))
        = map_option (\<lambda>m. PList (xs @ m # ds)) (Option.bind (merge y d) (merge x))"
        using IH [OF True, of d] by simp
      then show ?thesis
        using True y Nil merge_mergeable [of x y]
        by (cases "merge x y"; cases "merge y d") (auto simp: merge_snoc merge_single)
    next
      case False
      then have "merge x y = None" using merge_kind [of x y] True by (fastforce simp: mergeable_def)
      then show ?thesis using True False Nil by (simp add: merge_snoc merge_single)
    qed
  next
    case False
    then show ?thesis
      using Nil merge_snoc [of "xs @ [x]" y d ds]
      by (cases "merge y d") (auto simp: merge_snoc merge_single)
  qed
next
  case (snoc ys' z)
  show ?thesis
    using merge_snoc [of "xs @ m # ys'" z d ds for m] merge_snoc [of "xs @ x # y # ys'" z d ds]
    by (cases "merge x y"; cases "merge z d") (auto simp: merge_snoc merge_snoc2 snoc)
qed

lemma merge_unit:
  "Option.bind (merge (PList xs) (PList ys)) (merge (PList [])) = merge (PList xs) (PList ys)"
  "Option.bind (merge (PList xs) (PList ys)) (\<lambda>m. merge m (PList [])) = merge (PList xs) (PList ys)"
proof -
  have "\<exists>l. v = PList l" if "merge (PList xs) (PList ys) = Some v" for v
    using merge_kind [OF that] by (cases v) simp_all
  then show "Option.bind (merge (PList xs) (PList ys)) (merge (PList [])) = merge (PList xs) (PList ys)"
    "Option.bind (merge (PList xs) (PList ys)) (\<lambda>m. merge m (PList [])) = merge (PList xs) (PList ys)"
    by (cases "merge (PList xs) (PList ys)"; fastforce simp: merge_simps(2,3))+
qed

lemma merge_assoc_mismatch:
  assumes "\<not> mergeable a \<or> kind_of a \<noteq> kind_of b"
  shows "Option.bind (merge a b) (\<lambda>m. merge m c) = Option.bind (merge b c) (merge a)"
proof -
  have "merge a b = None" using assms merge_None by blast
  moreover have "merge a m = None" if "merge b c = Some m" for m
    using assms merge_kind [OF that] merge_None by metis
  ultimately show ?thesis by (cases "merge b c") simp_all
qed

lemma merge_assoc:
  "Option.bind (merge a b) (\<lambda>m. merge m c) = Option.bind (merge b c) (merge a)"
proof (induction a b arbitrary: c rule: MergeChunk.induct)
  case (1 s t)
  then show ?case by (cases c) (simp_all add: merge_simps merge_None)
next
  case (2 vs cs)
  show ?case
  proof (cases "kind_of c = kListValue")
    case False
    then have "merge (PList cs) c = None" by (simp add: merge_None)
    moreover have "merge m c = None" if "merge (PList vs) (PList cs) = Some m" for m
      using merge_kind [OF that] False by (simp add: merge_None)
    ultimately show ?thesis by (cases "merge (PList vs) (PList cs)") simp_all
  next
    case True
    then obtain ds where PList: "c = PList ds" by (cases c) simp_all
    show ?thesis
    proof (cases "vs = [] \<or> cs = [] \<or> ds = []")
      case True
      then show ?thesis
        unfolding PList
        by (auto simp: merge_simps(2,3) merge_unit)
    next
      case False
      then obtain xs x y ys d ds' where e: "vs = xs @ [x]" "cs = y # ys" "ds = d # ds'"
        by (metis list.exhaust rev_exhaust)
      have "mergeable x \<Longrightarrow> Option.bind (merge x y) (\<lambda>m. merge m c) = Option.bind (merge y c) (merge x)" for c
        using 2 [of c] e by (auto simp: mergeable_def)
      from merge_assoc_lists [OF this] show ?thesis unfolding PList e .
    qed
  qed
qed (rule merge_assoc_mismatch, (auto simp: mergeable_def) [1])+

text \<open>
  C27: \<open>MergeChunk\<close> is the inverse of the protocol's splitting: it joins two chunks to a value
  exactly when the value may be split into them, and it is associative, so that a value sent in
  any number of chunks has one reading.
\<close>

theorem merge_chunk_joins:
  "(MergeChunk a b = Inr v \<longleftrightarrow> splits v a b) \<and>
   (\<forall>c. (\<exists>ab. MergeChunk a b = Inr ab \<and> MergeChunk ab c = Inr v) \<longleftrightarrow>
        (\<exists>bc. MergeChunk b c = Inr bc \<and> MergeChunk a bc = Inr v))"
proof -
  have m: "merge x y = Some z \<longleftrightarrow> MergeChunk x y = Inr z" for x y z
    by (simp add: merge_def split: sum.split)
  have "(\<exists>ab. merge a b = Some ab \<and> merge ab c = Some v) \<longleftrightarrow>
        (\<exists>bc. merge b c = Some bc \<and> merge a bc = Some v)" for c
    using merge_assoc [of a b c] by (auto simp: bind_eq_Some_conv [symmetric])
  then show ?thesis using MergeChunk_iff_splits unfolding m by blast
qed

end
