(* ===== verification/Result_Stream.thy ===== *)
theory Result_Stream
  imports Proto_Values
begin

text \<open>
  From \<open>PartialResultSet\<close> messages to rows: the reader interface of
  \<open>partial_result_set_reader.h\<close> as a locale, its implementations over a gRPC stream
  (\<open>connection_impl.cc\<close>) and with logging (\<open>logging_result_set_reader.cc\<close>), and
  \<open>PartialResultSetSource\<close>, which reassembles chunked values and cuts them into rows. The gRPC
  stream itself is the script of messages it will deliver and its final status.
\<close>

section \<open>Messages and rows\<close>

text \<open>The parts of \<open>ResultSetMetadata\<close> and \<open>ResultSetStats\<close> the library uses.\<close>

datatype txn_info = TxnInfo (txn_id: string) (txn_read_timestamp: "(int \<times> int) option")

datatype result_metadata =
  Metadata (row_type_fields: "(string \<times> ptype) list") (md_transaction: "txn_info option")

datatype result_stats =
  Stats (row_count_exact: int) (row_count_lower_bound: int)
    (query_stats: "(string \<times> pvalue) list option") (query_plan: "pvalue option")

record partial_result_set =
  prs_metadata :: "result_metadata option"
  prs_values :: "pvalue list"
  prs_chunked :: bool
  prs_resume_token :: string
  prs_stats :: "result_stats option"

text \<open>A \<open>Value\<close> pairs a type with a proto; a row has named columns. \<open>Row()\<close> is empty.\<close>

datatype val = Value (value_type: ptype) (value_proto: pvalue)

datatype row = Row (row_values: "val list") (row_columns: "string list")

definition empty_row :: row where
  "empty_row = Row [] []"

definition row_size :: "row \<Rightarrow> nat" where
  "row_size r = length (row_columns r)"

section \<open>Readers\<close>

text \<open>
  The operations of a \<open>PartialResultSetReader\<close> on its state; \<open>None\<close> is a \<open>Read\<close> that never returns.
\<close>

record 'r reader =
  Read :: "'r \<Rightarrow> (partial_result_set option \<times> 'r) option"
  Finish :: "'r \<Rightarrow> status \<times> 'r"
  TryCancel :: "'r \<Rightarrow> 'r"

text \<open>
  What a reader promises in its valid states: it delivers the messages it still has, in order;
  then it reports the end of the stream, after which \<open>Finish\<close> is the status of the stream.
\<close>

locale result_reader =
  fixes rd :: "'r reader"
    and valid :: "'r \<Rightarrow> bool"
    and pending :: "'r \<Rightarrow> partial_result_set list"
    and final :: "'r \<Rightarrow> status"
  assumes read_more: "valid r \<Longrightarrow> pending r = m # ms \<Longrightarrow>
      \<exists>r'. Read rd r = Some (Some m, r') \<and> valid r' \<and> pending r' = ms \<and> final r' = final r"
    and read_end: "valid r \<Longrightarrow> pending r = [] \<Longrightarrow>
      \<exists>r'. Read rd r = Some (None, r') \<and> fst (Finish rd r') = final r"

text \<open>\<open>DefaultPartialResultSetReader\<close> over the gRPC stream.\<close>

record grpc_stream =
  grpc_messages :: "partial_result_set list"
  grpc_status :: status
  grpc_cancelled :: bool

definition DefaultReader_Read ::
    "grpc_stream \<Rightarrow> (partial_result_set option \<times> grpc_stream) option" where
  "DefaultReader_Read s =
     (case grpc_messages s of
        [] \<Rightarrow> Some (None, s)
      | m # ms \<Rightarrow> Some (Some m, s \<lparr>grpc_messages := ms\<rparr>))"

definition DefaultReader_Finish :: "grpc_stream \<Rightarrow> status \<times> grpc_stream" where
  "DefaultReader_Finish s = (grpc_status s, s)"

definition DefaultReader_TryCancel :: "grpc_stream \<Rightarrow> grpc_stream" where
  "DefaultReader_TryCancel s =
     s \<lparr>grpc_messages := [], grpc_status := Status kCancelled ''cancelled'', grpc_cancelled := True\<rparr>"

definition default_reader :: "grpc_stream reader" where
  "default_reader = \<lparr>Read = DefaultReader_Read, Finish = DefaultReader_Finish,
     TryCancel = DefaultReader_TryCancel\<rparr>"

interpretation dflt: result_reader default_reader "\<lambda>_. True" grpc_messages grpc_status
  by unfold_locales
    (auto simp: default_reader_def DefaultReader_Read_def DefaultReader_Finish_def)

text \<open>
  \<open>LoggingResultSetReader\<close> writes what passes through it; the log lists the results of the calls.
\<close>

datatype log_entry = LogCancel | LogRead "partial_result_set option" | LogFinish status

record 'r logging =
  log_impl :: 'r
  log_lines :: "log_entry list"

definition LoggingReader_Read ::
    "'r reader \<Rightarrow> 'r logging \<Rightarrow> (partial_result_set option \<times> 'r logging) option" where
  "LoggingReader_Read impl s =
     map_option
       (\<lambda>(result, r). (result, s \<lparr>log_impl := r, log_lines := log_lines s @ [LogRead result]\<rparr>))
       (Read impl (log_impl s))"

definition LoggingReader_Finish :: "'r reader \<Rightarrow> 'r logging \<Rightarrow> status \<times> 'r logging" where
  "LoggingReader_Finish impl s =
     (let (status, r) = Finish impl (log_impl s)
      in (status, s \<lparr>log_impl := r, log_lines := log_lines s @ [LogFinish status]\<rparr>))"

definition LoggingReader_TryCancel :: "'r reader \<Rightarrow> 'r logging \<Rightarrow> 'r logging" where
  "LoggingReader_TryCancel impl s =
     s \<lparr>log_impl := TryCancel impl (log_impl s), log_lines := log_lines s @ [LogCancel]\<rparr>"

definition logging_reader :: "'r reader \<Rightarrow> 'r logging reader" where
  "logging_reader impl = \<lparr>Read = LoggingReader_Read impl, Finish = LoggingReader_Finish impl,
     TryCancel = LoggingReader_TryCancel impl\<rparr>"

text \<open>Logging changes nothing of the contract.\<close>

context result_reader
begin

lemma logged:
  "result_reader (logging_reader rd) (\<lambda>s. valid (log_impl s)) (\<lambda>s. pending (log_impl s))
     (\<lambda>s. final (log_impl s))"
proof
  fix s :: "'r logging" and m ms
  assume "valid (log_impl s)" "pending (log_impl s) = m # ms"
  from read_more [OF this] obtain r' where
    "Read rd (log_impl s) = Some (Some m, r')" "valid r'" "pending r' = ms"
    "final r' = final (log_impl s)" by blast
  then show "\<exists>r'. Read (logging_reader rd) s = Some (Some m, r') \<and> valid (log_impl r') \<and>
      pending (log_impl r') = ms \<and> final (log_impl r') = final (log_impl s)"
    by (auto simp: logging_reader_def LoggingReader_Read_def)
next
  fix s :: "'r logging"
  assume "valid (log_impl s)" "pending (log_impl s) = []"
  from read_end [OF this] obtain r' where
    "Read rd (log_impl s) = Some (None, r')" "fst (Finish rd r') = final (log_impl s)" by blast
  then show "\<exists>r'. Read (logging_reader rd) s = Some (None, r') \<and>
      fst (Finish (logging_reader rd) r') = final (log_impl s)"
    by (auto simp: logging_reader_def LoggingReader_Read_def LoggingReader_Finish_def
        split: prod.splits)
qed

end

interpretation logged_dflt: result_reader "logging_reader default_reader" "\<lambda>_. True"
    "\<lambda>s. grpc_messages (log_impl s)" "\<lambda>s. grpc_status (log_impl s)"
  by (rule dflt.logged)

section \<open>PartialResultSetSource\<close>

record 'r source =
  src_reader :: 'r
  src_metadata :: "result_metadata option"
  src_stats :: "result_stats option"
  src_buffer :: "pvalue list"
  src_chunk :: "pvalue option"
  src_columns :: "string list option"
  src_finished :: bool

abbreviation internal_error :: "string \<Rightarrow> status" where
  "internal_error m \<equiv> Status kInternal m"

definition no_values_to_merge :: status where
  "no_values_to_merge = internal_error
     (''PartialResultSet contained no values '' @ ''to merge with prior chunked_value'')"

definition chunked_without_values :: status where
  "chunked_without_values = internal_error
     (''PartialResultSet had chunked_value '' @ ''set true but contained no values'')"

text \<open>Storing the metadata (the first one wins) and the stats (the last one wins).\<close>

definition store_metadata :: "partial_result_set \<Rightarrow> 'r source \<Rightarrow> 'r source" where
  "store_metadata m s =
     (case prs_metadata m of
        None \<Rightarrow> s
      | Some md \<Rightarrow>
          if src_metadata s \<noteq> None then s
          else s \<lparr>src_metadata := Some md, src_columns := Some (map fst (row_type_fields md))\<rparr>)"

definition store_stats :: "partial_result_set \<Rightarrow> 'r source \<Rightarrow> 'r source" where
  "store_stats m s =
     (case prs_stats m of None \<Rightarrow> s | Some st \<Rightarrow> s \<lparr>src_stats := Some st\<rparr>)"

text \<open>The values of a message: merge with the pending chunk, take off a new one, buffer the rest.\<close>

definition store_values :: "partial_result_set \<Rightarrow> 'r source \<Rightarrow> status \<times> 'r source" where
  "store_values m s =
     (let merged =
        (case src_chunk s of
           None \<Rightarrow> Inr (prs_values m, s)
         | Some chunk \<Rightarrow>
             (case prs_values m of
                [] \<Rightarrow> Inl no_values_to_merge
              | front # rest \<Rightarrow>
                  (case MergeChunk chunk front of
                     Inl merge_status \<Rightarrow> Inl merge_status
                   | Inr v \<Rightarrow> Inr (v # rest, s \<lparr>src_chunk := None\<rparr>))))
      in case merged of
           Inl status \<Rightarrow> (status, s)
         | Inr (new_values, s) \<Rightarrow>
             if prs_chunked m then
               (if new_values = [] then (chunked_without_values, s)
                else (ok_status, s \<lparr>src_chunk := Some (last new_values),
                                    src_buffer := src_buffer s @ butlast new_values\<rparr>))
             else (ok_status, s \<lparr>src_buffer := src_buffer s @ new_values\<rparr>))"

definition ReadFromStream :: "'r reader \<Rightarrow> 'r source \<Rightarrow> (status \<times> 'r source) option" where
  "ReadFromStream rd s =
     (case Read rd (src_reader s) of
        None \<Rightarrow> None
      | Some (None, r) \<Rightarrow>
          let (status, r) = Finish rd r
          in Some (status, s \<lparr>src_finished := True, src_reader := r\<rparr>)
      | Some (Some m, r) \<Rightarrow>
          Some (store_values m (store_stats m (store_metadata m (s \<lparr>src_reader := r\<rparr>)))))"

definition Source_Create :: "'r reader \<Rightarrow> 'r \<Rightarrow> 'r source status_or option" where
  "Source_Create rd r =
     (let s0 = \<lparr>src_reader = r, src_metadata = None, src_stats = None, src_buffer = [],
               src_chunk = None, src_columns = None, src_finished = False\<rparr>
      in case ReadFromStream rd s0 of
           None \<Rightarrow> None
         | Some (status, s) \<Rightarrow>
             Some (if \<not> status_ok status then Inl status
                   else if src_metadata s = None
                   then Inl (internal_error ''response contained no metadata'')
                   else Inr s))"

text \<open>
  The loop of \<open>NextRow\<close>: \<open>Inl\<close> is an early return, \<open>Inr\<close> that the buffer holds a row. A null
  \<open>columns_\<close> is undefined, and so is a loop that does not end (\<open>None\<close>).
\<close>

partial_function (option) NextRow_fill ::
    "'r reader \<Rightarrow> 'r source \<Rightarrow> ((row status_or + unit) \<times> 'r source) option" where
  "NextRow_fill rd s =
     (if src_buffer s \<noteq> [] \<and> src_columns s = None then None
      else if src_buffer s = [] \<or> length (src_buffer s) < length (the (src_columns s)) then
        Option.bind (ReadFromStream rd s) (\<lambda>(status, s).
          if \<not> status_ok status then Some (Inl (Inl status), s)
          else if src_finished s then
            (if src_chunk s \<noteq> None then
               Some (Inl (Inl (internal_error ''incomplete chunked_value at end of stream'')), s)
             else if src_buffer s \<noteq> [] then
               Some (Inl (Inl (internal_error ''incomplete row at end of stream'')), s)
             else Some (Inl (Inr empty_row), s))
          else NextRow_fill rd s)
      else Some (Inr (), s))"

definition NextRow :: "'r reader \<Rightarrow> 'r source \<Rightarrow> (row status_or \<times> 'r source) option" where
  "NextRow rd s =
     (if src_finished s then Some (Inr empty_row, s)
      else case NextRow_fill rd s of
          None \<Rightarrow> None
        | Some (Inl r, s) \<Rightarrow> Some (r, s)
        | Some (Inr _, s) \<Rightarrow>
            let fields = (case src_metadata s of None \<Rightarrow> [] | Some md \<Rightarrow> row_type_fields md)
            in if fields = [] then
                 Some (Inl (internal_error ''response metadata is missing row type information''), s)
               else
                 let values = map (\<lambda>((_, ty), v). Value ty v) (zip fields (src_buffer s))
                 in Some (Inr (Row values (the (src_columns s))),
                          s \<lparr>src_buffer := drop (length fields) (src_buffer s)\<rparr>))"

text \<open>The destructor finishes a stream that was not read to its end.\<close>

definition Source_destroy :: "'r reader \<Rightarrow> 'r source \<Rightarrow> 'r" where
  "Source_destroy rd s =
     (if src_finished s then src_reader s
      else snd (Finish rd (TryCancel rd (src_reader s))))"


section \<open>What a stream delivers\<close>

text \<open>
  \<open>delivers c ms vs c'\<close>: after a pending chunk \<open>c\<close>, the messages \<open>ms\<close> are a splitting of the
  values \<open>vs\<close>, and \<open>c'\<close> is the chunk left open at the end. A value may be split over several
  messages, each time as the protocol's \<open>splits\<close> allows.
\<close>

inductive delivers ::
    "pvalue option \<Rightarrow> partial_result_set list \<Rightarrow> pvalue list \<Rightarrow> pvalue option \<Rightarrow> bool" where
  finished: "delivers c [] [] c"
| whole: "\<not> prs_chunked m \<Longrightarrow> delivers None ms vs c' \<Longrightarrow> delivers None (m # ms) (prs_values m @ vs) c'"
| opened: "prs_chunked m \<Longrightarrow> prs_values m = xs @ [c] \<Longrightarrow> delivers (Some c) ms vs c' \<Longrightarrow>
    delivers None (m # ms) (xs @ vs) c'"
| joined: "prs_values m = y # ys \<Longrightarrow> splits v c y \<Longrightarrow>
    delivers None (m \<lparr>prs_values := v # ys\<rparr> # ms) vs c' \<Longrightarrow> delivers (Some c) (m # ms) vs c'"

inductive_cases delivers_NilE: "delivers c [] vs c'"
inductive_cases delivers_None_ConsE: "delivers None (m # ms) vs c'"
inductive_cases delivers_Some_ConsE: "delivers (Some c) (m # ms) vs c'"

lemma src_chunk_store [simp]:
  "src_chunk (store_stats m s) = src_chunk s" "src_chunk (store_metadata m s) = src_chunk s"
  "src_buffer (store_stats m s) = src_buffer s" "src_buffer (store_metadata m s) = src_buffer s"
  "src_reader (store_stats m s) = src_reader s" "src_reader (store_metadata m s) = src_reader s"
  "src_finished (store_stats m s) = src_finished s"
  "src_finished (store_metadata m s) = src_finished s"
  "src_metadata (store_stats m s) = src_metadata s" "src_columns (store_stats m s) = src_columns s"
  by (simp_all add: store_stats_def store_metadata_def split: option.splits)

lemma store_values_None:
  assumes "delivers None (m # ms) vs c'" "src_chunk s = None"
  shows "\<exists>s' ws. store_values m s = (ok_status, s') \<and> delivers (src_chunk s') ms ws c' \<and>
    src_buffer s @ vs = src_buffer s' @ ws \<and> src_reader s' = src_reader s \<and>
    src_metadata s' = src_metadata s \<and> src_columns s' = src_columns s \<and>
    src_finished s' = src_finished s"
  using assms(1)
proof (rule delivers_None_ConsE)
  fix ws
  assume "vs = prs_values m @ ws" "\<not> prs_chunked m" "delivers None ms ws c'"
  with assms(2) show ?thesis by (auto simp: store_values_def)
next
  fix xs c ws
  assume "vs = xs @ ws" "prs_chunked m" "prs_values m = xs @ [c]" "delivers (Some c) ms ws c'"
  with assms(2) show ?thesis by (auto simp: store_values_def)
qed

lemma store_values_delivers:
  assumes "delivers (src_chunk s) (m # ms) vs c'"
  shows "\<exists>s' ws. store_values m s = (ok_status, s') \<and> delivers (src_chunk s') ms ws c' \<and>
    src_buffer s @ vs = src_buffer s' @ ws \<and> src_reader s' = src_reader s \<and>
    src_metadata s' = src_metadata s \<and> src_columns s' = src_columns s \<and>
    src_finished s' = src_finished s"
proof (cases "src_chunk s")
  case None
  with assms store_values_None show ?thesis by metis
next
  case (Some c)
  from assms [unfolded Some] show ?thesis
  proof (rule delivers_Some_ConsE)
    fix y ys v
    assume v: "prs_values m = y # ys" "splits v c y"
      "delivers None (m \<lparr>prs_values := v # ys\<rparr> # ms) vs c'"
    have "store_values m s = store_values (m \<lparr>prs_values := v # ys\<rparr>) (s \<lparr>src_chunk := None\<rparr>)"
      using Some v(1) splits_MergeChunk [OF v(2)] by (simp add: store_values_def)
    then show ?thesis using store_values_None [OF v(3), of "s \<lparr>src_chunk := None\<rparr>"] by simp
  qed
qed

text \<open>The source has its metadata and will still deliver the values \<open>vs\<close> (with its buffer).\<close>

definition source_inv ::
    "('r \<Rightarrow> bool) \<Rightarrow> ('r \<Rightarrow> partial_result_set list) \<Rightarrow> ('r \<Rightarrow> status) \<Rightarrow> result_metadata \<Rightarrow> pvalue option \<Rightarrow> status \<Rightarrow>
     'r source \<Rightarrow> pvalue list \<Rightarrow> bool" where
  "source_inv valid pending final md c' st s vs \<longleftrightarrow>
     \<not> src_finished s \<and> valid (src_reader s) \<and> src_metadata s = Some md \<and>
     src_columns s = Some (map fst (row_type_fields md)) \<and> final (src_reader s) = st \<and>
     (\<exists>ws. delivers (src_chunk s) (pending (src_reader s)) ws c' \<and> vs = src_buffer s @ ws)"

text \<open>The row made of values, and what ends the rows.\<close>

definition typed_row :: "result_metadata \<Rightarrow> pvalue list \<Rightarrow> row" where
  "typed_row md vs = Row (map2 Value (map snd (row_type_fields md)) vs)
     (map fst (row_type_fields md))"

definition end_of_rows :: "status \<Rightarrow> pvalue option \<Rightarrow> pvalue list \<Rightarrow> row status_or" where
  "end_of_rows st c' rest =
     (if \<not> status_ok st then Inl st
      else if c' \<noteq> None then Inl (internal_error ''incomplete chunked_value at end of stream'')
      else if rest \<noteq> [] then Inl (internal_error ''incomplete row at end of stream'')
      else Inr empty_row)"

lemma map_zip_typed:
  "length fs \<le> length vs \<Longrightarrow>
   map (\<lambda>((_, ty), v). Value ty v) (zip fs vs)
     = map2 Value (map snd fs) (take (length fs) vs)"
proof (induction fs arbitrary: vs)
  case (Cons f fs)
  then show ?case by (cases vs) (auto split: prod.splits)
qed simp

context result_reader
begin

lemma ReadFromStream_more:
  assumes "source_inv valid pending final md c' st s vs" "pending (src_reader s) = m # ms"
  shows "\<exists>s'. ReadFromStream rd s = Some (ok_status, s') \<and> source_inv valid pending final md c' st s' vs \<and>
    length (pending (src_reader s')) < length (pending (src_reader s))"
proof -
  have "valid (src_reader s)" using assms(1) by (simp add: source_inv_def)
  from read_more [OF this assms(2)] obtain r' where
    r: "Read rd (src_reader s) = Some (Some m, r')" "valid r'" "pending r' = ms"
      "final r' = final (src_reader s)" by blast
  obtain ws where ws: "delivers (src_chunk s) (m # ms) ws c'" "vs = src_buffer s @ ws"
    using assms by (auto simp: source_inv_def)
  let ?s = "store_stats m (store_metadata m (s \<lparr>src_reader := r'\<rparr>))"
  have "delivers (src_chunk ?s) (m # ms) ws c'" using ws(1) by simp
  from store_values_delivers [OF this] obtain s' ws' where
    s': "store_values m ?s = (ok_status, s')" "delivers (src_chunk s') ms ws' c'"
      "src_buffer ?s @ ws = src_buffer s' @ ws'" "src_reader s' = src_reader ?s"
      "src_metadata s' = src_metadata ?s" "src_columns s' = src_columns ?s"
      "src_finished s' = src_finished ?s" by blast
  have "src_metadata ?s = Some md" "src_columns ?s = Some (map fst (row_type_fields md))"
    using assms(1) by (auto simp: source_inv_def store_metadata_def split: option.splits)
  then have "source_inv valid pending final md c' st s' vs"
    using s' r ws assms(1) by (auto simp: source_inv_def)
  moreover have "ReadFromStream rd s = Some (ok_status, s')"
    using r s' by (simp add: ReadFromStream_def)
  ultimately show ?thesis using s'(4) r(3) assms(2) by auto
qed

lemma ReadFromStream_end:
  assumes "source_inv valid pending final md c' st s vs" "pending (src_reader s) = []"
  shows "\<exists>s'. ReadFromStream rd s = Some (st, s') \<and> src_finished s' \<and> src_buffer s' = vs \<and>
    src_buffer s = vs \<and> src_chunk s' = c'"
proof -
  have "valid (src_reader s)" using assms(1) by (simp add: source_inv_def)
  from read_end [OF this assms(2)] obtain r' where
    r: "Read rd (src_reader s) = Some (None, r')" "fst (Finish rd r') = final (src_reader s)"
    by blast
  have f: "fst (Finish rd r') = st" using r(2) assms(1) by (simp add: source_inv_def)
  have "src_chunk s = c'" "vs = src_buffer s"
    using assms by (auto simp: source_inv_def elim: delivers_NilE)
  then show ?thesis using r f by (auto simp: ReadFromStream_def split: prod.splits)
qed

lemma NextRow_fill_row:
  assumes "source_inv valid pending final md c' st s vs" "length (row_type_fields md) \<le> length vs"
    "row_type_fields md \<noteq> []"
  shows "\<exists>s'. NextRow_fill rd s = Some (Inr (), s') \<and> source_inv valid pending final md c' st s' vs \<and>
    length (row_type_fields md) \<le> length (src_buffer s')"
  using assms(1)
proof (induction "length (pending (src_reader s))" arbitrary: s rule: less_induct)
  case less
  have cols: "src_columns s = Some (map fst (row_type_fields md))"
    using less.prems by (simp add: source_inv_def)
  show ?case
  proof (cases "length (row_type_fields md) \<le> length (src_buffer s)")
    case True
    then have "src_buffer s \<noteq> []" using assms(3) by auto
    with True cols less.prems show ?thesis by (subst NextRow_fill.simps) auto
  next
    case False
    then obtain m ms where p: "pending (src_reader s) = m # ms"
      using ReadFromStream_end [OF less.prems] assms(2) by (cases "pending (src_reader s)") auto
    obtain s' where s': "ReadFromStream rd s = Some (ok_status, s')" "source_inv valid pending final md c' st s' vs"
      "length (pending (src_reader s')) < length (pending (src_reader s))"
      using ReadFromStream_more [OF less.prems p] by blast
    have "\<not> src_finished s'" using s'(2) by (simp add: source_inv_def)
    then have "NextRow_fill rd s = NextRow_fill rd s'"
      using False cols s'(1) by (subst NextRow_fill.simps) auto
    then show ?thesis using less.hyps [OF s'(3,2)] by simp
  qed
qed

lemma NextRow_fill_end:
  assumes "source_inv valid pending final md c' st s vs" "length vs < length (row_type_fields md)"
  shows "\<exists>s'. NextRow_fill rd s = Some (Inl (end_of_rows st c' vs), s') \<and> src_finished s'"
  using assms(1)
proof (induction "length (pending (src_reader s))" arbitrary: s rule: less_induct)
  case less
  have cols: "src_columns s = Some (map fst (row_type_fields md))"
    using less.prems by (simp add: source_inv_def)
  have short: "length (src_buffer s) < length (row_type_fields md)"
    using less.prems assms(2) by (auto simp: source_inv_def)
  show ?case
  proof (cases "pending (src_reader s)")
    case Nil
    obtain s' where "ReadFromStream rd s = Some (st, s')" "src_finished s'" "src_buffer s' = vs"
      "src_chunk s' = c'"
      using ReadFromStream_end [OF less.prems Nil] by blast
    then show ?thesis
      using short cols by (subst NextRow_fill.simps) (auto simp: end_of_rows_def)
  next
    case (Cons m ms)
    obtain s' where s': "ReadFromStream rd s = Some (ok_status, s')" "source_inv valid pending final md c' st s' vs"
      "length (pending (src_reader s')) < length (pending (src_reader s))"
      using ReadFromStream_more [OF less.prems Cons] by blast
    have "\<not> src_finished s'" using s'(2) by (simp add: source_inv_def)
    then have "NextRow_fill rd s = NextRow_fill rd s'"
      using short cols s'(1) by (subst NextRow_fill.simps) auto
    then show ?thesis using less.hyps [OF s'(3,2)] by simp
  qed
qed

lemma NextRow_row:
  assumes "source_inv valid pending final md c' st s vs" "length (row_type_fields md) \<le> length vs"
    "row_type_fields md \<noteq> []"
  shows "\<exists>s'. NextRow rd s = Some (Inr (typed_row md (take (length (row_type_fields md)) vs)), s') \<and>
    source_inv valid pending final md c' st s' (drop (length (row_type_fields md)) vs)"
proof -
  let ?n = "length (row_type_fields md)"
  obtain s' where s': "NextRow_fill rd s = Some (Inr (), s')" "source_inv valid pending final md c' st s' vs"
    "?n \<le> length (src_buffer s')"
    using NextRow_fill_row [OF assms] by blast
  obtain ws where ws: "delivers (src_chunk s') (pending (src_reader s')) ws c'" "vs = src_buffer s' @ ws"
    using s'(2) by (auto simp: source_inv_def)
  have md: "src_metadata s' = Some md" "src_columns s' = Some (map fst (row_type_fields md))"
    using s'(2) by (simp_all add: source_inv_def)
  have "\<not> src_finished s" using assms(1) by (simp add: source_inv_def)
  then have "NextRow rd s = Some (Inr (typed_row md (take ?n (src_buffer s'))),
      s' \<lparr>src_buffer := drop ?n (src_buffer s')\<rparr>)"
    using s'(1,3) md assms(3)
    by (simp add: NextRow_def Let_def typed_row_def map_zip_typed)
  moreover have "source_inv valid pending final md c' st (s' \<lparr>src_buffer := drop ?n (src_buffer s')\<rparr>) (drop ?n vs)"
    using s'(2,3) ws by (auto simp: source_inv_def)
  ultimately show ?thesis using s'(3) ws(2) by simp
qed

lemma NextRow_end:
  assumes "source_inv valid pending final md c' st s vs" "length vs < length (row_type_fields md)"
  shows "\<exists>s'. NextRow rd s = Some (end_of_rows st c' vs, s') \<and> src_finished s'"
  using NextRow_fill_end [OF assms] assms(1) by (auto simp: NextRow_def source_inv_def)

lemma Source_Create_inv:
  assumes "valid r" "pending r = m # ms" "prs_metadata m = Some md" "delivers None (m # ms) vs c'"
  shows "\<exists>s. Source_Create rd r = Some (Inr s) \<and> source_inv valid pending final md c' (final r) s vs"
proof -
  obtain r' where r: "Read rd r = Some (Some m, r')" "valid r'" "pending r' = ms" "final r' = final r"
    using read_more [OF assms(1,2)] by blast
  define s0 :: "'r source" where "s0 = \<lparr>src_reader = r, src_metadata = None, src_stats = None,
    src_buffer = [], src_chunk = None, src_columns = None, src_finished = False\<rparr>"
  let ?s = "store_stats m (store_metadata m (s0 \<lparr>src_reader := r'\<rparr>))"
  have "delivers (src_chunk ?s) (m # ms) vs c'" using assms(4) by (simp add: s0_def)
  from store_values_delivers [OF this] obtain s' ws where
    s': "store_values m ?s = (ok_status, s')" "delivers (src_chunk s') ms ws c'"
      "src_buffer ?s @ vs = src_buffer s' @ ws" "src_reader s' = src_reader ?s"
      "src_metadata s' = src_metadata ?s" "src_columns s' = src_columns ?s"
      "src_finished s' = src_finished ?s" by blast
  have "src_metadata ?s = Some md" "src_columns ?s = Some (map fst (row_type_fields md))"
    using assms(3) by (simp_all add: store_metadata_def s0_def)
  then have "source_inv valid pending final md c' (final r) s' vs"
    using s' r by (auto simp: source_inv_def s0_def)
  moreover have "Source_Create rd r = Some (Inr s')"
    using r s' \<open>src_metadata ?s = Some md\<close>
    by (simp add: Source_Create_def ReadFromStream_def s0_def [symmetric])
      (simp add: s0_def)
  ultimately show ?thesis by blast
qed

end

end
