(* ===== verification/Rows.thy ===== *)
theory Rows
  imports Result_Stream Timestamps
begin

text \<open>
  Rows and the ranges over them (\<open>row.cc\<close>, \<open>row.h\<close>, \<open>results.cc\<close>): access by position and name,
  conversion to tuples, the input iterators \<open>RowStreamIterator\<close> and \<open>TupleStreamIterator\<close>,
  \<open>GetSingularRow\<close>, and what \<open>RowStream\<close> and the DML and profile results report. A range is
  driven by a source of rows, a function on its state; \<open>None\<close> is an undefined step or a loop that
  does not end.
\<close>

section \<open>Rows\<close>

text \<open>The constructor ends the program when the sizes differ.\<close>

definition MakeRow :: "val list \<Rightarrow> string list \<Rightarrow> row option" where
  "MakeRow values columns = (if length values = length columns then Some (Row values columns) else None)"

definition MakeTestRow :: "(string \<times> val) list \<Rightarrow> row option" where
  "MakeTestRow pairs = MakeRow (map snd pairs) (map fst pairs)"

definition Row_get :: "row \<Rightarrow> nat \<Rightarrow> val status_or" where
  "Row_get r pos =
     (if pos < length (row_values r) then Inr (row_values r ! pos)
      else Inl (Status kInvalidArgument ''position out of range''))"

fun find_index :: "'a \<Rightarrow> 'a list \<Rightarrow> nat" where
  "find_index x [] = 0"
| "find_index x (y # ys) = (if x = y then 0 else Suc (find_index x ys))"

definition Row_get_name :: "row \<Rightarrow> string \<Rightarrow> val status_or" where
  "Row_get_name r name =
     (let it = find_index name (row_columns r)
      in if it \<noteq> length (row_columns r) then Row_get r it
         else Inl (Status kInvalidArgument ''column name not found''))"

text \<open>
  \<open>get<Tuple>()\<close>: the tuple's types are the decoders of its components; every component is
  extracted, a failing one keeps its default and leaves its status behind.
\<close>

fun ExtractValues :: "(val \<Rightarrow> 'a status_or) list \<Rightarrow> val list \<Rightarrow> 'a option list \<Rightarrow> status \<Rightarrow>
    'a option list \<times> status" where
  "ExtractValues (d # ds) (v # vs) tup status =
     (case d v of
        Inl e \<Rightarrow> ExtractValues ds vs (tup @ [None]) e
      | Inr x \<Rightarrow> ExtractValues ds vs (tup @ [Some x]) status)"
| "ExtractValues _ _ tup status = (tup, status)"

definition Row_get_tuple :: "(val \<Rightarrow> 'a status_or) list \<Rightarrow> row \<Rightarrow> 'a option list status_or" where
  "Row_get_tuple ds r =
     (if row_size r \<noteq> length ds
      then Inl (Status kInvalidArgument ''Tuple has the wrong number of elements'')
      else let (tup, status) = ExtractValues ds (row_values r) [] ok_status
           in if \<not> status_ok status then Inl status else Inr tup)"

section \<open>Iterators\<close>

text \<open>
  \<open>ri_live\<close> says that \<open>source_\<close> is not null, so the iterator is not the end; the state is that of
  the stream the source refers to.
\<close>

record 's row_iterator =
  ri_row :: "row status_or"
  ri_state :: 's
  ri_live :: bool

type_synonym 's row_source = "'s \<Rightarrow> (row status_or \<times> 's) option"

definition RowStreamIterator_next :: "'s row_source \<Rightarrow> 's row_iterator \<Rightarrow> 's row_iterator option" where
  "RowStreamIterator_next source it =
     (if \<not> is_value (ri_row it) then Some (it \<lparr>ri_live := False\<rparr>)
      else if \<not> ri_live it then None
      else case source (ri_state it) of
          None \<Rightarrow> None
        | Some (row, s) \<Rightarrow>
            let it = it \<lparr>ri_row := row, ri_state := s\<rparr>
            in Some (if is_value row \<and> row_size (projr row) = 0 then it \<lparr>ri_live := False\<rparr> else it))"

definition RowStream_begin :: "'s row_source \<Rightarrow> 's \<Rightarrow> 's row_iterator option" where
  "RowStream_begin source s =
     RowStreamIterator_next source \<lparr>ri_row = Inr empty_row, ri_state = s, ri_live = True\<rparr>"

text \<open>The loop \<open>for (auto& row : stream)\<close>: the elements it sees.\<close>

partial_function (option) iterate :: "'s row_source \<Rightarrow> 's row_iterator \<Rightarrow> row status_or list option" where
  "iterate source it =
     (if \<not> ri_live it then Some []
      else Option.bind (RowStreamIterator_next source it) (\<lambda>it'.
           Option.bind (iterate source it') (\<lambda>rows. Some (ri_row it # rows))))"

definition all_rows :: "'s row_source \<Rightarrow> 's \<Rightarrow> row status_or list option" where
  "all_rows source s = Option.bind (RowStream_begin source s) (iterate source)"

definition GetSingularRow :: "'s row_source \<Rightarrow> 's \<Rightarrow> row status_or option" where
  "GetSingularRow source s =
     Option.bind (RowStream_begin source s) (\<lambda>it.
       if \<not> ri_live it then Some (Inl (Status kInvalidArgument ''no rows''))
       else Option.bind (RowStreamIterator_next source it) (\<lambda>it'.
         if ri_live it' then Some (Inl (Status kInvalidArgument ''too many rows''))
         else Some (ri_row it)))"

text \<open>\<open>TupleStreamIterator\<close>: the tuple parsed from the current row. \<open>tup_\<close> starts as an error.\<close>

record ('s, 'a) tuple_iterator =
  ti_tup :: "'a option list status_or"
  ti_it :: "'s row_iterator"

definition TupleIterator_parse ::
    "(val \<Rightarrow> 'a status_or) list \<Rightarrow> ('s, 'a) tuple_iterator \<Rightarrow> ('s, 'a) tuple_iterator" where
  "TupleIterator_parse ds t =
     (if \<not> ri_live (ti_it t) then t
      else t \<lparr>ti_tup := (case ri_row (ti_it t) of Inl e \<Rightarrow> Inl e | Inr r \<Rightarrow> Row_get_tuple ds r)\<rparr>)"

definition TupleIterator_next :: "'s row_source \<Rightarrow> (val \<Rightarrow> 'a status_or) list \<Rightarrow>
    ('s, 'a) tuple_iterator \<Rightarrow> ('s, 'a) tuple_iterator option" where
  "TupleIterator_next source ds t =
     (if \<not> is_value (ti_tup t) then Some (t \<lparr>ti_it := (ti_it t) \<lparr>ri_live := False\<rparr>\<rparr>)
      else map_option (\<lambda>it. TupleIterator_parse ds (t \<lparr>ti_it := it\<rparr>))
             (RowStreamIterator_next source (ti_it t)))"

partial_function (option) iterate_tuples :: "'s row_source \<Rightarrow> (val \<Rightarrow> 'a status_or) list \<Rightarrow>
    ('s, 'a) tuple_iterator \<Rightarrow> 'a option list status_or list option" where
  "iterate_tuples source ds t =
     (if \<not> ri_live (ti_it t) then Some []
      else Option.bind (TupleIterator_next source ds t) (\<lambda>t'.
           Option.bind (iterate_tuples source ds t') (\<lambda>tups. Some (ti_tup t # tups))))"

definition all_tuples :: "'s row_source \<Rightarrow> (val \<Rightarrow> 'a status_or) list \<Rightarrow> 's \<Rightarrow>
    'a option list status_or list option" where
  "all_tuples source ds s =
     Option.bind (RowStream_begin source s) (\<lambda>it.
       iterate_tuples source ds
         (TupleIterator_parse ds \<lparr>ti_tup = Inl (Status kUnknown ''default''), ti_it = it\<rparr>))"

section \<open>Results\<close>

definition GetReadTimestamp :: "'r source \<Rightarrow> timestamp option option" where
  "GetReadTimestamp s =
     (case src_metadata s of
        Some (Metadata _ (Some (TxnInfo _ (Some (sec, nanos))))) \<Rightarrow>
          map_option Some (FromProto (ProtoTimestamp sec nanos))
      | _ \<Rightarrow> Some None)"

definition GetRowsModified :: "'r source \<Rightarrow> int option" where
  "GetRowsModified s = map_option row_count_exact (src_stats s)"

definition string_value :: "pvalue \<Rightarrow> string" where
  "string_value v = (case v of PString s \<Rightarrow> s | _ \<Rightarrow> [])"

definition GetExecutionStats :: "'r source \<Rightarrow> (string \<rightharpoonup> string) option" where
  "GetExecutionStats s =
     (case src_stats s of
        Some stats \<Rightarrow>
          map_option (\<lambda>entries k. map_option string_value (map_of entries k)) (query_stats stats)
      | None \<Rightarrow> None)"

definition GetExecutionPlan :: "'r source \<Rightarrow> pvalue option" where
  "GetExecutionPlan s = (case src_stats s of Some stats \<Rightarrow> query_plan stats | None \<Rightarrow> None)"

section \<open>Rows of a source\<close>

text \<open>
  \<open>yields source s rows end\<close>: from the state \<open>s\<close> the source returns the rows (none of them
  empty), then \<open>end\<close>, an error or the empty row.
\<close>

inductive yields :: "'s row_source \<Rightarrow> 's \<Rightarrow> row list \<Rightarrow> row status_or \<Rightarrow> bool" for source where
  last: "source s = Some (e, s') \<Longrightarrow> e = Inr empty_row \<or> \<not> is_value e \<Longrightarrow> yields source s [] e"
| step: "source s = Some (Inr r, s') \<Longrightarrow> row_size r \<noteq> 0 \<Longrightarrow> yields source s' rows e \<Longrightarrow>
    yields source s (r # rows) e"

inductive_cases yields_NilE: "yields source s [] e"
inductive_cases yields_ConsE: "yields source s (r # rows) e"

definition end_results :: "row status_or \<Rightarrow> row status_or list" where
  "end_results e = (if is_value e then [] else [e])"

lemma row_size_empty_row [simp]: "row_size empty_row = 0"
  by (simp add: row_size_def empty_row_def)

lemma iterate_error:
  assumes "\<not> is_value e"
  shows "iterate source \<lparr>ri_row = e, ri_state = s, ri_live = True\<rparr> = Some [e]"
  using assms
  by (subst iterate.simps) (simp add: RowStreamIterator_next_def iterate.simps)

lemma iterate_yields:
  assumes "yields source s rows e"
  shows "iterate source \<lparr>ri_row = Inr r, ri_state = s, ri_live = True\<rparr>
    = Some (Inr r # map Inr rows @ end_results e)"
  using assms
proof (induction arbitrary: r rule: yields.induct)
  case (last s e s')
  show ?case
  proof (cases "is_value e")
    case True
    then show ?thesis
      using last by (subst iterate.simps)
        (auto simp: RowStreamIterator_next_def end_results_def iterate.simps Let_def)
  next
    case False
    then show ?thesis
      using last by (subst iterate.simps)
        (auto simp: RowStreamIterator_next_def end_results_def Let_def iterate_error)
  qed
next
  case (step s r' s' rows e)
  then show ?case
    by (subst iterate.simps) (simp add: RowStreamIterator_next_def Let_def)
qed

lemma all_rows_yields:
  assumes "yields source s rows e"
  shows "all_rows source s = Some (map Inr rows @ end_results e)"
  using assms
proof (cases rule: yields.cases)
  case (last s')
  show ?thesis
  proof (cases "is_value e")
    case True
    then show ?thesis
      using last by (auto simp: all_rows_def RowStream_begin_def RowStreamIterator_next_def
          end_results_def iterate.simps Let_def)
  next
    case False
    then show ?thesis
      using last by (auto simp: all_rows_def RowStream_begin_def RowStreamIterator_next_def
          end_results_def iterate_error Let_def)
  qed
next
  case (step r s' rows')
  then show ?thesis
    by (simp add: all_rows_def RowStream_begin_def RowStreamIterator_next_def Let_def
        iterate_yields)
qed

lemma GetSingularRow_yields:
  assumes "yields source s rows e"
  shows "GetSingularRow source s = Some
    (case map Inr rows @ end_results e of
       [] \<Rightarrow> Inl (Status kInvalidArgument ''no rows'')
     | [r] \<Rightarrow> r
     | _ \<Rightarrow> Inl (Status kInvalidArgument ''too many rows''))"
  using assms
proof (cases rule: yields.cases)
  case (last s')
  then show ?thesis
    by (cases e) (auto simp: GetSingularRow_def RowStream_begin_def RowStreamIterator_next_def
        end_results_def Let_def)
next
  case (step r s' rows')
  from step(4) show ?thesis
  proof (cases rule: yields.cases)
    case (last s'')
    then show ?thesis
      using step by (cases e) (auto simp: GetSingularRow_def RowStream_begin_def
          RowStreamIterator_next_def end_results_def Let_def)
  next
    case (step r' s'' rows'')
    then show ?thesis
      using \<open>source s = Some (Inr r, s')\<close> \<open>row_size r \<noteq> 0\<close> \<open>rows = r # rows'\<close>
      by (simp add: GetSingularRow_def RowStream_begin_def RowStreamIterator_next_def Let_def)
  qed
qed

text \<open>Cutting values into rows.\<close>

fun chop :: "nat \<Rightarrow> 'a list \<Rightarrow> 'a list list" where
  "chop n xs = (if n = 0 \<or> length xs < n then [] else take n xs # chop n (drop n xs))"

fun chop_rest :: "nat \<Rightarrow> 'a list \<Rightarrow> 'a list" where
  "chop_rest n xs = (if n = 0 \<or> length xs < n then xs else chop_rest n (drop n xs))"

declare chop.simps [simp del] chop_rest.simps [simp del]

lemma chop_concat: "concat (chop n xs) @ chop_rest n xs = xs"
proof (induction n xs rule: chop.induct)
  case (1 n xs)
  show ?case
  proof (cases "n = 0 \<or> length xs < n")
    case True
    then show ?thesis by (subst chop.simps, subst chop_rest.simps) simp
  next
    case False
    with 1 [OF False] show ?thesis
      by (subst chop.simps, subst chop_rest.simps) simp
  qed
qed

lemma chop_lengths: "row \<in> set (chop n xs) \<Longrightarrow> length row = n"
proof (induction n xs rule: chop.induct)
  case (1 n xs)
  then show ?case
    by (subst (asm) (2) chop.simps) (auto split: if_splits)
qed

context result_reader
begin

lemma NextRow_yields:
  assumes "source_inv valid pending final md c' st s vs" "row_type_fields md \<noteq> []"
  shows "yields (NextRow rd) s (map (typed_row md) (chop (length (row_type_fields md)) vs))
    (end_of_rows st c' (chop_rest (length (row_type_fields md)) vs))"
  using assms(1)
proof (induction "length vs" arbitrary: s vs rule: less_induct)
  case less
  let ?n = "length (row_type_fields md)"
  have n: "?n \<noteq> 0" using assms(2) by simp
  show ?case
  proof (cases "length vs < ?n")
    case True
    obtain s' where "NextRow rd s = Some (end_of_rows st c' vs, s')"
      using NextRow_end [OF less.prems True] by blast
    then have "yields (NextRow rd) s [] (end_of_rows st c' vs)"
      by (rule yields.last) (simp add: end_of_rows_def)
    then show ?thesis using True by (subst chop.simps, subst chop_rest.simps) simp
  next
    case False
    then have "?n \<le> length vs" by simp
    from NextRow_row [OF less.prems this assms(2)] obtain s' where
      s': "NextRow rd s = Some (Inr (typed_row md (take ?n vs)), s')"
        "source_inv valid pending final md c' st s' (drop ?n vs)" by blast
    have "length (drop ?n vs) < length vs" using False n by (cases vs) auto
    from less.hyps [OF this s'(2)] s'(1)
    have "yields (NextRow rd) s (typed_row md (take ?n vs) # map (typed_row md) (chop ?n (drop ?n vs)))
      (end_of_rows st c' (chop_rest ?n (drop ?n vs)))"
      using n by (intro yields.step) (auto simp: row_size_def typed_row_def)
    then show ?thesis using False n by (subst chop.simps, subst chop_rest.simps) simp
  qed
qed

lemma stream_rows:
  assumes "valid r" "pending r = m # ms" "prs_metadata m = Some md" "delivers None (m # ms) vs c'"
    "row_type_fields md \<noteq> []"
  shows "\<exists>s. Source_Create rd r = Some (Inr s) \<and>
    yields (NextRow rd) s (map (typed_row md) (chop (length (row_type_fields md)) vs))
      (end_of_rows (final r) c' (chop_rest (length (row_type_fields md)) vs))"
  using Source_Create_inv [OF assms(1-4)] NextRow_yields [OF _ assms(5)] by blast

end

section \<open>Properties\<close>

definition grpc_script :: "partial_result_set list \<Rightarrow> status \<Rightarrow> grpc_stream" where
  "grpc_script ms st = \<lparr>grpc_messages = ms, grpc_status = st, grpc_cancelled = False\<rparr>"

text \<open>
  C1: The rows of a result stream depend only on the values the service sent, not on how it cut
  them into messages: for any messages that deliver the values \<open>vs\<close> (whole, or with values split
  over several messages as the protocol allows), the range-for loop over the stream sees \<open>vs\<close> in
  rows of the metadata's width, in order, each value with its column's type; then it ends, after
  the error of the stream, or an error for an open chunk or an incomplete row, when there is one.
  The same holds through the logging reader.
\<close>

theorem row_stream_reassembles:
  assumes "delivers None (m # ms) vs c'" "prs_metadata m = Some md" "row_type_fields md \<noteq> []"
    "n = length (row_type_fields md)"
    "expected = map Inr (map (typed_row md) (chop n vs))
       @ end_results (end_of_rows st c' (chop_rest n vs))"
  shows "(\<exists>s. Source_Create default_reader (grpc_script (m # ms) st) = Some (Inr s) \<and>
      all_rows (NextRow default_reader) s = Some expected) \<and>
    (\<exists>s. Source_Create (logging_reader default_reader)
        \<lparr>log_impl = grpc_script (m # ms) st, log_lines = []\<rparr> = Some (Inr s) \<and>
      all_rows (NextRow (logging_reader default_reader)) s = Some expected)"
proof
  let ?r = "grpc_script (m # ms) st"
  have "grpc_messages ?r = m # ms" "grpc_status ?r = st" by (simp_all add: grpc_script_def)
  note d = dflt.stream_rows [of ?r, unfolded this, OF TrueI refl assms(2,1,3)]
    and l = logged_dflt.stream_rows [of "\<lparr>log_impl = ?r, log_lines = []\<rparr>", unfolded logging.select_convs this,
      OF TrueI refl assms(2,1,3)]
  from d show "\<exists>s. Source_Create default_reader ?r = Some (Inr s) \<and>
      all_rows (NextRow default_reader) s = Some expected"
    unfolding assms(4,5) by (elim exE conjE) (intro exI conjI, assumption, erule all_rows_yields)
  from l show "\<exists>s. Source_Create (logging_reader default_reader)
        \<lparr>log_impl = ?r, log_lines = []\<rparr> = Some (Inr s) \<and>
      all_rows (NextRow (logging_reader default_reader)) s = Some expected"
    unfolding assms(4,5) by (elim exE conjE) (intro exI conjI, assumption, erule all_rows_yields)
qed

definition text_message ::
    "result_metadata option \<Rightarrow> string list \<Rightarrow> bool \<Rightarrow> partial_result_set" where
  "text_message md vs chunked = \<lparr>prs_metadata = md, prs_values = map PString vs,
     prs_chunked = chunked, prs_resume_token = [], prs_stats = None\<rparr>"

theorem row_stream_reassembles_witness:
  "\<exists>s. Source_Create default_reader (grpc_script
       [text_message (Some (Metadata [(''x'', TString), (''y'', TString)] None)) [''A'', ''B'', ''C1''] True,
        text_message None [''C2'', ''D'', ''E1''] True, text_message None [''E2''] True,
        text_message None [''E3'', ''F''] False] ok_status) = Some (Inr s) \<and>
     all_rows (NextRow default_reader) s = Some (map Inr
       [Row [Value TString (PString ''A''), Value TString (PString ''B'')] [''x'', ''y''],
        Row [Value TString (PString ''C1C2''), Value TString (PString ''D'')] [''x'', ''y''],
        Row [Value TString (PString ''E1E2E3''), Value TString (PString ''F'')] [''x'', ''y'']])"
proof -
  let ?md = "Metadata [(''x'', TString), (''y'', TString)] None"
  have "delivers None [text_message None [''E1E2E3'', ''F''] False]
      (prs_values (text_message None [''E1E2E3'', ''F''] False) @ []) None"
    by (rule delivers.whole) (simp_all add: text_message_def delivers.finished)
  then have "delivers (Some (PString ''E1E2'')) [text_message None [''E3'', ''F''] False]
      (map PString [''E1E2E3'', ''F'']) None"
    using splits.string [of "''E1E2''" "''E3''"]
    by (intro delivers.joined [where v = "PString ''E1E2E3''"]) (simp_all add: text_message_def)
  then have "delivers None [text_message None [''E1E2''] True, text_message None [''E3'', ''F''] False]
      ([] @ map PString [''E1E2E3'', ''F'']) None"
    by (intro delivers.opened [where c = "PString ''E1E2''"]) (simp_all add: text_message_def)
  then have "delivers (Some (PString ''E1'')) [text_message None [''E2''] True,
      text_message None [''E3'', ''F''] False] (map PString [''E1E2E3'', ''F'']) None"
    using splits.string [of "''E1''" "''E2''"]
    by (intro delivers.joined [where v = "PString ''E1E2''"]) (simp_all add: text_message_def)
  then have "delivers None [text_message None [''C1C2'', ''D'', ''E1''] True, text_message None [''E2''] True,
      text_message None [''E3'', ''F''] False]
      (map PString [''C1C2'', ''D''] @ map PString [''E1E2E3'', ''F'']) None"
    by (intro delivers.opened [where c = "PString ''E1''"]) (simp_all add: text_message_def)
  then have "delivers (Some (PString ''C1'')) [text_message None [''C2'', ''D'', ''E1''] True,
      text_message None [''E2''] True, text_message None [''E3'', ''F''] False]
      (map PString [''C1C2'', ''D'', ''E1E2E3'', ''F'']) None"
    using splits.string [of "''C1''" "''C2''"]
    by (intro delivers.joined [where v = "PString ''C1C2''"]) (simp_all add: text_message_def)
  then have "delivers None [text_message (Some ?md) [''A'', ''B'', ''C1''] True,
      text_message None [''C2'', ''D'', ''E1''] True,
      text_message None [''E2''] True, text_message None [''E3'', ''F''] False]
      (map PString [''A'', ''B''] @ map PString [''C1C2'', ''D'', ''E1E2E3'', ''F'']) None"
    by (intro delivers.opened [where c = "PString ''C1''"]) (simp_all add: text_message_def)
  from row_stream_reassembles [OF this _ _ refl refl, of ?md ok_status]
  show ?thesis
    by (simp add: text_message_def chop.simps chop_rest.simps typed_row_def end_results_def
        end_of_rows_def)
qed

text \<open>
  \<open>GetSingularRow\<close> returns the row of a stream of exactly one, and an error for none or for
  more than one; a stream that fails before its first row gives that error, and one that fails
  after it counts as too many rows.
\<close>

theorem get_singular_row:
  assumes "delivers None (m # ms) vs c'" "prs_metadata m = Some md" "row_type_fields md \<noteq> []"
    "n = length (row_type_fields md)"
  shows "\<exists>s. Source_Create default_reader (grpc_script (m # ms) st) = Some (Inr s) \<and>
    GetSingularRow (NextRow default_reader) s = Some
      (case map Inr (map (typed_row md) (chop n vs))
         @ end_results (end_of_rows st c' (chop_rest n vs)) of
         [] \<Rightarrow> Inl (Status kInvalidArgument ''no rows'')
       | [r] \<Rightarrow> r
       | _ \<Rightarrow> Inl (Status kInvalidArgument ''too many rows''))"
proof -
  let ?r = "grpc_script (m # ms) st"
  have "grpc_messages ?r = m # ms" "grpc_status ?r = st" by (simp_all add: grpc_script_def)
  from dflt.stream_rows [of ?r, unfolded this, OF TrueI refl assms(2,1,3)]
  show ?thesis unfolding assms(4)
    by (elim exE conjE) (intro exI conjI, assumption, erule GetSingularRow_yields)
qed

theorem get_singular_row_witness:
  "\<exists>s. Source_Create default_reader (grpc_script
       [text_message (Some (Metadata [(''x'', TString)] None)) [''A''] False] ok_status) = Some (Inr s) \<and>
     GetSingularRow (NextRow default_reader) s =
       Some (Inr (Row [Value TString (PString ''A'')] [''x'']))"
proof -
  let ?md = "Metadata [(''x'', TString)] None"
  have "delivers None [text_message (Some ?md) [''A''] False]
      (prs_values (text_message (Some ?md) [''A''] False) @ []) None"
    by (rule delivers.whole) (simp_all add: text_message_def delivers.finished)
  from get_singular_row [OF this _ _ refl, of ?md ok_status] show ?thesis
    by (simp add: text_message_def chop.simps chop_rest.simps typed_row_def end_results_def
        end_of_rows_def)
qed

end
