(* ===== verification/Retry_Loops.thy ===== *)
theory Retry_Loops
  imports Spanner_Prelude
begin

text \<open>
  Retrying and polling (\<open>retry_policy.h\<close>, \<open>retry_loop.h\<close>, \<open>retry_loop.cc\<close>,
  \<open>polling_loop.h\<close>, \<open>polling_policy.h\<close>, \<open>status_utils.cc\<close>). The retry and backoff policies and
  the printing of a status come from another library: they are parameters, and a locale states
  what that library promises of a retry policy. The functor that is retried and the sleeper act
  on a state \<open>'w\<close> (the service and the clock). The loops are partial functions, so that their
  ending is a theorem.
\<close>

section \<open>Classifying failures\<close>

fun contains :: "string \<Rightarrow> string \<Rightarrow> bool" where
  "contains p [] = (p = [])"
| "contains p (c # s) = (take (length p) (c # s) = p \<or> contains p s)"

definition IsSessionNotFound :: "status \<Rightarrow> bool" where
  "IsSessionNotFound st \<longleftrightarrow> code st = kNotFound \<and> contains ''Session not found'' (message st)"

definition SafeGrpcRetry_IsTransientFailure :: "status \<Rightarrow> bool" where
  "SafeGrpcRetry_IsTransientFailure st \<longleftrightarrow> code st = kUnavailable \<or> code st = kResourceExhausted"

definition SafeGrpcRetry_IsPermanentFailure :: "status \<Rightarrow> bool" where
  "SafeGrpcRetry_IsPermanentFailure st \<longleftrightarrow>
     \<not> status_ok st \<and> \<not> SafeGrpcRetry_IsTransientFailure st"

definition SafeTransactionRerun_IsTransientFailure :: "status \<Rightarrow> bool" where
  "SafeTransactionRerun_IsTransientFailure st \<longleftrightarrow> code st = kAborted \<or> IsSessionNotFound st"

definition SafeTransactionRerun_IsPermanentFailure :: "status \<Rightarrow> bool" where
  "SafeTransactionRerun_IsPermanentFailure st \<longleftrightarrow>
     \<not> status_ok st \<and> \<not> SafeTransactionRerun_IsTransientFailure st"

section \<open>Policies\<close>

record 'p policy =
  OnFailure :: "status \<Rightarrow> 'p \<Rightarrow> bool \<times> 'p"
  IsExhausted :: "'p \<Rightarrow> bool"

text \<open>
  What is relied on: a permanent failure is refused and changes nothing; any other call uses up
  some of a finite budget and says whether the policy is exhausted now.
\<close>

locale retry_policy =
  fixes pol :: "'p policy"
    and permanent :: "status \<Rightarrow> bool"
    and budget :: "'p \<Rightarrow> nat"
  assumes on_permanent: "permanent st \<Longrightarrow> OnFailure pol st p = (False, p)"
    and on_transient: "\<not> permanent st \<Longrightarrow> \<not> IsExhausted pol p \<Longrightarrow>
      \<exists>p'. OnFailure pol st p = (\<not> IsExhausted pol p', p') \<and> budget p' < budget p"
    and exhausted: "IsExhausted pol p \<longleftrightarrow> budget p = 0"

text \<open>
  A policy that allows a number of failures (\<open>LimitedErrorCountRetryPolicy\<close> as documented); its
  state is the number of failures it can still take and one.
\<close>

definition limited_error_count :: "(status \<Rightarrow> bool) \<Rightarrow> nat policy" where
  "limited_error_count permanent =
     \<lparr>OnFailure = (\<lambda>st p. if permanent st then (False, p) else (p > 1, p - 1)),
      IsExhausted = (\<lambda>p. p = 0)\<rparr>"

interpretation grpc_retry:
  retry_policy "limited_error_count SafeGrpcRetry_IsPermanentFailure"
    SafeGrpcRetry_IsPermanentFailure "\<lambda>p. p"
  by unfold_locales (auto simp: limited_error_count_def)

interpretation rerun_retry:
  retry_policy "limited_error_count SafeTransactionRerun_IsPermanentFailure"
    SafeTransactionRerun_IsPermanentFailure "\<lambda>p. p"
  by unfold_locales (auto simp: limited_error_count_def)

text \<open>
  The surroundings of a loop: the policy, the backoff policy's \<open>OnCompletion\<close> (a delay and its next
  state), the sleeper and the printing of a status.
\<close>

record ('p, 'b, 'w) retry_env =
  re_policy :: "'p policy"
  re_backoff :: "'b \<Rightarrow> int \<times> 'b"
  re_sleeper :: "int \<Rightarrow> 'w \<Rightarrow> 'w"
  re_show :: "status \<Rightarrow> string"

section \<open>The retry loop\<close>

definition RetryLoopError :: "(status \<Rightarrow> string) \<Rightarrow> string \<Rightarrow> string \<Rightarrow> status \<Rightarrow> status" where
  "RetryLoopError show_status loop_message location last_status =
     Status (code last_status)
       (loop_message @ '' '' @ location @ '': '' @ show_status last_status)"

partial_function (option) RetryLoop_while ::
    "('p, 'b, 'w) retry_env \<Rightarrow> bool \<Rightarrow> ('req \<Rightarrow> 'w \<Rightarrow> 'a status_or \<times> 'w) \<Rightarrow> 'req \<Rightarrow> string \<Rightarrow>
     'p \<Rightarrow> 'b \<Rightarrow> status \<Rightarrow> 'w \<Rightarrow> ('a status_or \<times> 'w) option" where
  "RetryLoop_while env is_idempotent functor request location p b last_status w =
     (if IsExhausted (re_policy env) p then
        Some (Inl (RetryLoopError (re_show env) ''Retry policy exhausted in'' location last_status), w)
      else
        let (result, w) = functor request w
        in case result of
          Inr x \<Rightarrow> Some (Inr x, w)
        | Inl last_status \<Rightarrow>
            if \<not> is_idempotent then
              Some (Inl (RetryLoopError (re_show env) ''Error in non-idempotent operation'' location
                last_status), w)
            else
              let (continue, p) = OnFailure (re_policy env) last_status p
              in if \<not> continue then
                   Some (Inl (RetryLoopError (re_show env)
                     (if \<not> IsExhausted (re_policy env) p then ''Permanent error in''
                      else ''Retry policy exhausted in'') location last_status), w)
                 else
                   let (delay, b) = re_backoff env b
                   in RetryLoop_while env is_idempotent functor request location p b last_status
                        (re_sleeper env delay w))"

definition RetryLoop ::
    "('p, 'b, 'w) retry_env \<Rightarrow> 'p \<Rightarrow> 'b \<Rightarrow> bool \<Rightarrow> ('req \<Rightarrow> 'w \<Rightarrow> 'a status_or \<times> 'w) \<Rightarrow> 'req \<Rightarrow>
     string \<Rightarrow> 'w \<Rightarrow> ('a status_or \<times> 'w) option" where
  "RetryLoop env p b is_idempotent functor request location w =
     RetryLoop_while env is_idempotent functor request location p b ok_status w"

section \<open>The polling loop\<close>

text \<open>\<open>google::protobuf::Any\<close> and \<open>google::longrunning::Operation\<close>.\<close>

datatype any = Any (any_type: string) (any_payload: string)

record operation =
  op_name :: string
  op_done :: bool
  op_error :: "status option"
  op_response :: "any option"
  op_metadata :: "any option"

definition Extract :: "string \<Rightarrow> (operation \<Rightarrow> any option) \<Rightarrow> string \<Rightarrow> operation \<Rightarrow> string \<Rightarrow>
    any status_or" where
  "Extract field get_field result_type operation location =
     (case get_field operation of
        None \<Rightarrow> Inl (Status kInternal (location @ ''() operation completed ''
          @ ''without error or '' @ field @ '', name='' @ op_name operation))
      | Some any \<Rightarrow>
          if any_type any \<noteq> result_type then
            Inl (Status kInternal (location @ ''() operation completed ''
              @ ''with an invalid '' @ field @ '' type, name='' @ op_name operation))
          else Inr any)"

definition PollingLoopResponseExtractor :: "string \<Rightarrow> operation \<Rightarrow> string \<Rightarrow> any status_or" where
  "PollingLoopResponseExtractor = Extract ''response'' op_response"

definition PollingLoopMetadataExtractor :: "string \<Rightarrow> operation \<Rightarrow> string \<Rightarrow> any status_or" where
  "PollingLoopMetadataExtractor = Extract ''metadata'' op_metadata"

text \<open>
  \<open>GenericPollingPolicy\<close>: the failures go to the retry policy, the waiting period to the backoff
  policy.
\<close>

definition GenericPollingPolicy_OnFailure ::
    "('p, 'b, 'w) retry_env \<Rightarrow> status \<Rightarrow> 'p \<times> 'b \<Rightarrow> bool \<times> 'p \<times> 'b" where
  "GenericPollingPolicy_OnFailure env st = (\<lambda>(p, b).
     let (r, p) = OnFailure (re_policy env) st p in (r, p, b))"

definition GenericPollingPolicy_WaitPeriod ::
    "('p, 'b, 'w) retry_env \<Rightarrow> 'p \<times> 'b \<Rightarrow> int \<times> 'p \<times> 'b" where
  "GenericPollingPolicy_WaitPeriod env = (\<lambda>(p, b).
     let (d, b) = re_backoff env b in (d, p, b))"

definition PollingLoop_finish ::
    "(operation \<Rightarrow> string \<Rightarrow> 'a status_or) \<Rightarrow> operation \<Rightarrow> string \<Rightarrow> 'a status_or" where
  "PollingLoop_finish extract operation location =
     (case op_error operation of Some e \<Rightarrow> Inl e | None \<Rightarrow> extract operation location)"

partial_function (option) PollingLoop ::
    "('p, 'b, 'w) retry_env \<Rightarrow> (operation \<Rightarrow> string \<Rightarrow> 'a status_or) \<Rightarrow>
     (string \<Rightarrow> 'w \<Rightarrow> operation status_or \<times> 'w) \<Rightarrow> operation \<Rightarrow> string \<Rightarrow> 'p \<times> 'b \<Rightarrow> 'w \<Rightarrow>
     ('a status_or \<times> 'w) option" where
  "PollingLoop env extract functor operation location pp w =
     (if op_done operation then Some (PollingLoop_finish extract operation location, w)
      else
        let (delay, pp) = GenericPollingPolicy_WaitPeriod env pp;
            (update, w) = functor (op_name operation) (re_sleeper env delay w)
        in if is_value update \<and> op_done (projr update) then
             Some (PollingLoop_finish extract (projr update) location, w)
           else
             let (continue, pp) = GenericPollingPolicy_OnFailure env (result_status update) pp
             in if \<not> continue then
                  (if is_value update then
                     Some (Inl (Status kDeadlineExceeded
                       ''exhausted polling policy with no previous error''), w)
                   else Some (Inl (result_status update), w))
                else
                  PollingLoop env extract functor (if is_value update then projr update else operation)
                    location pp w)"

section \<open>Runs of a loop\<close>

text \<open>
  \<open>retry_run env f req p b w sts p' b' w'\<close>: from the policies \<open>p\<close>, \<open>b\<close> and the state \<open>w\<close>, the calls
  fail with \<open>sts\<close> and each failure is followed by its delay; then the loop stands at \<open>p'\<close>, \<open>b'\<close>, \<open>w'\<close>.
\<close>

inductive retry_run ::
    "('p, 'b, 'w) retry_env \<Rightarrow> ('req \<Rightarrow> 'w \<Rightarrow> 'a status_or \<times> 'w) \<Rightarrow> 'req \<Rightarrow> 'p \<Rightarrow> 'b \<Rightarrow> 'w \<Rightarrow>
     status list \<Rightarrow> 'p \<Rightarrow> 'b \<Rightarrow> 'w \<Rightarrow> bool" for env f req where
  start: "retry_run env f req p b w [] p b w"
| again: "f req w = (Inl st, w1) \<Longrightarrow> OnFailure (re_policy env) st p = (True, p1) \<Longrightarrow>
    re_backoff env b = (d, b1) \<Longrightarrow> retry_run env f req p1 b1 (re_sleeper env d w1) sts p' b' w' \<Longrightarrow>
    retry_run env f req p b w (st # sts) p' b' w'"

inductive_cases retry_run_NilE: "retry_run env f req p b w [] p' b' w'"
inductive_cases retry_run_ConsE: "retry_run env f req p b w (st # sts) p' b' w'"

text \<open>The same for polling: the updates that did not complete the operation.\<close>

inductive poll_run ::
    "('p, 'b, 'w) retry_env \<Rightarrow> (string \<Rightarrow> 'w \<Rightarrow> operation status_or \<times> 'w) \<Rightarrow> operation \<Rightarrow> 'p \<times> 'b \<Rightarrow> 'w \<Rightarrow>
     operation status_or list \<Rightarrow> operation \<Rightarrow> 'p \<times> 'b \<Rightarrow> 'w \<Rightarrow> bool" for env f where
  start: "poll_run env f oper pp w [] oper pp w"
| again: "\<not> op_done oper \<Longrightarrow> GenericPollingPolicy_WaitPeriod env pp = (d, pp1) \<Longrightarrow>
    f (op_name oper) (re_sleeper env d w) = (u, w1) \<Longrightarrow> \<not> (is_value u \<and> op_done (projr u)) \<Longrightarrow>
    GenericPollingPolicy_OnFailure env (result_status u) pp1 = (True, pp2) \<Longrightarrow>
    poll_run env f (if is_value u then projr u else oper) pp2 w1 us oper' pp' w' \<Longrightarrow>
    poll_run env f oper pp w (u # us) oper' pp' w'"

definition retry_message :: "(status \<Rightarrow> bool) \<Rightarrow> bool \<Rightarrow> status \<Rightarrow> string" where
  "retry_message permanent is_idempotent st =
     (if \<not> is_idempotent then ''Error in non-idempotent operation''
      else if permanent st then ''Permanent error in'' else ''Retry policy exhausted in'')"

context retry_policy
begin

lemma OnFailure_True:
  assumes "OnFailure pol st p = (True, p')" "\<not> IsExhausted pol p"
  shows "\<not> permanent st" "\<not> IsExhausted pol p'" "budget p' < budget p"
proof -
  show np: "\<not> permanent st" using on_permanent [of st p] assms by auto
  from on_transient [OF this assms(2)] assms(1)
  show "\<not> IsExhausted pol p'" "budget p' < budget p" by auto
qed

lemma OnFailure_False:
  assumes "OnFailure pol st p = (False, p')" "\<not> IsExhausted pol p"
  shows "IsExhausted pol p' \<longleftrightarrow> \<not> permanent st"
proof (cases "permanent st")
  case True
  then show ?thesis using on_permanent [OF True, of p] assms by simp
next
  case False
  from on_transient [OF this assms(2)] assms(1) False show ?thesis by auto
qed

lemma RetryLoop_while_outcome:
  assumes "re_policy env = pol" "\<not> IsExhausted pol p"
  shows "\<exists>sts p' b' w'. retry_run env f req p b w sts p' b' w' \<and> (is_idempotent \<or> sts = []) \<and>
    length sts < budget p \<and> (\<forall>st \<in> set sts. \<not> permanent st) \<and>
    RetryLoop_while env is_idempotent f req location p b lst w =
      Some (case f req w' of
         (Inr x, w'') \<Rightarrow> (Inr x, w'')
       | (Inl st, w'') \<Rightarrow>
           (Inl (RetryLoopError (re_show env) (retry_message permanent is_idempotent st) location st), w''))"
  using assms(2)
proof (induction "budget p" arbitrary: p b w lst rule: less_induct)
  case less
  obtain r w1 where f: "f req w = (r, w1)" by (cases "f req w")
  have b: "0 < budget p" using less.prems exhausted by auto
  show ?case
  proof (cases r)
    case (Inr x)
    then have "RetryLoop_while env is_idempotent f req location p b lst w = Some (Inr x, w1)"
      using f less.prems assms(1) by (subst RetryLoop_while.simps) simp
    then show ?thesis using f Inr b retry_run.start by fastforce
  next
    case (Inl st)
    obtain c p1 where o: "OnFailure pol st p = (c, p1)" by (cases "OnFailure pol st p")
    show ?thesis
    proof (cases "is_idempotent \<and> c")
      case False
      have "RetryLoop_while env is_idempotent f req location p b lst w =
          Some (Inl (RetryLoopError (re_show env) (retry_message permanent is_idempotent st) location st), w1)"
        using False f Inl less.prems assms(1) o OnFailure_False [of st p p1]
        by (subst RetryLoop_while.simps) (auto simp: retry_message_def)
      then show ?thesis using f Inl b retry_run.start by fastforce
    next
      case True
      with o have o': "OnFailure pol st p = (True, p1)" by simp
      note p1 = OnFailure_True [OF o' less.prems]
      obtain d b1 where bo: "re_backoff env b = (d, b1)" by (cases "re_backoff env b")
      have step: "RetryLoop_while env is_idempotent f req location p b lst w =
          RetryLoop_while env is_idempotent f req location p1 b1 st (re_sleeper env d w1)"
        using True f Inl less.prems assms(1) o bo by (subst RetryLoop_while.simps) simp
      obtain sts p' b' w' where ih: "retry_run env f req p1 b1 (re_sleeper env d w1) sts p' b' w'"
        "length sts < budget p1" "\<forall>st \<in> set sts. \<not> permanent st"
        "RetryLoop_while env is_idempotent f req location p1 b1 st (re_sleeper env d w1) =
          Some (case f req w' of
             (Inr x, w'') \<Rightarrow> (Inr x, w'')
           | (Inl st, w'') \<Rightarrow>
               (Inl (RetryLoopError (re_show env) (retry_message permanent is_idempotent st) location st), w''))"
        using less.hyps [OF p1(3,2)] by blast
      have "retry_run env f req p b w (st # sts) p' b' w'"
        using f Inl o' bo ih(1) assms(1) by (intro retry_run.again) simp_all
      moreover have "length (st # sts) < budget p" using ih(2) p1(3) by simp
      moreover have "\<forall>s \<in> set (st # sts). \<not> permanent s" using ih(3) p1(1) by simp
      ultimately show ?thesis using True ih(4) unfolding step by blast
    qed
  qed
qed

lemma PollingLoop_outcome:
  assumes "re_policy env = pol" "\<not> IsExhausted pol (fst pp)"
  shows "\<exists>us oper' pp' w'. poll_run env f oper pp w us oper' pp' w' \<and> length us < budget (fst pp) \<and>
    (\<forall>u \<in> set us. \<not> permanent (result_status u)) \<and>
    PollingLoop env extract f oper location pp w =
      (if op_done oper' then Some (PollingLoop_finish extract oper' location, w')
       else let (d, pp'') = GenericPollingPolicy_WaitPeriod env pp';
                (u, w'') = f (op_name oper') (re_sleeper env d w')
            in Some (case u of
                 Inl e \<Rightarrow> Inl e
               | Inr oper'' \<Rightarrow>
                   if op_done oper'' then PollingLoop_finish extract oper'' location
                   else Inl (Status kDeadlineExceeded
                     ''exhausted polling policy with no previous error''), w''))"
  using assms(2)
proof (induction "budget (fst pp)" arbitrary: pp w oper rule: less_induct)
  case less
  obtain p b where pp: "pp = (p, b)" by (cases pp)
  have bud: "0 < budget (fst pp)" using less.prems exhausted by auto
  show ?case
  proof (cases "op_done oper")
    case True
    then have "PollingLoop env extract f oper location pp w =
        Some (PollingLoop_finish extract oper location, w)"
      by (subst PollingLoop.simps) simp
    then show ?thesis using True bud poll_run.start by fastforce
  next
    case nd: False
    obtain d b1 where wp: "re_backoff env b = (d, b1)" by (cases "re_backoff env b")
    then have wp': "GenericPollingPolicy_WaitPeriod env pp = (d, p, b1)"
      by (simp add: GenericPollingPolicy_WaitPeriod_def pp)
    obtain u w1 where u: "f (op_name oper) (re_sleeper env d w) = (u, w1)"
      by (cases "f (op_name oper) (re_sleeper env d w)")
    show ?thesis
    proof (cases "is_value u \<and> op_done (projr u)")
      case True
      then have "PollingLoop env extract f oper location pp w =
          Some (PollingLoop_finish extract (projr u) location, w1)"
        using nd wp' u by (subst PollingLoop.simps) simp
      then show ?thesis
        using True nd wp' u bud
        by (intro exI [of _ "[]"] exI [of _ oper] exI [of _ pp] exI [of _ w])
          (cases u; simp add: poll_run.start)
    next
      case False
      obtain c p1 where o: "OnFailure pol (result_status u) p = (c, p1)"
        by (cases "OnFailure pol (result_status u) p")
      then have o': "GenericPollingPolicy_OnFailure env (result_status u) (p, b1) = (c, p1, b1)"
        using assms(1) by (simp add: GenericPollingPolicy_OnFailure_def)
      show ?thesis
      proof (cases c)
        case stop: False
        have "PollingLoop env extract f oper location pp w =
            Some (case u of Inl e \<Rightarrow> Inl e
              | Inr _ \<Rightarrow> Inl (Status kDeadlineExceeded
                  ''exhausted polling policy with no previous error''), w1)"
          using nd wp' u False o' stop by (subst PollingLoop.simps) (cases u; simp)
        then show ?thesis
          using False nd wp' u bud
          by (intro exI [of _ "[]"] exI [of _ oper] exI [of _ pp] exI [of _ w])
            (cases u; simp add: poll_run.start)
      next
        case True
        have nexh: "\<not> IsExhausted pol p" using less.prems pp by simp
        have "OnFailure pol (result_status u) p = (True, p1)" using o True by simp
        note p1 = OnFailure_True [OF this nexh]
        let ?o = "if is_value u then projr u else oper"
        have step: "PollingLoop env extract f oper location pp w =
            PollingLoop env extract f ?o location (p1, b1) w1"
          using nd wp' u False o' True by (subst PollingLoop.simps) auto
        obtain us oper' pp' w' where ih: "poll_run env f ?o (p1, b1) w1 us oper' pp' w'"
          "length us < budget p1" "\<forall>u \<in> set us. \<not> permanent (result_status u)"
          "PollingLoop env extract f ?o location (p1, b1) w1 =
            (if op_done oper' then Some (PollingLoop_finish extract oper' location, w')
             else let (d, pp'') = GenericPollingPolicy_WaitPeriod env pp';
                (u, w'') = f (op_name oper') (re_sleeper env d w')
            in Some (case u of
                 Inl e \<Rightarrow> Inl e
               | Inr oper'' \<Rightarrow>
                   if op_done oper'' then PollingLoop_finish extract oper'' location
                   else Inl (Status kDeadlineExceeded
                     ''exhausted polling policy with no previous error''), w''))"
          using less.hyps [of "(p1, b1)" ?o w1] p1 pp by auto
        have "poll_run env f oper pp w (u # us) oper' pp' w'"
          using nd wp' u False o' True ih(1) by (intro poll_run.again) simp_all
        moreover have "length (u # us) < budget (fst pp)" using ih(2) p1(3) pp by simp
        moreover have "\<forall>v \<in> set (u # us). \<not> permanent (result_status v)" using ih(3) p1(1) by simp
        ultimately show ?thesis using ih(4) unfolding step by blast
      qed
    qed
  qed
qed

end

lemma PollingLoop_never_done:
  assumes "re_policy env = limited_error_count SafeGrpcRetry_IsPermanentFailure"
    "\<And>name w. \<exists>w'. f name w = (Inr oper, w')" "\<not> op_done oper"
  shows "\<exists>w'. PollingLoop env extract f oper location (Suc n, b) w
    = Some (Inl (Status kDeadlineExceeded ''exhausted polling policy with no previous error''), w')"
proof (induction n arbitrary: b w)
  case 0
  obtain d b1 where b: "re_backoff env b = (d, b1)" by (cases "re_backoff env b")
  obtain w1 where f: "f (op_name oper) (re_sleeper env d w) = (Inr oper, w1)" using assms(2) by blast
  show ?case
    using assms(1,3) b f
    by (subst PollingLoop.simps)
      (simp add: GenericPollingPolicy_WaitPeriod_def GenericPollingPolicy_OnFailure_def
        limited_error_count_def SafeGrpcRetry_IsPermanentFailure_def)
next
  case (Suc n)
  obtain d b1 where b: "re_backoff env b = (d, b1)" by (cases "re_backoff env b")
  obtain w1 where f: "f (op_name oper) (re_sleeper env d w) = (Inr oper, w1)" using assms(2) by blast
  have "PollingLoop env extract f oper location (Suc (Suc n), b) w
      = PollingLoop env extract f oper location (Suc n, b1) w1"
    using assms(1,3) b f
    by (subst PollingLoop.simps)
      (simp add: GenericPollingPolicy_WaitPeriod_def GenericPollingPolicy_OnFailure_def
        limited_error_count_def SafeGrpcRetry_IsPermanentFailure_def)
  then show ?case using Suc.IH by simp
qed

section \<open>Properties\<close>

text \<open>
  C15: The retry loop ends for every functor and every policy that keeps its contract. The calls
  before the last one all failed with a transient status, each followed by its delay; there were
  none for an operation that is not idempotent, and fewer than the policy's budget otherwise. The
  result is the last call's: its value, or an error with its code whose message says whether the
  operation was not idempotent, the failure permanent, or the policy exhausted.
\<close>

theorem retry_loop_outcome:
  assumes "retry_policy (re_policy env) SafeGrpcRetry_IsPermanentFailure budget"
    "\<not> IsExhausted (re_policy env) p"
  shows "\<exists>sts p' b' w'. retry_run env f req p b w sts p' b' w' \<and> (is_idempotent \<or> sts = []) \<and>
    length sts < budget p \<and> (\<forall>st \<in> set sts. \<not> SafeGrpcRetry_IsPermanentFailure st) \<and>
    RetryLoop env p b is_idempotent f req location w =
      Some (case f req w' of
         (Inr x, w'') \<Rightarrow> (Inr x, w'')
       | (Inl st, w'') \<Rightarrow>
           (Inl (RetryLoopError (re_show env)
             (if \<not> is_idempotent then ''Error in non-idempotent operation''
              else if SafeGrpcRetry_IsPermanentFailure st then ''Permanent error in''
              else ''Retry policy exhausted in'') location st), w''))"
  using retry_policy.RetryLoop_while_outcome [OF assms(1) refl assms(2)]
  unfolding RetryLoop_def retry_message_def .

text \<open>
  Surroundings for concrete runs: up to two failures, doubling delays, and a state that lists the
  delays slept.
\<close>

definition demo_env :: "(nat, int, int list) retry_env" where
  "demo_env = \<lparr>re_policy = limited_error_count SafeGrpcRetry_IsPermanentFailure,
     re_backoff = (\<lambda>b. (b, 2 * b)), re_sleeper = (\<lambda>d w. w @ [d]), re_show = message\<rparr>"

definition demo_call :: "nat \<Rightarrow> int list \<Rightarrow> nat status_or \<times> int list" where
  "demo_call n w = (if length w < n then Inl (Status kUnavailable ''try again'') else Inr n, w)"

theorem retry_loop_outcome_witness:
  "RetryLoop demo_env 3 10 True demo_call 2 ''here'' [] = Some (Inr 2, [10, 20]) \<and>
   (\<exists>sts p' b' w'. retry_run demo_env demo_call 2 3 10 [] sts p' b' w' \<and> length sts < 3)"
proof
  have p: "re_policy demo_env = limited_error_count SafeGrpcRetry_IsPermanentFailure"
    "\<not> IsExhausted (re_policy demo_env) 3"
    by (simp_all add: demo_env_def limited_error_count_def)
  show "\<exists>sts p' b' w'. retry_run demo_env demo_call 2 3 10 [] sts p' b' w' \<and> length sts < 3"
    using retry_loop_outcome [OF grpc_retry.retry_policy_axioms [folded p(1)] p(2), of demo_call 2 10 "[]"]
    by blast
  show "RetryLoop demo_env 3 10 True demo_call 2 ''here'' [] = Some (Inr 2, [10, 20])"
    by (simp add: RetryLoop_def RetryLoop_while.simps demo_env_def limited_error_count_def demo_call_def
        SafeGrpcRetry_IsPermanentFailure_def SafeGrpcRetry_IsTransientFailure_def)
qed

text \<open>
  C28: The polling loop ends for every service and every policy that keeps its contract. It ends in one
  of these ways: with the extracted result or the error of an operation that is done; with the failure
  of a poll after which the policy does not go on; or, after a poll that succeeded with an operation
  that is still pending and at which the policy is exhausted, with \<open>kDeadlineExceeded\<close>, since the code
  tells the policy of such polls too (\<open>polling_counts_pending_polls\<close>). A poll that completes the
  operation is never discarded for the policy.
\<close>

theorem polling_loop_outcome:
  assumes "retry_policy (re_policy env) SafeGrpcRetry_IsPermanentFailure budget"
    "\<not> IsExhausted (re_policy env) (fst pp)"
  shows "\<exists>us oper' pp' w'. poll_run env f oper pp w us oper' pp' w' \<and> length us < budget (fst pp) \<and>
    (\<forall>u \<in> set us. \<not> SafeGrpcRetry_IsPermanentFailure (result_status u)) \<and>
    PollingLoop env extract f oper location pp w =
      (if op_done oper' then Some (PollingLoop_finish extract oper' location, w')
       else let (d, pp'') = GenericPollingPolicy_WaitPeriod env pp';
                (u, w'') = f (op_name oper') (re_sleeper env d w')
            in Some (case u of
                 Inl e \<Rightarrow> Inl e
               | Inr oper'' \<Rightarrow>
                   if op_done oper'' then PollingLoop_finish extract oper'' location
                   else Inl (Status kDeadlineExceeded
                     ''exhausted polling policy with no previous error''), w''))"
  by (rule retry_policy.PollingLoop_outcome [OF assms(1) refl assms(2)])

definition demo_operation :: "bool \<Rightarrow> operation" where
  "demo_operation d = \<lparr>op_name = ''op'', op_done = d, op_error = None,
     op_response = Some (Any ''Instance'' ''x''), op_metadata = None\<rparr>"

definition demo_poll :: "string \<Rightarrow> int list \<Rightarrow> operation status_or \<times> int list" where
  "demo_poll name w = (Inr (demo_operation (2 < length w)), w)"

theorem polling_loop_outcome_witness:
  "PollingLoop demo_env (PollingLoopResponseExtractor ''Instance'') demo_poll (demo_operation False)
      ''here'' (3, 10) [] = Some (Inr (Any ''Instance'' ''x''), [10, 20, 40]) \<and>
   (\<exists>us oper' pp' w'. poll_run demo_env demo_poll (demo_operation False) (3, 10) [] us oper' pp' w' \<and>
      length us < 3)"
proof
  have p: "re_policy demo_env = limited_error_count SafeGrpcRetry_IsPermanentFailure"
    "\<not> IsExhausted (re_policy demo_env) (fst (3 :: nat, 10 :: int))"
    by (simp_all add: demo_env_def limited_error_count_def)
  show "\<exists>us oper' pp' w'. poll_run demo_env demo_poll (demo_operation False) (3, 10) [] us oper' pp' w' \<and>
      length us < 3"
    using polling_loop_outcome [OF grpc_retry.retry_policy_axioms [folded p(1)] p(2), of demo_poll
        "demo_operation False" "[]"] unfolding fst_conv by blast
  show "PollingLoop demo_env (PollingLoopResponseExtractor ''Instance'') demo_poll (demo_operation False)
      ''here'' (3, 10) [] = Some (Inr (Any ''Instance'' ''x''), [10, 20, 40])"
    by (simp add: PollingLoop.simps demo_env_def limited_error_count_def demo_poll_def
        demo_operation_def SafeGrpcRetry_IsPermanentFailure_def PollingLoop_finish_def
        GenericPollingPolicy_WaitPeriod_def GenericPollingPolicy_OnFailure_def
        PollingLoopResponseExtractor_def Extract_def)
qed

text \<open>
  A poll that succeeds with the answer that the operation is not done counts against the
  polling policy like a failed one: a service that keeps giving this answer makes the loop stop
  with \<open>kDeadlineExceeded\<close> after as many polls as the policy allows failures and one, although
  none failed.
\<close>

theorem polling_counts_pending_polls:
  assumes "re_policy env = limited_error_count SafeGrpcRetry_IsPermanentFailure"
    "\<And>name w. \<exists>w'. f name w = (Inr oper, w')" "\<not> op_done oper"
  shows "\<exists>w'. PollingLoop env extract f oper location (Suc n, b) w
    = Some (Inl (Status kDeadlineExceeded ''exhausted polling policy with no previous error''), w')"
  by (rule PollingLoop_never_done [OF assms])

theorem polling_counts_pending_polls_witness:
  "\<exists>w'. PollingLoop demo_env (PollingLoopResponseExtractor ''Instance'')
      (\<lambda>name w. (Inr (demo_operation False), w)) (demo_operation False) ''here'' (Suc 4, 10) []
    = Some (Inl (Status kDeadlineExceeded ''exhausted polling policy with no previous error''), w')"
  by (rule polling_counts_pending_polls) (simp_all add: demo_env_def demo_operation_def)

end
