(* ===== verification/Result_Resume.thy ===== *)
theory Result_Resume
  imports Rows Retry_Loops
begin

text \<open>
  \<open>PartialResultSetResume\<close> (\<open>partial_result_set_resume.cc\<close>): a reader that starts its stream
  again at the last resume token when the stream fails with a retryable status. The factory of
  child readers is a parameter that acts on a state \<open>'w\<close> of the service. The contract of a reader
  is proved for it over a service that fails at any points but honours resume tokens.
\<close>

section \<open>The code\<close>

record ('r, 'p, 'b, 'w) resume =
  rs_retry :: 'p
  rs_backoff :: 'b
  rs_token :: string
  rs_child :: 'r
  rs_last_status :: "status option"
  rs_world :: 'w

text \<open>What the constructor is given and keeps for good.\<close>

record ('r, 'p, 'b, 'w) resume_config =
  rc_env :: "('p, 'b, 'w) retry_env"
  rc_reader :: "'r reader"
  rc_factory :: "string \<Rightarrow> 'w \<Rightarrow> 'r \<times> 'w"
  rc_idempotent :: bool

definition Resume_Create ::
    "('r, 'p, 'b, 'w) resume_config \<Rightarrow> 'p \<Rightarrow> 'b \<Rightarrow> 'w \<Rightarrow> ('r, 'p, 'b, 'w) resume" where
  "Resume_Create cfg p b w =
     (let (child, w) = rc_factory cfg [] w
      in \<lparr>rs_retry = p, rs_backoff = b, rs_token = [], rs_child = child, rs_last_status = None,
          rs_world = w\<rparr>)"

definition Resume_Finish ::
    "('r, 'p, 'b, 'w) resume_config \<Rightarrow> ('r, 'p, 'b, 'w) resume \<Rightarrow> status \<times> ('r, 'p, 'b, 'w) resume" where
  "Resume_Finish cfg s =
     (case rs_last_status s of
        Some st \<Rightarrow> (st, s)
      | None \<Rightarrow>
          let (st, child) = Finish (rc_reader cfg) (rs_child s)
          in (st, s \<lparr>rs_last_status := Some st, rs_child := child\<rparr>))"

definition Resume_TryCancel ::
    "('r, 'p, 'b, 'w) resume_config \<Rightarrow> ('r, 'p, 'b, 'w) resume \<Rightarrow> ('r, 'p, 'b, 'w) resume" where
  "Resume_TryCancel cfg s = s \<lparr>rs_child := TryCancel (rc_reader cfg) (rs_child s)\<rparr>"

partial_function (option) Resume_Read ::
    "('r, 'p, 'b, 'w) resume_config \<Rightarrow> ('r, 'p, 'b, 'w) resume \<Rightarrow>
     (partial_result_set option \<times> ('r, 'p, 'b, 'w) resume) option" where
  "Resume_Read cfg s =
     (case Read (rc_reader cfg) (rs_child s) of
        None \<Rightarrow> None
      | Some (Some m, child) \<Rightarrow>
          Some (Some m, s \<lparr>rs_child := child, rs_token := prs_resume_token m\<rparr>)
      | Some (None, child) \<Rightarrow>
          let (status, s) = Resume_Finish cfg (s \<lparr>rs_child := child\<rparr>)
          in if status_ok status then Some (None, s)
             else if \<not> rc_idempotent cfg then Some (None, s)
             else
               let (continue, p) = OnFailure (re_policy (rc_env cfg)) status (rs_retry s);
                   s = s \<lparr>rs_retry := p\<rparr>
               in if \<not> continue then Some (None, s)
                  else
                    let (delay, b) = re_backoff (rc_env cfg) (rs_backoff s);
                        (child, w) = rc_factory cfg (rs_token s)
                          (re_sleeper (rc_env cfg) delay (rs_world s));
                        s = s \<lparr>rs_backoff := b, rs_last_status := None, rs_child := child,
                              rs_world := w\<rparr>
                    in if IsExhausted (re_policy (rc_env cfg)) (rs_retry s) then Some (None, s)
                       else Resume_Read cfg s)"

definition resume_reader ::
    "('r, 'p, 'b, 'w) resume_config \<Rightarrow> ('r, 'p, 'b, 'w) resume reader" where
  "resume_reader cfg = \<lparr>Read = Resume_Read cfg, Finish = Resume_Finish cfg,
     TryCancel = Resume_TryCancel cfg\<rparr>"

section \<open>A service that fails\<close>

text \<open>
  The service has a fixed result; a request with a resume token is answered with the messages that
  follow the one with this token. Its state lists the failures to come: the number of messages a
  stream delivers and the status it then fails with.
\<close>

type_synonym faults = "(nat \<times> status) list"

definition after_token :: "partial_result_set list \<Rightarrow> string \<Rightarrow> partial_result_set list" where
  "after_token ms token =
     (if token = [] then ms else tl (dropWhile (\<lambda>m. prs_resume_token m \<noteq> token) ms))"

fun serve :: "partial_result_set list \<Rightarrow> string \<Rightarrow> faults \<Rightarrow> grpc_stream \<times> faults" where
  "serve ms token [] = (grpc_script (after_token ms token) ok_status, [])"
| "serve ms token ((n, st) # faults) = (grpc_script (take n (after_token ms token)) st, faults)"

definition resume_config_for ::
    "('p, 'b, faults) retry_env \<Rightarrow> partial_result_set list \<Rightarrow>
     (grpc_stream, 'p, 'b, faults) resume_config" where
  "resume_config_for env ms =
     \<lparr>rc_env = env, rc_reader = default_reader, rc_factory = serve ms, rc_idempotent = True\<rparr>"

text \<open>Messages whose tokens identify them.\<close>

definition tokens_ok :: "partial_result_set list \<Rightarrow> bool" where
  "tokens_ok ms \<longleftrightarrow> distinct (map prs_resume_token ms) \<and> [] \<notin> set (map prs_resume_token ms)"

lemma after_token_next:
  assumes "tokens_ok ms" "after_token ms token = m # rest"
  shows "after_token ms (prs_resume_token m) = rest"
proof -
  obtain pre where ms: "ms = pre @ m # rest"
  proof (cases "token = []")
    case True
    then show ?thesis using assms(2) that [of "[]"] by (simp add: after_token_def)
  next
    case False
    then obtain x where "dropWhile (\<lambda>m. prs_resume_token m \<noteq> token) ms = x # m # rest"
      using assms(2) by (cases "dropWhile (\<lambda>m. prs_resume_token m \<noteq> token) ms")
        (auto simp: after_token_def)
    then have "ms = (takeWhile (\<lambda>m. prs_resume_token m \<noteq> token) ms @ [x]) @ m # rest"
      by (metis append_Cons append_Nil append_assoc takeWhile_dropWhile_id)
    then show ?thesis using that by blast
  qed
  have "\<forall>x \<in> set pre. prs_resume_token x \<noteq> prs_resume_token m" "prs_resume_token m \<noteq> []"
    using assms(1) unfolding ms tokens_ok_def by (auto simp: image_iff)
  then have "dropWhile (\<lambda>x. prs_resume_token x \<noteq> prs_resume_token m) ms = m # rest"
    unfolding ms by (simp add: dropWhile_append)
  then show ?thesis using \<open>prs_resume_token m \<noteq> []\<close> by (simp add: after_token_def)
qed

text \<open>
  A transient failure is one the retry policy goes on after. A state is valid when the child
  stream holds what the service has after the last token, or a part of it that ends in a transient
  failure, and the policy can take all failures still to come.
\<close>

definition transient :: "status \<Rightarrow> bool" where
  "transient st \<longleftrightarrow> \<not> status_ok st \<and> \<not> SafeGrpcRetry_IsPermanentFailure st"

definition child_ok :: "partial_result_set list \<Rightarrow> grpc_stream \<Rightarrow> faults \<Rightarrow> nat \<Rightarrow> bool" where
  "child_ok rest c faults p \<longleftrightarrow>
     (grpc_messages c = rest \<and> grpc_status c = ok_status \<and> length faults < p) \<or>
     ((\<exists>k. grpc_messages c = take k rest) \<and> transient (grpc_status c) \<and> Suc (length faults) < p)"

definition resume_valid :: "partial_result_set list \<Rightarrow> (grpc_stream, nat, 'b, faults) resume \<Rightarrow> bool" where
  "resume_valid ms s \<longleftrightarrow>
     rs_last_status s = None \<and> (\<forall>(n, st) \<in> set (rs_world s). transient st) \<and>
     child_ok (after_token ms (rs_token s)) (rs_child s) (rs_world s) (rs_retry s)"

definition resume_pending ::
    "partial_result_set list \<Rightarrow> (grpc_stream, nat, 'b, faults) resume \<Rightarrow> partial_result_set list" where
  "resume_pending ms s = after_token ms (rs_token s)"

lemma child_ok_serve:
  assumes "serve ms token faults = (c, faults')" "\<forall>(n, st) \<in> set faults. transient st"
    "length faults < p"
  shows "child_ok (after_token ms token) c faults' p" "\<forall>(n, st) \<in> set faults'. transient st"
  using assms by (cases faults; auto simp: child_ok_def grpc_script_def)+

lemma Read_default:
  "Read default_reader c = (case grpc_messages c of
      [] \<Rightarrow> Some (None, c) | m # ms \<Rightarrow> Some (Some m, c \<lparr>grpc_messages := ms\<rparr>))"
  "Finish default_reader c = (grpc_status c, c)"
  by (simp_all add: default_reader_def DefaultReader_Read_def DefaultReader_Finish_def)

lemma Resume_Read_step:
  assumes env: "re_policy env = limited_error_count SafeGrpcRetry_IsPermanentFailure"
      "\<And>d w. re_sleeper env d w = w"
    and valid: "resume_valid ms s" and tokens: "tokens_ok ms"
  shows "case resume_pending ms s of
      [] \<Rightarrow> \<exists>s'. Resume_Read (resume_config_for env ms) s = Some (None, s') \<and>
               rs_last_status s' = Some ok_status
    | m # rest \<Rightarrow> \<exists>s'. Resume_Read (resume_config_for env ms) s = Some (Some m, s') \<and>
               resume_valid ms s' \<and> resume_pending ms s' = rest"
  using valid
proof (induction "rs_retry s" arbitrary: s rule: less_induct)
  case less
  let ?cfg = "resume_config_for env ms"
  let ?rest = "after_token ms (rs_token s)"
  have last: "rs_last_status s = None" and faults: "\<forall>(n, st) \<in> set (rs_world s). transient st"
    and child: "child_ok ?rest (rs_child s) (rs_world s) (rs_retry s)"
    using less.prems by (auto simp: resume_valid_def)
  have cfg: "rc_reader ?cfg = default_reader" "rc_env ?cfg = env" "rc_factory ?cfg = serve ms"
    "rc_idempotent ?cfg" by (simp_all add: resume_config_for_def)
  show ?case
  proof (cases "grpc_messages (rs_child s)")
    case (Cons m rest)
    obtain rest' where r: "?rest = m # rest'" "\<exists>k. rest = take k rest'"
    proof -
      obtain k where "m # rest = take k ?rest"
        using child Cons unfolding child_ok_def by (metis order_refl take_all)
      then show ?thesis using that by (cases ?rest; cases k) auto
    qed
    let ?s = "s \<lparr>rs_child := (rs_child s) \<lparr>grpc_messages := rest\<rparr>, rs_token := prs_resume_token m\<rparr>"
    have "Resume_Read ?cfg s = Some (Some m, ?s)"
      using Cons by (subst Resume_Read.simps) (simp add: cfg Read_default)
    moreover have "after_token ms (prs_resume_token m) = rest'"
      by (rule after_token_next [OF tokens r(1)])
    moreover have "child_ok rest' ((rs_child s) \<lparr>grpc_messages := rest\<rparr>) (rs_world s) (rs_retry s)"
      using child Cons r unfolding child_ok_def by auto
    ultimately show ?thesis using r(1) last faults by (simp add: resume_pending_def resume_valid_def)
  next
    case Nil
    define st where "st = grpc_status (rs_child s)"
    define s1 where "s1 = s \<lparr>rs_child := rs_child s, rs_last_status := Some st\<rparr>"
    have fin: "Resume_Finish ?cfg (s \<lparr>rs_child := rs_child s\<rparr>) = (st, s1)"
      using last by (simp add: Resume_Finish_def cfg Read_default st_def s1_def)
    show ?thesis
    proof (cases "status_ok st")
      case True
      then have "?rest = []" "st = ok_status"
        using child Nil by (auto simp: child_ok_def transient_def st_def)
      moreover have "Resume_Read ?cfg s = Some (None, s1)"
        using Nil True fin by (subst Resume_Read.simps) (simp add: cfg Read_default)
      ultimately show ?thesis by (simp add: resume_pending_def s1_def)
    next
      case False
      then have tr: "transient st" and p: "Suc (length (rs_world s)) < rs_retry s"
        using child by (auto simp: child_ok_def st_def)
      obtain d b where b: "re_backoff env (rs_backoff s) = (d, b)" by (cases "re_backoff env (rs_backoff s)")
      obtain c w where c: "serve ms (rs_token s) (rs_world s) = (c, w)"
        by (cases "serve ms (rs_token s) (rs_world s)")
      define s2 where "s2 = s \<lparr>rs_retry := rs_retry s - 1, rs_backoff := b, rs_last_status := None,
        rs_child := c, rs_world := w\<rparr>"
      have "Resume_Read ?cfg s = Resume_Read ?cfg s2"
        using Nil False fin tr p b c
        by (subst Resume_Read.simps)
          (simp add: cfg Read_default env limited_error_count_def transient_def s1_def s2_def)
      moreover have "resume_valid ms s2"
        using child_ok_serve [OF c faults, of "rs_retry s - 1"] p
        by (simp add: resume_valid_def s2_def)
      moreover have "resume_pending ms s2 = resume_pending ms s"
        by (simp add: resume_pending_def s2_def)
      moreover have "rs_retry s2 < rs_retry s" using p by (simp add: s2_def)
      ultimately show ?thesis
        using less.hyps [of s2] by (cases "resume_pending ms s") simp_all
    qed
  qed
qed

text \<open>So the resuming reader keeps the contract of a reader that never fails.\<close>

lemma resume_result_reader:
  assumes "re_policy env = limited_error_count SafeGrpcRetry_IsPermanentFailure"
      "\<And>d w. re_sleeper env d w = w" "tokens_ok ms"
  shows "result_reader (resume_reader (resume_config_for env ms)) (resume_valid ms)
    (resume_pending ms) (\<lambda>_. ok_status)"
proof
  fix s :: "(grpc_stream, nat, 'a, faults) resume" and m rest
  assume "resume_valid ms s" "resume_pending ms s = m # rest"
  then show "\<exists>s'. Read (resume_reader (resume_config_for env ms)) s = Some (Some m, s') \<and>
      resume_valid ms s' \<and> resume_pending ms s' = rest \<and> ok_status = ok_status"
    using Resume_Read_step [OF assms(1,2) _ assms(3), of s] by (auto simp: resume_reader_def)
next
  fix s :: "(grpc_stream, nat, 'a, faults) resume"
  assume "resume_valid ms s" "resume_pending ms s = []"
  then obtain s' where "Resume_Read (resume_config_for env ms) s = Some (None, s')"
    "rs_last_status s' = Some ok_status"
    using Resume_Read_step [OF assms(1,2) _ assms(3), of s] by auto
  then show "\<exists>s'. Read (resume_reader (resume_config_for env ms)) s = Some (None, s') \<and>
      fst (Finish (resume_reader (resume_config_for env ms)) s') = ok_status"
    by (auto simp: resume_reader_def Resume_Finish_def)
qed

text \<open>Reading a stream to its end.\<close>

partial_function (option) drain :: "'r reader \<Rightarrow> 'r \<Rightarrow> (partial_result_set list \<times> status) option" where
  "drain rd r =
     (case Read rd r of
        None \<Rightarrow> None
      | Some (None, r) \<Rightarrow> Some ([], fst (Finish rd r))
      | Some (Some m, r) \<Rightarrow>
          Option.bind (drain rd r) (\<lambda>(ms, st). Some (m # ms, st)))"

lemma Resume_Create_valid:
  assumes "\<forall>(n, st) \<in> set faults. code st \<in> {kUnavailable, kResourceExhausted}" "length faults < p"
  shows "resume_valid ms (Resume_Create (resume_config_for env ms) p b faults) \<and>
    resume_pending ms (Resume_Create (resume_config_for env ms) p b faults) = ms"
proof -
  obtain c w where c: "serve ms [] faults = (c, w)" by (cases "serve ms [] faults")
  have "\<forall>(n, st) \<in> set faults. transient st"
    using assms(1) by (auto simp: transient_def SafeGrpcRetry_IsPermanentFailure_def
        SafeGrpcRetry_IsTransientFailure_def status_ok_def)
  from child_ok_serve [OF c this assms(2)] c show ?thesis
    by (simp add: resume_valid_def resume_pending_def after_token_def Resume_Create_def resume_config_for_def)
qed

lemma chop_rest_exact: "m \<noteq> [] \<Longrightarrow> length vs = n * length m \<Longrightarrow> chop_rest (length m) vs = []"
proof (induction n arbitrary: vs)
  case (Suc n)
  then show ?case by (subst chop_rest.simps) simp
qed (simp add: chop_rest.simps)

section \<open>Properties\<close>

text \<open>
  C9: Rows survive a failing service that gives each message a resume token, not empty and other than
  those of all other messages. With a policy that counts failures, if the streams break, each after any
  number of messages, with \<open>kUnavailable\<close> or \<open>kResourceExhausted\<close> and fewer times than the policy
  allows, and waiting does not touch them, the rows seen through the resuming reader are exactly the
  rows of the undisturbed stream, none lost and none twice; its first message has the columns and its
  values fill whole rows. Without tokens of their own the reader restarts and rows may come twice
  (\<open>resume_empty_token_restarts\<close>).
\<close>

theorem resume_exactly_once:
  assumes "re_policy env = limited_error_count SafeGrpcRetry_IsPermanentFailure"
    "\<And>d w. re_sleeper env d w = w" "tokens_ok (m # ms)"
    "\<forall>(n, st) \<in> set faults. code st \<in> {kUnavailable, kResourceExhausted}" "length faults < p"
    "delivers None (m # ms) vs None" "prs_metadata m = Some md" "row_type_fields md \<noteq> []"
    "length vs = n * length (row_type_fields md)"
  shows "\<exists>s. Source_Create (resume_reader (resume_config_for env (m # ms)))
        (Resume_Create (resume_config_for env (m # ms)) p b faults) = Some (Inr s) \<and>
      all_rows (NextRow (resume_reader (resume_config_for env (m # ms)))) s =
        Some (map Inr (map (typed_row md) (chop (length (row_type_fields md)) vs)))"
proof -
  let ?s = "Resume_Create (resume_config_for env (m # ms)) p b faults"
  have "resume_valid (m # ms) ?s \<and> resume_pending (m # ms) ?s = m # ms"
    by (rule Resume_Create_valid [OF assms(4,5)])
  then have "resume_valid (m # ms) ?s" "resume_pending (m # ms) ?s = m # ms" by blast+
  moreover have "chop_rest (length (row_type_fields md)) vs = []"
    by (rule chop_rest_exact [OF assms(8,9)])
  ultimately obtain s where "Source_Create (resume_reader (resume_config_for env (m # ms))) ?s = Some (Inr s)"
    "yields (NextRow (resume_reader (resume_config_for env (m # ms)))) s
       (map (typed_row md) (chop (length (row_type_fields md)) vs)) (Inr empty_row)"
    using result_reader.stream_rows [OF resume_result_reader [OF assms(1,2,3)] _ _ assms(7,6,8)]
    by (fastforce simp: end_of_rows_def)
  then show ?thesis using all_rows_yields by (fastforce simp: end_results_def)
qed


definition token_message :: "result_metadata option \<Rightarrow> string list \<Rightarrow> string \<Rightarrow> partial_result_set" where
  "token_message md vs token = \<lparr>prs_metadata = md, prs_values = map PString vs,
     prs_chunked = False, prs_resume_token = token, prs_stats = None\<rparr>"

definition patient_env :: "(nat, int, faults) retry_env" where
  "patient_env = \<lparr>re_policy = limited_error_count SafeGrpcRetry_IsPermanentFailure,
     re_backoff = (\<lambda>b. (b, 2 * b)), re_sleeper = (\<lambda>d w. w), re_show = message\<rparr>"

theorem resume_exactly_once_witness:
  "\<exists>s. Source_Create (resume_reader (resume_config_for patient_env
          [token_message (Some (Metadata [(''x'', TString)] None)) [''A''] ''t1'',
           token_message None [''B''] ''t2'']))
        (Resume_Create (resume_config_for patient_env
          [token_message (Some (Metadata [(''x'', TString)] None)) [''A''] ''t1'',
           token_message None [''B''] ''t2'']) 4 10
          [(0, Status kUnavailable ''a''), (1, Status kUnavailable ''b''), (9, Status kUnavailable ''c'')])
        = Some (Inr s) \<and>
      all_rows (NextRow (resume_reader (resume_config_for patient_env
          [token_message (Some (Metadata [(''x'', TString)] None)) [''A''] ''t1'',
           token_message None [''B''] ''t2'']))) s =
        Some (map Inr [Row [Value TString (PString ''A'')] [''x''],
                       Row [Value TString (PString ''B'')] [''x'']])"
proof -
  let ?md = "Metadata [(''x'', TString)] None"
  let ?m = "token_message (Some ?md) [''A''] ''t1''" and ?m2 = "token_message None [''B''] ''t2''"
  have "delivers None [?m2] (prs_values ?m2 @ []) None"
    by (rule delivers.whole) (simp_all add: token_message_def delivers.finished)
  then have "delivers None (?m # [?m2]) (prs_values ?m @ (prs_values ?m2 @ [])) None"
    by (rule delivers.whole [rotated]) (simp add: token_message_def)
  then have d: "delivers None [?m, ?m2] [PString ''A'', PString ''B''] None"
    by (simp add: token_message_def)
  have t: "tokens_ok [?m, ?m2]" by (simp add: tokens_ok_def token_message_def)
  have e: "re_policy patient_env = limited_error_count SafeGrpcRetry_IsPermanentFailure"
    "\<And>d w. re_sleeper patient_env d w = w" by (simp_all add: patient_env_def)
  show ?thesis
    using resume_exactly_once [OF e t _ _ d, of "[(0, Status kUnavailable ''a''),
        (1, Status kUnavailable ''b''), (9, Status kUnavailable ''c'')]" 4 ?md 2 10]
    by (simp add: token_message_def chop.simps typed_row_def)
qed

text \<open>
  A message without a resume token empties the token kept so far: a failure after it makes
  the stream start again from the beginning, and the messages before it are delivered twice.
\<close>

theorem resume_empty_token_restarts:
  assumes "tok \<noteq> []"
    "m1 = token_message md vs1 tok" "m2 = token_message None vs2 []"
  shows "drain (resume_reader (resume_config_for patient_env [m1, m2]))
      (Resume_Create (resume_config_for patient_env [m1, m2]) 2 b [(2, Status kUnavailable reason)])
    = Some ([m1, m2, m1, m2], ok_status)"
  using assms
  by (simp add: drain.simps resume_reader_def resume_config_for_def Resume_Create_def
      Resume_Read.simps Resume_Finish_def Read_default patient_env_def limited_error_count_def
      SafeGrpcRetry_IsPermanentFailure_def SafeGrpcRetry_IsTransientFailure_def grpc_script_def
      after_token_def token_message_def)

theorem resume_empty_token_restarts_witness:
  "drain (resume_reader (resume_config_for patient_env
        [token_message None [''A''] ''t'', token_message None [''B''] []]))
      (Resume_Create (resume_config_for patient_env
        [token_message None [''A''] ''t'', token_message None [''B''] []]) 2 1
        [(2, Status kUnavailable ''gone'')])
    = Some ([token_message None [''A''] ''t'', token_message None [''B''] [],
        token_message None [''A''] ''t'', token_message None [''B''] []], ok_status)"
  by (rule resume_empty_token_restarts [OF _ refl refl]) simp

end
