(* ===== verification/Session_Pool.thy ===== *)
theory Session_Pool
  imports Retry_Loops "HOL-Library.Multiset"
begin

text \<open>
  \<open>internal/session_pool.cc\<close>, \<open>session.h\<close>, \<open>channel.h\<close> and \<open>session_pool_options.h\<close>: the pool of
  sessions a client draws on. A shared \<open>Channel\<close> is its index in the pool's vector. Each definition
  is one critical section or one function; the steps of concurrent callers are the relation
  \<open>pool_step\<close> below. The clock is a sequence of readings, the generator of \<open>std::shuffle\<close> and the
  service are parameters. A C++ \<open>int\<close> is an \<open>int\<close>; the product that can leave 32 bits is checked.
\<close>

section \<open>Options\<close>

datatype ActionOnExhaustion = kBlock | kFail

record session_pool_options =
  min_sessions :: int
  max_sessions_per_channel :: int
  max_idle_sessions :: int
  action_on_exhaustion :: ActionOnExhaustion
  keep_alive_interval :: int
  option_labels :: "(string \<times> string) list"

text \<open>\<open>None\<close> where the product overflows.\<close>

definition EnforceConstraints :: "int \<Rightarrow> session_pool_options \<Rightarrow> session_pool_options option" where
  "EnforceConstraints num_channels opts =
     (let per_channel = max (max_sessions_per_channel opts) 1;
          limit = per_channel * num_channels
      in if \<not> in_int32 limit then None
         else Some (opts\<lparr>min_sessions := min (max (min_sessions opts) 0) limit,
                max_sessions_per_channel := per_channel,
                max_idle_sessions := max (max_idle_sessions opts) 0\<rparr>))"

section \<open>State\<close>

record session =
  session_name :: string
  session_channel :: "nat option"
  is_bad :: bool
  last_use_time :: int

record 's channel =
  channel_stub :: 's
  session_count :: int

record ('s, 'g) session_pool =
  pool_db :: string
  pool_options :: session_pool_options
  max_pool_size :: int
  pool_clock :: "nat \<Rightarrow> int"
  clock_reads :: nat
  random_generator :: 'g
  sessions :: "session list"
  total_sessions :: int
  create_calls_in_progress :: int
  num_waiting_for_session :: int
  last_use_time_lower_bound :: int
  current_timer :: "int option"
  channels :: "'s channel list"
  next_dissociated_stub_channel :: nat

definition Now :: "('s, 'g) session_pool \<Rightarrow> int \<times> ('s, 'g) session_pool" where
  "Now p = (pool_clock p (clock_reads p), p\<lparr>clock_reads := clock_reads p + 1\<rparr>)"

text \<open>
  The constructor: an error text when it throws. \<open>last_use_time_lower_bound_\<close> is initialised with
  the clock.
\<close>

definition MakePool ::
    "string \<Rightarrow> 's list \<Rightarrow> session_pool_options \<Rightarrow> (nat \<Rightarrow> int) \<Rightarrow> 'g \<Rightarrow>
     (string + ('s, 'g) session_pool) option" where
  "MakePool db stubs opts clock gen =
     (case EnforceConstraints (int (length stubs)) opts of
        None \<Rightarrow> None
      | Some opts \<Rightarrow>
          if stubs = [] then Some (Inl ''SessionPool requires a non-empty set of stubs'')
          else Some (Inr
            \<lparr>pool_db = db, pool_options = opts,
             max_pool_size = max_sessions_per_channel opts * int (length stubs),
             pool_clock = clock, clock_reads = 1, random_generator = gen,
             sessions = [], total_sessions = 0, create_calls_in_progress = 0,
             num_waiting_for_session = 0, last_use_time_lower_bound = clock 0,
             current_timer = None,
             channels = map (\<lambda>stub. \<lparr>channel_stub = stub, session_count = 0\<rparr>) stubs,
             next_dissociated_stub_channel = 0\<rparr>))"

section \<open>Creating sessions\<close>

text \<open>The channels by descending count; \<open>std::sort\<close> leaves the order of equal counts open.\<close>

definition channels_by_count :: "'s channel list \<Rightarrow> nat list" where
  "channels_by_count chs = sort_key (\<lambda>i. - session_count (chs ! i)) [0..<length chs]"

fun create_counts_loop :: "'s channel list \<Rightarrow> nat list \<Rightarrow> int \<Rightarrow> int \<Rightarrow> (nat \<times> int) list" where
  "create_counts_loop chs [] sessions_remaining channels_remaining = []"
| "create_counts_loop chs (i # order) sessions_remaining channels_remaining =
     (let target = (sessions_remaining + channels_remaining - 1) sdiv channels_remaining;
          channels_remaining = channels_remaining - 1
      in if session_count (chs ! i) < target then
           (i, target - session_count (chs ! i)) #
             create_counts_loop chs order (sessions_remaining - target) channels_remaining
         else
           create_counts_loop chs order (sessions_remaining - session_count (chs ! i))
             channels_remaining)"

definition pool_exhausted :: status where
  "pool_exhausted = Status kResourceExhausted ''session pool exhausted''"

definition ComputeCreateCounts :: "('s, 'g) session_pool \<Rightarrow> int \<Rightarrow> (nat \<times> int) list status_or" where
  "ComputeCreateCounts p sessions_to_create =
     (if total_sessions p = max_pool_size p then Inl pool_exhausted
      else
        let target_total_sessions = min (total_sessions p + sessions_to_create) (max_pool_size p)
        in Inr (create_counts_loop (channels p) (channels_by_count (channels p))
             target_total_sessions (int (length (channels p)))))"

text \<open>The part of \<open>Grow\<close> before the lock is released.\<close>

definition Grow_start ::
    "int \<Rightarrow> ('s, 'g) session_pool \<Rightarrow> ((nat \<times> int) list \<times> ('s, 'g) session_pool) status_or" where
  "Grow_start sessions_to_create p =
     (case ComputeCreateCounts p sessions_to_create of
        Inl st \<Rightarrow> Inl st
      | Inr create_counts \<Rightarrow>
          Inr (create_counts,
            p\<lparr>create_calls_in_progress := create_calls_in_progress p + int (length create_counts)\<rparr>))"

record batch_create_request =
  request_database :: string
  request_labels :: "(string \<times> string) list"
  request_session_count :: int

text \<open>The surroundings: retries, the service's \<open>BatchCreateSessions\<close> and the shuffle.\<close>

record ('s, 'g, 'p, 'b, 'w) pool_env =
  pe_retry :: "('p, 'b, 'w) retry_env"
  pe_policy :: 'p
  pe_backoff :: 'b
  pe_create :: "'s \<Rightarrow> batch_create_request \<Rightarrow> 'w \<Rightarrow> string list status_or \<times> 'w"
  pe_shuffle :: "'g \<Rightarrow> session list \<Rightarrow> session list \<times> 'g"

fun add_sessions :: "nat \<Rightarrow> string list \<Rightarrow> ('s, 'g) session_pool \<Rightarrow> ('s, 'g) session_pool" where
  "add_sessions c [] p = p"
| "add_sessions c (name # names) p =
     (let (now, p) = Now p
      in add_sessions c names (p\<lparr>sessions := sessions p @
           [\<lparr>session_name = name, session_channel = Some c, is_bad = False, last_use_time = now\<rparr>]\<rparr>))"

definition update_count :: "(int \<Rightarrow> int) \<Rightarrow> nat \<Rightarrow> 's channel list \<Rightarrow> 's channel list" where
  "update_count f c chs = chs[c := (chs ! c)\<lparr>session_count := f (session_count (chs ! c))\<rparr>]"

definition HandleBatchCreateSessionsDone ::
    "('g \<Rightarrow> session list \<Rightarrow> session list \<times> 'g) \<Rightarrow> nat \<Rightarrow> string list status_or \<Rightarrow>
     ('s, 'g) session_pool \<Rightarrow> status \<times> ('s, 'g) session_pool" where
  "HandleBatchCreateSessionsDone shuffle c response p =
     (let p = p\<lparr>create_calls_in_progress := create_calls_in_progress p - 1\<rparr>
      in case response of
           Inl st \<Rightarrow> (st, p)
         | Inr names \<Rightarrow>
             let sessions_created = int (length names);
                 p = p\<lparr>channels := update_count (\<lambda>n. n + sessions_created) c (channels p),
                       total_sessions := total_sessions p + sessions_created\<rparr>;
                 p = add_sessions c names p;
                 (shuffled, g) = shuffle (random_generator p) (sessions p)
             in (ok_status, p\<lparr>sessions := shuffled, random_generator := g\<rparr>))"

definition batch_request :: "('s, 'g) session_pool \<Rightarrow> int \<Rightarrow> batch_create_request" where
  "batch_request p num_sessions =
     \<lparr>request_database = pool_db p, request_labels = option_labels (pool_options p),
      request_session_count = num_sessions\<rparr>"

definition CreateSessionsSync ::
    "('s, 'g, 'p, 'b, 'w) pool_env \<Rightarrow> nat \<Rightarrow> int \<Rightarrow> ('s, 'g) session_pool \<Rightarrow> 'w \<Rightarrow>
     (status \<times> ('s, 'g) session_pool \<times> 'w) option" where
  "CreateSessionsSync env c num_sessions p w =
     (case RetryLoop (pe_retry env) (pe_policy env) (pe_backoff env) True
         (pe_create env (channel_stub (channels p ! c))) (batch_request p num_sessions)
         ''CreateSessionsSync'' w of
        None \<Rightarrow> None
      | Some (response, w) \<Rightarrow>
          let (st, p) = HandleBatchCreateSessionsDone (pe_shuffle env) c response p
          in Some (st, p, w))"

text \<open>\<open>CreateSessions\<close> when the caller waits: the last error is returned.\<close>

fun CreateSessions_wait ::
    "('s, 'g, 'p, 'b, 'w) pool_env \<Rightarrow> (nat \<times> int) list \<Rightarrow> status \<Rightarrow> ('s, 'g) session_pool \<Rightarrow> 'w \<Rightarrow>
     (status \<times> ('s, 'g) session_pool \<times> 'w) option" where
  "CreateSessions_wait env [] return_status p w = Some (return_status, p, w)"
| "CreateSessions_wait env ((c, n) # ops) return_status p w =
     (case CreateSessionsSync env c n p w of
        None \<Rightarrow> None
      | Some (st, p, w) \<Rightarrow>
          CreateSessions_wait env ops (if \<not> status_ok st then st else return_status) p w)"

text \<open>
  When it does not wait, a request is started on each channel; the response arrives at
  \<open>HandleBatchCreateSessionsDone\<close> later.
\<close>

definition CreateSessionsAsync ::
    "('s, 'g) session_pool \<Rightarrow> nat \<times> int \<Rightarrow> nat \<times> 's \<times> batch_create_request" where
  "CreateSessionsAsync p op =
     (fst op, channel_stub (channels p ! fst op), batch_request p (snd op))"

definition Grow_wait ::
    "('s, 'g, 'p, 'b, 'w) pool_env \<Rightarrow> int \<Rightarrow> ('s, 'g) session_pool \<Rightarrow> 'w \<Rightarrow>
     (status \<times> ('s, 'g) session_pool \<times> 'w) option" where
  "Grow_wait env sessions_to_create p w =
     (case Grow_start sessions_to_create p of
        Inl st \<Rightarrow> Some (st, p, w)
      | Inr (create_counts, p) \<Rightarrow> CreateSessions_wait env create_counts ok_status p w)"

definition Grow_no_wait ::
    "int \<Rightarrow> ('s, 'g) session_pool \<Rightarrow>
     status \<times> ('s, 'g) session_pool \<times> (nat \<times> 's \<times> batch_create_request) list" where
  "Grow_no_wait sessions_to_create p =
     (case Grow_start sessions_to_create p of
        Inl st \<Rightarrow> (st, p, [])
      | Inr (create_counts, p) \<Rightarrow> (ok_status, p, map (CreateSessionsAsync p) create_counts))"

section \<open>Allocation and release\<close>

definition forget_session :: "session \<Rightarrow> ('s, 'g) session_pool \<Rightarrow> ('s, 'g) session_pool" where
  "forget_session s p =
     p\<lparr>total_sessions := total_sessions p - 1,
       channels := (case session_channel s of None \<Rightarrow> channels p
                    | Some c \<Rightarrow> update_count (\<lambda>n. n - 1) c (channels p))\<rparr>"

text \<open>A holder gives its session back to the pool unless it was dissociated.\<close>

datatype session_holder = Dissociated session | Pooled session

definition MakeSessionHolder :: "session \<Rightarrow> bool \<Rightarrow> session_holder" where
  "MakeSessionHolder s dissociate_from_pool =
     (if dissociate_from_pool then Dissociated s else Pooled s)"

definition Release :: "session \<Rightarrow> ('s, 'g) session_pool \<Rightarrow> ('s, 'g) session_pool" where
  "Release s p =
     (if is_bad s then forget_session s p
      else let (now, p) = Now p
           in p\<lparr>sessions := sessions p @ [s\<lparr>last_use_time := now\<rparr>]\<rparr>)"

fun SessionHolder_delete ::
    "session_holder \<Rightarrow> ('s, 'g) session_pool option \<Rightarrow> ('s, 'g) session_pool option" where
  "SessionHolder_delete (Dissociated s) pool = pool"
| "SessionHolder_delete (Pooled s) pool = map_option (Release s) pool"

text \<open>One turn of the loop in \<open>Allocate\<close>: what it does with the lock held.\<close>

datatype allocation =
    Take session_holder
  | Fail status
  | WaitForSession
  | WaitForCreate
  | GrowBy int

definition Allocate_turn ::
    "bool \<Rightarrow> ('s, 'g) session_pool \<Rightarrow> allocation \<times> ('s, 'g) session_pool" where
  "Allocate_turn dissociate_from_pool p =
     (if sessions p \<noteq> [] then
        let session = last (sessions p);
            p = p\<lparr>sessions := butlast (sessions p)\<rparr>;
            p = (if dissociate_from_pool then forget_session session p else p)
        in (Take (MakeSessionHolder session dissociate_from_pool), p)
      else if total_sessions p \<ge> max_pool_size p then
        if action_on_exhaustion (pool_options p) = kFail then (Fail pool_exhausted, p)
        else (WaitForSession, p\<lparr>num_waiting_for_session := num_waiting_for_session p + 1\<rparr>)
      else if create_calls_in_progress p > 0 then
        (WaitForCreate, p\<lparr>num_waiting_for_session := num_waiting_for_session p + 1\<rparr>)
      else (GrowBy (min_sessions (pool_options p) + 1), p))"

text \<open>\<open>Allocate\<close> for a single caller: it is blocked where it would have to wait for another one.\<close>

datatype allocated = Allocated session_holder | Failed status | Blocked

partial_function (option) Allocate ::
    "('s, 'g, 'p, 'b, 'w) pool_env \<Rightarrow> bool \<Rightarrow> ('s, 'g) session_pool \<Rightarrow> 'w \<Rightarrow>
     (allocated \<times> ('s, 'g) session_pool \<times> 'w) option" where
  "Allocate env dissociate_from_pool p w =
     (case Allocate_turn dissociate_from_pool p of
        (Take holder, p) \<Rightarrow> Some (Allocated holder, p, w)
      | (Fail st, p) \<Rightarrow> Some (Failed st, p, w)
      | (WaitForSession, p) \<Rightarrow> Some (Blocked, p, w)
      | (WaitForCreate, p) \<Rightarrow> Some (Blocked, p, w)
      | (GrowBy n, p) \<Rightarrow>
          Option.bind (Grow_wait env n p w) (\<lambda>(st, p, w).
            if \<not> status_ok st then Some (Failed st, p, w)
            else Allocate env dissociate_from_pool p w))"

definition GetStub :: "session \<Rightarrow> ('s, 'g) session_pool \<Rightarrow> 's \<times> ('s, 'g) session_pool" where
  "GetStub session p =
     (case session_channel session of
        Some c \<Rightarrow> (channel_stub (channels p ! c), p)
      | None \<Rightarrow>
          let next = next_dissociated_stub_channel p + 1
          in (channel_stub (channels p ! next_dissociated_stub_channel p),
              p\<lparr>next_dissociated_stub_channel := if next = length (channels p) then 0 else next\<rparr>))"

section \<open>Background work\<close>

definition ScheduleBackgroundWork :: "int \<Rightarrow> ('s, 'g) session_pool \<Rightarrow> ('s, 'g) session_pool" where
  "ScheduleBackgroundWork relative_time p = p\<lparr>current_timer := Some relative_time\<rparr>"

definition Initialize ::
    "('s, 'g, 'p, 'b, 'w) pool_env \<Rightarrow> ('s, 'g) session_pool \<Rightarrow> 'w \<Rightarrow>
     (('s, 'g) session_pool \<times> 'w) option" where
  "Initialize env p w =
     (if min_sessions (pool_options p) > 0 then
        case Grow_wait env (min_sessions (pool_options p)) p w of
          None \<Rightarrow> None
        | Some (_, p, w) \<Rightarrow> Some (ScheduleBackgroundWork 5 p, w)
      else Some (ScheduleBackgroundWork 5 p, w))"

definition MakeSessionPool ::
    "('s, 'g, 'p, 'b, 'w) pool_env \<Rightarrow> string \<Rightarrow> 's list \<Rightarrow> session_pool_options \<Rightarrow> (nat \<Rightarrow> int) \<Rightarrow>
     'g \<Rightarrow> 'w \<Rightarrow> (string + (('s, 'g) session_pool \<times> 'w)) option" where
  "MakeSessionPool env db stubs opts clock gen w =
     (case MakePool db stubs opts clock gen of
        None \<Rightarrow> None
      | Some (Inl msg) \<Rightarrow> Some (Inl msg)
      | Some (Inr p) \<Rightarrow> map_option Inr (Initialize env p w))"

definition MaintainPoolSize ::
    "('s, 'g) session_pool \<Rightarrow> ('s, 'g) session_pool \<times> (nat \<times> 's \<times> batch_create_request) list" where
  "MaintainPoolSize p =
     (if create_calls_in_progress p = 0 \<and> total_sessions p < min_sessions (pool_options p) then
        snd (Grow_no_wait (total_sessions p - min_sessions (pool_options p)) p)
      else (p, []))"

text \<open>
  The scan of the sessions, with the lower bound and the number of clock readings: the \<open>GetSession\<close>
  calls to make and the sessions left.
\<close>

fun refresh_loop ::
    "(nat \<Rightarrow> int) \<Rightarrow> int \<Rightarrow> session list \<Rightarrow> int \<Rightarrow> nat \<Rightarrow>
     (nat option \<times> string) list \<times> session list \<times> int \<times> nat" where
  "refresh_loop clock refresh_limit [] bound k = ([], [], bound, k)"
| "refresh_loop clock refresh_limit (s # ss) bound k =
     (if last_use_time s \<le> refresh_limit then
        let (calls, ss, bound, k') = refresh_loop clock refresh_limit ss bound (k + 1)
        in ((session_channel s, session_name s) # calls, s\<lparr>last_use_time := clock k\<rparr> # ss, bound, k')
      else
        let bound = (if last_use_time s < bound then last_use_time s else bound);
            (calls, ss, bound, k') = refresh_loop clock refresh_limit ss bound k
        in (calls, s # ss, bound, k'))"

definition RefreshExpiringSessions ::
    "('s, 'g) session_pool \<Rightarrow> (nat option \<times> string) list \<times> ('s, 'g) session_pool" where
  "RefreshExpiringSessions p =
     (let (now, p) = Now p;
          refresh_limit = now - keep_alive_interval (pool_options p)
      in if last_use_time_lower_bound p \<le> refresh_limit then
           let (calls, ss, bound, k) =
             refresh_loop (pool_clock p) refresh_limit (sessions p) now (clock_reads p)
           in (calls, p\<lparr>sessions := ss, last_use_time_lower_bound := bound, clock_reads := k\<rparr>)
         else ([], p))"

definition DoBackgroundWork ::
    "('s, 'g) session_pool \<Rightarrow>
     (nat \<times> 's \<times> batch_create_request) list \<times> (nat option \<times> string) list \<times> ('s, 'g) session_pool" where
  "DoBackgroundWork p =
     (let (p, creations) = MaintainPoolSize p;
          (calls, p) = RefreshExpiringSessions p
      in (creations, calls, ScheduleBackgroundWork 5 p))"

section \<open>Sharing out sessions\<close>

text \<open>The loop over the counts alone: the counts the channels are to have.\<close>

definition share :: "int \<Rightarrow> int \<Rightarrow> int" where
  "share r k = (r + k - 1) sdiv k"

fun final_counts :: "int list \<Rightarrow> int \<Rightarrow> int list" where
  "final_counts [] r = []"
| "final_counts (c # cs) r =
     (let t = share r (int (length (c # cs)))
      in if c < t then t # final_counts cs (r - t) else c # final_counts cs (r - c))"

lemma share_bounds:
  assumes "0 < k" "0 \<le> r"
  shows "r \<le> k * share r k" "k * (share r k - 1) < r"
proof -
  have e: "share r k = (r + k - 1) div k"
    unfolding share_def using assms by (intro sdiv_nonneg) auto
  have m: "k * ((r + k - 1) div k) + (r + k - 1) mod k = r + k - 1" by simp
  have b: "0 \<le> (r + k - 1) mod k" "(r + k - 1) mod k < k" using assms by simp_all
  show "r \<le> k * share r k" unfolding e using m b by linarith
  have "k * (share r k - 1) = k * share r k - k" by (simp add: algebra_simps)
  then show "k * (share r k - 1) < r" unfolding e using m b by linarith
qed

lemma share_le:
  assumes "0 < k" "0 \<le> r" "r \<le> k * t"
  shows "share r k \<le> t"
proof (rule ccontr)
  assume "\<not> share r k \<le> t"
  then have "t \<le> share r k - 1" by simp
  then have "k * t \<le> k * (share r k - 1)" using assms(1) by (intro mult_left_mono) auto
  with share_bounds(2) [OF assms(1,2)] assms(3) show False by linarith
qed

lemma share_eq:
  assumes "0 < k" "0 \<le> r" "k * (t - 1) < r" "r \<le> k * t"
  shows "share r k = t"
proof (rule antisym)
  show "share r k \<le> t" using assms by (intro share_le) auto
  have "k * (t - 1) < k * share r k" using share_bounds(1) [OF assms(1,2)] assms(3) by linarith
  then show "t \<le> share r k" using assms(1) by simp
qed

lemma share_neg:
  assumes "0 < k" "r < 0"
  shows "share r k \<le> 0"
proof (cases "0 \<le> r + k - 1")
  case True
  then have "share r k = (r + k - 1) div k" unfolding share_def using assms by (intro sdiv_nonneg) auto
  also have "\<dots> = 0" using True assms by (intro div_pos_pos_trivial) auto
  finally show ?thesis by simp
next
  case False
  then show ?thesis using assms
    by (auto simp: share_def signed_divide_int_def sgn_if mult_le_0_iff
        intro!: pos_imp_zdiv_nonneg_iff [THEN iffD2])
qed

lemma length_final_counts [simp]: "length (final_counts cs r) = length cs"
  by (induction cs arbitrary: r) (simp_all add: Let_def)

lemma final_counts_level:
  assumes "int (length cs) * (t - 1) \<le> r" "r \<le> int (length cs) * t" "\<forall>c \<in> set cs. c < t" "0 \<le> t - 1"
  shows "\<forall>x \<in> set (final_counts cs r). t - 1 \<le> x \<and> x \<le> t"
  using assms
proof (induction cs arbitrary: r)
  case Nil
  then show ?case by simp
next
  case (Cons c cs)
  define k where "k = int (length (c # cs))"
  have k: "0 < k" "int (length cs) = k - 1" "int (length (c # cs)) = k" by (simp_all add: k_def)
  have b: "k * (t - 1) \<le> r" "r \<le> k * t" using Cons.prems(1,2) k(3) by simp_all
  have p: "k * t = t + (k - 1) * t" "k * (t - 1) = (t - 1) + (k - 1) * (t - 1)"
    by (simp_all add: algebra_simps)
  have r0: "0 \<le> r" using b(1) k(1) Cons.prems(4)
    by (smt (verit) mult_nonneg_nonneg)
  show ?case
  proof (cases "r = k * (t - 1)")
    case True
    have kk: "k * (t - 1 - 1) = k * (t - 1) - k" by (simp add: algebra_simps)
    have s: "share r k = t - 1"
      by (rule share_eq) (use True k r0 kk in linarith)+
    have "\<forall>x \<in> set (final_counts cs (r - (t - 1))). t - 1 \<le> x \<and> x \<le> t"
    proof (rule Cons.IH)
      show "int (length cs) * (t - 1) \<le> r - (t - 1)" unfolding k(2) using True p by linarith
      have "(k - 1) * (t - 1) \<le> (k - 1) * t" using k(1) by (intro mult_left_mono) auto
      then show "r - (t - 1) \<le> int (length cs) * t" unfolding k(2) using True p by linarith
    qed (use Cons.prems in auto)
    moreover have "c \<le> t - 1" using Cons.prems(3) by simp
    then have "c < t - 1 \<or> c = t - 1" by linarith
    ultimately show ?thesis using s k(3) by (auto simp: Let_def)
  next
    case False
    then have lt: "k * (t - 1) < r" using b(1) by simp
    have s: "share r k = t" by (rule share_eq) (use lt b(2) k(1) r0 in auto)
    have "\<forall>x \<in> set (final_counts cs (r - t)). t - 1 \<le> x \<and> x \<le> t"
    proof (rule Cons.IH)
      show "int (length cs) * (t - 1) \<le> r - t" unfolding k(2) using lt p by linarith
      show "r - t \<le> int (length cs) * t" unfolding k(2) using b(2) p by linarith
    qed (use Cons.prems in auto)
    then show ?thesis using s k(3) Cons.prems(3) by (auto simp: Let_def)
  qed
qed

lemma sum_list_le_max:
  fixes c :: int
  assumes "\<forall>x \<in> set cs. x \<le> c"
  shows "sum_list cs \<le> int (length cs) * c"
  using assms by (induction cs) (auto simp: algebra_simps)

text \<open>What is left for the tail after the head has its share.\<close>

lemma share_rest:
  assumes "\<forall>x \<in> set cs. x \<le> c" "c + sum_list cs \<le> r" "\<forall>x \<in> set (c # cs). 0 \<le> x"
    and "k = int (length (c # cs))"
  shows "c < share r k \<Longrightarrow> sum_list cs \<le> r - share r k"
    and "cs = [] \<Longrightarrow> share r k = r"
    and "c < share r k \<Longrightarrow> (k - 1) * (share r k - 1) \<le> r - share r k \<and> r - share r k \<le> (k - 1) * share r k"
    and "share r k \<le> c \<Longrightarrow> cs \<noteq> [] \<Longrightarrow> share (r - c) (k - 1) \<le> share r k"
proof -
  have k: "0 < k" "int (length cs) = k - 1" using assms(4) by simp_all
  have s0: "0 \<le> sum_list cs" using assms(3) by (simp add: sum_list_nonneg)
  have r0: "0 \<le> r" using s0 assms(2,3) by simp
  note b = share_bounds [OF k(1) r0]
  have e: "k * share r k = share r k + (k - 1) * share r k"
    "k * (share r k - 1) = share r k - 1 + (k - 1) * (share r k - 1)" by (simp_all add: algebra_simps)
  show lev: "c < share r k \<Longrightarrow> (k - 1) * (share r k - 1) \<le> r - share r k \<and> r - share r k \<le> (k - 1) * share r k"
    using b e by linarith
  show "c < share r k \<Longrightarrow> sum_list cs \<le> r - share r k"
  proof -
    assume c: "c < share r k"
    have "sum_list cs \<le> (k - 1) * (share r k - 1)"
      unfolding k(2) [symmetric] by (rule sum_list_le_max) (use c assms(1) in auto)
    with lev [OF c] show ?thesis by linarith
  qed
  show "cs = [] \<Longrightarrow> share r k = r"
    using assms(4) r0 share_eq [of 1 r r] by simp
  show "share r k \<le> c \<Longrightarrow> cs \<noteq> [] \<Longrightarrow> share (r - c) (k - 1) \<le> share r k"
  proof (rule share_le)
    show "cs \<noteq> [] \<Longrightarrow> 0 < k - 1" unfolding k(2) [symmetric] by simp
  qed (use b(1) e(1) assms(2) s0 in linarith)+
qed

lemma final_counts_sum:
  assumes "sorted (rev cs)" "sum_list cs \<le> r" "\<forall>x \<in> set cs. 0 \<le> x" "cs = [] \<Longrightarrow> r = 0"
  shows "sum_list (final_counts cs r) = r"
  using assms
proof (induction cs arbitrary: r)
  case Nil
  then show ?case by simp
next
  case (Cons c cs)
  have le: "\<forall>x \<in> set cs. x \<le> c" and s: "sorted (rev cs)"
    using Cons.prems(1) by (auto simp: sorted_append)
  let ?t = "share r (int (length (c # cs)))"
  note R = share_rest [OF le _ Cons.prems(3) refl, of r]
  show ?case
  proof (cases "c < ?t")
    case True
    have "sum_list (final_counts cs (r - ?t)) = r - ?t"
      by (rule Cons.IH) (use R Cons.prems s True in auto)
    then show ?thesis using True by (simp add: Let_def)
  next
    case False
    have "sum_list (final_counts cs (r - c)) = r - c"
    proof (rule Cons.IH)
      show "cs = [] \<Longrightarrow> r - c = 0" using False R(2) Cons.prems(2) by simp
    qed (use Cons.prems s in auto)
    then show ?thesis using False by (simp add: Let_def)
  qed
qed

lemma final_counts_ge:
  "i < length cs \<Longrightarrow> cs ! i \<le> final_counts cs r ! i"
  by (induction cs arbitrary: r i) (auto simp: Let_def nth_Cons split: nat.splits)

text \<open>A channel that grows ends within the share and at most one above any other channel.\<close>

lemma final_counts_balanced:
  assumes "sorted (rev cs)" "sum_list cs \<le> r" "\<forall>x \<in> set cs. 0 \<le> x" "i < length cs"
    and "cs ! i < final_counts cs r ! i"
  shows "final_counts cs r ! i \<le> share r (int (length cs)) \<and>
    (\<forall>j < length cs. final_counts cs r ! i \<le> final_counts cs r ! j + 1)"
  using assms
proof (induction cs arbitrary: r i)
  case Nil
  then show ?case by simp
next
  case (Cons c cs)
  have le: "\<forall>x \<in> set cs. x \<le> c" and s: "sorted (rev cs)"
    using Cons.prems(1) by (auto simp: sorted_append)
  let ?k = "int (length (c # cs))"
  let ?t = "share r ?k"
  have sum: "c + sum_list cs \<le> r" using Cons.prems(2) by simp
  note R = share_rest [OF le sum Cons.prems(3) refl]
  have k: "int (length cs) = ?k - 1" by simp
  show ?case
  proof (cases "c < ?t")
    case True
    have "\<forall>x \<in> set (final_counts cs (r - ?t)). ?t - 1 \<le> x \<and> x \<le> ?t"
    proof (rule final_counts_level)
      show "int (length cs) * (?t - 1) \<le> r - ?t" "r - ?t \<le> int (length cs) * ?t"
        unfolding k using R(3) [OF True] by simp_all
      show "\<forall>x \<in> set cs. x < ?t" using le True by fastforce
      show "0 \<le> ?t - 1" using True Cons.prems(3) by simp
    qed
    moreover have f: "final_counts (c # cs) r = ?t # final_counts cs (r - ?t)"
      using True by (simp add: Let_def)
    ultimately have l: "?t - 1 \<le> x \<and> x \<le> ?t" if "x \<in> set (final_counts (c # cs) r)" for x
      using that by fastforce
    have n: "?t - 1 \<le> final_counts (c # cs) r ! j \<and> final_counts (c # cs) r ! j \<le> ?t"
      if "j < length (c # cs)" for j
      by (rule l, rule nth_mem) (use that in \<open>simp only: length_final_counts\<close>)
    have "final_counts (c # cs) r ! i \<le> final_counts (c # cs) r ! j + 1"
      if "j < length (c # cs)" for j
      using n [OF that] n [OF Cons.prems(4)] by linarith
    then show ?thesis using n [OF Cons.prems(4)] by blast
  next
    case False
    then have f: "final_counts (c # cs) r = c # final_counts cs (r - c)" by (simp add: Let_def)
    obtain i' where i: "i = Suc i'" using Cons.prems(5) f by (cases i) auto
    have IH: "final_counts cs (r - c) ! i' \<le> share (r - c) (int (length cs)) \<and>
      (\<forall>j < length cs. final_counts cs (r - c) ! i' \<le> final_counts cs (r - c) ! j + 1)"
      by (rule Cons.IH) (use s sum Cons.prems i f in auto)
    have "share (r - c) (int (length cs)) \<le> ?t"
      unfolding k by (rule R(4)) (use False Cons.prems(4) i in auto)
    with IH False show ?thesis unfolding f i by (auto simp: nth_Cons split: nat.splits)
  qed
qed

lemma final_counts_no_growth:
  assumes "sorted (rev cs)" "r \<le> sum_list cs" "\<forall>x \<in> set cs. 0 \<le> x"
  shows "final_counts cs r = cs"
  using assms
proof (induction cs arbitrary: r)
  case Nil
  then show ?case by simp
next
  case (Cons c cs)
  have le: "\<forall>x \<in> set (c # cs). x \<le> c" and s: "sorted (rev cs)"
    using Cons.prems(1) by (auto simp: sorted_append)
  have k: "0 < int (length (c # cs))" by simp
  have "share r (int (length (c # cs))) \<le> c"
  proof (cases "r < 0")
    case True
    then have "share r (int (length (c # cs))) \<le> 0" using share_neg [OF k] by blast
    with Cons.prems(3) show ?thesis by simp
  next
    case False
    have "r \<le> int (length (c # cs)) * c"
      using sum_list_le_max [OF le] Cons.prems(2) by linarith
    with False show ?thesis using share_le [OF k] by simp
  qed
  moreover have "final_counts cs (r - c) = cs" by (rule Cons.IH) (use Cons.prems s in auto)
  ultimately show ?case by (simp add: Let_def)
qed

text \<open>The sessions requested for a channel.\<close>

definition requested :: "(nat \<times> int) list \<Rightarrow> nat \<Rightarrow> int" where
  "requested ops i = sum_list (map snd (filter (\<lambda>op. fst op = i) ops))"

lemma requested_simps [simp]:
  "requested [] i = 0"
  "requested (op # ops) i = (if fst op = i then snd op else 0) + requested ops i"
  "requested (ops @ ops') i = requested ops i + requested ops' i"
  by (simp_all add: requested_def)

lemma requested_nonneg: "\<forall>op \<in> set ops. 0 \<le> snd op \<Longrightarrow> 0 \<le> requested ops i"
  by (induction ops) auto

fun grow_ops :: "'s channel list \<Rightarrow> nat list \<Rightarrow> int list \<Rightarrow> (nat \<times> int) list" where
  "grow_ops chs (i # order) (f # fs) =
     (if session_count (chs ! i) < f then [(i, f - session_count (chs ! i))] else []) @
       grow_ops chs order fs"
| "grow_ops chs _ _ = []"

lemma create_counts_loop_eq:
  "create_counts_loop chs order r (int (length order)) =
     grow_ops chs order (final_counts (map (\<lambda>i. session_count (chs ! i)) order) r)"
  by (induction order arbitrary: r) (simp_all add: Let_def share_def)

lemma grow_ops_in:
  assumes "(i, m) \<in> set (grow_ops chs order fs)" "length fs = length order"
  shows "\<exists>j < length order. i = order ! j \<and> m = fs ! j - session_count (chs ! i) \<and> 0 < m"
  using assms
proof (induction chs order fs rule: grow_ops.induct)
  case (1 chs k order f fs)
  show ?case
  proof (cases "i = k \<and> m = f - session_count (chs ! k) \<and> session_count (chs ! k) < f")
    case True
    then show ?thesis by (intro exI [of _ 0]) auto
  next
    case False
    then have "(i, m) \<in> set (grow_ops chs order fs)" using "1.prems"(1) by (auto split: if_splits)
    then obtain j where "j < length order" "i = order ! j" "m = fs ! j - session_count (chs ! i)" "0 < m"
      using "1.IH" "1.prems"(2) by auto
    then show ?thesis by (intro exI [of _ "Suc j"]) auto
  qed
qed auto

lemma requested_grow_ops_out:
  "i \<notin> set order \<Longrightarrow> requested (grow_ops chs order fs) i = 0"
  by (induction chs order fs rule: grow_ops.induct) auto

lemma requested_grow_ops:
  assumes "distinct order" "length fs = length order" "j < length order"
    and "\<forall>j < length order. session_count (chs ! (order ! j)) \<le> fs ! j"
  shows "requested (grow_ops chs order fs) (order ! j) = fs ! j - session_count (chs ! (order ! j))"
  using assms
proof (induction chs order fs arbitrary: j rule: grow_ops.induct)
  case (1 chs k order f fs)
  have h: "session_count (chs ! k) \<le> f" using "1.prems"(4) by (auto dest: spec [of _ 0])
  show ?case
  proof (cases j)
    case 0
    then show ?thesis using "1.prems"(1) h by (simp add: requested_grow_ops_out)
  next
    case (Suc j')
    have "requested (grow_ops chs order fs) (order ! j') = fs ! j' - session_count (chs ! (order ! j'))"
      by (rule "1.IH") (use "1.prems" Suc in auto)
    moreover have "order ! j' \<noteq> k" using "1.prems"(1,3) Suc by (auto simp: in_set_conv_nth)
    ultimately show ?thesis using Suc by simp
  qed
qed auto

lemma sum_grow_ops:
  assumes "length fs = length order" "\<forall>j < length order. session_count (chs ! (order ! j)) \<le> fs ! j"
  shows "sum_list (map snd (grow_ops chs order fs)) =
    sum_list fs - sum_list (map (\<lambda>i. session_count (chs ! i)) order)"
  using assms
proof (induction chs order fs rule: grow_ops.induct)
  case (1 chs k order f fs)
  have "session_count (chs ! k) \<le> f" using "1.prems"(2) by (auto dest: spec [of _ 0])
  moreover have "sum_list (map snd (grow_ops chs order fs)) =
      sum_list fs - sum_list (map (\<lambda>i. session_count (chs ! i)) order)"
    by (rule "1.IH") (use "1.prems" in auto)
  ultimately show ?case by simp
qed auto

lemma mset_channels_by_count: "mset (channels_by_count chs) = mset [0..<length chs]"
  by (simp add: channels_by_count_def)

lemma channels_by_count_facts [simp]:
  "length (channels_by_count chs) = length chs"
  "set (channels_by_count chs) = {0..<length chs}"
  "distinct (channels_by_count chs)"
  by (simp_all add: channels_by_count_def)

lemma sorted_rev_uminus: "sorted (map uminus xs) \<Longrightarrow> sorted (rev xs)" for xs :: "int list"
  by (induction xs) (auto simp: sorted_append)

lemma channels_by_count_sorted:
  "sorted (rev (map (\<lambda>i. session_count (chs ! i)) (channels_by_count chs)))"
proof (rule sorted_rev_uminus)
  show "sorted (map uminus (map (\<lambda>i. session_count (chs ! i)) (channels_by_count chs)))"
    using sorted_sort_key [of "\<lambda>i. - session_count (chs ! i)" "[0..<length chs]"]
    by (simp add: channels_by_count_def comp_def)
qed

lemma sum_channels_by_count:
  "sum_list (map (\<lambda>i. session_count (chs ! i)) (channels_by_count chs)) =
   sum_list (map session_count chs)"
proof -
  have "mset (map (\<lambda>i. session_count (chs ! i)) (channels_by_count chs)) =
      mset (map (\<lambda>i. session_count (chs ! i)) [0..<length chs])"
    by (simp add: mset_channels_by_count del: mset_upt)
  also have "map (\<lambda>i. session_count (chs ! i)) [0..<length chs] = map session_count chs"
    by (rule nth_equalityI) simp_all
  finally show ?thesis by (metis sum_mset_sum_list)
qed

text \<open>The counters agree with each other.\<close>

definition counted :: "('s, 'g) session_pool \<Rightarrow> bool" where
  "counted p \<longleftrightarrow> channels p \<noteq> [] \<and> total_sessions p = sum_list (map session_count (channels p)) \<and>
     (\<forall>c \<in> set (channels p). 0 \<le> session_count c) \<and> total_sessions p \<le> max_pool_size p"

lemma create_counts_facts:
  assumes "ComputeCreateCounts p n = Inr ops" "0 \<le> n" "counted p"
  shows "\<forall>(i, m) \<in> set ops. i < length (channels p) \<and> 0 < m"
    and "total_sessions p + sum_list (map snd ops) = min (total_sessions p + n) (max_pool_size p)"
    and "\<forall>(i, m) \<in> set ops. \<forall>j < length (channels p).
      session_count (channels p ! i) + m \<le> session_count (channels p ! j) + requested ops j + 1"
    and "\<forall>(i, m) \<in> set ops. int (length (channels p)) * (session_count (channels p ! i) + m - 1)
      < min (total_sessions p + n) (max_pool_size p)"
    and "\<forall>i < length (channels p). \<forall>m. (i, m) \<in> set ops \<longrightarrow> requested ops i = m"
proof -
  let ?chs = "channels p" and ?r = "min (total_sessions p + n) (max_pool_size p)"
  let ?order = "channels_by_count ?chs"
  let ?cs = "map (\<lambda>i. session_count (?chs ! i)) ?order"
  let ?fs = "final_counts ?cs ?r"
  have ops: "ops = grow_ops ?chs ?order ?fs"
    using assms(1) create_counts_loop_eq [of ?chs ?order ?r]
    by (simp add: ComputeCreateCounts_def split: if_splits)
  have len: "length ?fs = length ?order" "length ?cs = length ?chs" by simp_all
  have sum: "sum_list ?cs \<le> ?r" using assms(2,3) by (simp add: sum_channels_by_count counted_def)
  have nn: "\<forall>x \<in> set ?cs. 0 \<le> x" using assms(3) by (auto simp: counted_def)
  have ne: "?cs \<noteq> []" using assms(3) by (metis counted_def len(2) length_0_conv)
  have ge: "\<forall>j < length ?order. session_count (?chs ! (?order ! j)) \<le> ?fs ! j"
    using final_counts_ge [of _ ?cs] by simp
  have "0 \<le> sum_list ?cs" using nn sum_list_nonneg by blast
  with sum have r0: "0 \<le> ?r" by (rule order_trans [rotated])
  note sorted = channels_by_count_sorted [of ?chs]
  have req: "requested ops (?order ! j) = ?fs ! j - session_count (?chs ! (?order ! j))"
    if "j < length ?order" for j
    unfolding ops by (rule requested_grow_ops) (use that len(1) ge in auto)
  have ix: "\<exists>k < length ?order. ?order ! k = j" if "j < length ?chs" for j
    using that channels_by_count_facts(2) [of ?chs] in_set_conv_nth [of j ?order] by simp
  show "\<forall>(i, m) \<in> set ops. i < length ?chs \<and> 0 < m"
    using grow_ops_in [OF _ len(1)] nth_mem [of _ ?order] unfolding ops by fastforce
  show "total_sessions p + sum_list (map snd ops) = ?r"
    using final_counts_sum [OF sorted sum nn] ne assms(3)
    unfolding ops sum_grow_ops [OF len(1) ge] by (simp add: sum_channels_by_count counted_def)
  have bal: "session_count (?chs ! i) + m \<le> share ?r (int (length ?chs)) \<and>
      (\<forall>j < length ?chs. session_count (?chs ! i) + m \<le> session_count (?chs ! j) + requested ops j + 1)"
    if im: "(i, m) \<in> set ops" for i m
  proof -
    from im obtain k where k: "k < length ?order" "i = ?order ! k"
        "m = ?fs ! k - session_count (?chs ! i)" "0 < m"
      using grow_ops_in [OF _ len(1)] unfolding ops by blast
    have "?fs ! k \<le> share ?r (int (length ?cs)) \<and> (\<forall>j < length ?cs. ?fs ! k \<le> ?fs ! j + 1)"
      by (rule final_counts_balanced [OF sorted sum nn]) (use k in simp_all)
    moreover have "session_count (?chs ! j) + requested ops j = ?fs ! l"
      if "l < length ?order" "?order ! l = j" for j l
      using req [OF that(1)] that(2) by simp
    ultimately show ?thesis using k ix by (metis add_diff_cancel_left' diff_add_cancel add.commute len(2) channels_by_count_facts(1))
  qed
  then show "\<forall>(i, m) \<in> set ops. \<forall>j < length ?chs.
      session_count (?chs ! i) + m \<le> session_count (?chs ! j) + requested ops j + 1" by blast
  have k0: "0 < int (length ?chs)" using assms(3) by (simp add: counted_def)
  have "int (length ?chs) * (session_count (?chs ! i) + m - 1) < ?r" if "(i, m) \<in> set ops" for i m
  proof -
    have "int (length ?chs) * (session_count (?chs ! i) + m - 1) \<le>
        int (length ?chs) * (share ?r (int (length ?chs)) - 1)"
      using bal [OF that] k0 by (intro mult_left_mono) auto
    with share_bounds(2) [OF k0 r0] show ?thesis by linarith
  qed
  then show "\<forall>(i, m) \<in> set ops. int (length ?chs) * (session_count (?chs ! i) + m - 1) < ?r" by blast
  have "requested ops i = m" if "(i, m) \<in> set ops" for i m
  proof -
    from that obtain k where "k < length ?order" "i = ?order ! k"
        "m = ?fs ! k - session_count (?chs ! i)"
      using grow_ops_in [OF _ len(1)] unfolding ops by blast
    then show ?thesis using req by simp
  qed
  then show "\<forall>i < length ?chs. \<forall>m. (i, m) \<in> set ops \<longrightarrow> requested ops i = m" by blast
qed

lemma create_counts_none:
  assumes "counted p" "n \<le> 0" "total_sessions p \<noteq> max_pool_size p"
  shows "ComputeCreateCounts p n = Inr []"
proof -
  let ?chs = "channels p" and ?r = "min (total_sessions p + n) (max_pool_size p)"
  let ?cs = "map (\<lambda>i. session_count (?chs ! i)) (channels_by_count ?chs)"
  have "?r \<le> sum_list ?cs" using assms by (simp add: sum_channels_by_count counted_def)
  moreover have "\<forall>x \<in> set ?cs. 0 \<le> x" using assms(1) by (auto simp: counted_def)
  ultimately have f: "final_counts ?cs ?r = ?cs"
    using channels_by_count_sorted by (intro final_counts_no_growth)
  have g: "grow_ops ?chs order (map (\<lambda>i. session_count (?chs ! i)) order) = []" for order
    by (induction order) auto
  show ?thesis
    using assms(3) create_counts_loop_eq [of ?chs "channels_by_count ?chs" ?r] f g
    by (simp add: ComputeCreateCounts_def)
qed

section \<open>Concurrent callers\<close>

text \<open>
  The pool, the requests in flight (channel and number of sessions asked for) and the sessions that
  callers hold.
\<close>

record ('s, 'g) pool_system =
  the_pool :: "('s, 'g) session_pool"
  in_flight :: "(nat \<times> int) list"
  held :: "session list"

fun kept :: "session_holder \<Rightarrow> session list" where
  "kept (Pooled s) = [s]"
| "kept (Dissociated s) = []"

definition pool_init :: "('s, 'g) session_pool \<Rightarrow> ('s, 'g) pool_system" where
  "pool_init p = \<lparr>the_pool = p, in_flight = [], held = []\<rparr>"

text \<open>
  One step of any thread: the parts of \<open>Allocate\<close> and \<open>Initialize\<close> between which the lock is
  released, the arrival of a response (the service creates at most as many sessions as it was asked
  for), the release of a session that its user may have marked bad, and the background work.
\<close>

inductive pool_step ::
    "('g \<Rightarrow> session list \<Rightarrow> session list \<times> 'g) \<Rightarrow> ('s, 'g) pool_system \<Rightarrow> ('s, 'g) pool_system \<Rightarrow> bool"
  for shuffle where
  take: "Allocate_turn d p = (Take h, p') \<Longrightarrow>
    pool_step shuffle \<lparr>the_pool = p, in_flight = fl, held = hs\<rparr>
      \<lparr>the_pool = p', in_flight = fl, held = kept h @ hs\<rparr>"
| wait: "Allocate_turn d p = (a, p') \<Longrightarrow> a = WaitForSession \<or> a = WaitForCreate \<Longrightarrow>
    pool_step shuffle \<lparr>the_pool = p, in_flight = fl, held = hs\<rparr>
      \<lparr>the_pool = p', in_flight = fl, held = hs\<rparr>"
| wake: "pool_step shuffle \<lparr>the_pool = p, in_flight = fl, held = hs\<rparr>
      \<lparr>the_pool = p\<lparr>num_waiting_for_session := num_waiting_for_session p - 1\<rparr>,
       in_flight = fl, held = hs\<rparr>"
| grow: "Allocate_turn d p = (GrowBy n, p1) \<Longrightarrow> Grow_start n p1 = Inr (ops, p') \<Longrightarrow>
    pool_step shuffle \<lparr>the_pool = p, in_flight = fl, held = hs\<rparr>
      \<lparr>the_pool = p', in_flight = fl @ ops, held = hs\<rparr>"
| initialize: "create_calls_in_progress p = 0 \<Longrightarrow>
    Grow_start (min_sessions (pool_options p)) p = Inr (ops, p') \<Longrightarrow>
    pool_step shuffle \<lparr>the_pool = p, in_flight = fl, held = hs\<rparr>
      \<lparr>the_pool = p', in_flight = fl @ ops, held = hs\<rparr>"
| arrive: "HandleBatchCreateSessionsDone shuffle c response p = (st, p') \<Longrightarrow>
    (\<forall>names. response = Inr names \<longrightarrow> int (length names) \<le> n) \<Longrightarrow>
    pool_step shuffle \<lparr>the_pool = p, in_flight = fl @ (c, n) # fl', held = hs\<rparr>
      \<lparr>the_pool = p', in_flight = fl @ fl', held = hs\<rparr>"
| release: "pool_step shuffle \<lparr>the_pool = p, in_flight = fl, held = hs @ s # hs'\<rparr>
      \<lparr>the_pool = Release (s\<lparr>is_bad := is_bad s \<or> bad\<rparr>) p, in_flight = fl, held = hs @ hs'\<rparr>"
| stub: "GetStub s p = (x, p') \<Longrightarrow>
    pool_step shuffle \<lparr>the_pool = p, in_flight = fl, held = hs\<rparr>
      \<lparr>the_pool = p', in_flight = fl, held = hs\<rparr>"
| background: "DoBackgroundWork p = (creations, calls, p') \<Longrightarrow>
    pool_step shuffle \<lparr>the_pool = p, in_flight = fl, held = hs\<rparr>
      \<lparr>the_pool = p',
       in_flight = fl @ map (\<lambda>(c, _, req). (c, request_session_count req)) creations, held = hs\<rparr>"

text \<open>The accounts of a pool: counts per channel against the sessions that exist and will exist.\<close>

definition accounts_ok ::
    "int \<Rightarrow> int list \<Rightarrow> int \<Rightarrow> int \<Rightarrow> nat option multiset \<Rightarrow> (nat \<times> int) list \<Rightarrow> bool" where
  "accounts_ok per_channel counts tot calls sess flight \<longleftrightarrow>
     counts \<noteq> [] \<and> tot = sum_list counts \<and>
     (\<forall>i < length counts. counts ! i = int (count sess (Some i))) \<and>
     (\<forall>c. c \<in># sess \<longrightarrow> (\<exists>i < length counts. c = Some i)) \<and>
     calls = int (length flight) \<and>
     (\<forall>(i, m) \<in> set flight. i < length counts \<and> 0 < m) \<and>
     tot + sum_list (map snd flight) \<le> per_channel * int (length counts) \<and>
     (\<forall>i < length counts. counts ! i + requested flight i \<le> per_channel)"

lemma sum_list_update_int:
  "c < length xs \<Longrightarrow> sum_list (xs[c := x]) = sum_list xs + x - xs ! c" for xs :: "int list"
  by (induction xs arbitrary: c) (auto split: nat.splits)

lemma accounts_forget:
  assumes "accounts_ok per counts tot calls (add_mset (Some c) sess) flight"
  shows "accounts_ok per (counts[c := counts ! c - 1]) (tot - 1) calls sess flight"
proof -
  have c: "c < length counts" using assms by (auto simp: accounts_ok_def)
  from assms have a: "\<And>i. i < length counts \<Longrightarrow> counts ! i = int (count (add_mset (Some c) sess) (Some i))"
    "\<And>i. i < length counts \<Longrightarrow> counts ! i + requested flight i \<le> per"
    by (auto simp: accounts_ok_def)
  have s: "counts[c := counts ! c - 1] ! i = int (count sess (Some i))" if "i < length counts" for i
    using a(1) [OF that] c by (cases "i = c") auto
  have r: "counts[c := counts ! c - 1] ! i + requested flight i \<le> per" if "i < length counts" for i
    using a(2) [OF that] c by (cases "i = c") auto
  have t: "sum_list (counts[c := counts ! c - 1]) = sum_list counts - 1"
    using sum_list_update_int [OF c] by simp
  show ?thesis
    using assms s r unfolding accounts_ok_def t length_list_update by simp
qed

lemma accounts_done:
  assumes "accounts_ok per counts tot calls sess (fl @ (c, m) # fl')" "int k \<le> m"
  shows "accounts_ok per (counts[c := counts ! c + int k]) (tot + int k) (calls - 1)
    (sess + replicate_mset k (Some c)) (fl @ fl')"
proof -
  have c: "c < length counts" using assms by (auto simp: accounts_ok_def)
  have q: "counts ! i + requested fl i + requested fl' i \<le> per - (if i = c then m else 0)"
    if "i < length counts" for i
    using assms(1) that by (fastforce simp: accounts_ok_def split: if_splits)
  have "counts[c := counts ! c + int k] ! i + requested (fl @ fl') i \<le> per"
    if "i < length counts" for i
    using q [OF that] assms(2) c by (cases "i = c") simp_all
  then have r: "\<forall>i < length (counts[c := counts ! c + int k]).
      counts[c := counts ! c + int k] ! i + requested (fl @ fl') i \<le> per" by simp
  have s: "\<forall>d. d \<in># sess + replicate_mset k (Some c) \<longrightarrow> (\<exists>i < length counts. d = Some i)"
    using assms(1) c by (auto simp: accounts_ok_def split: if_splits)
  show ?thesis
    using assms c r s sum_list_update_int [OF c, of "counts ! c + int k"]
    by (auto simp: accounts_ok_def nth_list_update)
qed

lemma accounts_failed:
  assumes "accounts_ok per counts tot calls sess (fl @ (c, m) # fl')"
  shows "accounts_ok per counts tot (calls - 1) sess (fl @ fl')"
proof -
  have "counts[c := counts ! c + int 0] = counts" by simp
  then show ?thesis using accounts_done [OF assms, of 0] assms
    by (auto simp: accounts_ok_def)
qed

lemma accounts_start:
  assumes "accounts_ok per counts tot calls sess []"
    and "\<forall>(i, m) \<in> set ops. i < length counts \<and> 0 < m"
    and "tot + sum_list (map snd ops) \<le> per * int (length counts)"
    and "\<forall>i < length counts. counts ! i + requested ops i \<le> per"
  shows "accounts_ok per counts tot (calls + int (length ops)) sess ops"
  using assms by (simp add: accounts_ok_def)

lemma accounts_total:
  assumes "accounts_ok per counts tot calls sess flight"
  shows "tot = int (size sess)"
proof -
  have "sum_list counts = (\<Sum>i < length counts. int (count sess (Some i)))"
    using assms by (simp add: sum_list_sum_nth accounts_ok_def atLeast0LessThan)
  also have "\<dots> = (\<Sum>c \<in> Some ` {..<length counts}. int (count sess c))"
    by (simp add: sum.reindex)
  also have "\<dots> = (\<Sum>c \<in> set_mset sess. int (count sess c))"
    using assms by (intro sum.mono_neutral_right) (auto simp: accounts_ok_def not_in_iff)
  also have "\<dots> = int (size sess)" by (simp add: size_multiset_overloaded_eq)
  finally show ?thesis using assms by (simp add: accounts_ok_def)
qed

definition pool_accounts :: "('s, 'g) session_pool \<Rightarrow> (nat \<times> int) list \<Rightarrow> session list \<Rightarrow> bool" where
  "pool_accounts p fl hs \<longleftrightarrow>
     accounts_ok (max_sessions_per_channel (pool_options p)) (map session_count (channels p))
       (total_sessions p) (create_calls_in_progress p) (mset (map session_channel (sessions p @ hs))) fl \<and>
     max_pool_size p = max_sessions_per_channel (pool_options p) * int (length (channels p)) \<and>
     0 \<le> min_sessions (pool_options p) \<and> min_sessions (pool_options p) \<le> max_pool_size p"

lemma pool_accounts_counted:
  assumes "pool_accounts p fl hs"
  shows "counted p"
proof -
  have "0 \<le> session_count c" if "c \<in> set (channels p)" for c
    using assms that by (auto simp: pool_accounts_def accounts_ok_def in_set_conv_nth) 
  moreover have "0 \<le> sum_list (map snd fl)"
    using assms by (intro sum_list_nonneg) (auto simp: pool_accounts_def accounts_ok_def)
  ultimately show ?thesis
    using assms by (auto simp: counted_def pool_accounts_def accounts_ok_def)
qed

lemma pool_accounts_flight:
  "pool_accounts p fl hs \<Longrightarrow> create_calls_in_progress p = 0 \<Longrightarrow> fl = []"
  by (simp add: pool_accounts_def accounts_ok_def)

lemma pool_accounts_start:
  assumes "pool_accounts p fl hs" "create_calls_in_progress p = 0" "Grow_start n p = Inr (ops, p')"
    "0 \<le> n"
  shows "pool_accounts p' (fl @ ops) hs"
proof -
  from assms(3) have c: "ComputeCreateCounts p n = Inr ops"
    and p': "p' = p\<lparr>create_calls_in_progress := create_calls_in_progress p + int (length ops)\<rparr>"
    by (auto simp: Grow_start_def split: sum.splits)
  have fl: "fl = []" using pool_accounts_flight [OF assms(1,2)] .
  note f = create_counts_facts [OF c assms(4) pool_accounts_counted [OF assms(1)]]
  let ?per = "max_sessions_per_channel (pool_options p)" and ?n = "int (length (channels p))"
  have max: "max_pool_size p = ?per * ?n" using assms(1) by (simp add: pool_accounts_def)
  have n0: "0 < ?n" using pool_accounts_counted [OF assms(1)] by (simp add: counted_def)
  have "session_count (channels p ! i) + requested ops i \<le> ?per" if i: "i < length (channels p)" for i
  proof (cases "\<exists>m. (i, m) \<in> set ops")
    case True
    then obtain m where m: "(i, m) \<in> set ops" "requested ops i = m" using f(5) i by blast
    have "?n * (session_count (channels p ! i) + m - 1) < ?n * ?per"
      using f(4) m(1) max by (fastforce simp: mult.commute)
    then have "session_count (channels p ! i) + m - 1 < ?per"
      using n0 by (simp only: mult_less_cancel_left_pos)
    with m(2) show ?thesis by simp
  next
    case False
    then have "requested ops i = 0"
      by (induction ops) auto
    moreover have "session_count (channels p ! i) \<le> ?per"
      using assms(1) i fl by (auto simp: pool_accounts_def accounts_ok_def)
    ultimately show ?thesis by simp
  qed
  then have "accounts_ok ?per (map session_count (channels p)) (total_sessions p)
      (create_calls_in_progress p + int (length ops)) (mset (map session_channel (sessions p @ hs))) ops"
    using assms(1) f(1,2) max fl by (intro accounts_start) (auto simp: pool_accounts_def)
  then show ?thesis using assms(1) fl by (simp add: pool_accounts_def p')
qed

lemma update_count_simps [simp]:
  "map session_count (update_count f c chs) = (map session_count chs)[c := f (session_count (chs ! c))]"
  "length (update_count f c chs) = length chs"
  "channel_stub (update_count f c chs ! i) = channel_stub (chs ! i)"
proof -
  show "channel_stub (update_count f c chs ! i) = channel_stub (chs ! i)"
    by (cases "i = c \<and> c < length chs") (auto simp: update_count_def not_less list_update_beyond)
qed (simp_all add: update_count_def map_update)

lemma pool_accounts_forget:
  assumes "pool_accounts p fl (s # hs)"
  shows "pool_accounts (forget_session s p) fl hs"
proof -
  have "\<forall>d. d \<in># mset (map session_channel (sessions p @ s # hs)) \<longrightarrow>
      (\<exists>i < length (map session_count (channels p)). d = Some i)"
    using assms unfolding pool_accounts_def accounts_ok_def by blast
  then obtain c where c: "session_channel s = Some c" "c < length (channels p)"
    by (auto dest: spec [of _ "session_channel s"])
  have "accounts_ok (max_sessions_per_channel (pool_options p))
      ((map session_count (channels p))[c := map session_count (channels p) ! c - 1])
      (total_sessions p - 1) (create_calls_in_progress p) (mset (map session_channel (sessions p @ hs))) fl"
    by (rule accounts_forget) (use assms c in \<open>simp add: pool_accounts_def\<close>)
  then show ?thesis using assms c by (simp add: forget_session_def pool_accounts_def)
qed

lemma Now_simps [simp]:
  "fst (Now p) = pool_clock p (clock_reads p)"
  "snd (Now p) = p\<lparr>clock_reads := clock_reads p + 1\<rparr>"
  by (simp_all add: Now_def)

lemma pool_accounts_release:
  assumes "pool_accounts p fl (s # hs)"
  shows "pool_accounts (Release s p) fl hs"
proof (cases "is_bad s")
  case True
  then show ?thesis using pool_accounts_forget [OF assms] by (simp add: Release_def)
next
  case False
  then show ?thesis using assms by (simp add: Release_def Now_def pool_accounts_def)
qed

lemma pool_accounts_held: 
  "mset (map session_channel hs) = mset (map session_channel hs') \<Longrightarrow>
   pool_accounts p fl hs = pool_accounts p fl hs'"
  by (simp add: pool_accounts_def)

lemma add_sessions_facts:
  "\<exists>ss k. add_sessions c names p = p\<lparr>sessions := sessions p @ ss, clock_reads := k\<rparr> \<and>
     map session_channel ss = replicate (length names) (Some c) \<and> map session_name ss = names \<and>
     clock_reads p \<le> k \<and> (\<forall>s \<in> set ss. \<exists>r \<ge> clock_reads p. r < k \<and> last_use_time s = pool_clock p r)"
proof (induction names arbitrary: p)
  case Nil
  then show ?case by (intro exI [of _ "[]"] exI [of _ "clock_reads p"]) simp
next
  case (Cons name names)
  let ?s = "\<lparr>session_name = name, session_channel = Some c, is_bad = False,
    last_use_time = pool_clock p (clock_reads p)\<rparr>"
  from Cons.IH [of "p\<lparr>clock_reads := clock_reads p + 1, sessions := sessions p @ [?s]\<rparr>"]
  obtain ss k where ss: "add_sessions c names (p\<lparr>clock_reads := clock_reads p + 1, sessions := sessions p @ [?s]\<rparr>) =
        p\<lparr>sessions := sessions p @ ?s # ss, clock_reads := k\<rparr>"
      "map session_channel ss = replicate (length names) (Some c)" "map session_name ss = names"
      "clock_reads p + 1 \<le> k"
      "\<forall>s \<in> set ss. \<exists>r \<ge> clock_reads p + 1. r < k \<and> last_use_time s = pool_clock p r"
    by auto
  show ?case
    by (rule exI [of _ "?s # ss"], rule exI [of _ k]) (use ss in \<open>auto simp: Now_def intro: Suc_leD\<close>)
qed

lemma pool_accounts_done:
  assumes "pool_accounts p (fl @ (c, n) # fl') hs" "\<forall>g ss. mset (fst (shuffle g ss)) = mset ss"
    and "HandleBatchCreateSessionsDone shuffle c response p = (st, p')"
    and "\<forall>names. response = Inr names \<longrightarrow> int (length names) \<le> n"
  shows "pool_accounts p' (fl @ fl') hs"
proof (cases response)
  case (Inl e)
  then show ?thesis
    using assms(1,3) accounts_failed
    by (fastforce simp: HandleBatchCreateSessionsDone_def pool_accounts_def)
next
  case (Inr names)
  have c: "c < length (channels p)" using assms(1) by (auto simp: pool_accounts_def accounts_ok_def)
  let ?p = "p\<lparr>create_calls_in_progress := create_calls_in_progress p - 1,
    channels := update_count (\<lambda>n. n + int (length names)) c (channels p),
    total_sessions := total_sessions p + int (length names)\<rparr>"
  obtain ss k where ss: "add_sessions c names ?p = ?p\<lparr>sessions := sessions ?p @ ss, clock_reads := k\<rparr>"
      "map session_channel ss = replicate (length names) (Some c)"
    using add_sessions_facts [of c names ?p] by blast
  obtain xs g where x: "shuffle (random_generator p) (sessions p @ ss) = (xs, g)" by fastforce
  have m: "mset xs = mset (sessions p @ ss)"
    using assms(2) [rule_format, of "random_generator p" "sessions p @ ss"] x by simp
  have p': "p' = (?p\<lparr>sessions := sessions ?p @ ss, clock_reads := k\<rparr>)\<lparr>sessions := xs, random_generator := g\<rparr>"
    using assms(3) Inr ss(1) x by (simp add: HandleBatchCreateSessionsDone_def Let_def)
  have "accounts_ok (max_sessions_per_channel (pool_options p))
      ((map session_count (channels p))[c := map session_count (channels p) ! c + int (length names)])
      (total_sessions p + int (length names)) (create_calls_in_progress p - 1)
      (mset (map session_channel (sessions p @ hs)) + replicate_mset (length names) (Some c)) (fl @ fl')"
    by (rule accounts_done) (use assms(1,4) Inr in \<open>auto simp: pool_accounts_def\<close>)
  moreover have "mset (map session_channel (xs @ hs)) =
      mset (map session_channel (sessions p @ hs)) + replicate_mset (length names) (Some c)"
  proof -
    have "mset (map session_channel (xs @ hs)) = image_mset session_channel (mset (sessions p @ ss) + mset hs)"
      using m by simp
    also have "\<dots> = mset (map session_channel (sessions p @ hs)) + mset (map session_channel ss)" by simp
    also have "mset (map session_channel ss) = replicate_mset (length names) (Some c)" unfolding ss(2) by simp
    finally show ?thesis .
  qed
  ultimately show ?thesis using assms(1) c
    by (simp add: p' pool_accounts_def del: mset_map map_append)
qed

lemma refresh_loop_channels:
  "map session_channel (fst (snd (refresh_loop clock limit ss b k))) = map session_channel ss"
  by (induction ss arbitrary: b k) (auto simp: Let_def split: prod.splits, (metis fst_conv snd_conv)+)

lemma pool_accounts_refresh:
  assumes "pool_accounts p fl hs" "RefreshExpiringSessions p = (calls, p')"
  shows "pool_accounts p' fl hs"
proof -
  obtain cs ss b k where r: "refresh_loop (pool_clock p)
      (pool_clock p (clock_reads p) - keep_alive_interval (pool_options p)) (sessions p)
      (pool_clock p (clock_reads p)) (clock_reads p + 1) = (cs, ss, b, k)"
    by (metis prod_cases4)
  have "map session_channel ss = map session_channel (sessions p)"
    using refresh_loop_channels [of "pool_clock p" _ "sessions p"] r by (metis fst_conv snd_conv)
  then show ?thesis
    using assms r
    by (auto simp: RefreshExpiringSessions_def Now_def Let_def pool_accounts_def simp del: mset_map split: if_splits)
qed

lemma MaintainPoolSize_none:
  assumes "counted p" "min_sessions (pool_options p) \<le> max_pool_size p"
  shows "MaintainPoolSize p = (p, [])"
proof -
  have "ComputeCreateCounts p (total_sessions p - min_sessions (pool_options p)) = Inr []"
    if "total_sessions p < min_sessions (pool_options p)"
    by (rule create_counts_none) (use assms that in auto)
  then show ?thesis
    by (auto simp: MaintainPoolSize_def Grow_no_wait_def Grow_start_def)
qed

lemma Allocate_turn_cases:
  "Allocate_turn d p = (Take h, p') \<Longrightarrow> sessions p \<noteq> [] \<and> h = MakeSessionHolder (last (sessions p)) d \<and>
    p' = (if d then forget_session (last (sessions p)) (p\<lparr>sessions := butlast (sessions p)\<rparr>)
          else p\<lparr>sessions := butlast (sessions p)\<rparr>)"
  "Allocate_turn d p = (GrowBy n, p') \<Longrightarrow> p' = p \<and> n = min_sessions (pool_options p) + 1 \<and>
    sessions p = [] \<and> total_sessions p < max_pool_size p \<and> create_calls_in_progress p \<le> 0"
  "Allocate_turn d p = (WaitForSession, p') \<or> Allocate_turn d p = (WaitForCreate, p') \<Longrightarrow>
    p' = p\<lparr>num_waiting_for_session := num_waiting_for_session p + 1\<rparr>"
  by (auto simp: Allocate_turn_def Let_def split: if_splits)

lemma pool_accounts_step:
  assumes "pool_step shuffle y z" "\<forall>g ss. mset (fst (shuffle g ss)) = mset ss"
    and "pool_accounts (the_pool y) (in_flight y) (held y)"
  shows "pool_accounts (the_pool z) (in_flight z) (held z)"
  using assms
proof (induction rule: pool_step.induct)
  case (take d p h p' fl hs)
  note t = Allocate_turn_cases(1) [OF take.hyps]
  let ?p = "p\<lparr>sessions := butlast (sessions p)\<rparr>" and ?s = "last (sessions p)"
  have "mset (map session_channel (sessions p)) = mset (map session_channel (butlast (sessions p) @ [?s]))"
    using t by simp
  then have "pool_accounts ?p fl (?s # hs)"
    using take.prems(2) unfolding pool_accounts_def by (simp del: append_butlast_last_id)
  then show ?case
    using t pool_accounts_forget by (auto simp: MakeSessionHolder_def split: if_splits)
next
  case (grow d p n p1 ops p' fl hs)
  note t = Allocate_turn_cases(2) [OF grow.hyps(1)]
  have "create_calls_in_progress p = 0" "0 \<le> n"
    using grow.prems(2) t by (auto simp: pool_accounts_def accounts_ok_def)
  then show ?case using pool_accounts_start [of p fl hs n ops p'] grow t by simp
next
  case (initialize p ops p' fl hs)
  have a: "pool_accounts p fl hs" using initialize.prems(2) by simp
  then have "0 \<le> min_sessions (pool_options p)" by (simp add: pool_accounts_def)
  from pool_accounts_start [OF a initialize.hyps(1,2) this] show ?case by simp
next
  case (arrive c response p st p' n fl fl' hs)
  from pool_accounts_done [of p fl c n fl' hs shuffle response st p'] arrive show ?case by simp
next
  case (release p fl hs s hs' bad)
  have "pool_accounts p fl (s\<lparr>is_bad := is_bad s \<or> bad\<rparr> # hs @ hs')"
    using release.prems(2) by (subst pool_accounts_held [of _ "hs @ s # hs'"]) simp_all
  then show ?case using pool_accounts_release by fastforce
next
  case (background p creations calls p' fl hs)
  have a: "pool_accounts p fl hs" using background.prems(2) by simp
  have "MaintainPoolSize p = (p, [])"
    by (rule MaintainPoolSize_none) (use a pool_accounts_counted in \<open>auto simp: pool_accounts_def\<close>)
  then obtain q where q: "RefreshExpiringSessions p = (calls, q)" "p' = ScheduleBackgroundWork 5 q"
      "creations = []"
    using background.hyps by (auto simp: DoBackgroundWork_def split: prod.splits)
  then show ?case
    using pool_accounts_refresh [OF a q(1)] by (simp add: ScheduleBackgroundWork_def pool_accounts_def)
qed (auto simp: Allocate_turn_def GetStub_def Let_def pool_accounts_def split: if_splits option.splits)

lemma pool_accounts_init:
  assumes "MakePool db stubs opts clock g = Some (Inr p)"
  shows "pool_accounts p [] []"
proof -
  from assms obtain o' where o: "EnforceConstraints (int (length stubs)) opts = Some o'" "stubs \<noteq> []"
    and p: "channels p = map (\<lambda>stub. \<lparr>channel_stub = stub, session_count = 0\<rparr>) stubs"
      "total_sessions p = 0" "create_calls_in_progress p = 0" "sessions p = []" "pool_options p = o'"
      "max_pool_size p = max_sessions_per_channel o' * int (length stubs)"
    by (auto simp: MakePool_def split: option.splits if_splits)
  have b: "1 \<le> max_sessions_per_channel o'" "0 \<le> min_sessions o'"
      "min_sessions o' \<le> max_sessions_per_channel o' * int (length stubs)"
    using o by (auto simp: EnforceConstraints_def Let_def split: if_splits)
  have "map session_count (channels p) = replicate (length stubs) 0" by (simp add: p(1) comp_def map_replicate_const)
  moreover have "0 \<le> max_sessions_per_channel o' * int (length stubs)" using b(1) by simp
  ultimately show ?thesis using o(2) p b by (simp add: pool_accounts_def accounts_ok_def sum_list_replicate)
qed

lemma pool_accounts_reachable:
  assumes "(pool_step shuffle)\<^sup>*\<^sup>* (pool_init p) y" "MakePool db stubs opts clock g = Some (Inr p)"
    and "\<forall>g ss. mset (fst (shuffle g ss)) = mset ss"
  shows "pool_accounts (the_pool y) (in_flight y) (held y)"
  using assms(1)
  by (induction rule: rtranclp_induct)
    (use pool_accounts_init [OF assms(2)] pool_accounts_step [OF _ assms(3)] in \<open>auto simp: pool_init_def\<close>)

section \<open>The refresh\<close>

lemma refresh_loop_spec:
  assumes "mono clock" "refresh_loop clock limit ss b k = (calls, ss', b', k')" "b \<le> clock k" "limit < b"
  shows "calls = map (\<lambda>s. (session_channel s, session_name s)) (filter (\<lambda>s. last_use_time s \<le> limit) ss) \<and>
    map session_name ss' = map session_name ss \<and> b' \<le> b \<and> k \<le> k' \<and>
    (\<forall>s \<in> set ss'. limit < last_use_time s \<and> b' \<le> last_use_time s)"
  using assms(2-4)
proof (induction ss arbitrary: b k calls ss' b' k')
  case Nil
  then show ?case by simp
next
  case (Cons s ss)
  show ?case
  proof (cases "last_use_time s \<le> limit")
    case True
    then obtain cs xs where r: "refresh_loop clock limit ss b (k + 1) = (cs, xs, b', k')"
        "calls = (session_channel s, session_name s) # cs" "ss' = s\<lparr>last_use_time := clock k\<rparr> # xs"
      using Cons.prems(1) by (auto simp: Let_def split: prod.splits)
    have m: "b \<le> clock (k + 1)" using Cons.prems(2) monoD [OF assms(1), of k "k + 1"] by simp
    from Cons.IH [OF r(1) m Cons.prems(3)] show ?thesis using r True Cons.prems by auto
  next
    case False
    define b1 where "b1 = (if last_use_time s < b then last_use_time s else b)"
    from False obtain xs where r: "refresh_loop clock limit ss b1 k = (calls, xs, b', k')" "ss' = s # xs"
      using Cons.prems(1) by (auto simp: Let_def b1_def split: prod.splits)
    have m: "b1 \<le> clock k" "limit < b1" "b1 \<le> b" "b1 \<le> last_use_time s"
      using Cons.prems(2,3) False by (auto simp: b1_def)
    from Cons.IH [OF r(1) m(1,2)] show ?thesis using r(2) False m(3,4) by auto
  qed
qed

text \<open>The lower bound is one, as the comment on it says.\<close>

definition bound_ok :: "('s, 'g) session_pool \<Rightarrow> bool" where
  "bound_ok p \<longleftrightarrow> mono (pool_clock p) \<and> 0 < keep_alive_interval (pool_options p) \<and>
     last_use_time_lower_bound p \<le> pool_clock p (clock_reads p) \<and>
     (\<forall>s \<in> set (sessions p). last_use_time_lower_bound p \<le> last_use_time s)"

lemma refresh_spec:
  assumes "bound_ok p" "RefreshExpiringSessions p = (calls, p')"
  defines "limit \<equiv> pool_clock p (clock_reads p) - keep_alive_interval (pool_options p)"
  shows "calls = map (\<lambda>s. (session_channel s, session_name s))
      (filter (\<lambda>s. last_use_time s \<le> limit) (sessions p)) \<and>
    map session_name (sessions p') = map session_name (sessions p) \<and>
    (\<forall>s \<in> set (sessions p'). limit < last_use_time s) \<and> bound_ok p'"
proof -
  have clk: "pool_clock p k \<le> pool_clock p k'" if "k \<le> k'" for k k'
    using assms(1) that by (auto simp: bound_ok_def dest: monoD)
  show ?thesis
  proof (cases "last_use_time_lower_bound p \<le> limit")
    case True
    obtain ss b k where r: "refresh_loop (pool_clock p) limit (sessions p)
        (pool_clock p (clock_reads p)) (clock_reads p + 1) = (calls, ss, b, k)"
      and p': "p' = p\<lparr>sessions := ss, last_use_time_lower_bound := b, clock_reads := k\<rparr>"
      using assms(2) True
      by (auto simp: RefreshExpiringSessions_def Now_def limit_def Let_def split: prod.splits)
    have l: "limit < pool_clock p (clock_reads p)" using assms(1) by (simp add: bound_ok_def limit_def)
    have "mono (pool_clock p)" using assms(1) by (simp add: bound_ok_def)
    from refresh_loop_spec [OF this r clk l]
    have s: "calls = map (\<lambda>s. (session_channel s, session_name s))
        (filter (\<lambda>s. last_use_time s \<le> limit) (sessions p)) \<and>
      map session_name ss = map session_name (sessions p) \<and> b \<le> pool_clock p (clock_reads p) \<and>
      clock_reads p + 1 \<le> k \<and> (\<forall>s \<in> set ss. limit < last_use_time s \<and> b \<le> last_use_time s)"
      by simp
    moreover have "b \<le> pool_clock p k" using s clk [of "clock_reads p" k] by linarith
    ultimately show ?thesis using assms(1) by (auto simp: p' bound_ok_def)
  next
    case False
    then have "calls = []" "p' = p\<lparr>clock_reads := clock_reads p + 1\<rparr>"
      using assms(2) by (auto simp: RefreshExpiringSessions_def Now_def limit_def)
    moreover have "limit < last_use_time s" if "s \<in> set (sessions p)" for s
      using assms(1) that False by (force simp: bound_ok_def)
    then have "filter (\<lambda>s. last_use_time s \<le> limit) (sessions p) = []"
      by (auto simp: filter_empty_conv not_le)
    moreover have "last_use_time_lower_bound p \<le> pool_clock p (clock_reads p + 1)"
      using assms(1) clk [of "clock_reads p" "clock_reads p + 1"] by (simp add: bound_ok_def)
    ultimately show ?thesis using assms(1) \<open>\<And>s. s \<in> set (sessions p) \<Longrightarrow> limit < last_use_time s\<close>
      by (auto simp: bound_ok_def)
  qed
qed

lemma bound_ok_later:
  assumes "bound_ok p" "clock_reads p \<le> k" "set ss \<subseteq> set (sessions p) \<union> new"
    and "\<forall>s \<in> new. \<exists>r \<ge> clock_reads p. last_use_time s = pool_clock p r"
    and "pool_clock p' = pool_clock p" "pool_options p' = pool_options p" "clock_reads p' = k"
    "sessions p' = ss" "last_use_time_lower_bound p' = last_use_time_lower_bound p"
  shows "bound_ok p'"
proof -
  have m: "last_use_time_lower_bound p \<le> pool_clock p r" if "clock_reads p \<le> r" for r
    using assms(1) that by (auto simp: bound_ok_def dest: monoD order_trans)
  have "last_use_time_lower_bound p \<le> last_use_time s" if "s \<in> set ss" for s
  proof (cases "s \<in> new")
    case True
    then obtain r where "r \<ge> clock_reads p" "last_use_time s = pool_clock p r" using assms(4) by blast
    with m show ?thesis by simp
  next
    case False
    then show ?thesis using assms(1,3) that by (auto simp: bound_ok_def)
  qed
  then show ?thesis using assms m [OF assms(2)] by (simp add: bound_ok_def)
qed

lemma forget_session_fields [simp]:
  "pool_clock (forget_session s p) = pool_clock p" "pool_options (forget_session s p) = pool_options p"
  "clock_reads (forget_session s p) = clock_reads p" "sessions (forget_session s p) = sessions p"
  "last_use_time_lower_bound (forget_session s p) = last_use_time_lower_bound p"
  "create_calls_in_progress (forget_session s p) = create_calls_in_progress p"
  "max_pool_size (forget_session s p) = max_pool_size p"
  "total_sessions (forget_session s p) = total_sessions p - 1"
  by (simp_all add: forget_session_def)

lemma bound_ok_same:
  assumes "bound_ok p" "set (sessions p') \<subseteq> set (sessions p)" "pool_clock p' = pool_clock p"
    "pool_options p' = pool_options p" "clock_reads p' = clock_reads p"
    "last_use_time_lower_bound p' = last_use_time_lower_bound p"
  shows "bound_ok p'"
  by (rule bound_ok_later [of p "clock_reads p" "sessions p'" "{}"]) (use assms in auto)

lemma Grow_start_fields:
  assumes "Grow_start n p = Inr (ops, p')"
  shows "p' = p\<lparr>create_calls_in_progress := create_calls_in_progress p + int (length ops)\<rparr>"
  using assms by (auto simp: Grow_start_def split: sum.splits)

lemma bound_ok_step:
  assumes "pool_step shuffle y z" "\<forall>g ss. mset (fst (shuffle g ss)) = mset ss"
    and "bound_ok (the_pool y)" "pool_accounts (the_pool y) (in_flight y) (held y)"
  shows "bound_ok (the_pool z)"
  using assms
proof (induction rule: pool_step.induct)
  case (take d p h p' fl hs)
  have "set (butlast (sessions p)) \<subseteq> set (sessions p)" by (auto dest: in_set_butlastD)
  then have "bound_ok p'"
    using take.prems(2) Allocate_turn_cases(1) [OF take.hyps]
    by (intro bound_ok_same [of p p']) auto
  then show ?case by simp
next
  case (wait d p a p' fl hs)
  then show ?case using Allocate_turn_cases(3) [of d p p'] by (auto intro: bound_ok_same [of p])
next
  case (grow d p n p1 ops p' fl hs)
  then show ?case using Allocate_turn_cases(2) [of d p n p1] Grow_start_fields [of n p1 ops p']
    by (auto intro: bound_ok_same [of p])
next
  case (initialize p ops p' fl hs)
  then show ?case using Grow_start_fields [OF initialize.hyps(2)] by (auto intro: bound_ok_same [of p])
next
  case (arrive c response p st p' n fl fl' hs)
  show ?case
  proof (cases response)
    case (Inl e)
    then show ?thesis using arrive.hyps(1) arrive.prems(2)
      by (auto simp: HandleBatchCreateSessionsDone_def intro: bound_ok_same [of p])
  next
    case (Inr names)
    let ?p = "p\<lparr>create_calls_in_progress := create_calls_in_progress p - 1,
      channels := update_count (\<lambda>n. n + int (length names)) c (channels p),
      total_sessions := total_sessions p + int (length names)\<rparr>"
    obtain ss k where ss: "add_sessions c names ?p = ?p\<lparr>sessions := sessions ?p @ ss, clock_reads := k\<rparr>"
        "clock_reads ?p \<le> k" "\<forall>s \<in> set ss. \<exists>r \<ge> clock_reads ?p. r < k \<and> last_use_time s = pool_clock ?p r"
      using add_sessions_facts [of c names ?p] by blast
    obtain xs g where x: "shuffle (random_generator p) (sessions p @ ss) = (xs, g)" by fastforce
    have "mset xs = mset (sessions p @ ss)"
      using arrive.prems(1) [rule_format, of "random_generator p" "sessions p @ ss"] x by simp
    then have xs: "set xs = set (sessions p) \<union> set ss" by (metis set_mset_mset set_append)
    have p': "p' = (?p\<lparr>sessions := sessions ?p @ ss, clock_reads := k\<rparr>)\<lparr>sessions := xs, random_generator := g\<rparr>"
      using arrive.hyps(1) Inr ss(1) x by (simp add: HandleBatchCreateSessionsDone_def Let_def)
    show ?thesis
      by (rule bound_ok_later [of p k xs "set ss"]) (use arrive.prems(2) ss(2,3) xs p' in auto)
  qed
next
  case (release p fl hs s hs' bad)
  show ?case
  proof (cases "is_bad s \<or> bad")
    case True
    then show ?thesis using release.prems(2)
      by (auto simp: Release_def intro: bound_ok_same [of p])
  next
    case False
    let ?s = "s\<lparr>is_bad := False, last_use_time := pool_clock p (clock_reads p)\<rparr>"
    show ?thesis
      by (rule bound_ok_later [of p "clock_reads p + 1" "sessions p @ [?s]" "{?s}"])
        (use release.prems(2) False in \<open>auto simp: Release_def Now_def\<close>)
  qed
next
  case (stub s p x p' fl hs)
  then show ?case by (auto simp: GetStub_def Let_def intro: bound_ok_same [of p] split: option.splits)
next
  case (background p creations calls p' fl hs)
  have "MaintainPoolSize p = (p, [])"
    by (rule MaintainPoolSize_none)
      (use background.prems(3) pool_accounts_counted in \<open>auto simp: pool_accounts_def\<close>)
  then obtain q where q: "RefreshExpiringSessions p = (calls, q)" "p' = ScheduleBackgroundWork 5 q"
    using background.hyps by (auto simp: DoBackgroundWork_def split: prod.splits)
  from refresh_spec [OF _ q(1)] background.prems(2) have "bound_ok q" by simp
  then show ?case using q(2) by (auto simp: ScheduleBackgroundWork_def intro: bound_ok_same [of q])
qed (auto intro: bound_ok_same)

lemma bound_ok_reachable:
  assumes "(pool_step shuffle)\<^sup>*\<^sup>* (pool_init p) y" "MakePool db stubs opts clock g = Some (Inr p)"
    and "\<forall>g ss. mset (fst (shuffle g ss)) = mset ss" "mono clock" "0 < keep_alive_interval opts"
  shows "bound_ok (the_pool y)"
  using assms(1)
proof (induction rule: rtranclp_induct)
  case base
  have "clock 0 \<le> clock 1" using assms(4) by (auto dest: monoD)
  then show ?case
    using assms(2,4,5)
    by (auto simp: pool_init_def bound_ok_def MakePool_def EnforceConstraints_def Let_def
        split: option.splits if_splits)
next
  case (step y z)
  then show ?case
    using bound_ok_step [OF step.hyps(2) assms(3)] pool_accounts_reachable [OF step.hyps(1) assms(2,3)]
    by blast
qed

section \<open>Growing while a caller waits\<close>

text \<open>The service answers every request with the number of sessions it was asked for.\<close>

definition generous :: "('s \<Rightarrow> batch_create_request \<Rightarrow> 'w \<Rightarrow> string list status_or \<times> 'w) \<Rightarrow> bool" where
  "generous create \<longleftrightarrow> (\<forall>stub req w. \<exists>names w'. create stub req w = (Inr names, w') \<and>
     int (length names) = max 0 (request_session_count req))"

lemma RetryLoop_first_success:
  "\<not> IsExhausted (re_policy env) p \<Longrightarrow> f req w = (Inr x, w') \<Longrightarrow>
   RetryLoop env p b i f req loc w = Some (Inr x, w')"
  by (simp add: RetryLoop_def RetryLoop_while.simps)

lemma CreateSessionsSync_generous:
  assumes "generous (pe_create env)" "\<not> IsExhausted (re_policy (pe_retry env)) (pe_policy env)"
    and "\<forall>g ss. mset (fst (pe_shuffle env g ss)) = mset ss" "0 \<le> n"
  shows "\<exists>p' w'. CreateSessionsSync env c n p w = Some (ok_status, p', w') \<and>
    total_sessions p' = total_sessions p + n \<and> int (length (sessions p')) = int (length (sessions p)) + n \<and>
    max_pool_size p' = max_pool_size p"
proof -
  obtain names w' where c: "pe_create env (channel_stub (channels p ! c)) (batch_request p n) w = (Inr names, w')"
      "int (length names) = n"
    using assms(1,4) unfolding generous_def by (metis batch_request_def batch_create_request.select_convs(3) max.absorb2)
  let ?p = "p\<lparr>create_calls_in_progress := create_calls_in_progress p - 1,
    channels := update_count (\<lambda>m. m + int (length names)) c (channels p),
    total_sessions := total_sessions p + int (length names)\<rparr>"
  obtain ss k where ss: "add_sessions c names ?p = ?p\<lparr>sessions := sessions ?p @ ss, clock_reads := k\<rparr>"
      "map session_name ss = names"
    using add_sessions_facts [of c names ?p] by blast
  obtain xs g where x: "pe_shuffle env (random_generator p) (sessions p @ ss) = (xs, g)" by fastforce
  have "mset xs = mset (sessions p @ ss)"
    using assms(3) [rule_format, of "random_generator p" "sessions p @ ss"] x by simp
  then have "length xs = length (sessions p @ ss)" by (metis size_mset)
  moreover have "length ss = length names" using ss(2) by auto
  ultimately show ?thesis
    using RetryLoop_first_success [of "pe_retry env" "pe_policy env"
        "pe_create env (channel_stub (channels p ! c))", OF assms(2) c(1)] c(2) ss(1) x
    by (auto simp: CreateSessionsSync_def HandleBatchCreateSessionsDone_def Let_def)
qed

lemma CreateSessions_wait_generous:
  assumes "generous (pe_create env)" "\<not> IsExhausted (re_policy (pe_retry env)) (pe_policy env)"
    and "\<forall>g ss. mset (fst (pe_shuffle env g ss)) = mset ss" "\<forall>(i, m) \<in> set ops. 0 < m"
  shows "\<exists>p' w'. CreateSessions_wait env ops ok_status p w = Some (ok_status, p', w') \<and>
    total_sessions p' = total_sessions p + sum_list (map snd ops) \<and>
    int (length (sessions p')) = int (length (sessions p)) + sum_list (map snd ops) \<and>
    max_pool_size p' = max_pool_size p"
  using assms(4)
proof (induction ops arbitrary: p w)
  case Nil
  then show ?case by simp
next
  case (Cons op ops)
  obtain c n where op: "op = (c, n)" "0 \<le> n" using Cons.prems by (cases op) auto
  obtain p1 w1 where 1: "CreateSessionsSync env c n p w = Some (ok_status, p1, w1)"
      "total_sessions p1 = total_sessions p + n" "int (length (sessions p1)) = int (length (sessions p)) + n"
      "max_pool_size p1 = max_pool_size p"
    using CreateSessionsSync_generous [OF assms(1-3) op(2)] by blast
  obtain p2 w2 where 2: "CreateSessions_wait env ops ok_status p1 w1 = Some (ok_status, p2, w2)"
      "total_sessions p2 = total_sessions p1 + sum_list (map snd ops)"
      "int (length (sessions p2)) = int (length (sessions p1)) + sum_list (map snd ops)"
      "max_pool_size p2 = max_pool_size p1"
    using Cons.IH [of p1 w1] Cons.prems by auto
  show ?case using 1 2 op by (auto simp: status_ok_def)
qed

section \<open>Properties\<close>

text \<open>
  C3: The accounts of the pool are right in every state that concurrent callers, responses, releases
  and the background work can reach: the number of sessions is that of the sessions in the pool and
  with callers; with the sessions asked for it never exceeds the maximum of the pool, nor on any
  channel that of a channel; and the count of a channel is the number of its sessions.
\<close>

theorem session_accounting:
  assumes "MakePool db stubs opts clock g = Some (Inr p)"
    and "\<forall>g ss. mset (fst (shuffle g ss)) = mset ss"
    and "(pool_step shuffle)\<^sup>*\<^sup>* (pool_init p) y"
  shows "total_sessions (the_pool y) = int (length (sessions (the_pool y) @ held y)) \<and>
    total_sessions (the_pool y) + sum_list (map snd (in_flight y)) \<le> max_pool_size (the_pool y) \<and>
    create_calls_in_progress (the_pool y) = int (length (in_flight y)) \<and>
    (\<forall>i < length (channels (the_pool y)).
       session_count (channels (the_pool y) ! i) =
         int (length (filter (\<lambda>s. session_channel s = Some i) (sessions (the_pool y) @ held y))) \<and>
       session_count (channels (the_pool y) ! i) + requested (in_flight y) i
         \<le> max_sessions_per_channel (pool_options (the_pool y)))"
proof -
  have a: "pool_accounts (the_pool y) (in_flight y) (held y)"
    by (rule pool_accounts_reachable [OF assms(3,1,2)])
  let ?ss = "sessions (the_pool y) @ held y"
  have m: "count (mset (map session_channel xs)) (Some i) =
      length (filter (\<lambda>s. session_channel s = Some i) xs)" for xs i
    by (induction xs) auto
  from a have ok: "accounts_ok (max_sessions_per_channel (pool_options (the_pool y)))
      (map session_count (channels (the_pool y))) (total_sessions (the_pool y))
      (create_calls_in_progress (the_pool y)) (mset (map session_channel ?ss)) (in_flight y)"
    by (simp only: pool_accounts_def)
  have "total_sessions (the_pool y) = int (length ?ss)"
    using accounts_total [OF ok] by (simp only: size_mset length_map)
  moreover have "session_count (channels (the_pool y) ! i) =
        int (length (filter (\<lambda>s. session_channel s = Some i) ?ss))"
    if "i < length (channels (the_pool y))" for i
    using ok that m [of ?ss i] by (simp add: accounts_ok_def del: map_append mset_map)
  moreover have "session_count (channels (the_pool y) ! i) + requested (in_flight y) i
        \<le> max_sessions_per_channel (pool_options (the_pool y))"
    if "i < length (channels (the_pool y))" for i
  proof -
    from ok have "\<forall>i < length (map session_count (channels (the_pool y))).
        map session_count (channels (the_pool y)) ! i + requested (in_flight y) i
          \<le> max_sessions_per_channel (pool_options (the_pool y))"
      unfolding accounts_ok_def by blast
    with that show ?thesis by simp
  qed
  moreover have "total_sessions (the_pool y) + sum_list (map snd (in_flight y)) \<le> max_pool_size (the_pool y)"
    "create_calls_in_progress (the_pool y) = int (length (in_flight y))"
    using a by (simp_all add: pool_accounts_def accounts_ok_def)
  ultimately show ?thesis by blast
qed

text \<open>
  A pool of two channels, a service that names its sessions by their number, and a shuffle that
  leaves the order.
\<close>

definition demo_options :: session_pool_options where
  "demo_options = \<lparr>min_sessions = 2, max_sessions_per_channel = 2, max_idle_sessions = 0,
     action_on_exhaustion = kFail, keep_alive_interval = 55, option_labels = []\<rparr>"

definition demo_pool :: "(string, unit) session_pool" where
  "demo_pool =
     \<lparr>pool_db = ''db'', pool_options = demo_options, max_pool_size = 4, pool_clock = int,
      clock_reads = 1, random_generator = (), sessions = [], total_sessions = 0,
      create_calls_in_progress = 0, num_waiting_for_session = 0, last_use_time_lower_bound = 0,
      current_timer = None,
      channels = [\<lparr>channel_stub = ''a'', session_count = 0\<rparr>, \<lparr>channel_stub = ''b'', session_count = 0\<rparr>],
      next_dissociated_stub_channel = 0\<rparr>"

lemma demo_pool_made: "MakePool ''db'' [''a'', ''b''] demo_options int () = Some (Inr demo_pool)"
  by (simp add: MakePool_def EnforceConstraints_def demo_options_def demo_pool_def in_int32_def)

lemma demo_grow: "Grow_start 2 demo_pool =
    Inr ([(0, 1), (1, 1)], demo_pool\<lparr>create_calls_in_progress := 2\<rparr>)"
  by (simp add: Grow_start_def ComputeCreateCounts_def demo_pool_def channels_by_count_def
      signed_divide_int_def sgn_if numeral_2_eq_2)

theorem session_accounting_witness:
  "\<exists>y. (pool_step (\<lambda>g ss. (ss, g)))\<^sup>*\<^sup>* (pool_init demo_pool) y \<and>
     create_calls_in_progress (the_pool y) = 2 \<and> length (in_flight y) = 2"
proof -
  let ?y = "\<lparr>the_pool = demo_pool\<lparr>create_calls_in_progress := 2\<rparr>,
    in_flight = [] @ [(0, 1), (1, 1)], held = []\<rparr>"
  have "pool_step (\<lambda>g ss. (ss, g)) (pool_init demo_pool) ?y"
    unfolding pool_init_def
    by (rule pool_step.initialize) (use demo_grow in \<open>simp_all add: demo_pool_def demo_options_def\<close>)
  then have r: "(pool_step (\<lambda>g ss. (ss, g)))\<^sup>*\<^sup>* (pool_init demo_pool) ?y" by blast
  then show ?thesis using session_accounting [OF demo_pool_made _ r] by auto
qed

text \<open>
  C24: When a pool grows by a number of sessions, exactly that many are requested, or as many as the
  maximum allows. Each request is for a channel of the pool and for at least one session, and a channel
  that is to grow ends with at most one session more than any other. A channel that has more already is
  left as it is, so the counts may stay unequal: growth never takes a session from a channel.
\<close>

theorem create_counts_level:
  assumes "ComputeCreateCounts p n = Inr ops" "0 \<le> n" "counted p"
  shows "total_sessions p + sum_list (map snd ops) = min (total_sessions p + n) (max_pool_size p) \<and>
    (\<forall>(i, m) \<in> set ops. i < length (channels p) \<and> 0 < m \<and>
       (\<forall>j < length (channels p).
          session_count (channels p ! i) + m \<le> session_count (channels p ! j) + requested ops j + 1))"
  using create_counts_facts [OF assms] by fastforce

theorem create_counts_level_witness:
  "ComputeCreateCounts (demo_pool\<lparr>total_sessions := 1,
       channels := [\<lparr>channel_stub = ''a'', session_count = 1\<rparr>, \<lparr>channel_stub = ''b'', session_count = 0\<rparr>]\<rparr>) 9 =
     Inr [(0, 1), (1, 2)] \<and> requested [(0, 1), (1, 2)] 0 = 1"
proof -
  let ?p = "demo_pool\<lparr>total_sessions := 1,
       channels := [\<lparr>channel_stub = ''a'', session_count = 1\<rparr>, \<lparr>channel_stub = ''b'', session_count = 0\<rparr>]\<rparr>"
  have e: "ComputeCreateCounts ?p 9 = Inr [(0, 1), (1, 2)]"
    by (simp add: ComputeCreateCounts_def demo_pool_def channels_by_count_def
        signed_divide_int_def sgn_if numeral_2_eq_2)
  have "counted ?p" by (simp add: counted_def demo_pool_def)
  from create_counts_level [OF e _ this] show ?thesis using e by simp
qed

text \<open>
  C23: A caller of an empty pool that may still grow gets a session when the service creates what it
  is asked for: one call grows the pool by \<open>min_sessions + 1\<close>, or to its maximum, and takes one of
  the new sessions.
\<close>

theorem allocate_grows:
  assumes "generous (pe_create env)" "\<not> IsExhausted (re_policy (pe_retry env)) (pe_policy env)"
    and "\<forall>g ss. mset (fst (pe_shuffle env g ss)) = mset ss"
    and "counted p" "sessions p = []" "total_sessions p < max_pool_size p"
    and "create_calls_in_progress p = 0" "0 \<le> min_sessions (pool_options p)"
  shows "\<exists>s p' w'. Allocate env dissociate p w = Some (Allocated (MakeSessionHolder s dissociate), p', w') \<and>
    total_sessions p' = min (total_sessions p + min_sessions (pool_options p) + 1) (max_pool_size p)
      - (if dissociate then 1 else 0) \<and>
    int (length (sessions p')) =
      min (min_sessions (pool_options p) + 1) (max_pool_size p - total_sessions p) - 1"
proof -
  let ?n = "min_sessions (pool_options p) + 1"
  obtain ops where ops: "ComputeCreateCounts p ?n = Inr ops"
    using assms(6) by (simp add: ComputeCreateCounts_def)
  note f = create_counts_facts(1,2) [OF ops _ assms(4)]
  let ?p = "p\<lparr>create_calls_in_progress := create_calls_in_progress p + int (length ops)\<rparr>"
  have pos: "\<forall>(i, m) \<in> set ops. 0 < m" using f(1) assms(8) by auto
  obtain q w' where q: "CreateSessions_wait env ops ok_status ?p w = Some (ok_status, q, w')"
      "total_sessions q = total_sessions p + sum_list (map snd ops)"
      "int (length (sessions q)) = sum_list (map snd ops)" "max_pool_size q = max_pool_size p"
    using CreateSessions_wait_generous [OF assms(1-3) pos, of ?p w] assms(5) by auto
  have sum: "total_sessions p + sum_list (map snd ops) = min (total_sessions p + ?n) (max_pool_size p)"
    using f(2) assms(8) by simp
  then have "0 < sum_list (map snd ops)" using assms(6,8) by linarith
  with q(3) have ne: "sessions q \<noteq> []" by auto
  have t1: "Allocate_turn dissociate p = (GrowBy ?n, p)"
    using assms(5-7) by (simp add: Allocate_turn_def)
  have g: "Grow_wait env ?n p w = Some (ok_status, q, w')"
    using q(1) ops by (simp add: Grow_wait_def Grow_start_def)
  let ?s = "last (sessions q)" and ?q = "q\<lparr>sessions := butlast (sessions q)\<rparr>"
  let ?r = "if dissociate then forget_session ?s ?q else ?q"
  have "Allocate_turn dissociate q = (Take (MakeSessionHolder ?s dissociate), ?r)"
    using ne by (simp add: Allocate_turn_def Let_def)
  then have "Allocate env dissociate p w = Some (Allocated (MakeSessionHolder ?s dissociate), ?r, w')"
    using t1 g by (simp add: Allocate.simps [of env dissociate p] Allocate.simps [of env dissociate q] status_ok_def)
  moreover have "total_sessions ?r = total_sessions q - (if dissociate then 1 else 0)" by simp
  moreover have "int (length (sessions ?r)) = int (length (sessions q)) - 1" using ne by (cases "sessions q") auto
  ultimately show ?thesis using q(2,3) sum
    by (intro exI [of _ ?s] exI [of _ ?r] exI [of _ w']) (auto simp: min_def)
qed

definition demo_pool_env :: "(string, unit, nat, int, nat) pool_env" where
  "demo_pool_env =
     \<lparr>pe_retry = \<lparr>re_policy = limited_error_count SafeGrpcRetry_IsPermanentFailure,
        re_backoff = (\<lambda>b. (b, 2 * b)), re_sleeper = (\<lambda>d w. w), re_show = message\<rparr>,
      pe_policy = 3, pe_backoff = 10,
      pe_create = (\<lambda>stub req w. (Inr (replicate (nat (request_session_count req)) (stub @ ''-'')), w + 1)),
      pe_shuffle = (\<lambda>g ss. (ss, g))\<rparr>"

theorem allocate_grows_witness:
  "\<exists>s p' w'. Allocate demo_pool_env False demo_pool 0 = Some (Allocated (Pooled s), p', w') \<and>
     total_sessions p' = 3 \<and> int (length (sessions p')) = 2"
proof -
  have g: "generous (pe_create demo_pool_env)" by (simp add: generous_def demo_pool_env_def)
  have c: "counted demo_pool" by (simp add: counted_def demo_pool_def)
  show ?thesis
    using allocate_grows [OF g _ _ c, of False 0]
    by (simp add: demo_pool_env_def limited_error_count_def MakeSessionHolder_def demo_pool_def demo_options_def)
qed

text \<open>
  The pool hands out the session that was released last, with its last use at the time of the
  release; a session marked bad is not handed out again, and the pool has one session less.
\<close>

theorem release_allocate:
  assumes "pool = Release s p"
  shows "if is_bad s then sessions pool = sessions p \<and> total_sessions pool = total_sessions p - 1
    else Allocate env False pool w =
      Some (Allocated (Pooled (s\<lparr>last_use_time := pool_clock p (clock_reads p)\<rparr>)),
        p\<lparr>clock_reads := clock_reads p + 1\<rparr>, w)"
  using assms
  by (auto simp: Release_def Now_def Allocate.simps Allocate_turn_def Let_def MakeSessionHolder_def)

theorem release_allocate_witness:
  "Allocate demo_pool_env False (Release \<lparr>session_name = ''s'', session_channel = Some 0, is_bad = False,
       last_use_time = 0\<rparr> demo_pool) 0 =
     Some (Allocated (Pooled \<lparr>session_name = ''s'', session_channel = Some 0, is_bad = False,
       last_use_time = 1\<rparr>), demo_pool\<lparr>clock_reads := 2\<rparr>, 0)"
  using release_allocate [OF refl, of "\<lparr>session_name = ''s'', session_channel = Some 0, is_bad = False,
       last_use_time = 0\<rparr>" demo_pool demo_pool_env 0]
  by (simp add: demo_pool_def numeral_2_eq_2)

text \<open>
  C29: In every state the pool can reach under a clock that does not go back, the refresh asks the
  service about exactly the sessions that were not used within the keep-alive interval, although it
  scans them only when the lower bound it keeps has passed; afterwards every session of the pool,
  the same ones, was used within the interval.
\<close>

theorem refresh_exact:
  assumes "MakePool db stubs opts clock g = Some (Inr p)"
    and "\<forall>g ss. mset (fst (shuffle g ss)) = mset ss"
    and "(pool_step shuffle)\<^sup>*\<^sup>* (pool_init p) y" "mono clock" "0 < keep_alive_interval opts"
    and "RefreshExpiringSessions (the_pool y) = (calls, pool)"
    and "limit = pool_clock (the_pool y) (clock_reads (the_pool y)) -
      keep_alive_interval (pool_options (the_pool y))"
  shows "calls = map (\<lambda>s. (session_channel s, session_name s))
      (filter (\<lambda>s. last_use_time s \<le> limit) (sessions (the_pool y))) \<and>
    map session_name (sessions pool) = map session_name (sessions (the_pool y)) \<and>
    (\<forall>s \<in> set (sessions pool). limit < last_use_time s)"
  using refresh_spec [OF bound_ok_reachable [OF assms(3,1,2,4,5)] assms(6)] assms(7) by simp

theorem refresh_exact_witness:
  "RefreshExpiringSessions demo_pool = ([], demo_pool\<lparr>clock_reads := 2\<rparr>)"
proof -
  have r: "(pool_step (\<lambda>g ss. (ss, g)))\<^sup>*\<^sup>* (pool_init demo_pool) (pool_init demo_pool)" by simp
  have m: "mono int" by (simp add: mono_def)
  have k: "0 < keep_alive_interval demo_options" by (simp add: demo_options_def)
  have t: "the_pool (pool_init demo_pool) = demo_pool" by (simp add: pool_init_def)
  obtain calls pool where e: "RefreshExpiringSessions demo_pool = (calls, pool)" by fastforce
  have "calls = []"
    using refresh_exact [OF demo_pool_made _ r m k, unfolded t, OF _ e refl]
    by (simp add: demo_pool_def)
  moreover have "pool = demo_pool\<lparr>clock_reads := 2\<rparr>"
    using e by (simp add: RefreshExpiringSessions_def Now_def demo_pool_def demo_options_def numeral_2_eq_2)
  ultimately show ?thesis using e by simp
qed

text \<open>
  \<open>MaintainPoolSize\<close> never creates a session: in every state that can be reached it changes
  nothing and starts no call, even when the pool has fewer sessions than its minimum, because the
  number it passes on is negative there.
\<close>

theorem maintain_pool_size_idle:
  assumes "MakePool db stubs opts clock g = Some (Inr p)"
    and "\<forall>g ss. mset (fst (shuffle g ss)) = mset ss"
    and "(pool_step shuffle)\<^sup>*\<^sup>* (pool_init p) y"
  shows "MaintainPoolSize (the_pool y) = (the_pool y, [])"
  using pool_accounts_reachable [OF assms(3,1,2)]
  by (intro MaintainPoolSize_none) (auto intro: pool_accounts_counted simp: pool_accounts_def)

theorem maintain_pool_size_idle_witness:
  "MaintainPoolSize demo_pool = (demo_pool, []) \<and> total_sessions demo_pool = 0 \<and>
   min_sessions (pool_options demo_pool) = 2"
proof -
  have "(pool_step (\<lambda>g ss. (ss, g)))\<^sup>*\<^sup>* (pool_init demo_pool) (pool_init demo_pool)" by simp
  from maintain_pool_size_idle [OF demo_pool_made _ this] show ?thesis
    by (simp add: pool_init_def demo_pool_def demo_options_def)
qed

text \<open>
  Calls for sessions without a channel take the stubs in turn: the \<open>k\<close>-th one gets the stub of
  the \<open>k\<close>-th channel after the first, around the end of the list.
\<close>

theorem get_stub_round_robin:
  assumes "session_channel s = None" "next_dissociated_stub_channel p < length (channels p)"
  shows "fst (GetStub s (((\<lambda>p. snd (GetStub s p)) ^^ k) p)) =
    channel_stub (channels p ! ((next_dissociated_stub_channel p + k) mod length (channels p)))"
proof -
  have "((\<lambda>p. snd (GetStub s p)) ^^ k) p = p\<lparr>next_dissociated_stub_channel :=
      (next_dissociated_stub_channel p + k) mod length (channels p)\<rparr>"
  proof (induction k)
    case 0
    then show ?case using assms(2) by simp
  next
    case (Suc k)
    show ?case
      unfolding funpow.simps comp_apply Suc.IH
      using assms by (simp add: GetStub_def Let_def mod_Suc)
  qed
  then show ?thesis using assms(1) by (simp add: GetStub_def Let_def)
qed

theorem get_stub_round_robin_witness:
  "fst (GetStub \<lparr>session_name = ''s'', session_channel = None, is_bad = False, last_use_time = 0\<rparr>
     (((\<lambda>p. snd (GetStub \<lparr>session_name = ''s'', session_channel = None, is_bad = False, last_use_time = 0\<rparr> p)) ^^ 3)
       demo_pool)) = ''b''"
  by (subst get_stub_round_robin) (simp_all add: demo_pool_def numeral_2_eq_2 [symmetric])

end
