(* ===== verification/Values.thy ===== *)
theory Values
  imports Result_Stream Timestamps Dates Base64
begin

text \<open>
  \<open>value.cc\<close> and \<open>value.h\<close>: a \<open>Value\<close> is a Spanner type with a protobuf value. The overloads and
  templates over C++ types are functions over a datatype of those types; a double is its 64-bit
  pattern. \<open>None\<close> is undefined behaviour (an index out of range) or an exception.
\<close>

section \<open>C++ types and values\<close>

text \<open>An element of a tuple is a \<open>std::pair<std::string, T>\<close> when its flag is set.\<close>

datatype ctype =
    CBool | CInt64 | CDouble | CString | CBytes | CTimestamp | CCommitTimestamp | CDate
  | COptional ctype | CVector ctype | CTuple "(bool \<times> ctype) list"

datatype cval =
    VBool bool | VInt64 int | VDouble "64 word" | VString string | VBytes bytes
  | VTimestamp timestamp | VCommitTimestamp | VDate date
  | VOptional "cval option" | VVector "cval list" | VTuple "(string option \<times> cval) list"

text \<open>\<open>T{}\<close>.\<close>

fun default_cval :: "ctype \<Rightarrow> cval"
  and default_fields :: "(bool \<times> ctype) list \<Rightarrow> (string option \<times> cval) list" where
  "default_cval CBool = VBool False"
| "default_cval CInt64 = VInt64 0"
| "default_cval CDouble = VDouble 0"
| "default_cval CString = VString []"
| "default_cval CBytes = VBytes (Bytes [])"
| "default_cval CTimestamp = VTimestamp (Timestamp 0 0)"
| "default_cval CCommitTimestamp = VCommitTimestamp"
| "default_cval CDate = VDate (Date 1970 1 1)"
| "default_cval (COptional t) = VOptional None"
| "default_cval (CVector t) = VVector []"
| "default_cval (CTuple ts) = VTuple (default_fields ts)"
| "default_fields [] = []"
| "default_fields ((named, t) # ts) =
     ((if named then Some [] else None), default_cval t) # default_fields ts"

section \<open>Types\<close>

text \<open>\<open>Type.code()\<close>, with the numbers of \<open>TypeCode\<close>, and the accessors of a \<open>Type\<close> message.\<close>

fun type_code :: "ptype \<Rightarrow> nat" where
  "type_code TYPE_CODE_UNSPECIFIED = 0"
| "type_code TBool = 1"
| "type_code TInt64 = 2"
| "type_code TFloat64 = 3"
| "type_code TTimestamp = 4"
| "type_code TDate = 5"
| "type_code TString = 6"
| "type_code TBytes = 7"
| "type_code (TArray _) = 8"
| "type_code (TStruct _) = 9"

fun array_element_type :: "ptype \<Rightarrow> ptype" where
  "array_element_type (TArray t) = t"
| "array_element_type _ = TYPE_CODE_UNSPECIFIED"

fun struct_fields :: "ptype \<Rightarrow> (string \<times> ptype) list" where
  "struct_fields (TStruct fs) = fs"
| "struct_fields _ = []"

fun TypeProtoIs :: "ctype \<Rightarrow> ptype \<Rightarrow> bool"
  and IsStructTypeProto :: "(bool \<times> ctype) list \<Rightarrow> (string \<times> ptype) list \<Rightarrow> bool" where
  "TypeProtoIs CBool type = (type_code type = type_code TBool)"
| "TypeProtoIs CInt64 type = (type_code type = type_code TInt64)"
| "TypeProtoIs CDouble type = (type_code type = type_code TFloat64)"
| "TypeProtoIs CTimestamp type = (type_code type = type_code TTimestamp)"
| "TypeProtoIs CCommitTimestamp type = (type_code type = type_code TTimestamp)"
| "TypeProtoIs CDate type = (type_code type = type_code TDate)"
| "TypeProtoIs CString type = (type_code type = type_code TString)"
| "TypeProtoIs CBytes type = (type_code type = type_code TBytes)"
| "TypeProtoIs (COptional t) type = TypeProtoIs t type"
| "TypeProtoIs (CVector t) type =
     (type_code type = type_code (TArray TBool) \<and> TypeProtoIs t (array_element_type type))"
| "TypeProtoIs (CTuple ts) type =
     (type_code type = type_code (TStruct []) \<and> length (struct_fields type) = length ts \<and>
      IsStructTypeProto ts (struct_fields type))"
| "IsStructTypeProto [] flds = True"
| "IsStructTypeProto ((_, t) # ts) flds =
     (case flds of [] \<Rightarrow> False
      | field # flds \<Rightarrow> TypeProtoIs t (snd field) \<and> IsStructTypeProto ts flds)"

text \<open>
  The type of a value: an array has the type of its first element, and elements of another type
  are an exception. \<open>AddStructTypes\<close> adds a field for each element of a tuple.
\<close>

fun MakeTypeProto :: "ctype \<Rightarrow> cval \<Rightarrow> ptype option"
  and AddStructTypes ::
    "(bool \<times> ctype) list \<Rightarrow> (string option \<times> cval) list \<Rightarrow> (string \<times> ptype) list option" where
  "MakeTypeProto CBool _ = Some TBool"
| "MakeTypeProto CInt64 _ = Some TInt64"
| "MakeTypeProto CDouble _ = Some TFloat64"
| "MakeTypeProto CString _ = Some TString"
| "MakeTypeProto CBytes _ = Some TBytes"
| "MakeTypeProto CTimestamp _ = Some TTimestamp"
| "MakeTypeProto CCommitTimestamp _ = Some TTimestamp"
| "MakeTypeProto CDate _ = Some TDate"
| "MakeTypeProto (COptional t) _ = MakeTypeProto t (default_cval t)"
| "MakeTypeProto (CVector t) (VVector vs) =
     (let element = MakeTypeProto t (if vs = [] then default_cval t else hd vs)
      in if list_all (\<lambda>e. MakeTypeProto t e = element) vs then map_option TArray element else None)"
| "MakeTypeProto (CVector t) _ = None"
| "MakeTypeProto (CTuple ts) (VTuple es) = map_option TStruct (AddStructTypes ts es)"
| "MakeTypeProto (CTuple ts) _ = None"
| "AddStructTypes [] es = Some []"
| "AddStructTypes ((_, t) # ts) es =
     (case es of [] \<Rightarrow> None
      | (name, e) # es \<Rightarrow>
          Option.bind (MakeTypeProto t e) (\<lambda>type.
          Option.bind (AddStructTypes ts es) (\<lambda>flds.
            Some ((case name of None \<Rightarrow> [] | Some n \<Rightarrow> n, type) # flds))))"

section \<open>Encoding the scalar types\<close>

text \<open>The accessors of a \<open>protobuf::Value\<close> give a default when it holds something else.\<close>

fun bool_value :: "pvalue \<Rightarrow> bool" where
  "bool_value (PBool b) = b" | "bool_value _ = False"

fun string_value_of :: "pvalue \<Rightarrow> string" where
  "string_value_of (PString s) = s" | "string_value_of _ = []"

fun number_value :: "pvalue \<Rightarrow> 64 word" where
  "number_value (PNumber d) = d" | "number_value _ = 0"

fun list_value :: "pvalue \<Rightarrow> pvalue list" where
  "list_value (PList vs) = vs" | "list_value _ = []"

text \<open>IEEE 754 binary64: \<open>isinf\<close>, \<open>isnan\<close>, \<open>==\<close>.\<close>

definition plus_inf :: "64 word" where "plus_inf = 0x7FF0000000000000"
definition minus_inf :: "64 word" where "minus_inf = 0xFFF0000000000000"
definition quiet_nan :: "64 word" where "quiet_nan = 0x7FF8000000000000"
definition minus_zero :: "64 word" where "minus_zero = 0x8000000000000000"

definition is_inf :: "64 word \<Rightarrow> bool" where
  "is_inf d \<longleftrightarrow> d = plus_inf \<or> d = minus_inf"

definition is_nan :: "64 word \<Rightarrow> bool" where
  "is_nan d \<longleftrightarrow> and d plus_inf = plus_inf \<and> \<not> is_inf d"

definition double_eq :: "64 word \<Rightarrow> 64 word \<Rightarrow> bool" where
  "double_eq a b \<longleftrightarrow> \<not> is_nan a \<and> \<not> is_nan b \<and> (a = b \<or> {a, b} = {0, minus_zero})"

definition MakeValueProto_bool :: "bool \<Rightarrow> pvalue option" where
  "MakeValueProto_bool b = Some (PBool b)"

definition MakeValueProto_int64 :: "int \<Rightarrow> pvalue option" where
  "MakeValueProto_int64 i = Some (PString (to_string i))"

definition MakeValueProto_double :: "64 word \<Rightarrow> pvalue option" where
  "MakeValueProto_double d =
     Some (if is_nan d then PString ''NaN''
       else if is_inf d then PString (if d = minus_inf then ''-Infinity'' else ''Infinity'')
       else PNumber d)"

definition MakeValueProto_string :: "string \<Rightarrow> pvalue option" where
  "MakeValueProto_string s = Some (PString s)"

definition MakeValueProto_bytes :: "bytes \<Rightarrow> pvalue option" where
  "MakeValueProto_bytes b = Some (PString (BytesToBase64 b))"

definition MakeValueProto_timestamp :: "timestamp \<Rightarrow> pvalue option" where
  "MakeValueProto_timestamp ts = map_option PString (ToRFC3339 ts)"

definition commit_timestamp_text :: string where
  "commit_timestamp_text = ''spanner.commit_timestamp()''"

definition MakeValueProto_commit :: "unit \<Rightarrow> pvalue option" where
  "MakeValueProto_commit _ = Some (PString commit_timestamp_text)"

definition MakeValueProto_date :: "date \<Rightarrow> pvalue option" where
  "MakeValueProto_date d = Some (PString (DateToString d))"

text \<open>The decoders: \<open>missing\<close> is the error for a value of another kind.\<close>

definition missing :: "string \<Rightarrow> status" where
  "missing type = Status kUnknown (''missing '' @ type)"

definition quoted :: "string \<Rightarrow> string \<Rightarrow> status" where
  "quoted what s = Status kUnknown (what @ '': '' @ [CHR 0x22] @ s @ [CHR 0x22])"

definition GetValue_bool :: "pvalue \<Rightarrow> bool status_or option" where
  "GetValue_bool pv =
     Some (if kind_of pv \<noteq> kBoolValue then Inl (missing ''BOOL'') else Inr (bool_value pv))"

definition strerror_ERANGE :: string where
  "strerror_ERANGE = ''Numerical result out of range''"

text \<open>\<open>strtoll\<close> reads the C string, up to the first NUL.\<close>

definition GetValue_int64 :: "pvalue \<Rightarrow> int status_or option" where
  "GetValue_int64 pv =
     Some (if kind_of pv \<noteq> kStringValue then Inl (missing ''INT64'')
       else
         let s = string_value_of pv
         in case scan_int int64_min int64_max (takeWhile (\<lambda>c. c \<noteq> CHR 0x00) s) of
              Undefined \<Rightarrow> Inl (quoted strerror_ERANGE s)
            | NoMatch \<Rightarrow> Inl (quoted ''No numeric conversion'' s)
            | Scanned x rest \<Rightarrow> if rest \<noteq> [] then Inl (quoted ''Trailing data'' s) else Inr x)"

definition GetValue_double :: "pvalue \<Rightarrow> 64 word status_or option" where
  "GetValue_double pv =
     Some (if kind_of pv = kNumberValue then Inr (number_value pv)
       else if kind_of pv \<noteq> kStringValue then Inl (missing ''FLOAT64'')
       else
         let s = string_value_of pv
         in if s = ''-Infinity'' then Inr minus_inf
            else if s = ''Infinity'' then Inr plus_inf
            else if s = ''NaN'' then Inr quiet_nan
            else Inl (quoted ''bad FLOAT64 data'' s))"

definition GetValue_string :: "pvalue \<Rightarrow> string status_or option" where
  "GetValue_string pv =
     Some (if kind_of pv \<noteq> kStringValue then Inl (missing ''STRING'') else Inr (string_value_of pv))"

definition GetValue_bytes :: "pvalue \<Rightarrow> bytes status_or option" where
  "GetValue_bytes pv =
     Some (if kind_of pv \<noteq> kStringValue then Inl (missing ''BYTES'')
       else BytesFromBase64 (string_value_of pv))"

definition GetValue_timestamp :: "pvalue \<Rightarrow> timestamp status_or option" where
  "GetValue_timestamp pv =
     (if kind_of pv \<noteq> kStringValue then Some (Inl (missing ''TIMESTAMP''))
      else FromRFC3339 (string_value_of pv))"

definition GetValue_commit :: "pvalue \<Rightarrow> unit status_or option" where
  "GetValue_commit pv =
     Some (if kind_of pv \<noteq> kStringValue \<or> string_value_of pv \<noteq> commit_timestamp_text
       then Inl (Status kUnknown ''invalid commit_timestamp'') else Inr ())"

definition GetValue_date :: "pvalue \<Rightarrow> date status_or option" where
  "GetValue_date pv =
     (if kind_of pv \<noteq> kStringValue then Some (Inl (missing ''DATE''))
      else DateFromString (string_value_of pv))"

section \<open>Encoding and decoding all types\<close>

fun MakeValueProto :: "cval \<Rightarrow> pvalue option"
  and MakeValueProtos :: "cval list \<Rightarrow> pvalue list option"
  and AddStructValues :: "(string option \<times> cval) list \<Rightarrow> pvalue list option" where
  "MakeValueProto (VBool b) = MakeValueProto_bool b"
| "MakeValueProto (VInt64 i) = MakeValueProto_int64 i"
| "MakeValueProto (VDouble d) = MakeValueProto_double d"
| "MakeValueProto (VString s) = MakeValueProto_string s"
| "MakeValueProto (VBytes b) = MakeValueProto_bytes b"
| "MakeValueProto (VTimestamp ts) = MakeValueProto_timestamp ts"
| "MakeValueProto VCommitTimestamp = MakeValueProto_commit ()"
| "MakeValueProto (VDate d) = MakeValueProto_date d"
| "MakeValueProto (VOptional None) = Some PNull"
| "MakeValueProto (VOptional (Some v)) = MakeValueProto v"
| "MakeValueProto (VVector vs) = map_option PList (MakeValueProtos vs)"
| "MakeValueProto (VTuple es) = map_option PList (AddStructValues es)"
| "MakeValueProtos [] = Some []"
| "MakeValueProtos (v # vs) =
     Option.bind (MakeValueProto v) (\<lambda>pv. map_option ((#) pv) (MakeValueProtos vs))"
| "AddStructValues [] = Some []"
| "AddStructValues ((name, v) # es) =
     Option.bind (MakeValueProto v) (\<lambda>pv. map_option ((#) pv) (AddStructValues es))"

text \<open>
  \<open>GetElements\<close> is the loop over the elements of an array, which stops at the first error.
  \<open>ExtractTupleValues\<close> reads each element of a tuple in turn, from field \<open>i\<close> on, and keeps the last
  error; it hands the type of the whole tuple to the element's \<open>GetValue\<close>.
\<close>

fun GetValue :: "ctype \<Rightarrow> pvalue \<Rightarrow> ptype \<Rightarrow> cval status_or option"
  and GetElements :: "ctype \<Rightarrow> pvalue list \<Rightarrow> ptype \<Rightarrow> cval list status_or option"
  and ExtractTupleValues ::
    "(bool \<times> ctype) list \<Rightarrow> pvalue list \<Rightarrow> nat \<Rightarrow> ptype \<Rightarrow> status \<Rightarrow>
     (status \<times> (string option \<times> cval) list) option" where
  "GetValue CBool pv type = map_option (map_sum id VBool) (GetValue_bool pv)"
| "GetValue CInt64 pv type = map_option (map_sum id VInt64) (GetValue_int64 pv)"
| "GetValue CDouble pv type = map_option (map_sum id VDouble) (GetValue_double pv)"
| "GetValue CString pv type = map_option (map_sum id VString) (GetValue_string pv)"
| "GetValue CBytes pv type = map_option (map_sum id VBytes) (GetValue_bytes pv)"
| "GetValue CTimestamp pv type = map_option (map_sum id VTimestamp) (GetValue_timestamp pv)"
| "GetValue CCommitTimestamp pv type =
     map_option (map_sum id (\<lambda>_. VCommitTimestamp)) (GetValue_commit pv)"
| "GetValue CDate pv type = map_option (map_sum id VDate) (GetValue_date pv)"
| "GetValue (COptional t) pv type =
     (if kind_of pv = kNullValue then Some (Inr (VOptional None))
      else map_option (map_sum id (\<lambda>v. VOptional (Some v))) (GetValue t pv type))"
| "GetValue (CVector t) pv type =
     (if kind_of pv \<noteq> kListValue then Some (Inl (missing ''ARRAY''))
      else map_option (map_sum id VVector) (GetElements t (list_value pv) (array_element_type type)))"
| "GetValue (CTuple ts) pv type =
     (if kind_of pv \<noteq> kListValue then Some (Inl (missing ''STRUCT''))
      else Option.bind (ExtractTupleValues ts (list_value pv) 0 type ok_status) (\<lambda>(status, es).
        Some (if \<not> status_ok status then Inl status else Inr (VTuple es))))"
| "GetElements t [] type = Some (Inr [])"
| "GetElements t (e # pvs) type =
     Option.bind (GetValue t e type) (\<lambda>r. case r of
       Inl status \<Rightarrow> Some (Inl status)
     | Inr v \<Rightarrow> map_option (map_sum id ((#) v)) (GetElements t pvs type))"
| "ExtractTupleValues [] pvs i type status = Some (status, [])"
| "ExtractTupleValues ((named, t) # ts) pvs i type status =
     (case pvs of [] \<Rightarrow> None
      | e # pvs \<Rightarrow>
          if named \<and> length (struct_fields type) \<le> i then None
          else
            Option.bind (GetValue t e type) (\<lambda>r.
            Option.bind (ExtractTupleValues ts pvs (i + 1) type
                (case r of Inl st \<Rightarrow> st | Inr _ \<Rightarrow> status)) (\<lambda>(status, es).
              Some (status,
                ((if named then Some (fst (struct_fields type ! i)) else None),
                 (case r of Inl _ \<Rightarrow> default_cval t | Inr v \<Rightarrow> v)) # es))))"

text \<open>The constructors, \<open>MakeNullValue\<close> and \<open>get\<close>.\<close>

definition MakeValue :: "ctype \<Rightarrow> cval \<Rightarrow> val option" where
  "MakeValue t v =
     Option.bind (MakeTypeProto t v) (\<lambda>type. map_option (Value type) (MakeValueProto v))"

definition MakeNullValue :: "ctype \<Rightarrow> val option" where
  "MakeNullValue t = MakeValue (COptional t) (VOptional None)"

definition wrong_type :: status where
  "wrong_type = Status kUnknown ''wrong type''"

definition null_value :: status where
  "null_value = Status kUnknown ''null value''"

definition IsOptional :: "ctype \<Rightarrow> bool" where
  "IsOptional t = (case t of COptional _ \<Rightarrow> True | _ \<Rightarrow> False)"

definition Value_get :: "ctype \<Rightarrow> val \<Rightarrow> cval status_or option" where
  "Value_get t v =
     (if \<not> TypeProtoIs t (value_type v) then Some (Inl wrong_type)
      else if kind_of (value_proto v) = kNullValue then
        Some (if IsOptional t then Inr (default_cval t) else Inl null_value)
      else GetValue t (value_proto v) (value_type v))"

section \<open>Equality and printing\<close>

text \<open>
  \<open>operator==\<close>. The elements of an array are compared at the element type of the first one on both
  sides.
\<close>

fun Equal :: "ptype \<Rightarrow> pvalue \<Rightarrow> ptype \<Rightarrow> pvalue \<Rightarrow> bool"
  and Equal_elements :: "ptype \<Rightarrow> pvalue list \<Rightarrow> pvalue list \<Rightarrow> bool"
  and Equal_fields ::
    "(string \<times> ptype) list \<Rightarrow> pvalue list \<Rightarrow> (string \<times> ptype) list \<Rightarrow> pvalue list \<Rightarrow> bool" where
  "Equal pt1 pv1 pt2 pv2 =
     (if type_code pt1 \<noteq> type_code pt2 then False
      else if kind_of pv1 \<noteq> kind_of pv2 then False
      else case pt1 of
        TBool \<Rightarrow> bool_value pv1 = bool_value pv2
      | TInt64 \<Rightarrow> string_value_of pv1 = string_value_of pv2
      | TFloat64 \<Rightarrow>
          string_value_of pv1 \<noteq> ''NaN'' \<and> string_value_of pv2 \<noteq> ''NaN'' \<and>
          string_value_of pv1 = string_value_of pv2 \<and>
          double_eq (number_value pv1) (number_value pv2)
      | TString \<Rightarrow> string_value_of pv1 = string_value_of pv2
      | TBytes \<Rightarrow> string_value_of pv1 = string_value_of pv2
      | TDate \<Rightarrow> string_value_of pv1 = string_value_of pv2
      | TTimestamp \<Rightarrow> string_value_of pv1 = string_value_of pv2
      | TArray etype1 \<Rightarrow>
          type_code etype1 = type_code (array_element_type pt2) \<and>
          (case pv1 of PList v1 \<Rightarrow> Equal_elements etype1 v1 (list_value pv2) | _ \<Rightarrow> True)
      | TStruct flds1 \<Rightarrow>
          length flds1 = length (struct_fields pt2) \<and>
          (case pv1 of PList v1 \<Rightarrow> Equal_fields flds1 v1 (struct_fields pt2) (list_value pv2)
           | _ \<Rightarrow> flds1 = [])
      | TYPE_CODE_UNSPECIFIED \<Rightarrow> True)"
| "Equal_elements etype1 [] v2 = (v2 = [])"
| "Equal_elements etype1 (e1 # v1) v2 =
     (case v2 of [] \<Rightarrow> False
      | e2 # v2 \<Rightarrow> Equal etype1 e1 etype1 e2 \<and> Equal_elements etype1 v1 v2)"
| "Equal_fields flds1 [] flds2 v2 = (flds1 = [] \<and> v2 = [])"
| "Equal_fields flds1 (e1 # v1) flds2 v2 =
     (case (flds1, flds2, v2) of
        ((n1, t1) # flds1, (n2, t2) # flds2, e2 # v2) \<Rightarrow>
          n1 = n2 \<and> Equal t1 e1 t2 e2 \<and> Equal_fields flds1 v1 flds2 v2
      | _ \<Rightarrow> False)"

definition Value_eq :: "val \<Rightarrow> val \<Rightarrow> bool" where
  "Value_eq a b = Equal (value_type a) (value_proto a) (value_type b) (value_proto b)"

definition EscapeQuotes :: "string \<Rightarrow> string" where
  "EscapeQuotes s = concat (map (\<lambda>c. if c = CHR 0x22 then [CHR 0x5C, c] else [c]) s)"

datatype StreamMode = kScalar | kAggregate

text \<open>
  \<open>operator<<\<close>; \<open>show_double\<close> is the stream's formatting of a double. \<open>None\<close> where \<open>.value()\<close> throws
  or a field is missing.
\<close>

fun StreamHelper :: "(64 word \<Rightarrow> string) \<Rightarrow> pvalue \<Rightarrow> ptype \<Rightarrow> StreamMode \<Rightarrow> string option"
  and Stream_elements :: "(64 word \<Rightarrow> string) \<Rightarrow> string \<Rightarrow> pvalue list \<Rightarrow> ptype \<Rightarrow> string option"
  and Stream_fields :: "(64 word \<Rightarrow> string) \<Rightarrow> string \<Rightarrow> pvalue list \<Rightarrow> (string \<times> ptype) list \<Rightarrow> string option"
  where
  "StreamHelper show_double v t mode =
     (if kind_of v = kNullValue then Some ''NULL''
      else case t of
        TBool \<Rightarrow> Some (if bool_value v then ''1'' else ''0'')
      | TInt64 \<Rightarrow>
          (case GetValue_int64 v of Some (Inr i) \<Rightarrow> Some (to_string i) | _ \<Rightarrow> None)
      | TFloat64 \<Rightarrow>
          (case GetValue_double v of Some (Inr d) \<Rightarrow> Some (show_double d) | _ \<Rightarrow> None)
      | TString \<Rightarrow>
          (case mode of
             kScalar \<Rightarrow> Some (string_value_of v)
           | kAggregate \<Rightarrow> Some ([CHR 0x22] @ EscapeQuotes (string_value_of v) @ [CHR 0x22]))
      | TBytes \<Rightarrow>
          (case BytesFromBase64 (string_value_of v) of Inl _ \<Rightarrow> None | Inr b \<Rightarrow> PrintBytes b)
      | TTimestamp \<Rightarrow> Some (string_value_of v)
      | TDate \<Rightarrow> Some (string_value_of v)
      | TArray etype \<Rightarrow>
          (case v of
             PList vs \<Rightarrow>
               map_option (\<lambda>s. ''['' @ s @ '']'') (Stream_elements show_double '''' vs etype)
           | _ \<Rightarrow> Some ''[]'')
      | TStruct flds \<Rightarrow>
          (case v of
             PList vs \<Rightarrow>
               map_option (\<lambda>s. ''('' @ s @ '')'') (Stream_fields show_double '''' vs flds)
           | _ \<Rightarrow> Some ''()'')
      | TYPE_CODE_UNSPECIFIED \<Rightarrow> Some (''Error: unknown value type code '' @ to_string 0))"
| "Stream_elements show_double delimiter [] etype = Some []"
| "Stream_elements show_double delimiter (e # vs) etype =
     Option.bind (StreamHelper show_double e etype kAggregate) (\<lambda>s.
       map_option (\<lambda>s'. delimiter @ s @ s') (Stream_elements show_double '', '' vs etype))"
| "Stream_fields show_double delimiter [] flds = Some []"
| "Stream_fields show_double delimiter (e # vs) flds =
     (case flds of [] \<Rightarrow> None
      | (name, type) # flds \<Rightarrow>
          Option.bind (StreamHelper show_double e type kAggregate) (\<lambda>s.
            map_option (\<lambda>s'. delimiter @
                (if name \<noteq> [] then [CHR 0x22] @ EscapeQuotes name @ [CHR 0x22] @ '': '' else []) @ s @ s')
              (Stream_fields show_double '', '' vs flds)))"

definition PrintValue :: "(64 word \<Rightarrow> string) \<Rightarrow> val \<Rightarrow> string option" where
  "PrintValue show_double v = StreamHelper show_double (value_proto v) (value_type v) kScalar"

section \<open>Scalar codecs\<close>

text \<open>What the templates rely on: each pair of overloads writes a value that is not null and reads it back.\<close>

locale scalar_codec =
  fixes put :: "'a \<Rightarrow> pvalue option"
    and get :: "pvalue \<Rightarrow> 'a status_or option"
    and ok :: "'a \<Rightarrow> bool"
  assumes put_get: "ok x \<Longrightarrow> \<exists>pv. put x = Some pv \<and> kind_of pv \<noteq> kNullValue \<and> get pv = Some (Inr x)"
begin

lemma get_put: "ok x \<Longrightarrow> put x = Some pv \<Longrightarrow> get pv = Some (Inr x)"
  using put_get by fastforce

lemma put_not_null: "ok x \<Longrightarrow> put x = Some pv \<Longrightarrow> kind_of pv \<noteq> kNullValue"
  using put_get by fastforce

lemma put_Some: "ok x \<Longrightarrow> put x \<noteq> None"
  using put_get by fastforce

text \<open>So different values have different encodings.\<close>

lemma put_inject:
  assumes "ok x" "ok y" "put x = put y"
  shows "x = y"
proof -
  obtain pv where x: "put x = Some pv" using put_Some [OF assms(1)] by blast
  then have y: "put y = Some pv" using assms(3) by simp
  show ?thesis using get_put [OF assms(1) x] get_put [OF assms(2) y] by simp
qed

end

lemma printf0_to_string: "printf0 0 v = to_string v"
  by (simp add: printf0_def to_string_def Let_def)

lemma GetValue_int64_to_string:
  assumes "in_int64 i"
  shows "GetValue_int64 (PString (to_string i)) = Some (Inr i)"
proof -
  have "CHR 0x00 \<notin> set (to_string i)" using printf0_no_NUL [of 0 i] by (simp add: printf0_to_string)
  then have t: "takeWhile (\<lambda>c. c \<noteq> CHR 0x00) (to_string i) = to_string i"
    by (simp add: takeWhile_eq_all_conv) metis
  have "scan_int int64_min int64_max (to_string i @ []) = Scanned i []"
    unfolding printf0_to_string [symmetric]
    by (rule scan_int_printf0) (use assms in \<open>auto simp: in_int64_def\<close>)
  then show ?thesis by (simp add: GetValue_int64_def t Let_def)
qed

definition timestamp_ok :: "timestamp \<Rightarrow> bool" where
  "timestamp_ok ts \<longleftrightarrow> normalized ts \<and> in_int32 (civil_year (ts_sec ts) - 1900)"

definition date_ok :: "date \<Rightarrow> bool" where
  "date_ok d \<longleftrightarrow> valid_date (date_year d) (date_month d) (date_day d) \<and>
     int64_min + 200000000 \<le> date_year d \<and> date_year d \<le> int64_max - 200000000"

definition bytes_ok :: "bytes \<Rightarrow> bool" where
  "bytes_ok b \<longleftrightarrow> BytesFromBase64 (base64_rep b) = Inr b"

interpretation bool_codec: scalar_codec MakeValueProto_bool GetValue_bool "\<lambda>_. True"
  by unfold_locales (simp add: MakeValueProto_bool_def GetValue_bool_def)

interpretation int64_codec: scalar_codec MakeValueProto_int64 GetValue_int64 in_int64
  by unfold_locales (simp add: MakeValueProto_int64_def GetValue_int64_to_string)

interpretation double_codec: scalar_codec MakeValueProto_double GetValue_double "\<lambda>d. \<not> is_nan d"
  by unfold_locales (auto simp: MakeValueProto_double_def GetValue_double_def is_inf_def)

interpretation string_codec: scalar_codec MakeValueProto_string GetValue_string "\<lambda>_. True"
  by unfold_locales (simp add: MakeValueProto_string_def GetValue_string_def)

interpretation bytes_codec: scalar_codec MakeValueProto_bytes GetValue_bytes bytes_ok
  by unfold_locales (simp add: MakeValueProto_bytes_def GetValue_bytes_def bytes_ok_def BytesToBase64_def)

interpretation timestamp_codec: scalar_codec MakeValueProto_timestamp GetValue_timestamp timestamp_ok
proof
  fix ts assume "timestamp_ok ts"
  then obtain s where "ToRFC3339 ts = Some s" "FromRFC3339 s = Some (Inr ts)"
    using ToRFC3339_FromRFC3339 [of ts] by (auto simp: timestamp_ok_def)
  then show "\<exists>pv. MakeValueProto_timestamp ts = Some pv \<and> kind_of pv \<noteq> kNullValue \<and>
      GetValue_timestamp pv = Some (Inr ts)"
    by (simp add: MakeValueProto_timestamp_def GetValue_timestamp_def)
qed

interpretation commit_codec: scalar_codec MakeValueProto_commit GetValue_commit "\<lambda>_. True"
  by unfold_locales (simp add: MakeValueProto_commit_def GetValue_commit_def)

interpretation date_codec: scalar_codec MakeValueProto_date GetValue_date date_ok
proof
  fix d assume "date_ok d"
  then have "DateFromString (DateToString d) = Some (Inr d)"
    using DateFromString_DateToString [of "date_year d" "date_month d" "date_day d"]
    by (simp add: date_ok_def)
  then show "\<exists>pv. MakeValueProto_date d = Some pv \<and> kind_of pv \<noteq> kNullValue \<and>
      GetValue_date pv = Some (Inr d)"
    by (simp add: MakeValueProto_date_def GetValue_date_def)
qed

section \<open>Values of a type\<close>

fun cval_ok :: "ctype \<Rightarrow> cval \<Rightarrow> bool"
  and fields_ok :: "(bool \<times> ctype) list \<Rightarrow> (string option \<times> cval) list \<Rightarrow> bool" where
  "cval_ok CBool v = (case v of VBool _ \<Rightarrow> True | _ \<Rightarrow> False)"
| "cval_ok CInt64 v = (case v of VInt64 i \<Rightarrow> in_int64 i | _ \<Rightarrow> False)"
| "cval_ok CDouble v = (case v of VDouble d \<Rightarrow> \<not> is_nan d | _ \<Rightarrow> False)"
| "cval_ok CString v = (case v of VString _ \<Rightarrow> True | _ \<Rightarrow> False)"
| "cval_ok CBytes v = (case v of VBytes b \<Rightarrow> bytes_ok b | _ \<Rightarrow> False)"
| "cval_ok CTimestamp v = (case v of VTimestamp ts \<Rightarrow> timestamp_ok ts | _ \<Rightarrow> False)"
| "cval_ok CCommitTimestamp v = (v = VCommitTimestamp)"
| "cval_ok CDate v = (case v of VDate d \<Rightarrow> date_ok d | _ \<Rightarrow> False)"
| "cval_ok (COptional t) v =
     (case v of VOptional None \<Rightarrow> True | VOptional (Some v) \<Rightarrow> cval_ok t v | _ \<Rightarrow> False)"
| "cval_ok (CVector t) v = (case v of VVector vs \<Rightarrow> list_all (cval_ok t) vs | _ \<Rightarrow> False)"
| "cval_ok (CTuple ts) v = (case v of VTuple es \<Rightarrow> fields_ok ts es | _ \<Rightarrow> False)"
| "fields_ok [] es = (es = [])"
| "fields_ok ((named, t) # ts) es =
     (case es of [] \<Rightarrow> False
      | (name, v) # es \<Rightarrow> (named \<longleftrightarrow> name \<noteq> None) \<and> cval_ok t v \<and> fields_ok ts es)"

text \<open>
  Field names survive only where the reading side looks them up in the right type and the type
  keeps them: in a tuple that is itself neither an element of a tuple nor in an \<open>optional\<close>.
\<close>

fun name_free :: "ctype \<Rightarrow> bool"
  and names_free :: "(bool \<times> ctype) list \<Rightarrow> bool" where
  "name_free (COptional t) = (\<not> IsOptional t \<and> name_free t)"
| "name_free (CVector t) = name_free t"
| "name_free (CTuple ts) = names_free ts"
| "name_free _ = True"
| "names_free [] = True"
| "names_free ((named, t) # ts) = (\<not> named \<and> name_free t \<and> names_free ts)"

fun ctype_ok :: "ctype \<Rightarrow> bool" where
  "ctype_ok (CVector t) = ctype_ok t"
| "ctype_ok (CTuple ts) = list_all (\<lambda>(_, t). name_free t) ts"
| "ctype_ok t = name_free t"

lemma TypeProtoIs_MakeTypeProto:
  "MakeTypeProto t v = Some type \<Longrightarrow> TypeProtoIs t type"
  "AddStructTypes ts es = Some flds \<Longrightarrow> length flds = length ts \<and> IsStructTypeProto ts flds"
proof (induction t v and ts es arbitrary: type and flds rule: MakeTypeProto_AddStructTypes.induct)
  case (10 t vs)
  then show ?case by (auto simp: Let_def split: if_splits)
next
  case (15 named t ts es)
  then show ?case by (auto split: list.splits Option.bind_splits)
qed auto

text \<open>The type of a value without names depends on its C++ type only.\<close>

fun spanner_type :: "ctype \<Rightarrow> ptype"
  and spanner_fields :: "(bool \<times> ctype) list \<Rightarrow> (string \<times> ptype) list" where
  "spanner_type CBool = TBool"
| "spanner_type CInt64 = TInt64"
| "spanner_type CDouble = TFloat64"
| "spanner_type CString = TString"
| "spanner_type CBytes = TBytes"
| "spanner_type CTimestamp = TTimestamp"
| "spanner_type CCommitTimestamp = TTimestamp"
| "spanner_type CDate = TDate"
| "spanner_type (COptional t) = spanner_type t"
| "spanner_type (CVector t) = TArray (spanner_type t)"
| "spanner_type (CTuple ts) = TStruct (spanner_fields ts)"
| "spanner_fields [] = []"
| "spanner_fields ((_, t) # ts) = ([], spanner_type t) # spanner_fields ts"

lemma date_ok_epoch: "date_ok (Date 1970 1 1)"
  by (simp add: date_ok_def valid_date_def days_in_month_def)

lemma timestamp_ok_epoch: "timestamp_ok (Timestamp 0 0)"
  by (simp add: timestamp_ok_def normalized_def in_int64_def civil_year_bounds)

lemma cval_ok_default:
  "cval_ok t (default_cval t)"
  "fields_ok ts (default_fields ts)"
proof (induction t and ts rule: default_cval_default_fields.induct)
  case 3
  have "\<not> is_nan 0" by (simp add: is_nan_def plus_inf_def)
  then show ?case by simp
next
  case 5
  show ?case by (simp add: bytes_ok_def BytesFromBase64_def)
qed (auto simp: in_int64_def date_ok_epoch timestamp_ok_epoch)

lemma MakeTypeProto_name_free:
  "name_free t \<Longrightarrow> cval_ok t v \<Longrightarrow> MakeTypeProto t v = Some (spanner_type t)"
  "names_free ts \<Longrightarrow> fields_ok ts es \<Longrightarrow> AddStructTypes ts es = Some (spanner_fields ts)"
proof (induction t v and ts es rule: MakeTypeProto_AddStructTypes.induct)
  case (9 t uu)
  then show ?case by (simp add: cval_ok_default)
next
  case (10 t vs)
  have h: "MakeTypeProto t (if vs = [] then default_cval t else hd vs) = Some (spanner_type t)"
    using 10 cval_ok_default(1) [of t] by (auto simp: list_all_iff)
  moreover have "MakeTypeProto t e = Some (spanner_type t)" if "e \<in> set vs" for e
    using "10.IH"(2) "10.prems" that by (auto simp: list_all_iff)
  ultimately show ?case by (simp add: Let_def list_all_iff)
next
  case (15 named t ts es)
  then show ?case by (auto split: list.splits)
qed auto

section \<open>Reading back\<close>

lemmas get_put_codecs =
  bool_codec.get_put int64_codec.get_put double_codec.get_put string_codec.get_put
  bytes_codec.get_put timestamp_codec.get_put commit_codec.get_put date_codec.get_put

lemmas put_not_null_codecs =
  bool_codec.put_not_null int64_codec.put_not_null double_codec.put_not_null
  string_codec.put_not_null bytes_codec.put_not_null timestamp_codec.put_not_null
  commit_codec.put_not_null date_codec.put_not_null

lemma MakeValueProto_not_null:
  assumes "cval_ok t v" "\<not> IsOptional t" "MakeValueProto v = Some pv"
  shows "kind_of pv \<noteq> kNullValue"
  using assms put_not_null_codecs
  by (cases t) (auto simp: IsOptional_def split: cval.splits)

lemma MakeValueProto_null:
  "cval_ok t v \<Longrightarrow> MakeValueProto v = Some pv \<Longrightarrow> name_free t \<Longrightarrow>
   kind_of pv = kNullValue \<longleftrightarrow> v = VOptional None"
proof (cases t)
  case (COptional t')
  assume a: "cval_ok t v" "MakeValueProto v = Some pv" "name_free t"
  show ?thesis
  proof (cases "v = VOptional None")
    case True
    then show ?thesis using a by auto
  next
    case False
    then obtain v' where "v = VOptional (Some v')" "cval_ok t' v'"
      using a(1) COptional by (auto split: cval.splits option.splits)
    then show ?thesis using a COptional MakeValueProto_not_null [of t' v' pv] by auto
  qed
next
qed (use MakeValueProto_not_null [of t v pv] in \<open>auto simp: IsOptional_def split: cval.splits\<close>)

lemma GetValue_name_free:
  "name_free t \<Longrightarrow> cval_ok t v \<Longrightarrow> MakeValueProto v = Some pv \<Longrightarrow> GetValue t pv type = Some (Inr v)"
  "name_free t \<Longrightarrow> list_all (cval_ok t) vs \<Longrightarrow> MakeValueProtos vs = Some pvs \<Longrightarrow>
    GetElements t pvs type = Some (Inr vs)"
  "names_free ts \<Longrightarrow> fields_ok ts es \<Longrightarrow> AddStructValues es = Some pvs \<Longrightarrow>
    ExtractTupleValues ts pvs i type status = Some (status, es)"
proof (induction t pv type and t pvs type and ts pvs i type status arbitrary: v and vs and es
    rule: GetValue_GetElements_ExtractTupleValues.induct)
  case (9 t pv type)
  note n = MakeValueProto_null [OF "9.prems"(2,3,1)]
  show ?case
  proof (cases "v = VOptional None")
    case True
    then show ?thesis using "9.prems" n by simp
  next
    case False
    then obtain v' where v': "v = VOptional (Some v')" "cval_ok t v'"
      using "9.prems"(2) by (auto split: cval.splits option.splits)
    then have "GetValue t pv type = Some (Inr v')" using 9 n False by simp
    then show ?thesis using v' n False by simp
  qed
next
  case (12 t type)
  then show ?case by (cases vs) (auto split: Option.bind_splits)
next
  case (13 t e pvs type)
  then obtain v vs' where vs: "vs = v # vs'" by (cases vs) auto
  then obtain pv where pv: "MakeValueProto v = Some pv" "MakeValueProtos vs' = Some pvs" "pv = e"
    using 13 by (auto split: Option.bind_splits)
  then have e: "GetValue t e type = Some (Inr v)" using 13 vs by simp
  then have "GetElements t pvs type = Some (Inr vs')" using 13 vs pv by simp
  then show ?case using e vs by simp
next
  case (15 named t ts pvs i type status)
  then obtain v es' where es: "es = (None, v) # es'" "cval_ok t v" "fields_ok ts es'"
    by (auto split: list.splits)
  then obtain pv pvs' where pv: "MakeValueProto v = Some pv" "AddStructValues es' = Some pvs'" "pvs = pv # pvs'"
    using 15 by (auto split: Option.bind_splits)
  have e: "GetValue t pv type = Some (Inr v)" using 15 es pv by simp
  have "ExtractTupleValues ts pvs' (i + 1) type status = Some (status, es')"
    using "15.IH"(2) [of pv pvs' "Inr v"] 15 es pv e by simp
  then show ?case using e es pv 15 by simp
qed (auto simp: get_put_codecs split: cval.splits Option.bind_splits)

text \<open>The names of the elements are those of the fields, from field \<open>i\<close> on.\<close>

lemma ExtractTupleValues_named:
  assumes "list_all (\<lambda>(_, t). name_free t) ts" "fields_ok ts es" "AddStructValues es = Some pvs"
    "AddStructTypes ts es = Some flds" "drop i (struct_fields type) = flds"
  shows "ExtractTupleValues ts pvs i type status = Some (status, es)"
  using assms
proof (induction ts arbitrary: es pvs i flds)
  case Nil
  then show ?case by simp
next
  case (Cons nt ts)
  obtain named t where nt: "nt = (named, t)" by fastforce
  then obtain name v es' where es: "es = (name, v) # es'" "cval_ok t v" "fields_ok ts es'"
      "named \<longleftrightarrow> name \<noteq> None"
    using Cons.prems(2) by (auto split: list.splits)
  obtain pv pvs' where pv: "MakeValueProto v = Some pv" "AddStructValues es' = Some pvs'" "pvs = pv # pvs'"
    using Cons.prems(3) es by (auto split: Option.bind_splits)
  obtain ty flds' where ty: "flds = (case name of None \<Rightarrow> [] | Some n \<Rightarrow> n, ty) # flds'"
      "AddStructTypes ts es' = Some flds'"
    using Cons.prems(4) nt es by (auto split: Option.bind_splits)
  have d: "i < length (struct_fields type)"
    using Cons.prems(5) ty(1) by (metis drop_eq_Nil list.distinct(1) not_le)
  then have f: "struct_fields type ! i = (case name of None \<Rightarrow> [] | Some n \<Rightarrow> n, ty)"
      "drop (i + 1) (struct_fields type) = flds'"
    using Cons.prems(5) ty(1) Cons_nth_drop_Suc [OF d] by simp_all
  have g: "GetValue t pv type = Some (Inr v)"
    using GetValue_name_free(1) [OF _ es(2) pv(1)] Cons.prems(1) nt by simp
  have "ExtractTupleValues ts pvs' (i + 1) type status = Some (status, es')"
    by (rule Cons.IH) (use Cons.prems(1) es(3) pv(2) ty(2) f(2) in auto)
  then show ?case using nt es pv d f(1) g by (auto split: option.splits)
qed

lemma GetValue_MakeValueProto:
  "ctype_ok t \<Longrightarrow> cval_ok t v \<Longrightarrow> MakeTypeProto t v = Some type \<Longrightarrow> MakeValueProto v = Some pv \<Longrightarrow>
   GetValue t pv type = Some (Inr v)"
proof (induction t arbitrary: v type pv rule: ctype_ok.induct)
  case (1 t)
  then obtain vs where vs: "v = VVector vs" "list_all (cval_ok t) vs" by (auto split: cval.splits)
  define el where "el = MakeTypeProto t (if vs = [] then default_cval t else hd vs)"
  from "1.prems"(3) vs have a: "list_all (\<lambda>e. MakeTypeProto t e = el) vs" "map_option TArray el = Some type"
    by (auto simp: Let_def el_def split: if_splits)
  then obtain ety where e: "el = Some ety" "type = TArray ety" by auto
  obtain pvs where pvs: "MakeValueProtos vs = Some pvs" "pv = PList pvs" using "1.prems"(4) vs by auto
  have "GetElements t pvs ety = Some (Inr vs)"
    using vs(2) a(1) pvs(1)
  proof (induction vs arbitrary: pvs)
    case Nil
    then show ?case by simp
  next
    case (Cons v vs)
    then obtain p ps where p: "MakeValueProto v = Some p" "MakeValueProtos vs = Some ps" "pvs = p # ps"
      by (auto split: Option.bind_splits)
    have "GetValue t p ety = Some (Inr v)" using "1.IH" "1.prems"(1) Cons.prems e p by simp
    moreover have "GetElements t ps ety = Some (Inr vs)" using Cons p by simp
    ultimately show ?case using p by simp
  qed
  then show ?case using vs pvs e by simp
next
  case (2 ts)
  then obtain es where es: "v = VTuple es" "fields_ok ts es" by (auto split: cval.splits)
  obtain pvs flds where p: "AddStructValues es = Some pvs" "pv = PList pvs"
      "AddStructTypes ts es = Some flds" "type = TStruct flds"
    using 2 es by auto
  have "ExtractTupleValues ts pvs 0 type ok_status = Some (ok_status, es)"
    by (rule ExtractTupleValues_named) (use 2 es p in auto)
  then show ?case using es p by simp
qed (rule GetValue_name_free(1); simp)+

lemma MakeValueProto_total:
  "cval_ok t v \<Longrightarrow> MakeValueProto v \<noteq> None"
  "list_all (cval_ok t) vs \<Longrightarrow> MakeValueProtos vs \<noteq> None"
  "fields_ok ts es \<Longrightarrow> AddStructValues es \<noteq> None"
proof (induction v and vs and es arbitrary: t and t and ts
    rule: MakeValueProto_MakeValueProtos_AddStructValues.induct)
  case (10 v)
  then show ?case by (cases t) auto
next
  case (11 vs)
  then show ?case by (cases t) auto
next
  case (12 es)
  then show ?case by (cases t) auto
next
  case (14 v vs)
  then show ?case by (auto split: Option.bind_splits)
next
  case (16 name v es)
  then obtain named t ts' where "ts = (named, t) # ts'" "cval_ok t v" "fields_ok ts' es" by (cases ts) auto
  with 16 show ?case by (auto split: Option.bind_splits)
next
  case (6 ts)
  then show ?case using timestamp_codec.put_Some by (cases t) auto
qed (simp_all add: MakeValueProto_bool_def MakeValueProto_int64_def MakeValueProto_double_def
    MakeValueProto_string_def MakeValueProto_bytes_def MakeValueProto_commit_def MakeValueProto_date_def)

lemma Value_get_MakeValue:
  assumes "ctype_ok t" "cval_ok t v" "MakeValue t v = Some x"
  shows "Value_get t x = Some (Inr v)"
proof -
  obtain type pv where x: "MakeTypeProto t v = Some type" "MakeValueProto v = Some pv" "x = Value type pv"
    using assms(3) by (auto simp: MakeValue_def split: Option.bind_splits)
  have ty: "TypeProtoIs t type" using TypeProtoIs_MakeTypeProto(1) [OF x(1)] .
  note g = GetValue_MakeValueProto [OF assms(1,2) x(1,2)]
  show ?thesis
  proof (cases "IsOptional t")
    case True
    then obtain t' where t: "t = COptional t'" by (auto simp: IsOptional_def split: ctype.splits)
    show ?thesis
    proof (cases "kind_of pv = kNullValue")
      case True
      then have "v = VOptional None"
        using MakeValueProto_null [OF assms(2) x(2)] assms(1) t by simp
      then show ?thesis using ty True t x(3) by (simp add: Value_get_def IsOptional_def)
    next
      case False
      then show ?thesis using ty g x(3) by (simp add: Value_get_def)
    qed
  next
    case False
    then show ?thesis
      using MakeValueProto_not_null [OF assms(2) False x(2)] ty g x(3) by (simp add: Value_get_def)
  qed
qed

section \<open>What reading yields\<close>

fun has_ctype :: "ctype \<Rightarrow> cval \<Rightarrow> bool"
  and has_fields :: "(bool \<times> ctype) list \<Rightarrow> (string option \<times> cval) list \<Rightarrow> bool" where
  "has_ctype CBool v = (case v of VBool _ \<Rightarrow> True | _ \<Rightarrow> False)"
| "has_ctype CInt64 v = (case v of VInt64 i \<Rightarrow> in_int64 i | _ \<Rightarrow> False)"
| "has_ctype CDouble v = (case v of VDouble d \<Rightarrow> True | _ \<Rightarrow> False)"
| "has_ctype CString v = (case v of VString _ \<Rightarrow> True | _ \<Rightarrow> False)"
| "has_ctype CBytes v = (case v of VBytes b \<Rightarrow> bytes_ok b | _ \<Rightarrow> False)"
| "has_ctype CTimestamp v = (case v of VTimestamp ts \<Rightarrow> normalized ts | _ \<Rightarrow> False)"
| "has_ctype CCommitTimestamp v = (v = VCommitTimestamp)"
| "has_ctype CDate v = (case v of VDate d \<Rightarrow> True | _ \<Rightarrow> False)"
| "has_ctype (COptional t) v =
     (case v of VOptional None \<Rightarrow> True | VOptional (Some v) \<Rightarrow> has_ctype t v | _ \<Rightarrow> False)"
| "has_ctype (CVector t) v = (case v of VVector vs \<Rightarrow> list_all (has_ctype t) vs | _ \<Rightarrow> False)"
| "has_ctype (CTuple ts) v = (case v of VTuple es \<Rightarrow> has_fields ts es | _ \<Rightarrow> False)"
| "has_fields [] es = (es = [])"
| "has_fields ((named, t) # ts) es =
     (case es of [] \<Rightarrow> False
      | (name, v) # es \<Rightarrow> (named \<longleftrightarrow> name \<noteq> None) \<and> has_ctype t v \<and> has_fields ts es)"

lemma has_ctype_default:
  "has_ctype t (default_cval t)"
  "has_fields ts (default_fields ts)"
proof (induction t and ts rule: default_cval_default_fields.induct)
  case 5
  show ?case by (simp add: bytes_ok_def BytesFromBase64_def)
qed (auto simp: in_int64_def normalized_def)

lemma in_int64_scanned: "scan_int int64_min int64_max s = Scanned i rest \<Longrightarrow> in_int64 i"
  by (auto simp: scan_int_def Let_def in_int64_def split: if_splits)

lemma GetValue_int64_range: "GetValue_int64 pv = Some (Inr i) \<Longrightarrow> in_int64 i"
  by (auto simp: GetValue_int64_def Let_def intro: in_int64_scanned split: if_splits scanned.splits)

lemma GetValue_bytes_ok: "GetValue_bytes pv = Some (Inr b) \<Longrightarrow> bytes_ok b"
  by (auto simp: GetValue_bytes_def bytes_ok_def BytesFromBase64_def Let_def split: if_splits)

lemma GetValue_timestamp_ok: "GetValue_timestamp pv = Some (Inr ts) \<Longrightarrow> normalized ts"
  using FromRFC3339_total [of "string_value_of pv"]
  by (auto simp: GetValue_timestamp_def normalized_def split: if_splits)

lemma map_sum_id_Inr: "map_sum id f r = Inr v \<longleftrightarrow> (\<exists>x. r = Inr x \<and> v = f x)"
  by (cases r) auto

lemma GetValue_typed:
  "GetValue t pv type = Some (Inr v) \<Longrightarrow> has_ctype t v"
  "GetElements t pvs type = Some (Inr vs) \<Longrightarrow> list_all (has_ctype t) vs"
  "ExtractTupleValues ts pvs i type status = Some (status', es) \<Longrightarrow> has_fields ts es"
proof (induction t pv type and t pvs type and ts pvs i type status arbitrary: v and vs and status' es
    rule: GetValue_GetElements_ExtractTupleValues.induct)
  case (13 t e pvs type)
  then show ?case by (auto simp: map_sum_id_Inr split: Option.bind_splits sum.splits)
next
  case (15 named t ts pvs i type status)
  from "15.prems" obtain e pvs' r es' st where p: "pvs = e # pvs'" "GetValue t e type = Some r"
      "ExtractTupleValues ts pvs' (i + 1) type (case r of Inl st \<Rightarrow> st | Inr _ \<Rightarrow> status) = Some (st, es')"
      "\<not> (named \<and> length (struct_fields type) \<le> i)"
      "es = ((if named then Some (fst (struct_fields type ! i)) else None),
        (case r of Inl _ \<Rightarrow> default_cval t | Inr v \<Rightarrow> v)) # es'"
    by (auto split: list.splits if_splits Option.bind_splits)
  have "has_fields ts es'" by (rule "15.IH"(2) [OF p(1,4,2,3)])
  moreover have "has_ctype t (case r of Inl _ \<Rightarrow> default_cval t | Inr v \<Rightarrow> v)"
    using "15.IH"(1) [OF p(1,4)] p(2) by (cases r) (auto simp: has_ctype_default)
  ultimately show ?case using p(5) by simp
qed (auto simp: map_sum_id_Inr GetValue_int64_range GetValue_bytes_ok GetValue_timestamp_ok
    split: if_splits Option.bind_splits)

text \<open>
  Where \<open>get\<close> is undefined: \<open>values(i)\<close> of a struct value with fewer elements than the tuple, \<open>fields(i)\<close>
  past the fields of the type that was handed down, or a date text whose numbers leave their types.
\<close>

fun well_shaped :: "ctype \<Rightarrow> pvalue \<Rightarrow> ptype \<Rightarrow> bool"
  and shaped_fields :: "(bool \<times> ctype) list \<Rightarrow> pvalue list \<Rightarrow> nat \<Rightarrow> ptype \<Rightarrow> bool" where
  "well_shaped CDate pv type \<longleftrightarrow> kind_of pv \<noteq> kStringValue \<or> DateFromString (string_value_of pv) \<noteq> None"
| "well_shaped (COptional t) pv type \<longleftrightarrow> kind_of pv = kNullValue \<or> well_shaped t pv type"
| "well_shaped (CVector t) pv type \<longleftrightarrow> kind_of pv \<noteq> kListValue \<or>
     list_all (\<lambda>e. well_shaped t e (array_element_type type)) (list_value pv)"
| "well_shaped (CTuple ts) pv type \<longleftrightarrow> kind_of pv \<noteq> kListValue \<or> shaped_fields ts (list_value pv) 0 type"
| "well_shaped _ pv type \<longleftrightarrow> True"
| "shaped_fields [] pvs i type \<longleftrightarrow> True"
| "shaped_fields ((named, t) # ts) pvs i type \<longleftrightarrow>
     (case pvs of [] \<Rightarrow> False
      | e # pvs \<Rightarrow> (named \<longrightarrow> i < length (struct_fields type)) \<and> well_shaped t e type \<and>
          shaped_fields ts pvs (i + 1) type)"

lemma GetValue_defined:
  "well_shaped t pv type \<Longrightarrow> GetValue t pv type \<noteq> None"
  "list_all (\<lambda>e. well_shaped t e type) pvs \<Longrightarrow> GetElements t pvs type \<noteq> None"
  "shaped_fields ts pvs i type \<Longrightarrow> ExtractTupleValues ts pvs i type status \<noteq> None"
proof (induction t pv type and t pvs type and ts pvs i type status
    rule: GetValue_GetElements_ExtractTupleValues.induct)
  case (6 pv type)
  then show ?case using FromRFC3339_total [of "string_value_of pv"] by (auto simp: GetValue_timestamp_def)
next
  case (8 pv type)
  then show ?case by (auto simp: GetValue_date_def)
next
  case (11 ts pv type)
  then show ?case by (fastforce split: prod.splits)
next
  case (13 t e pvs type)
  then show ?case by (auto split: sum.splits)
next
  case (15 named t ts pvs i type status)
  then show ?case by (fastforce split: list.splits prod.splits sum.splits)
qed (auto simp: GetValue_bool_def GetValue_int64_def GetValue_double_def GetValue_string_def
    GetValue_bytes_def GetValue_commit_def)

section \<open>Printing a value\<close>

lemma PrintBytes_ok:
  assumes "bytes_ok b"
  shows "PrintBytes b \<noteq> None"
proof -
  obtain s where b: "b = Bytes s" by (cases b)
  then have "FromBase64_loop s = []"
    using assms by (auto simp: bytes_ok_def BytesFromBase64_def Let_def split: if_splits)
  then obtain bs where "s = encode bs" using FromBase64_loop_only_encode by blast
  then show ?thesis using b Bytes_get_encode [of bs] by (simp add: PrintBytes_def)
qed

declare StreamHelper.simps [simp del]

lemma StreamHelper_null: "StreamHelper show_double PNull type mode = Some ''NULL''"
  by (subst StreamHelper.simps) simp

lemma TypeProtoIs_cases:
  "TypeProtoIs CBool type \<longleftrightarrow> type = TBool" "TypeProtoIs CInt64 type \<longleftrightarrow> type = TInt64"
  "TypeProtoIs CDouble type \<longleftrightarrow> type = TFloat64" "TypeProtoIs CString type \<longleftrightarrow> type = TString"
  "TypeProtoIs CBytes type \<longleftrightarrow> type = TBytes" "TypeProtoIs CTimestamp type \<longleftrightarrow> type = TTimestamp"
  "TypeProtoIs CCommitTimestamp type \<longleftrightarrow> type = TTimestamp" "TypeProtoIs CDate type \<longleftrightarrow> type = TDate"
  "TypeProtoIs (CVector t) type \<longleftrightarrow> (\<exists>ety. type = TArray ety \<and> TypeProtoIs t ety)"
  "TypeProtoIs (CTuple ts) type \<longleftrightarrow>
     (\<exists>flds. type = TStruct flds \<and> length flds = length ts \<and> IsStructTypeProto ts flds)"
  by (cases type; simp)+

text \<open>The printer of a scalar, for the types whose text is made from the decoded value.\<close>

lemma StreamHelper_scalars:
  "in_int64 i \<Longrightarrow> MakeValueProto_int64 i = Some pv \<Longrightarrow> StreamHelper show_double pv TInt64 mode = Some (to_string i)"
  "\<not> is_nan d \<Longrightarrow> MakeValueProto_double d = Some pv \<Longrightarrow> StreamHelper show_double pv TFloat64 mode = Some (show_double d)"
  "bytes_ok b \<Longrightarrow> MakeValueProto_bytes b = Some pv \<Longrightarrow> StreamHelper show_double pv TBytes mode = PrintBytes b"
proof -
  show "in_int64 i \<Longrightarrow> MakeValueProto_int64 i = Some pv \<Longrightarrow>
      StreamHelper show_double pv TInt64 mode = Some (to_string i)"
    using int64_codec.get_put int64_codec.put_not_null by (subst StreamHelper.simps) auto
  show "\<not> is_nan d \<Longrightarrow> MakeValueProto_double d = Some pv \<Longrightarrow>
      StreamHelper show_double pv TFloat64 mode = Some (show_double d)"
    using double_codec.get_put double_codec.put_not_null by (subst StreamHelper.simps) auto
  show "bytes_ok b \<Longrightarrow> MakeValueProto_bytes b = Some pv \<Longrightarrow>
      StreamHelper show_double pv TBytes mode = PrintBytes b"
    by (subst StreamHelper.simps) (auto simp: MakeValueProto_bytes_def bytes_ok_def BytesToBase64_def)
qed

lemma StreamHelper_ok:
  "TypeProtoIs t type \<Longrightarrow> cval_ok t v \<Longrightarrow> MakeValueProto v = Some pv \<Longrightarrow>
    \<exists>s. StreamHelper show_double pv type mode = Some s"
  "IsStructTypeProto ts flds \<Longrightarrow> length flds = length ts \<Longrightarrow> fields_ok ts es \<Longrightarrow>
    AddStructValues es = Some pvs \<Longrightarrow> \<exists>s. Stream_fields show_double delimiter pvs flds = Some s"
proof (induction t v and ts es arbitrary: type pv mode and flds pvs delimiter
    rule: cval_ok_fields_ok.induct)
  case (2 v)
  then show ?case by (auto simp: TypeProtoIs_cases StreamHelper_scalars simp del: TypeProtoIs.simps split: cval.splits)
next
  case (3 v)
  then show ?case by (auto simp: TypeProtoIs_cases StreamHelper_scalars simp del: TypeProtoIs.simps split: cval.splits)
next
  case (5 v)
  then show ?case using PrintBytes_ok by (auto simp: TypeProtoIs_cases StreamHelper_scalars simp del: TypeProtoIs.simps split: cval.splits)
next
  case (9 t v)
  show ?case
  proof (cases "v = VOptional None")
    case True
    then show ?thesis using "9.prems" by (simp add: StreamHelper_null)
  next
    case False
    then obtain v' where "v = VOptional (Some v')" "cval_ok t v'"
      using "9.prems"(2) by (auto split: cval.splits option.splits)
    then show ?thesis using 9 by simp
  qed
next
  case (10 t v)
  then obtain vs ety pvs where vs: "v = VVector vs" "list_all (cval_ok t) vs" "type = TArray ety"
      "TypeProtoIs t ety" "MakeValueProtos vs = Some pvs" "pv = PList pvs"
    by (auto simp: TypeProtoIs_cases simp del: TypeProtoIs.simps split: cval.splits)
  have IH: "\<exists>s. StreamHelper show_double p ety kAggregate = Some s"
    if "e \<in> set vs" "MakeValueProto e = Some p" for e p
    using "10.IH" [OF vs(1) that(1) vs(4) _ that(2)] vs(2) that(1) by (auto simp: list_all_iff)
  have "\<exists>s. Stream_elements show_double delimiter pvs ety = Some s" for delimiter
    using vs(5) IH
  proof (induction vs arbitrary: pvs delimiter)
    case Nil
    then show ?case by simp
  next
    case (Cons e vs)
    then obtain p ps where p: "MakeValueProto e = Some p" "MakeValueProtos vs = Some ps" "pvs = p # ps"
      by (auto split: Option.bind_splits)
    obtain s where "StreamHelper show_double p ety kAggregate = Some s"
      using Cons.prems(2) [of e] p(1) by auto
    moreover have "\<exists>s. Stream_elements show_double '', '' ps ety = Some s"
    proof (rule Cons.IH [OF p(2)])
      fix e' p assume "e' \<in> set vs" "MakeValueProto e' = Some p"
      then show "\<exists>s. StreamHelper show_double p ety kAggregate = Some s"
        using Cons.prems(2) [of e' p] by simp
    qed
    ultimately show ?case using p(3) by auto
  qed
  then obtain s where "Stream_elements show_double [] pvs ety = Some s" by blast
  then show ?case by (subst StreamHelper.simps) (simp add: vs)
next
  case (11 ts v)
  then obtain es flds pvs where es: "v = VTuple es" "fields_ok ts es" "type = TStruct flds"
      "length flds = length ts" "IsStructTypeProto ts flds" "AddStructValues es = Some pvs" "pv = PList pvs"
    by (auto simp: TypeProtoIs_cases simp del: TypeProtoIs.simps split: cval.splits)
  then obtain s where "Stream_fields show_double [] pvs flds = Some s"
    using "11.IH" by blast
  then show ?case by (subst StreamHelper.simps) (simp add: es)
next
  case (13 named t ts es)
  then obtain name v es' where h: "es = (name, v) # es'" "cval_ok t v" "fields_ok ts es'"
    by (auto split: list.splits)
  obtain fname ety flds' where f: "flds = (fname, ety) # flds'" "TypeProtoIs t ety"
      "IsStructTypeProto ts flds'" "length flds' = length ts"
    using "13.prems"(1,2) by (cases flds) auto
  obtain p ps where p: "MakeValueProto v = Some p" "AddStructValues es' = Some ps" "pvs = p # ps"
    using "13.prems"(4) h(1) by (auto split: Option.bind_splits)
  obtain s where "StreamHelper show_double p ety kAggregate = Some s"
    using "13.IH"(1) [OF h(1) refl f(2) h(2) p(1)] by blast
  moreover obtain s' where "Stream_fields show_double '', '' ps flds' = Some s'"
    using "13.IH"(2) [OF h(1) refl f(3,4) h(3) p(2)] by blast
  ultimately show ?case using f(1) p(3) by simp
qed (auto simp: TypeProtoIs_cases MakeValueProto_bool_def MakeValueProto_string_def
    MakeValueProto_timestamp_def MakeValueProto_commit_def MakeValueProto_date_def
    StreamHelper.simps [of _ "PString _"] StreamHelper.simps [of _ "PBool _"]
    simp del: TypeProtoIs.simps split: cval.splits StreamMode.splits)

section \<open>Properties\<close>

text \<open>
  C12: A C++ value put into a \<open>Value\<close> is read back as it was, for every nesting of the supported types,
  arrays, structs and optionals, provided that (\<open>cval_ok\<close>) no \<open>double\<close> in it is a NaN, every timestamp
  is normalised and in the years of a 32-bit \<open>tm_year\<close>, every date is of the calendar (with a year 200
  million away from the ends of 64 bits), every integer has 64 bits and every \<open>Bytes\<close> is canonical
  base64, and (\<open>ctype_ok\<close>) names are used only where they are kept, by tuples that are not elements of
  a tuple and not in an \<open>optional\<close>, and no \<open>optional\<close> is directly in an \<open>optional\<close>. The encoding exists
  for every such value of a type without names.
\<close>

theorem value_round_trip:
  assumes "ctype_ok t" "cval_ok t v"
  shows "(name_free t \<longrightarrow> MakeValue t v \<noteq> None) \<and>
    (\<forall>x. MakeValue t v = Some x \<longrightarrow> Value_get t x = Some (Inr v))"
  using Value_get_MakeValue [OF assms] MakeTypeProto_name_free(1) [OF _ assms(2)]
    MakeValueProto_total(1) [OF assms(2)]
  by (auto simp: MakeValue_def)

theorem value_round_trip_witness:
  "Option.bind (MakeValue (CVector (CTuple [(True, CInt64), (False, COptional CString)]))
       (VVector [VTuple [(Some ''n'', VInt64 (- 5)), (None, VOptional (Some (VString ''x'')))]]))
     (Value_get (CVector (CTuple [(True, CInt64), (False, COptional CString)]))) =
   Some (Inr (VVector [VTuple [(Some ''n'', VInt64 (- 5)), (None, VOptional (Some (VString ''x'')))]]))"
proof -
  let ?t = "CVector (CTuple [(True, CInt64), (False, COptional CString)])"
  let ?v = "VVector [VTuple [(Some ''n'', VInt64 (- 5)), (None, VOptional (Some (VString ''x'')))]]"
  have ok: "ctype_ok ?t" "cval_ok ?t ?v" by (simp_all add: IsOptional_def in_int64_def)
  have "MakeValue ?t ?v \<noteq> None"
    by (simp add: MakeValue_def MakeValueProto_int64_def MakeValueProto_string_def)
  then show ?thesis using value_round_trip [OF ok] by auto
qed

text \<open>
  C35: Whatever \<open>Value\<close> it is given, \<open>get<T>\<close> yields the error "wrong type" if the types differ; if they
  agree, a value of the type asked for (a 64-bit integer, a timestamp with normalised nanoseconds,
  octets in canonical base64, a tuple with all its elements) or an error. It has a result for every
  value but one of the right type, not null, in which some struct value is too short for its tuple,
  some named element of a tuple has no field in the type that is looked at, or some date text has a
  number out of range: there the code is undefined.
\<close>

theorem value_get_typed:
  "case Value_get t x of
     None \<Rightarrow> TypeProtoIs t (value_type x) \<and> kind_of (value_proto x) \<noteq> kNullValue \<and>
       \<not> well_shaped t (value_proto x) (value_type x)
   | Some r \<Rightarrow> (\<not> TypeProtoIs t (value_type x) \<longrightarrow> r = Inl wrong_type) \<and> (\<forall>v. r = Inr v \<longrightarrow> has_ctype t v)"
proof (cases "Value_get t x")
  case None
  then show ?thesis
    using GetValue_defined(1) [of t "value_proto x" "value_type x"]
    by (auto simp: Value_get_def split: if_splits)
next
  case (Some r)
  then show ?thesis
    using GetValue_typed(1) [of t "value_proto x" "value_type x"] has_ctype_default(1) [of t]
    by (auto simp: Value_get_def split: if_splits)
qed

theorem value_get_typed_witness:
  "Value_get CInt64 (Value TInt64 (PString ''12'')) = Some (Inr (VInt64 12)) \<and> has_ctype CInt64 (VInt64 12) \<and>
   Value_get (CTuple [(False, CBool)]) (Value (TStruct [(''b'', TBool)]) (PList [])) = None \<and>
   \<not> well_shaped (CTuple [(False, CBool)]) (PList []) (TStruct [(''b'', TBool)])"
proof -
  have "GetValue_int64 (PString (to_string 12)) = Some (Inr 12)"
    by (rule GetValue_int64_to_string) (simp add: in_int64_def)
  moreover have "to_string 12 = ''12''" by (code_simp)
  ultimately have g: "Value_get CInt64 (Value TInt64 (PString ''12'')) = Some (Inr (VInt64 12))"
    by (simp add: Value_get_def)
  have n: "Value_get (CTuple [(False, CBool)]) (Value (TStruct [(''b'', TBool)]) (PList [])) = None"
    by (simp add: Value_get_def)
  show ?thesis
    using g n value_get_typed [of CInt64 "Value TInt64 (PString ''12'')"]
      value_get_typed [of "CTuple [(False, CBool)]" "Value (TStruct [(''b'', TBool)]) (PList [])"] by simp
qed

text \<open>
  Every value of a C++ type can be printed: whatever its nesting, no \<open>.value()\<close> in the printer
  throws and no field is looked up past the end.
\<close>

theorem value_prints:
  assumes "cval_ok t v" "MakeValue t v = Some x"
  shows "\<exists>s. PrintValue show_double x = Some s"
proof -
  obtain type pv where "MakeTypeProto t v = Some type" "MakeValueProto v = Some pv" "x = Value type pv"
    using assms(2) by (auto simp: MakeValue_def split: Option.bind_splits)
  then show ?thesis
    using StreamHelper_ok(1) [OF TypeProtoIs_MakeTypeProto(1) assms(1)] by (simp add: PrintValue_def)
qed

theorem value_prints_witness:
  "\<exists>s. PrintValue (\<lambda>_. ''1.5'') (Value (TArray TBytes) (PList [PString ''Zm8=''])) = Some s"
proof -
  have "BytesFromBase64 ''Zm8='' = Inr (Bytes ''Zm8='')" by code_simp
  then have ok: "cval_ok (CVector CBytes) (VVector [VBytes (Bytes ''Zm8='')])" by (simp add: bytes_ok_def)
  show ?thesis
    by (rule value_prints [OF ok]) (simp add: MakeValue_def MakeValueProto_bytes_def BytesToBase64_def)
qed

text \<open>
  Field names are not always kept: a struct that is a field of another struct is read back
  with the field names of the outer one, and a struct in an \<open>optional\<close> with empty names.
\<close>

theorem nested_field_names:
  "Option.bind (MakeValue (CTuple [(True, CTuple [(True, CString)])])
       (VTuple [(Some n, VTuple [(Some m, VString s)])]))
     (Value_get (CTuple [(True, CTuple [(True, CString)])])) =
   Some (Inr (VTuple [(Some n, VTuple [(Some n, VString s)])])) \<and>
   Option.bind (MakeValue (COptional (CTuple [(True, CString)]))
       (VOptional (Some (VTuple [(Some n, VString s)]))))
     (Value_get (COptional (CTuple [(True, CString)]))) =
   Some (Inr (VOptional (Some (VTuple [(Some [], VString s)]))))"
  by (simp add: MakeValue_def Value_get_def MakeValueProto_string_def GetValue_string_def)

text \<open>
  Equality compares the elements of two arrays at the element type of the first: arrays of
  structs that differ in their field names are equal, although the structs are not. And a null
  struct with fields is not equal to itself.
\<close>

theorem value_equality_of_structs:
  "Value_eq (Value (TArray (TStruct [(n, TString)])) (PList [PList [PString s]]))
     (Value (TArray (TStruct [(m, TString)])) (PList [PList [PString s]])) \<and>
   (Value_eq (Value (TStruct [(n, TString)]) (PList [PString s]))
     (Value (TStruct [(m, TString)]) (PList [PString s])) \<longleftrightarrow> n = m) \<and>
   MakeNullValue (CTuple [(False, CString)]) = Some (Value (TStruct [([], TString)]) PNull) \<and>
   \<not> Value_eq (Value (TStruct [([], TString)]) PNull) (Value (TStruct [([], TString)]) PNull)"
  by (simp add: Value_eq_def MakeNullValue_def MakeValue_def)

end
