(* ===== verification/Transactions.thy ===== *)
theory Transactions
  imports Session_Pool Timestamps
begin

text \<open>
  \<open>transaction.cc\<close>, \<open>transaction.h\<close>, \<open>internal/transaction_impl.h\<close> and \<open>internal/session.cc\<close>: the
  options and selectors of a transaction and \<open>TransactionImpl::Visit\<close>, once as a function for a
  single visitor and once as the relation of the steps that concurrent visitors take.
\<close>

section \<open>Options\<close>

text \<open>A \<open>protobuf::Duration\<close>; nanoseconds are cast to seconds towards zero.\<close>

datatype proto_duration = ProtoDuration (duration_seconds: int) (duration_nanos: int)

definition Duration_ToProto :: "int \<Rightarrow> proto_duration" where
  "Duration_ToProto ns =
     (let s = ns sdiv kNanosPerSecond;
          ns = ns - s * kNanosPerSecond
      in ProtoDuration s (to_int32 ns))"

datatype timestamp_bound =
    Strong | MinReadTimestamp proto_timestamp | MaxStaleness proto_duration
  | ReadTimestamp proto_timestamp | ExactStaleness proto_duration

record read_only_opts =
  ro_bound :: timestamp_bound
  return_read_timestamp :: bool

definition ReadOnlyOptions_strong :: read_only_opts where
  "ReadOnlyOptions_strong = \<lparr>ro_bound = Strong, return_read_timestamp = True\<rparr>"

definition ReadOnlyOptions_timestamp :: "timestamp \<Rightarrow> read_only_opts" where
  "ReadOnlyOptions_timestamp read_timestamp =
     \<lparr>ro_bound = ReadTimestamp (ToProto read_timestamp), return_read_timestamp = True\<rparr>"

definition ReadOnlyOptions_staleness :: "int \<Rightarrow> read_only_opts" where
  "ReadOnlyOptions_staleness exact_staleness =
     \<lparr>ro_bound = ExactStaleness (Duration_ToProto exact_staleness), return_read_timestamp = True\<rparr>"

definition SingleUseOptions_ro :: "read_only_opts \<Rightarrow> read_only_opts" where
  "SingleUseOptions_ro opts = opts"

definition SingleUseOptions_timestamp :: "timestamp \<Rightarrow> read_only_opts" where
  "SingleUseOptions_timestamp min_read_timestamp =
     \<lparr>ro_bound = MinReadTimestamp (ToProto min_read_timestamp), return_read_timestamp = True\<rparr>"

definition SingleUseOptions_staleness :: "int \<Rightarrow> read_only_opts" where
  "SingleUseOptions_staleness max_staleness =
     \<lparr>ro_bound = MaxStaleness (Duration_ToProto max_staleness), return_read_timestamp = True\<rparr>"

text \<open>\<open>TransactionOptions\<close>, one of two modes (\<open>MakeOpts\<close>) or partitioned DML, and \<open>TransactionSelector\<close>.\<close>

datatype transaction_options = ReadOnly read_only_opts | ReadWrite | PartitionedDml

datatype selector = SingleUse transaction_options | Id string | Begin transaction_options

fun has_begin :: "selector \<Rightarrow> bool" where
  "has_begin (Begin _) = True"
| "has_begin _ = False"

section \<open>The transaction\<close>

datatype txn_state = kBegin | kPending | kDone

record 'h transaction_impl =
  ti_state :: txn_state
  ti_session :: "'h option"
  ti_selector :: selector
  ti_seqno :: int

definition after_visit :: "selector \<Rightarrow> txn_state" where
  "after_visit sel = (if has_begin sel then kBegin else kDone)"

definition TransactionImpl :: "'h option \<Rightarrow> selector \<Rightarrow> 'h transaction_impl" where
  "TransactionImpl session sel =
     \<lparr>ti_state = after_visit sel, ti_session = session, ti_selector = sel, ti_seqno = 0\<rparr>"

definition Transaction_ReadOnly :: "read_only_opts \<Rightarrow> 'h transaction_impl" where
  "Transaction_ReadOnly opts = TransactionImpl None (Begin (ReadOnly opts))"

definition Transaction_ReadWrite :: "'h transaction_impl" where
  "Transaction_ReadWrite = TransactionImpl None (Begin ReadWrite)"

text \<open>A rerun takes over the session of the earlier attempt.\<close>

definition Transaction_rerun :: "'h transaction_impl \<Rightarrow> 'h transaction_impl" where
  "Transaction_rerun txn = TransactionImpl (ti_session txn) (Begin ReadWrite)"

definition Transaction_SingleUse :: "read_only_opts \<Rightarrow> 'h transaction_impl" where
  "Transaction_SingleUse opts = TransactionImpl None (SingleUse (ReadOnly opts))"

section \<open>Visiting\<close>

text \<open>
  The contract of a functor: it keeps a session it is given, and changes the selector at most to the
  id of a transaction it began, never from one id to another. The comment on \<open>Visit\<close> asks for more,
  that only a \<open>begin\<close> is changed; \<open>CommitImpl\<close> also turns a single-use selector into an id.
\<close>

definition visit_result :: "'h option \<Rightarrow> selector \<Rightarrow> 'h option \<Rightarrow> selector \<Rightarrow> bool" where
  "visit_result s sel s' sel' \<longleftrightarrow>
     (s \<noteq> None \<longrightarrow> s' = s) \<and> (sel' = sel \<or> (\<forall>i. sel \<noteq> Id i) \<and> (\<exists>i. sel' = Id i))"

locale visitor =
  fixes f :: "'h option \<Rightarrow> selector \<Rightarrow> int \<Rightarrow> 'w \<Rightarrow> ('a \<times> 'h option \<times> selector \<times> 'w) option"
  assumes contract: "f s sel n w = Some (r, s', sel', w') \<Longrightarrow> visit_result s sel s' sel'"

text \<open>
  \<open>Visit\<close> for one visitor: \<open>None\<close> when the functor does not return, or when another visitor is
  active, for which it would wait.
\<close>

definition Visit ::
    "('h option \<Rightarrow> selector \<Rightarrow> int \<Rightarrow> 'w \<Rightarrow> ('a \<times> 'h option \<times> selector \<times> 'w) option) \<Rightarrow>
     'h transaction_impl \<Rightarrow> 'w \<Rightarrow> ('a \<times> 'h transaction_impl \<times> 'w) option" where
  "Visit f t w =
     (let seqno = ti_seqno t + 1;
          t = t\<lparr>ti_seqno := seqno\<rparr>
      in case ti_state t of
           kPending \<Rightarrow> None
         | kDone \<Rightarrow>
             (case f (ti_session t) (ti_selector t) seqno w of
                None \<Rightarrow> None
              | Some (r, s, sel, w) \<Rightarrow> Some (r, t\<lparr>ti_session := s, ti_selector := sel\<rparr>, w))
         | kBegin \<Rightarrow>
             (case f (ti_session t) (ti_selector t) seqno w of
                None \<Rightarrow> None
              | Some (r, s, sel, w) \<Rightarrow>
                  Some (r, t\<lparr>ti_session := s, ti_selector := sel, ti_state := after_visit sel\<rparr>, w)))"

text \<open>
  Concurrent visitors. A visitor takes its number and tests the state in one critical section, and
  sleeps on the condition variable while another is pending; a visitor that was woken takes the
  mutex and tests again. Past the test (\<open>Admitted\<close>) the mutex is free: the functor reads the session
  and the selector (\<open>Running\<close>, with what it read) and writes those it changes when it returns, so
  that visitors of a transaction in \<open>kDone\<close> may overwrite each other. The flag tells whether the
  visitor has set \<open>kPending\<close>. Such a visitor sets the state under the mutex and notifies after it has
  released it (\<open>Notifying\<close>, all or one). \<open>visitors\<close> maps a thread to where it is.
\<close>

datatype 'h phase =
    Outside | Sleeping int | Woken int | Admitted int bool | Running int bool "'h option" selector
  | Notifying int bool | Returned int

record 'h visit_system =
  vs_txn :: "'h transaction_impl"
  visitors :: "nat \<Rightarrow> 'h phase"

definition visit_init :: "'h transaction_impl \<Rightarrow> 'h visit_system" where
  "visit_init t = \<lparr>vs_txn = t, visitors = (\<lambda>_. Outside)\<rparr>"

text \<open>The test of the state under the mutex, with the \<open>wait\<close> when it fails.\<close>

definition pass_wait :: "'h transaction_impl \<Rightarrow> int \<Rightarrow> 'h transaction_impl \<times> 'h phase" where
  "pass_wait t n =
     (case ti_state t of
        kPending \<Rightarrow> (t, Sleeping n)
      | kDone \<Rightarrow> (t, Admitted n False)
      | kBegin \<Rightarrow> (t\<lparr>ti_state := kPending\<rparr>, Admitted n True))"

definition wake_all :: "(nat \<Rightarrow> 'h phase) \<Rightarrow> nat \<Rightarrow> 'h phase" where
  "wake_all v = (\<lambda>j. case v j of Sleeping m \<Rightarrow> Woken m | ph \<Rightarrow> ph)"

text \<open>A functor leaves in place what it does not change.\<close>

definition written :: "'b \<Rightarrow> 'b \<Rightarrow> 'b \<Rightarrow> 'b" where
  "written old new now = (if new = old then now else new)"

definition functor_writes ::
    "'h option \<Rightarrow> selector \<Rightarrow> 'h option \<Rightarrow> selector \<Rightarrow> 'h transaction_impl \<Rightarrow> 'h transaction_impl" where
  "functor_writes s0 sel0 s sel t =
     t\<lparr>ti_session := written s0 s (ti_session t), ti_selector := written sel0 sel (ti_selector t)\<rparr>"

text \<open>
  The steps of the visitors that are inside. A functor that throws in \<open>kDone\<close> leaves as one that
  returns does.
\<close>

inductive visit_step :: "nat \<Rightarrow> 'h visit_system \<Rightarrow> 'h visit_system \<Rightarrow> bool" for i where
  wake: "v i = Woken n \<Longrightarrow> pass_wait t n = (t', ph) \<Longrightarrow>
    visit_step i \<lparr>vs_txn = t, visitors = v\<rparr> \<lparr>vs_txn = t', visitors = v(i := ph)\<rparr>"
| call: "v i = Admitted n b \<Longrightarrow>
    visit_step i \<lparr>vs_txn = t, visitors = v\<rparr>
      \<lparr>vs_txn = t, visitors = v(i := Running n b (ti_session t) (ti_selector t))\<rparr>"
| return_done: "v i = Running n False s0 sel0 \<Longrightarrow> visit_result s0 sel0 s sel \<Longrightarrow>
    visit_step i \<lparr>vs_txn = t, visitors = v\<rparr>
      \<lparr>vs_txn = functor_writes s0 sel0 s sel t, visitors = v(i := Returned n)\<rparr>"
| return_begin: "v i = Running n True s0 sel0 \<Longrightarrow> visit_result s0 sel0 s sel \<Longrightarrow>
    t' = functor_writes s0 sel0 s sel t \<Longrightarrow> st = after_visit (ti_selector t') \<Longrightarrow>
    visit_step i \<lparr>vs_txn = t, visitors = v\<rparr>
      \<lparr>vs_txn = t'\<lparr>ti_state := st\<rparr>, visitors = v(i := Notifying n (st = kDone))\<rparr>"
| throw_begin: "v i = Running n True s0 sel0 \<Longrightarrow> visit_result s0 sel0 s sel \<Longrightarrow>
    visit_step i \<lparr>vs_txn = t, visitors = v\<rparr>
      \<lparr>vs_txn = (functor_writes s0 sel0 s sel t)\<lparr>ti_state := kBegin\<rparr>,
       visitors = v(i := Notifying n False)\<rparr>"
| notify_all: "v i = Notifying n True \<Longrightarrow>
    visit_step i \<lparr>vs_txn = t, visitors = v\<rparr> \<lparr>vs_txn = t, visitors = (wake_all v)(i := Returned n)\<rparr>"
| notify_one: "v i = Notifying n False \<Longrightarrow> v j = Sleeping m \<Longrightarrow>
    visit_step i \<lparr>vs_txn = t, visitors = v\<rparr> \<lparr>vs_txn = t, visitors = v(j := Woken m, i := Returned n)\<rparr>"
| notify_none: "v i = Notifying n False \<Longrightarrow> \<forall>j m. v j \<noteq> Sleeping m \<Longrightarrow>
    visit_step i \<lparr>vs_txn = t, visitors = v\<rparr> \<lparr>vs_txn = t, visitors = v(i := Returned n)\<rparr>"

text \<open>The steps from outside: a new visit, a thread that can visit again, a spurious wake-up.\<close>

inductive outer_step :: "nat \<Rightarrow> 'h visit_system \<Rightarrow> 'h visit_system \<Rightarrow> bool" for i where
  enter: "v i = Outside \<Longrightarrow> n = ti_seqno t + 1 \<Longrightarrow> pass_wait (t\<lparr>ti_seqno := n\<rparr>) n = (t', ph) \<Longrightarrow>
    outer_step i \<lparr>vs_txn = t, visitors = v\<rparr> \<lparr>vs_txn = t', visitors = v(i := ph)\<rparr>"
| again: "v i = Returned n \<Longrightarrow>
    outer_step i \<lparr>vs_txn = t, visitors = v\<rparr> \<lparr>vs_txn = t, visitors = v(i := Outside)\<rparr>"
| spurious: "v i = Sleeping n \<Longrightarrow>
    outer_step i \<lparr>vs_txn = t, visitors = v\<rparr> \<lparr>vs_txn = t, visitors = v(i := Woken n)\<rparr>"

definition visit_inside :: "'h visit_system \<Rightarrow> 'h visit_system \<Rightarrow> bool" where
  "visit_inside y z \<longleftrightarrow> (\<exists>i. visit_step i y z)"

definition visit_next :: "'h visit_system \<Rightarrow> 'h visit_system \<Rightarrow> bool" where
  "visit_next y z \<longleftrightarrow> (\<exists>i. visit_step i y z \<or> outer_step i y z)"

lemma visit_inside_next: "visit_inside\<^sup>*\<^sup>* y z \<Longrightarrow> visit_next\<^sup>*\<^sup>* y z"
  by (rule rtranclp_mono [THEN predicate2D]) (auto simp: visit_inside_def visit_next_def)

fun active_seqno :: "'h phase \<Rightarrow> int option" where
  "active_seqno Outside = None"
| "active_seqno (Sleeping n) = Some n"
| "active_seqno (Woken n) = Some n"
| "active_seqno (Admitted n _) = Some n"
| "active_seqno (Running n _ _ _) = Some n"
| "active_seqno (Notifying n _) = Some n"
| "active_seqno (Returned n) = Some n"

text \<open>A visitor past the test that has set \<open>kPending\<close>, and one that found \<open>kDone\<close>.\<close>

fun alone :: "'h phase \<Rightarrow> bool" where
  "alone (Admitted _ b) = b"
| "alone (Running _ b _ _) = b"
| "alone _ = False"

fun beside :: "'h phase \<Rightarrow> bool" where
  "beside (Admitted _ b) = (\<not> b)"
| "beside (Running _ b _ _) = (\<not> b)"
| "beside _ = False"

fun is_sleeping :: "'h phase \<Rightarrow> bool" where
  "is_sleeping (Sleeping _) = True"
| "is_sleeping _ = False"

fun is_woken :: "'h phase \<Rightarrow> bool" where
  "is_woken (Woken _) = True"
| "is_woken _ = False"

fun notifies :: "'h phase \<Rightarrow> bool" where
  "notifies (Notifying _ _) = True"
| "notifies _ = False"

fun notifies_all :: "'h phase \<Rightarrow> bool" where
  "notifies_all (Notifying _ b) = b"
| "notifies_all _ = False"

text \<open>What a functor that runs has read agrees with the transaction.\<close>

fun seen_ok :: "'h transaction_impl \<Rightarrow> 'h phase \<Rightarrow> bool" where
  "seen_ok t (Running _ True s sel) \<longleftrightarrow> s = ti_session t \<and> sel = ti_selector t"
| "seen_ok t (Running _ False _ sel) \<longleftrightarrow> \<not> has_begin sel"
| "seen_ok _ _ \<longleftrightarrow> True"

section \<open>The invariant of concurrent visits\<close>

definition numbered :: "(nat \<Rightarrow> 'h phase) \<Rightarrow> int \<Rightarrow> bool" where
  "numbered v q \<longleftrightarrow> 0 \<le> q \<and>
     (\<forall>i n. active_seqno (v i) = Some n \<longrightarrow> 0 < n \<and> n \<le> q) \<and>
     (\<forall>i j n. active_seqno (v i) = Some n \<longrightarrow> active_seqno (v j) = Some n \<longrightarrow> i = j)"

definition exclusive :: "(nat \<Rightarrow> 'h phase) \<Rightarrow> txn_state \<Rightarrow> bool" where
  "exclusive v st \<longleftrightarrow>
     (\<forall>i j. alone (v i) \<longrightarrow> alone (v j) \<longrightarrow> i = j) \<and>
     (st = kPending \<longleftrightarrow> (\<exists>i. alone (v i))) \<and>
     (\<forall>i. beside (v i) \<longrightarrow> st = kDone)"

text \<open>No wake-up is lost: whoever sleeps is owed one by a visitor that is pending or notifies, or by one
  that was woken and will be pending.\<close>

fun rouses :: "txn_state \<Rightarrow> 'h phase \<Rightarrow> bool" where
  "rouses kBegin ph \<longleftrightarrow> notifies ph \<or> is_woken ph"
| "rouses kDone ph \<longleftrightarrow> notifies_all ph"
| "rouses kPending _ \<longleftrightarrow> False"

definition roused :: "(nat \<Rightarrow> 'h phase) \<Rightarrow> txn_state \<Rightarrow> bool" where
  "roused v st \<longleftrightarrow> st = kPending \<or> (\<forall>i. \<not> is_sleeping (v i)) \<or> (\<exists>j. rouses st (v j))"

definition visit_inv :: "'h visit_system \<Rightarrow> bool" where
  "visit_inv y \<longleftrightarrow> numbered (visitors y) (ti_seqno (vs_txn y)) \<and>
     exclusive (visitors y) (ti_state (vs_txn y)) \<and>
     (\<forall>i. seen_ok (vs_txn y) (visitors y i)) \<and>
     roused (visitors y) (ti_state (vs_txn y)) \<and>
     (ti_state (vs_txn y) = kDone \<longrightarrow> \<not> has_begin (ti_selector (vs_txn y)))"

lemma pass_wait_cases:
  assumes "pass_wait t n = (t', ph)"
  obtains "ti_state t = kPending" "t' = t" "ph = Sleeping n"
  | "ti_state t = kDone" "t' = t" "ph = Admitted n False"
  | "ti_state t = kBegin" "t' = t\<lparr>ti_state := kPending\<rparr>" "ph = Admitted n True"
  using assms by (auto simp: pass_wait_def split: txn_state.splits)

lemma pass_wait_keeps:
  "pass_wait t n = (t', ph) \<Longrightarrow> ti_session t' = ti_session t \<and> ti_selector t' = ti_selector t \<and>
     ti_seqno t' = ti_seqno t \<and> active_seqno ph = Some n \<and> seen_ok t'' ph"
  by (auto elim!: pass_wait_cases)

lemma functor_writes_sel [simp]:
  "ti_state (functor_writes s0 sel0 s sel t) = ti_state t"
  "ti_seqno (functor_writes s0 sel0 s sel t) = ti_seqno t"
  "ti_session (functor_writes s0 sel0 s sel t) = written s0 s (ti_session t)"
  "ti_selector (functor_writes s0 sel0 s sel t) = written sel0 sel (ti_selector t)"
  by (simp_all add: functor_writes_def)

lemma written_own [simp]: "written old new old = new" "written old old now = now"
  by (simp_all add: written_def)

lemma wake_all_same [simp]:
  "active_seqno (wake_all v j) = active_seqno (v j)" "alone (wake_all v j) = alone (v j)"
  "beside (wake_all v j) = beside (v j)" "notifies_all (wake_all v j) = notifies_all (v j)"
  "seen_ok t (wake_all v j) = seen_ok t (v j)" "wake_all v j = Outside \<longleftrightarrow> v j = Outside"
  by (cases "v j"; simp add: wake_all_def)+

lemma wake_all_awake [simp]: "\<not> is_sleeping (wake_all v j)"
  by (cases "v j") (simp_all add: wake_all_def)

lemma after_visit_simps [simp]:
  "after_visit sel \<noteq> kPending" "after_visit sel = kDone \<longleftrightarrow> \<not> has_begin sel"
  "after_visit sel = kBegin \<longleftrightarrow> has_begin sel"
  by (simp_all add: after_visit_def)

lemma visit_result_keeps_id:
  "visit_result s sel s' sel' \<Longrightarrow> \<not> has_begin sel \<Longrightarrow> \<not> has_begin sel'"
  by (auto simp: visit_result_def)

lemma written_keeps_id:
  "visit_result s0 sel0 s sel \<Longrightarrow> \<not> has_begin now \<Longrightarrow> \<not> has_begin (written sel0 sel now)"
  by (auto simp: visit_result_def written_def)

lemma visit_step_seqno:
  assumes "visit_step i y z"
  shows "active_seqno (visitors z j) = active_seqno (visitors y j) \<and>
    ti_seqno (vs_txn z) = ti_seqno (vs_txn y) \<and> (visitors z j = Outside \<longleftrightarrow> visitors y j = Outside)"
  using assms
  by (induction rule: visit_step.induct) (auto elim!: pass_wait_cases)

lemma numbered_same:
  "(\<And>j. active_seqno (v' j) = active_seqno (v j)) \<Longrightarrow> numbered v' q = numbered v q"
  unfolding numbered_def by simp

lemma numbered_enter:
  assumes "numbered v q" "active_seqno ph = Some (q + 1)"
  shows "numbered (v(i := ph)) (q + 1)"
  using assms unfolding numbered_def by (auto split: if_splits; force)

lemma numbered_leave:
  assumes "numbered v q"
  shows "numbered (v(i := Outside)) q"
  using assms unfolding numbered_def by (auto split: if_splits)

lemma exclusive_same:
  "(\<And>j. alone (v' j) = alone (v j)) \<Longrightarrow> (\<And>j. beside (v' j) = beside (v j)) \<Longrightarrow>
     exclusive v' st = exclusive v st"
  unfolding exclusive_def by simp

lemma exclusive_pass:
  assumes "exclusive v (ti_state t)" "\<not> alone (v i)" "\<not> beside (v i)" "pass_wait t n = (t', ph)"
  shows "exclusive (v(i := ph)) (ti_state t')"
  using assms(4)
proof (cases rule: pass_wait_cases)
  case 1
  with assms(1-3) show ?thesis by (subst exclusive_same [of _ v]) auto
next
  case 2
  with assms(1-3) show ?thesis unfolding exclusive_def by auto
next
  case 3
  with assms(1-3) show ?thesis unfolding exclusive_def by auto
qed

lemma exclusive_end:
  assumes "exclusive v st" "alone (v i)" "st' \<noteq> kPending" "\<not> alone ph" "\<not> beside ph"
  shows "exclusive (v(i := ph)) st'"
proof -
  have "st = kPending" using assms(1,2) unfolding exclusive_def by blast
  with assms show ?thesis unfolding exclusive_def by auto
qed

lemma exclusive_leave:
  "exclusive v st \<Longrightarrow> beside (v i) \<Longrightarrow> \<not> alone ph \<Longrightarrow> \<not> beside ph \<Longrightarrow> exclusive (v(i := ph)) st"
  unfolding exclusive_def by (metis fun_upd_apply txn_state.distinct(5))

lemma exclusiveD:
  assumes "exclusive v st"
  shows "alone (v i) \<Longrightarrow> st = kPending" "alone (v i) \<Longrightarrow> j \<noteq> i \<Longrightarrow> \<not> alone (v j)"
    "beside (v i) \<Longrightarrow> st = kDone" "st = kPending \<Longrightarrow> \<exists>j. alone (v j)"
    "beside (v i) \<Longrightarrow> \<not> alone (v j)" "alone (v i) \<Longrightarrow> \<not> beside (v j)"
  using assms unfolding exclusive_def by (blast, blast, blast, blast, metis txn_state.distinct(5), metis txn_state.distinct(5))

lemma seen_ok_idle: "\<not> alone ph \<Longrightarrow> seen_ok t ph \<Longrightarrow> seen_ok t' ph"
  by (cases "(t, ph)" rule: seen_ok.cases) auto

lemma seen_ok_frame:
  "ti_session t' = ti_session t \<Longrightarrow> ti_selector t' = ti_selector t \<Longrightarrow> seen_ok t' ph = seen_ok t ph"
  by (cases "(t, ph)" rule: seen_ok.cases) auto

lemma rouses_idle: "\<not> notifies ph \<Longrightarrow> \<not> is_woken ph \<Longrightarrow> \<not> rouses st ph"
  by (cases "(st, ph)" rule: rouses.cases; cases ph) auto

lemma rouses_not_sleeping: "rouses st ph \<Longrightarrow> \<not> is_sleeping ph"
  by (cases "(st, ph)" rule: rouses.cases; cases ph) auto

lemma roused_awake:
  assumes "roused v st" "\<not> is_sleeping ph" "\<not> rouses st (v i)"
  shows "roused (v(i := ph)) st"
proof -
  have same: "rouses st ((v(i := ph)) k)" if "rouses st (v k)" for k
    using that assms(3) by (cases "k = i") simp_all
  have "is_sleeping (v k)" if "is_sleeping ((v(i := ph)) k)" for k
    using that assms(2) by (cases "k = i") simp_all
  then show ?thesis using assms(1) same unfolding roused_def by blast
qed

lemma roused_by: "rouses st ph \<Longrightarrow> roused (v(i := ph)) st"
  unfolding roused_def by (intro disjI2 exI [of _ i]) simp

lemma roused_pass:
  assumes "roused v (ti_state t)" "\<not> notifies (v i)" "pass_wait t n = (t', ph)"
  shows "roused (v(i := ph)) (ti_state t')"
  using assms(3)
proof (cases rule: pass_wait_cases)
  case 2
  have "\<not> notifies_all (v i)" using assms(2) by (cases "v i") auto
  with 2 assms(1) show ?thesis by (simp add: roused_awake)
qed (simp_all add: roused_def)

lemma roused_notifying:
  "st \<noteq> kPending \<Longrightarrow> b \<or> st = kBegin \<Longrightarrow> roused (v(i := Notifying n b)) st"
  by (rule roused_by) (cases st; simp)

lemma roused_quiet: "\<forall>j. \<not> is_sleeping (v j) \<Longrightarrow> roused v st"
  unfolding roused_def by blast

lemma roused_woken:
  assumes "roused v st" "v j = Sleeping m"
  shows "roused (v(j := Woken m)) st"
proof (cases st)
  case kDone
  with assms show ?thesis by (simp add: roused_awake)
next
  case kBegin
  then show ?thesis by (simp add: roused_by)
qed (simp add: roused_def)

lemma roused_leave: "roused v st \<Longrightarrow> v i = Returned n \<Longrightarrow> roused (v(i := Outside)) st"
  by (rule roused_awake) (simp_all add: rouses_idle)

lemma sleeping_iff: "is_sleeping ph \<longleftrightarrow> (\<exists>m. ph = Sleeping m)"
  by (cases ph) auto

lemma visit_inv_init:
  "ti_seqno t = 0 \<Longrightarrow> ti_state t = after_visit (ti_selector t) \<Longrightarrow> visit_inv (visit_init t)"
  by (simp add: visit_inv_def visit_init_def numbered_def exclusive_def roused_def)

lemma roused_step:
  assumes "visit_step i y z" "roused (visitors y) (ti_state (vs_txn y))"
  shows "roused (visitors z) (ti_state (vs_txn z))"
  using assms
proof (induction rule: visit_step.induct)
  case wake
  then show ?case by (simp add: roused_pass del: fun_upd_apply)
next
  case (return_begin v n s0 sel0 s sel t' t st)
  then show ?case by (simp add: roused_notifying del: fun_upd_apply)
next
  case notify_all
  then show ?case by (simp add: roused_quiet)
next
  case (notify_one v n j m t)
  then have ij: "i \<noteq> j" by auto
  have w: "roused (v(j := Woken m)) (ti_state t)" using notify_one by (simp add: roused_woken)
  show ?case
  proof (cases "ti_state t")
    case kDone
    then have "roused (v(j := Woken m, i := Returned n)) (ti_state t)"
      using ij notify_one(1) by (intro roused_awake [OF w]) (simp_all add: kDone)
    then show ?thesis by (simp del: fun_upd_apply)
  next
    case kBegin
    have "rouses kBegin ((v(j := Woken m, i := Returned n)) j)" using ij by simp
    with kBegin have "roused (v(j := Woken m, i := Returned n)) (ti_state t)"
      unfolding roused_def by (intro disjI2 exI [of _ j]) simp
    then show ?thesis by (simp del: fun_upd_apply)
  qed (simp add: roused_def)
next
  case notify_none
  then show ?case by (simp add: roused_quiet sleeping_iff)
next
  case (call v n b t)
  then have "roused (v(i := Running n b (ti_session t) (ti_selector t))) (ti_state t)"
    by (intro roused_awake) (simp_all add: rouses_idle)
  then show ?case by (simp del: fun_upd_apply)
next
  case (return_done v n s0 sel0 s sel t)
  then have "roused (v(i := Returned n)) (ti_state t)"
    by (intro roused_awake) (simp_all add: rouses_idle)
  then show ?case by (simp del: fun_upd_apply)
next
  case throw_begin
  then show ?case by (simp add: roused_notifying del: fun_upd_apply)
qed

lemma exclusive_step:
  assumes "visit_step i y z" "exclusive (visitors y) (ti_state (vs_txn y))"
  shows "exclusive (visitors z) (ti_state (vs_txn z))"
  using assms
proof (induction rule: visit_step.induct)
  case wake
  then show ?case by (simp add: exclusive_pass del: fun_upd_apply)
next
  case (call v n b t)
  then show ?case by (subst exclusive_same [of _ v]) auto
next
  case return_done
  then show ?case by (simp add: exclusive_leave del: fun_upd_apply)
next
  case return_begin
  then show ?case by (simp add: exclusive_end del: fun_upd_apply)
next
  case throw_begin
  then show ?case by (simp add: exclusive_end del: fun_upd_apply)
next
  case (notify_all v n t)
  then show ?case by (subst exclusive_same [of _ v]) auto
next
  case (notify_one v n j m t)
  then show ?case by (subst exclusive_same [of _ v]) auto
next
  case (notify_none v n t)
  then show ?case by (subst exclusive_same [of _ v]) auto
qed

lemma seen_step:
  assumes "visit_step i y z" "visit_inv y"
  shows "(\<forall>j. seen_ok (vs_txn z) (visitors z j)) \<and>
    (ti_state (vs_txn z) = kDone \<longrightarrow> \<not> has_begin (ti_selector (vs_txn z)))"
  using assms
proof (induction rule: visit_step.induct)
  case (wake v n t t' ph)
  then show ?case
    using seen_ok_frame [of t' t] pass_wait_keeps [of t n t' ph t']
    by (auto simp: visit_inv_def elim!: pass_wait_cases)
next
  case (call v n b t)
  then have "\<not> b \<Longrightarrow> ti_state t = kDone"
    using exclusiveD(3) [of v "ti_state t" i] by (simp add: visit_inv_def)
  with call show ?case by (cases b) (auto simp: visit_inv_def)
next
  case (return_done v n s0 sel0 s sel t)
  then have "ti_state t = kDone" "\<And>j. \<not> alone (v j)"
    using exclusiveD(3,5) [of v "ti_state t" i] by (simp_all add: visit_inv_def)
  with return_done show ?case
    by (auto simp: visit_inv_def written_keeps_id intro: seen_ok_idle)
next
  case (return_begin v n s0 sel0 s sel t' t st)
  then have "j \<noteq> i \<Longrightarrow> \<not> alone (v j)" for j
    using exclusiveD(2) [of v "ti_state t" i] by (simp add: visit_inv_def)
  with return_begin show ?case by (auto simp: visit_inv_def intro: seen_ok_idle)
next
  case (throw_begin v n s0 sel0 s sel t)
  then have "j \<noteq> i \<Longrightarrow> \<not> alone (v j)" for j
    using exclusiveD(2) [of v "ti_state t" i] by (simp add: visit_inv_def)
  with throw_begin show ?case by (auto simp: visit_inv_def intro: seen_ok_idle)
qed (auto simp: visit_inv_def)

lemma visit_inv_step:
  assumes "visit_step i y z" "visit_inv y"
  shows "visit_inv z"
proof -
  have "numbered (visitors z) (ti_seqno (vs_txn z))"
    using assms(2) visit_step_seqno [OF assms(1)] numbered_same [of "visitors z" "visitors y"]
    by (simp add: visit_inv_def)
  then show ?thesis
    using assms(2) roused_step [OF assms(1)] exclusive_step [OF assms(1)] seen_step [OF assms]
    by (simp add: visit_inv_def)
qed

lemma visit_inv_outer:
  assumes "outer_step i y z" "visit_inv y"
  shows "visit_inv z"
  using assms
proof (induction rule: outer_step.induct)
  case (enter v n t t' ph)
  then have k: "ti_session t' = ti_session t" "ti_selector t' = ti_selector t" "ti_seqno t' = n"
    "active_seqno ph = Some n" "seen_ok t' ph"
    using pass_wait_keeps [OF enter(3), of t'] by simp_all
  let ?t = "t\<lparr>ti_seqno := n\<rparr>"
  have "exclusive (v(i := ph)) (ti_state t')"
    using enter by (intro exclusive_pass [of _ ?t]) (simp_all add: visit_inv_def)
  moreover have "roused (v(i := ph)) (ti_state t')"
    using enter by (intro roused_pass [of _ ?t]) (simp_all add: visit_inv_def)
  moreover have "numbered (v(i := ph)) (ti_seqno t')"
    using enter k numbered_enter [of v "ti_seqno t" ph i] by (simp add: visit_inv_def)
  moreover have "ti_state t' = kDone \<longrightarrow> ti_state t = kDone"
    using enter(3) by (auto elim!: pass_wait_cases)
  ultimately show ?case using enter k seen_ok_frame [of t' t] by (simp add: visit_inv_def)
next
  case (again v n t)
  then have "exclusive (v(i := Outside)) (ti_state t)"
    by (subst exclusive_same [of _ v]) (auto simp: visit_inv_def)
  moreover have "seen_ok t ((v(i := Outside)) j)" for j using again by (simp add: visit_inv_def)
  ultimately show ?case
    using again by (simp add: visit_inv_def numbered_leave roused_leave del: fun_upd_apply)
next
  case (spurious v n t)
  then have "exclusive (v(i := Woken n)) (ti_state t)" "numbered (v(i := Woken n)) (ti_seqno t)"
    by (subst exclusive_same [of _ v] numbered_same [of _ v]; auto simp: visit_inv_def)+
  moreover have "roused (v(i := Woken n)) (ti_state t)"
    using spurious by (simp add: visit_inv_def roused_woken del: fun_upd_apply)
  ultimately show ?case using spurious by (simp add: visit_inv_def)
qed

lemma visit_inv_reachable:
  "visit_next\<^sup>*\<^sup>* (visit_init (TransactionImpl s sel)) y \<Longrightarrow> visit_inv y"
  by (induction rule: rtranclp_induct)
    (auto simp: visit_next_def TransactionImpl_def intro: visit_inv_init visit_inv_step visit_inv_outer)

section \<open>Identity of a transaction that is not single-use\<close>

text \<open>
  Every functor that runs has read the selector that is there, and a session that was there from the
  start: nothing that two visitors beside each other write can get lost.
\<close>

definition same_selector :: "'h visit_system \<Rightarrow> bool" where
  "same_selector y \<longleftrightarrow> (\<forall>opts. ti_selector (vs_txn y) \<noteq> SingleUse opts) \<and>
     (\<forall>i n b s sel. visitors y i = Running n b s sel \<longrightarrow> sel = ti_selector (vs_txn y))"

definition same_session :: "'h \<Rightarrow> 'h visit_system \<Rightarrow> bool" where
  "same_session h y \<longleftrightarrow> ti_session (vs_txn y) = Some h \<and>
     (\<forall>i n b s sel. visitors y i = Running n b s sel \<longrightarrow> s = Some h)"

lemma same_selectorD:
  "same_selector y \<Longrightarrow> visitors y i = Running n b s sel \<Longrightarrow> sel = ti_selector (vs_txn y)"
  "same_selector y \<Longrightarrow> ti_selector (vs_txn y) \<noteq> SingleUse opts"
  unfolding same_selector_def by blast+

lemma wake_all_running [simp]: "wake_all v j = Running n b s sel \<longleftrightarrow> v j = Running n b s sel"
  by (cases "v j") (simp_all add: wake_all_def)

lemma pass_wait_not_running: "pass_wait t n = (t', ph) \<Longrightarrow> ph \<noteq> Running m b s sel"
  by (auto elim: pass_wait_cases)

lemma same_selectorI:
  "(\<And>opts. ti_selector t \<noteq> SingleUse opts) \<Longrightarrow>
   (\<And>j m b s sel. v j = Running m b s sel \<Longrightarrow> sel = ti_selector t) \<Longrightarrow>
     same_selector \<lparr>vs_txn = t, visitors = v\<rparr>"
  unfolding same_selector_def by simp

lemma same_selector_alone:
  assumes "same_selector \<lparr>vs_txn = t, visitors = v\<rparr>" "exclusive v st"
    and "v i = Running n True s0 sel0" "visit_result s0 sel0 s sel"
    and "ti_selector t' = written sel0 sel (ti_selector t)"
  shows "same_selector \<lparr>vs_txn = t', visitors = v(i := Notifying m b)\<rparr> \<and>
    (ti_selector t = Id x \<longrightarrow> ti_selector t' = Id x)"
proof -
  have "sel0 = ti_selector t" using same_selectorD(1) [OF assms(1), of i] assms(3) by simp
  then have t': "ti_selector t' = sel" using assms(5) by simp
  have vr: "sel = ti_selector t \<or> (\<forall>y. ti_selector t \<noteq> Id y) \<and> (\<exists>y. sel = Id y)"
    using assms(4) \<open>sel0 = ti_selector t\<close> by (simp add: visit_result_def)
  have "\<not> alone (v j) \<and> \<not> beside (v j)" if "j \<noteq> i" for j
    using exclusiveD(2,6) [OF assms(2), of i j] that assms(3) by simp
  then have "v j \<noteq> Running m b s sel" if "j \<noteq> i" for j m b s sel using that by fastforce
  moreover have "sel \<noteq> SingleUse opts" for opts
    using vr same_selectorD(2) [OF assms(1), of opts] by auto
  ultimately have "same_selector \<lparr>vs_txn = t', visitors = v(i := Notifying m b)\<rparr>"
    using t' by (intro same_selectorI) (auto split: if_splits)
  with t' vr show ?thesis by auto
qed

lemma same_selector_beside:
  assumes "same_selector \<lparr>vs_txn = t, visitors = v\<rparr>" "visit_inv \<lparr>vs_txn = t, visitors = v\<rparr>"
    and "v i = Running n False s0 sel0" "visit_result s0 sel0 s sel"
  shows "written sel0 sel (ti_selector t) = ti_selector t"
proof -
  have eq: "sel0 = ti_selector t" using same_selectorD(1) [OF assms(1), of i] assms(3) by auto
  have "ti_state t = kDone" using exclusiveD(3) [of v "ti_state t" i] assms(2,3) by (simp add: visit_inv_def)
  then have "\<not> has_begin sel0" using assms(2) eq by (simp add: visit_inv_def)
  moreover have "sel0 \<noteq> SingleUse opts" for opts using same_selectorD(2) [OF assms(1), of opts] eq by simp
  ultimately obtain x where "sel0 = Id x" by (cases sel0) auto
  with assms(4) have "sel = sel0" by (auto simp: visit_result_def)
  then show ?thesis by simp
qed

lemma same_selector_step:
  assumes "visit_step i y z" "visit_inv y" "same_selector y"
  shows "same_selector z \<and> (ti_selector (vs_txn y) = Id x \<longrightarrow> ti_selector (vs_txn z) = Id x)"
  using assms
proof (induction rule: visit_step.induct)
  case (wake v n t t' ph)
  then show ?case
    using pass_wait_keeps [OF wake(2)] pass_wait_not_running [OF wake(2)] by (auto simp: same_selector_def)
next
  case (return_done v n s0 sel0 s sel t)
  have keep: "ti_selector (functor_writes s0 sel0 s sel t) = ti_selector t"
    unfolding functor_writes_sel by (rule same_selector_beside [OF return_done(4,3,1,2)])
  have "sel' = ti_selector t" if "v j = Running m b s' sel'" for j m b s' sel'
    using same_selectorD(1) [OF return_done(4), of j] that by simp
  then have "same_selector \<lparr>vs_txn = functor_writes s0 sel0 s sel t, visitors = v(i := Returned n)\<rparr>"
    using same_selectorD(2) [OF return_done(4)]
    by (intro same_selectorI; simp only: keep) (auto split: if_splits)
  then show ?case by (simp only: visit_system.simps keep simp_thms)
next
  case (return_begin v n s0 sel0 s sel t' t st)
  then show ?case
    using same_selector_alone [OF return_begin(6) _ return_begin(1,2), of "ti_state t" "t'\<lparr>ti_state := st\<rparr>"]
    by (simp add: visit_inv_def del: fun_upd_apply)
next
  case (throw_begin v n s0 sel0 s sel t)
  then show ?case
    using same_selector_alone [OF throw_begin(4) _ throw_begin(1,2), of "ti_state t"
        "(functor_writes s0 sel0 s sel t)\<lparr>ti_state := kBegin\<rparr>"]
    by (simp add: visit_inv_def del: fun_upd_apply)
qed (auto simp: same_selector_def split: if_splits)

lemma same_selector_outer:
  assumes "outer_step i y z" "same_selector y"
  shows "same_selector z \<and> ti_selector (vs_txn z) = ti_selector (vs_txn y)"
  using assms
proof (induction rule: outer_step.induct)
  case (enter v n t t' ph)
  then show ?case
    using pass_wait_keeps [OF enter(3)] pass_wait_not_running [OF enter(3)] by (auto simp: same_selector_def)
qed (auto simp: same_selector_def)

lemma same_session_written:
  assumes "same_session h y" "visitors y i = Running n b s0 sel0" "visit_result s0 sel0 s sel"
  shows "written s0 s (ti_session (vs_txn y)) = Some h"
proof -
  have "s0 = Some h" "ti_session (vs_txn y) = Some h" using assms(1,2) unfolding same_session_def by blast+
  with assms(3) show ?thesis by (simp add: visit_result_def)
qed

lemma same_session_step:
  assumes "visit_step i y z" "same_session h y"
  shows "same_session h z"
  using assms
proof (induction rule: visit_step.induct)
  case (wake v n t t' ph)
  then show ?case
    using pass_wait_keeps [OF wake(2)] pass_wait_not_running [OF wake(2)] by (auto simp: same_session_def)
next
  case (return_done v n s0 sel0 s sel t)
  have "written s0 s (ti_session t) = Some h" using same_session_written [OF return_done(3)] return_done by simp
  with return_done(3) show ?case by (auto simp: same_session_def split: if_splits)
next
  case (return_begin v n s0 sel0 s sel t' t st)
  have "written s0 s (ti_session t) = Some h" using same_session_written [OF return_begin(5)] return_begin by simp
  with return_begin(3,5) show ?case by (auto simp: same_session_def split: if_splits)
next
  case (throw_begin v n s0 sel0 s sel t)
  have "written s0 s (ti_session t) = Some h" using same_session_written [OF throw_begin(3)] throw_begin by simp
  with throw_begin(3) show ?case by (auto simp: same_session_def split: if_splits)
qed (auto simp: same_session_def split: if_splits)

lemma same_session_outer:
  assumes "outer_step i y z" "same_session h y"
  shows "same_session h z"
  using assms
proof (induction rule: outer_step.induct)
  case (enter v n t t' ph)
  then show ?case
    using pass_wait_keeps [OF enter(3)] pass_wait_not_running [OF enter(3)] by (auto simp: same_session_def)
qed (auto simp: same_session_def)

lemma same_session_reachable:
  "visit_next\<^sup>*\<^sup>* (visit_init (TransactionImpl (Some h) sel)) y \<Longrightarrow> same_session h y"
  by (induction rule: rtranclp_induct)
    (auto simp: visit_next_def intro: same_session_step same_session_outer,
     simp add: same_session_def visit_init_def TransactionImpl_def)

lemma same_selector_reachable:
  assumes "visit_next\<^sup>*\<^sup>* (visit_init (TransactionImpl s sel)) y" "\<forall>opts. sel \<noteq> SingleUse opts"
  shows "same_selector y"
  using assms(1)
proof (induction rule: rtranclp_induct)
  case base
  show ?case using assms(2) by (simp add: same_selector_def visit_init_def TransactionImpl_def)
next
  case (step y z)
  then show ?case
    using same_selector_step [OF _ visit_inv_reachable [OF step(1)]] same_selector_outer
    unfolding visit_next_def by blast
qed

lemma ids_kept:
  assumes "visit_next\<^sup>*\<^sup>* (visit_init (TransactionImpl s sel)) y" "\<forall>opts. sel \<noteq> SingleUse opts"
    and "visit_next\<^sup>*\<^sup>* y z" "ti_selector (vs_txn y) = Id x"
  shows "ti_selector (vs_txn z) = Id x"
  using assms(3)
proof (induction rule: rtranclp_induct)
  case base
  show ?case by (rule assms(4))
next
  case (step z z')
  have r: "visit_next\<^sup>*\<^sup>* (visit_init (TransactionImpl s sel)) z" using assms(1) step(1) by simp
  from step(2) obtain i where "visit_step i z z' \<or> outer_step i z z'" by (auto simp: visit_next_def)
  then show ?case
    using same_selector_step [of i z z' x] same_selector_outer [of i z z'] step.IH
      visit_inv_reachable [OF r] same_selector_reachable [OF r assms(2)] by auto
qed

section \<open>Runs of the visitors inside end\<close>

fun rank :: "'h phase \<Rightarrow> nat" where
  "rank Outside = 0"
| "rank (Returned _) = 0"
| "rank (Notifying _ _) = 1"
| "rank (Running _ _ _ _) = 2"
| "rank (Admitted _ _) = 3"
| "rank (Woken _) = 4"
| "rank (Sleeping _) = 4"

definition weight :: "nat set \<Rightarrow> (nat \<Rightarrow> 'h phase) \<Rightarrow> nat" where
  "weight A v = (\<Sum>i\<in>A. rank (v i)) * Suc (card A) + card {i \<in> A. is_woken (v i)}"

lemma wake_all_rank [simp]: "rank (wake_all v j) = rank (v j)"
  by (cases "v j") (simp_all add: wake_all_def)

lemma visit_step_ranks:
  assumes "visit_step i y z"
  shows "(\<forall>j. rank (visitors z j) \<le> rank (visitors y j)) \<and>
    (rank (visitors z i) < rank (visitors y i) \<or>
     is_woken (visitors y i) \<and> \<not> is_woken (visitors z i) \<and>
       (\<forall>j. is_woken (visitors z j) \<longrightarrow> is_woken (visitors y j))) \<and> visitors y i \<noteq> Outside"
  using assms by (induction rule: visit_step.induct) (auto elim!: pass_wait_cases)

lemma weight_less:
  assumes "finite A" "i \<in> A" "\<forall>j. rank (w j) \<le> rank (v j)"
    and "rank (w i) < rank (v i) \<or>
      is_woken (v i) \<and> \<not> is_woken (w i) \<and> (\<forall>j. is_woken (w j) \<longrightarrow> is_woken (v j))"
  shows "weight A w < weight A v"
  using assms(4)
proof
  assume less: "rank (w i) < rank (v i)"
  have "(\<Sum>i\<in>A. rank (w i)) < (\<Sum>i\<in>A. rank (v i))"
    using assms(1-3) less by (intro sum_strict_mono_ex1) auto
  then have "Suc (\<Sum>i\<in>A. rank (w i)) * Suc (card A) \<le> (\<Sum>i\<in>A. rank (v i)) * Suc (card A)"
    by (intro mult_right_mono) simp_all
  moreover have "card {i \<in> A. is_woken (w i)} \<le> card A"
    using assms(1) by (intro card_mono) auto
  ultimately show ?thesis unfolding weight_def by simp
next
  assume wk: "is_woken (v i) \<and> \<not> is_woken (w i) \<and> (\<forall>j. is_woken (w j) \<longrightarrow> is_woken (v j))"
  then have "{i \<in> A. is_woken (w i)} \<subset> {i \<in> A. is_woken (v i)}" using assms(2) by auto
  then have "card {i \<in> A. is_woken (w i)} < card {i \<in> A. is_woken (v i)}"
    using assms(1) by (intro psubset_card_mono) auto
  moreover have "(\<Sum>i\<in>A. rank (w i)) \<le> (\<Sum>i\<in>A. rank (v i))"
    using assms(3) by (intro sum_mono) simp
  ultimately show ?thesis unfolding weight_def by (intro add_le_less_mono mult_le_mono1)
qed

definition inside :: "'h visit_system \<Rightarrow> nat set" where
  "inside y = {i. visitors y i \<noteq> Outside}"

lemma inside_step: "visit_step i y z \<Longrightarrow> inside z = inside y"
  using visit_step_seqno unfolding inside_def by blast

lemma finite_inside:
  "visit_next\<^sup>*\<^sup>* (visit_init t) y \<Longrightarrow> finite (inside y)"
proof (induction rule: rtranclp_induct)
  case base
  show ?case by (simp add: inside_def visit_init_def)
next
  case (step y z)
  have "inside z \<subseteq> insert i (inside y)" if "outer_step i y z" for i
    using that by (induction rule: outer_step.induct) (auto simp: inside_def)
  with step inside_step show ?case
    unfolding visit_next_def by (metis finite_insert finite_subset)
qed

lemma runs_bounded:
  assumes "(visit_inside ^^ k) y z" "finite (inside y)"
  shows "k + weight (inside y) (visitors z) \<le> weight (inside y) (visitors y) \<and> inside z = inside y"
  using assms(1)
proof (induction k arbitrary: z)
  case (Suc k)
  then obtain z0 i where z0: "(visit_inside ^^ k) y z0" "visit_step i z0 z"
    by (auto elim!: relpowp_Suc_E) (auto simp: visit_inside_def)
  then have "i \<in> inside z0" "inside z = inside z0"
    using visit_step_ranks [OF z0(2)] inside_step by (auto simp: inside_def)
  moreover have "weight (inside y) (visitors z) < weight (inside y) (visitors z0)"
    using visit_step_ranks [OF z0(2)] Suc.IH [OF z0(1)] assms(2) \<open>i \<in> inside z0\<close>
    by (intro weight_less [of _ i]) auto
  ultimately show ?case using Suc.IH [OF z0(1)] by simp
qed simp

lemma visit_result_refl [simp]: "visit_result s sel s sel"
  by (simp add: visit_result_def)

fun at_rest :: "'h phase \<Rightarrow> bool" where
  "at_rest Outside = True"
| "at_rest (Returned _) = True"
| "at_rest (Sleeping _) = True"
| "at_rest _ = False"

lemma notifying_steps:
  assumes "v i = Notifying n b"
  shows "\<exists>v'. visit_step i \<lparr>vs_txn = t, visitors = v\<rparr> \<lparr>vs_txn = t, visitors = v'\<rparr> \<and> v' i = Returned n"
proof (cases "b \<or> (\<forall>j m. v j \<noteq> Sleeping m)")
  case True
  then show ?thesis
    using assms visit_step.notify_all [of v i n t] visit_step.notify_none [of v i n t]
    by (cases b) (auto intro!: exI)
next
  case False
  then obtain j m where "v j = Sleeping m" "b = False" by blast
  with visit_step.notify_one [of v i n j m t] assms show ?thesis by (auto intro!: exI)
qed

lemma awake_steps:
  assumes "\<not> at_rest (visitors y i)"
  shows "\<exists>z. visit_step i y z"
proof -
  obtain t v where y: "y = \<lparr>vs_txn = t, visitors = v\<rparr>" by (cases y) auto
  show ?thesis
  proof (cases "v i")
    case (Woken n)
    obtain t' ph where "pass_wait t n = (t', ph)" by fastforce
    with Woken y show ?thesis by (blast intro: visit_step.wake)
  next
    case (Admitted n b)
    with y show ?thesis by (blast intro: visit_step.call)
  next
    case (Running n b s0 sel0)
    with y show ?thesis
      using visit_step.throw_begin [of v i n s0 sel0 s0 sel0 t]
        visit_step.return_done [of v i n s0 sel0 s0 sel0 t] by (cases b) auto
  next
    case (Notifying n b)
    with y notifying_steps [of v i n b t] show ?thesis by blast
  qed (use assms y in simp_all)
qed

lemma sleeper_not_alone:
  assumes "visit_inv y" "is_sleeping (visitors y i)"
  shows "\<exists>j. \<not> at_rest (visitors y j)"
proof -
  have "alone ph \<Longrightarrow> \<not> at_rest ph" for ph :: "'a phase" by (cases ph) auto
  moreover have "rouses st ph \<Longrightarrow> \<not> at_rest ph" for st and ph :: "'a phase"
    by (cases "(st, ph)" rule: rouses.cases; cases ph) auto
  ultimately show ?thesis
    using assms exclusiveD(4) unfolding visit_inv_def roused_def by blast
qed

lemma visit_inv_inside: "visit_inside\<^sup>*\<^sup>* y z \<Longrightarrow> visit_inv y \<Longrightarrow> visit_inv z"
  by (induction rule: rtranclp_induct) (auto simp: visit_inside_def intro: visit_inv_step)

lemma seqno_inside:
  "visit_inside\<^sup>*\<^sup>* y z \<Longrightarrow> active_seqno (visitors z i) = active_seqno (visitors y i)"
  by (induction rule: rtranclp_induct) (auto simp: visit_inside_def visit_step_seqno)

lemma stuck_returned:
  assumes "visit_inv z" "\<nexists>z'. visit_inside z z'" "active_seqno (visitors z i) = Some n"
  shows "visitors z i = Returned n"
proof -
  have rest: "at_rest (visitors z j)" for j using assms(2) awake_steps unfolding visit_inside_def by blast
  then have "\<not> is_sleeping (visitors z i)" using sleeper_not_alone [OF assms(1)] by blast
  with rest [of i] assms(3) show ?thesis by (cases "visitors z i") auto
qed

section \<open>One visitor\<close>

context visitor
begin

lemma Visit_contract:
  assumes "Visit f t w = Some (r, t', w')"
  shows "visit_result (ti_session t) (ti_selector t) (ti_session t') (ti_selector t') \<and>
    ti_seqno t' = ti_seqno t + 1 \<and> ti_state t \<noteq> kPending"
  using assms by (auto simp: Visit_def Let_def split: txn_state.splits option.splits dest: contract)

text \<open>The function is a run of the steps, at whose end some that slept may be awake.\<close>

lemma Visit_steps:
  assumes "Visit f t w = Some (r, t', w')" "v i = Outside"
  shows "\<exists>v'. visit_next\<^sup>*\<^sup>* \<lparr>vs_txn = t, visitors = v\<rparr> \<lparr>vs_txn = t', visitors = v'\<rparr> \<and>
    v' i = Returned (ti_seqno t + 1)"
proof -
  let ?n = "ti_seqno t + 1" and ?t = "t\<lparr>ti_seqno := ti_seqno t + 1\<rparr>"
  let ?s0 = "ti_session t" and ?sel0 = "ti_selector t" and ?b = "ti_state t = kBegin"
  let ?p = "if ?b then ?t\<lparr>ti_state := kPending\<rparr> else ?t"
  from assms(1) obtain s sel where f: "f ?s0 ?sel0 ?n w = Some (r, s, sel, w')"
    and np: "ti_state t \<noteq> kPending"
    and t': "t' = (if ti_state t = kDone then ?t\<lparr>ti_session := s, ti_selector := sel\<rparr>
       else ?t\<lparr>ti_session := s, ti_selector := sel, ti_state := after_visit sel\<rparr>)"
    by (auto simp: Visit_def Let_def split: txn_state.splits option.splits)
  have vr: "visit_result ?s0 ?sel0 s sel" using contract [OF f] .
  let ?v1 = "v(i := Admitted ?n ?b)" and ?v2 = "v(i := Running ?n ?b ?s0 ?sel0)"
  have "pass_wait ?t ?n = (?p, Admitted ?n ?b)"
    using np by (cases "ti_state t") (simp_all add: pass_wait_def)
  with assms(2) have e: "visit_next \<lparr>vs_txn = t, visitors = v\<rparr> \<lparr>vs_txn = ?p, visitors = ?v1\<rparr>"
    unfolding visit_next_def by (blast intro: outer_step.enter)
  have c: "visit_next \<lparr>vs_txn = ?p, visitors = ?v1\<rparr> \<lparr>vs_txn = ?p, visitors = ?v2\<rparr>"
    using visit_step.call [of ?v1 i ?n ?b ?p] unfolding visit_next_def by auto
  show ?thesis
  proof (cases ?b)
    case False
    then have "ti_state t = kDone" using np by (cases "ti_state t") auto
    then have "visit_next \<lparr>vs_txn = ?p, visitors = ?v2\<rparr> \<lparr>vs_txn = t', visitors = v(i := Returned ?n)\<rparr>"
      using visit_step.return_done [of ?v2 i ?n ?s0 ?sel0 s sel ?p] vr t'
      unfolding visit_next_def functor_writes_def by auto
    with e c have "visit_next\<^sup>*\<^sup>* \<lparr>vs_txn = t, visitors = v\<rparr> \<lparr>vs_txn = t', visitors = v(i := Returned ?n)\<rparr>"
      by (meson converse_rtranclp_into_rtranclp rtranclp.rtrancl_refl)
    then show ?thesis by (intro exI [of _ "v(i := Returned ?n)"]) simp
  next
    case True
    let ?v3 = "v(i := Notifying ?n (after_visit sel = kDone))"
    have w: "t' = (functor_writes ?s0 ?sel0 s sel ?p)\<lparr>ti_state := after_visit sel\<rparr>"
      using True t' by (simp add: functor_writes_def)
    then have "visit_next \<lparr>vs_txn = ?p, visitors = ?v2\<rparr> \<lparr>vs_txn = t', visitors = ?v3\<rparr>"
      using visit_step.return_begin [of ?v2 i ?n ?s0 ?sel0 s sel _ ?p] vr True
      unfolding visit_next_def by (simp del: after_visit_simps) blast
    moreover obtain v' where v': "visit_step i \<lparr>vs_txn = t', visitors = ?v3\<rparr> \<lparr>vs_txn = t', visitors = v'\<rparr>"
      "v' i = Returned ?n" using notifying_steps [of ?v3 i ?n "after_visit sel = kDone" t'] by auto
    moreover from v'(1) have "visit_next \<lparr>vs_txn = t', visitors = ?v3\<rparr> \<lparr>vs_txn = t', visitors = v'\<rparr>"
      unfolding visit_next_def by blast
    ultimately have "visit_next\<^sup>*\<^sup>* \<lparr>vs_txn = t, visitors = v\<rparr> \<lparr>vs_txn = t', visitors = v'\<rparr>"
      using e c by (meson converse_rtranclp_into_rtranclp rtranclp.rtrancl_refl)
    with v'(2) show ?thesis by blast
  qed
qed

end

section \<open>Properties\<close>

text \<open>
  C10: However visits interleave, and even when functors throw: a functor that is called while the
  transaction has still to begin is alone past the test, in the state \<open>kPending\<close>, and what it
  was given is what is there. Functors run beside each other only in \<open>kDone\<close>, where none is
  asked to begin; if the transaction is not single-use each has the id, and it is the same. (A
  single-use transaction is in \<open>kDone\<close> from the start, and \<open>CommitImpl\<close> gives it an id there.) Two
  visits never have the same sequence number, and no number exceeds the counter.
\<close>

theorem visits_exclusive:
  assumes "visit_next\<^sup>*\<^sup>* (visit_init (TransactionImpl s sel)) y"
    and "visitors y i = Running n p s0 sel0"
  shows "0 < n \<and> n \<le> ti_seqno (vs_txn y) \<and> (\<forall>j. active_seqno (visitors y j) = Some n \<longrightarrow> j = i) \<and>
    (has_begin sel0 \<longrightarrow> p) \<and>
    (if p then ti_state (vs_txn y) = kPending \<and> s0 = ti_session (vs_txn y) \<and> sel0 = ti_selector (vs_txn y) \<and>
       (\<forall>j m q s1 sel1. j \<noteq> i \<longrightarrow> visitors y j \<noteq> Admitted m q \<and> visitors y j \<noteq> Running m q s1 sel1)
     else ti_state (vs_txn y) = kDone \<and>
       ((\<forall>opts. sel \<noteq> SingleUse opts) \<longrightarrow> (\<exists>x. sel0 = Id x \<and> ti_selector (vs_txn y) = Id x)))"
proof -
  have inv: "visit_inv y" by (rule visit_inv_reachable [OF assms(1)])
  then have ex: "exclusive (visitors y) (ti_state (vs_txn y))" and seen: "seen_ok (vs_txn y) (visitors y i)"
    and nb: "ti_state (vs_txn y) = kDone \<longrightarrow> \<not> has_begin (ti_selector (vs_txn y))"
    unfolding visit_inv_def by blast+
  have "active_seqno (visitors y i) = Some n" using assms(2) by simp
  then have num: "0 < n \<and> n \<le> ti_seqno (vs_txn y) \<and>
      (\<forall>j. active_seqno (visitors y j) = Some n \<longrightarrow> j = i)"
    using inv unfolding visit_inv_def numbered_def by blast
  show ?thesis
  proof (cases p)
    case True
    then have "\<not> alone (visitors y j)" "\<not> beside (visitors y j)" if "j \<noteq> i" for j
      using exclusiveD(2,6) [OF ex, of i j] that assms(2) by simp_all
    then have "visitors y j \<noteq> Admitted m q \<and> visitors y j \<noteq> Running m q s1 sel1" if "j \<noteq> i" for j m q s1 sel1
      using that by fastforce
    with True num seen assms(2) exclusiveD(1) [OF ex, of i] show ?thesis by simp
  next
    case False
    then have k: "ti_state (vs_txn y) = kDone" "\<not> has_begin sel0"
      using exclusiveD(3) [OF ex, of i] seen assms(2) by simp_all
    have "\<exists>x. sel0 = Id x \<and> ti_selector (vs_txn y) = Id x" if "\<forall>opts. sel \<noteq> SingleUse opts"
    proof -
      have same: "same_selector y" by (rule same_selector_reachable [OF assms(1) that])
      have eq: "ti_selector (vs_txn y) = sel0" by (rule same_selectorD(1) [OF same assms(2), symmetric])
      then have "sel0 \<noteq> SingleUse opts" for opts using same_selectorD(2) [OF same, of opts] by simp
      then obtain x where "sel0 = Id x" using k(2) by (cases sel0) auto
      with eq show ?thesis by simp
    qed
    with False num k show ?thesis by simp
  qed
qed

theorem visits_exclusive_witness:
  "\<exists>y. visit_next\<^sup>*\<^sup>* (visit_init (Transaction_ReadWrite :: nat transaction_impl)) y \<and>
     visitors y 0 = Running 1 True None (Begin ReadWrite) \<and> visitors y 1 = Sleeping 2 \<and>
     ti_state (vs_txn y) = kPending \<and> ti_selector (vs_txn y) = Begin ReadWrite"
proof -
  let ?t = "Transaction_ReadWrite :: nat transaction_impl"
  let ?t1 = "?t\<lparr>ti_seqno := 1, ti_state := kPending\<rparr>" and ?t2 = "?t\<lparr>ti_seqno := 2, ti_state := kPending\<rparr>"
  let ?v0 = "(\<lambda>_. Outside) :: nat \<Rightarrow> nat phase"
  let ?v1 = "?v0(0 := Admitted 1 True)"
  let ?v2 = "?v0(0 := Running 1 True None (Begin ReadWrite))"
  let ?v3 = "?v2(1 := Sleeping 2)"
  note T = Transaction_ReadWrite_def TransactionImpl_def after_visit_def pass_wait_def
  have "visit_next (visit_init ?t) \<lparr>vs_txn = ?t1, visitors = ?v1\<rparr>"
    unfolding visit_next_def visit_init_def
    using outer_step.enter [of ?v0 0 1 ?t ?t1 "Admitted 1 True"] by (auto simp: T)
  moreover have "visit_next \<lparr>vs_txn = ?t1, visitors = ?v1\<rparr> \<lparr>vs_txn = ?t1, visitors = ?v2\<rparr>"
    unfolding visit_next_def using visit_step.call [of ?v1 0 1 True ?t1] by (auto simp: T)
  moreover have "visit_next \<lparr>vs_txn = ?t1, visitors = ?v2\<rparr> \<lparr>vs_txn = ?t2, visitors = ?v3\<rparr>"
    unfolding visit_next_def using outer_step.enter [of ?v2 1 2 ?t1 ?t2 "Sleeping 2"] by (auto simp: T)
  ultimately have r: "visit_next\<^sup>*\<^sup>* (visit_init ?t) \<lparr>vs_txn = ?t2, visitors = ?v3\<rparr>"
    by (meson converse_rtranclp_into_rtranclp rtranclp.rtrancl_refl)
  let ?y = "\<lparr>vs_txn = ?t2, visitors = ?v3\<rparr>"
  have v: "visitors ?y 0 = Running 1 True None (Begin ReadWrite)" "visitors ?y 1 = Sleeping 2" by simp_all
  have "ti_state (vs_txn ?y) = kPending \<and> ti_selector (vs_txn ?y) = Begin ReadWrite"
    using visits_exclusive [OF r [unfolded Transaction_ReadWrite_def] v(1) [unfolded Transaction_ReadWrite_def]]
    by (simp add: T)
  with r v show ?thesis by blast
qed

text \<open>
  C25: No wake-up is lost and no visitor waits for ever, whatever others are outside: from every
  reachable state, and in every schedule, the visitors that are inside take a bounded number of steps
  among themselves, and when none can take another each of their visits has returned. This needs
  neither a spurious wake-up nor a new visitor; functors may return or throw, in any way, but do end.
\<close>

theorem visits_progress:
  assumes "visit_next\<^sup>*\<^sup>* (visit_init (TransactionImpl s sel)) y"
  shows "\<exists>N. \<forall>k z. (visit_inside ^^ k) y z \<longrightarrow> k \<le> N \<and>
    ((\<exists>z'. visit_inside z z') \<or>
     (\<forall>i n. active_seqno (visitors y i) = Some n \<longrightarrow> visitors z i = Returned n))"
proof (intro exI allI impI)
  fix k z
  assume k: "(visit_inside ^^ k) y z"
  then have run: "visit_inside\<^sup>*\<^sup>* y z" by (rule relpowp_imp_rtranclp)
  have inv: "visit_inv z" by (rule visit_inv_inside [OF run visit_inv_reachable [OF assms]])
  have "k \<le> weight (inside y) (visitors y)" using runs_bounded [OF k finite_inside [OF assms]] by simp
  moreover have "visitors z i = Returned n"
    if "\<nexists>z'. visit_inside z z'" "active_seqno (visitors y i) = Some n" for i n
    using stuck_returned [OF inv that(1)] that(2) seqno_inside [OF run] by simp
  ultimately show "k \<le> weight (inside y) (visitors y) \<and> ((\<exists>z'. visit_inside z z') \<or>
      (\<forall>i n. active_seqno (visitors y i) = Some n \<longrightarrow> visitors z i = Returned n))" by blast
qed

text \<open>A visitor that sleeps while another begins the transaction gets through.\<close>

theorem visits_progress_witness:
  "\<exists>(y :: nat visit_system) z k. visitors y 1 = Sleeping 2 \<and> ti_state (vs_txn y) = kPending \<and>
     (visit_inside ^^ k) y z \<and> (\<nexists>z'. visit_inside z z') \<and> visitors z 1 = Returned 2"
proof -
  let ?t = "Transaction_ReadWrite :: nat transaction_impl"
  let ?t1 = "?t\<lparr>ti_seqno := 1, ti_state := kPending\<rparr>" and ?t2 = "?t\<lparr>ti_seqno := 2, ti_state := kPending\<rparr>"
  let ?v0 = "(\<lambda>_. Outside) :: nat \<Rightarrow> nat phase"
  let ?v1 = "?v0(0 := Admitted 1 True)"
  let ?y = "\<lparr>vs_txn = ?t2, visitors = ?v1(1 := Sleeping 2)\<rparr>"
  note T = Transaction_ReadWrite_def TransactionImpl_def after_visit_def pass_wait_def
  have "visit_next (visit_init ?t) \<lparr>vs_txn = ?t1, visitors = ?v1\<rparr>"
    unfolding visit_next_def visit_init_def
    using outer_step.enter [of ?v0 0 1 ?t ?t1 "Admitted 1 True"] by (auto simp: T)
  moreover have "visit_next \<lparr>vs_txn = ?t1, visitors = ?v1\<rparr> ?y"
    unfolding visit_next_def using outer_step.enter [of ?v1 1 2 ?t1 ?t2 "Sleeping 2"] by (auto simp: T)
  ultimately have "visit_next\<^sup>*\<^sup>* (visit_init ?t) ?y"
    by (meson converse_rtranclp_into_rtranclp rtranclp.rtrancl_refl)
  then obtain N where N: "\<And>k z. (visit_inside ^^ k) ?y z \<Longrightarrow> k \<le> N \<and> ((\<exists>z'. visit_inside z z') \<or>
      (\<forall>i n. active_seqno (visitors ?y i) = Some n \<longrightarrow> visitors z i = Returned n))"
    using visits_progress [of None "Begin ReadWrite" ?y, folded Transaction_ReadWrite_def] by blast
  have "\<exists>k z. (visit_inside ^^ k) ?y z \<and> (\<nexists>z'. visit_inside z z')"
  proof (rule ccontr)
    assume no_end: "\<not> ?thesis"
    have "\<exists>z. (visit_inside ^^ k) ?y z" for k
    proof (induction k)
      case (Suc k)
      then show ?case using no_end by (meson relpowp_Suc_I)
    qed simp
    with N have "k \<le> N" for k by blast
    then show False using not_less_eq_eq by blast
  qed
  then obtain k z where z: "(visit_inside ^^ k) ?y z" "\<nexists>z'. visit_inside z z'" by blast
  have "active_seqno (visitors ?y 1) = Some 2" by simp
  then have "visitors z 1 = Returned 2" using N [OF z(1)] z(2) by blast
  moreover have "visitors ?y 1 = Sleeping 2" "ti_state (vs_txn ?y) = kPending" by simp_all
  ultimately show ?thesis using z by blast
qed

text \<open>
  A transaction that is not single-use keeps an id once it has one, and a session it started with, in
  all that concurrent visitors do.
\<close>

theorem visits_keep_id:
  assumes "visit_next\<^sup>*\<^sup>* (visit_init (TransactionImpl s0 sel)) y" "\<forall>opts. sel \<noteq> SingleUse opts"
    and "visit_next\<^sup>*\<^sup>* y z" "ti_selector (vs_txn y) = Id x"
  shows "ti_selector (vs_txn z) = Id x \<and> (s0 \<noteq> None \<longrightarrow> ti_session (vs_txn z) = s0)"
proof -
  have "visit_next\<^sup>*\<^sup>* (visit_init (TransactionImpl s0 sel)) z" using assms(1,3) by simp
  then have "s0 = Some h \<Longrightarrow> ti_session (vs_txn z) = s0" for h
    using same_session_reachable [of h sel z] by (simp add: same_session_def)
  then show ?thesis using ids_kept [OF assms] by auto
qed

theorem visits_keep_id_witness:
  "\<exists>z :: nat visit_system. visit_next\<^sup>*\<^sup>* (visit_init (TransactionImpl (Some 7) (Id ''t''))) z \<and>
     visitors z 0 = Admitted 1 False \<and> ti_selector (vs_txn z) = Id ''t'' \<and> ti_session (vs_txn z) = Some 7"
proof -
  let ?t = "TransactionImpl (Some 7) (Id ''t'') :: nat transaction_impl"
  let ?z = "\<lparr>vs_txn = ?t\<lparr>ti_seqno := 1\<rparr>, visitors = (\<lambda>_. Outside)(0 := Admitted 1 False)\<rparr>"
  have "visit_next (visit_init ?t) ?z"
    unfolding visit_next_def visit_init_def
    using outer_step.enter [of "\<lambda>_. Outside" 0 1 ?t "?t\<lparr>ti_seqno := 1\<rparr>" "Admitted 1 False"]
    by (auto simp: TransactionImpl_def after_visit_def pass_wait_def)
  then have r: "visit_next\<^sup>*\<^sup>* (visit_init ?t) ?z" by blast
  have "ti_selector (vs_txn (visit_init ?t)) = Id ''t''" by (simp add: visit_init_def TransactionImpl_def)
  with visits_keep_id [OF rtranclp.rtrancl_refl _ r] r show ?thesis by auto
qed

text \<open>
  Two commits in the same single-use transaction, beside each other, both begin a transaction of
  their own and the second to end replaces the id of the first.
\<close>

lemma single_use_ids_race:
  fixes t :: "nat transaction_impl"
  assumes "t = Transaction_SingleUse opts"
  shows "\<exists>y z. visit_next\<^sup>*\<^sup>* (visit_init t) y \<and> ti_selector (vs_txn y) = Id ''a'' \<and>
    visit_next y z \<and> ti_selector (vs_txn z) = Id ''b''"
proof -
  let ?sel = "SingleUse (ReadOnly opts)"
  let ?t1 = "t\<lparr>ti_seqno := 1\<rparr>" and ?t2 = "t\<lparr>ti_seqno := 2\<rparr>"
  let ?v0 = "(\<lambda>_. Outside) :: nat \<Rightarrow> nat phase"
  let ?v1 = "?v0(0 := Admitted 1 False)"
  let ?v2 = "?v1(1 := Admitted 2 False)"
  let ?v3 = "?v2(0 := Running 1 False None ?sel)"
  let ?v4 = "?v3(1 := Running 2 False None ?sel)"
  let ?v5 = "?v4(0 := Returned 1)"
  let ?ta = "functor_writes None ?sel (Some 1) (Id ''a'') ?t2"
  let ?y = "\<lparr>vs_txn = ?ta, visitors = ?v5\<rparr>"
  let ?z = "\<lparr>vs_txn = functor_writes None ?sel (Some 2) (Id ''b'') ?ta, visitors = ?v5(1 := Returned 2)\<rparr>"
  note T = assms Transaction_SingleUse_def TransactionImpl_def after_visit_def pass_wait_def
    functor_writes_def written_def visit_result_def
  have "visit_next (visit_init t) \<lparr>vs_txn = ?t1, visitors = ?v1\<rparr>"
    unfolding visit_next_def visit_init_def
    using outer_step.enter [of ?v0 0 1 t ?t1 "Admitted 1 False"] by (auto simp: T)
  moreover have "visit_next \<lparr>vs_txn = ?t1, visitors = ?v1\<rparr> \<lparr>vs_txn = ?t2, visitors = ?v2\<rparr>"
    unfolding visit_next_def using outer_step.enter [of ?v1 1 2 ?t1 ?t2 "Admitted 2 False"] by (auto simp: T)
  moreover have "visit_next \<lparr>vs_txn = ?t2, visitors = ?v2\<rparr> \<lparr>vs_txn = ?t2, visitors = ?v3\<rparr>"
    unfolding visit_next_def using visit_step.call [of ?v2 0 1 False ?t2] by (auto simp: T)
  moreover have "visit_next \<lparr>vs_txn = ?t2, visitors = ?v3\<rparr> \<lparr>vs_txn = ?t2, visitors = ?v4\<rparr>"
    unfolding visit_next_def using visit_step.call [of ?v3 1 2 False ?t2] by (auto simp: T)
  moreover have "visit_next \<lparr>vs_txn = ?t2, visitors = ?v4\<rparr> ?y"
    unfolding visit_next_def
    using visit_step.return_done [of ?v4 0 1 None ?sel "Some 1" "Id ''a''" ?t2] by (auto simp: visit_result_def)
  ultimately have "visit_next\<^sup>*\<^sup>* (visit_init t) ?y"
    by (meson converse_rtranclp_into_rtranclp rtranclp.rtrancl_refl)
  moreover have "visit_next ?y ?z"
    unfolding visit_next_def
    using visit_step.return_done [of ?v5 1 2 None ?sel "Some 2" "Id ''b''" ?ta] by (auto simp: visit_result_def)
  moreover have "ti_selector (vs_txn ?y) = Id ''a''" "ti_selector (vs_txn ?z) = Id ''b''"
    by (simp_all add: T)
  ultimately show ?thesis by blast
qed

text \<open>
  A staleness in nanoseconds becomes a \<open>protobuf::Duration\<close> with the same length, and with
  seconds and nanoseconds in the ranges and with the common sign that \<open>Duration\<close> asks for.
\<close>

theorem duration_to_proto:
  assumes "in_int64 ns" "d = Duration_ToProto ns"
  shows "duration_seconds d * kNanosPerSecond + duration_nanos d = ns \<and>
    \<bar>duration_nanos d\<bar> < kNanosPerSecond \<and> \<bar>duration_seconds d\<bar> \<le> 9223372036 \<and>
    (0 \<le> ns \<longrightarrow> 0 \<le> duration_seconds d \<and> 0 \<le> duration_nanos d) \<and>
    (ns \<le> 0 \<longrightarrow> duration_seconds d \<le> 0 \<and> duration_nanos d \<le> 0)"
proof -
  let ?k = "kNanosPerSecond"
  have nanos: "ns - (ns sdiv ?k) * ?k = ns smod ?k"
    using mult_sdiv_smod_eq [of ?k ns] by (simp add: mult.commute)
  have d: "duration_seconds d = ns sdiv ?k" "duration_nanos d = ns smod ?k"
    using assms(2) by (simp_all only: Duration_ToProto_def Let_def nanos to_int32_smod_nanos proto_duration.sel)
  have sum: "ns sdiv ?k * ?k + ns smod ?k = ns" using nanos by linarith
  have bound: "- ?k < ns smod ?k" "ns smod ?k < ?k" by (rule smod_nanos_range)+
  have pos: "0 \<le> ns sdiv ?k \<and> 0 \<le> ns smod ?k" if "0 \<le> ns"
    using smod_int_compares(1,2) [of ns ?k] that sum by linarith
  have neg: "ns sdiv ?k \<le> 0 \<and> ns smod ?k \<le> 0" if "ns \<le> 0"
    using smod_int_compares(3,4) [of ns ?k] that sum by linarith
  have sec: "\<bar>ns sdiv ?k\<bar> \<le> 9223372036"
  proof (cases "0 \<le> ns")
    case True
    with pos show ?thesis using sum assms(1) unfolding in_int64_def by simp
  next
    case False
    with neg show ?thesis using sum assms(1) unfolding in_int64_def by simp
  qed
  show ?thesis unfolding d using sum bound sec pos neg by (simp add: abs_less_iff)
qed

theorem duration_to_proto_witness:
  "Duration_ToProto (- 1500000000) = ProtoDuration (- 1) (- 500000000) \<and>
   duration_seconds (Duration_ToProto (- 1500000000)) * kNanosPerSecond +
     duration_nanos (Duration_ToProto (- 1500000000)) = - 1500000000"
  using duration_to_proto [of "- 1500000000", OF _ refl]
  by (simp add: in_int64_def Duration_ToProto_def Let_def sdiv_neg)

end
