(* ===== verification/Requests.thy ===== *)
theory Requests
  imports Values Transactions "HOL-Library.AList"
begin

text \<open>
  What a client hands to a connection and the messages made of it: resource names
  (\<open>instance.cc\<close>, \<open>database.cc\<close>, \<open>backup.cc\<close>), key sets (\<open>keys.h\<close>, \<open>keys.cc\<close>), mutations
  (\<open>mutations.h\<close>), SQL statements (\<open>sql_statement.cc\<close>), options (\<open>read_options.h\<close>,
  \<open>query_options.h\<close>, \<open>partition_options.cc\<close>) and partitions (\<open>read_partition.cc\<close>,
  \<open>query_partition.cc\<close>).
\<close>

section \<open>Resource names\<close>

record cloud_instance =
  project_id :: string
  instance_id :: string

record database =
  db_instance :: cloud_instance
  database_id :: string

record backup =
  backup_instance :: cloud_instance
  backup_id :: string

definition Instance_FullName :: "cloud_instance \<Rightarrow> string" where
  "Instance_FullName i = ''projects/'' @ project_id i @ ''/instances/'' @ instance_id i"

definition Database_FullName :: "database \<Rightarrow> string" where
  "Database_FullName d = Instance_FullName (db_instance d) @ ''/databases/'' @ database_id d"

definition Backup_FullName :: "backup \<Rightarrow> string" where
  "Backup_FullName b = Instance_FullName (backup_instance b) @ ''/backups/'' @ backup_id b"

section \<open>Keys\<close>

definition Value_ToProto :: "val \<Rightarrow> ptype \<times> pvalue" where
  "Value_ToProto v = (value_type v, value_proto v)"

definition Value_FromProto :: "ptype \<Rightarrow> pvalue \<Rightarrow> val" where
  "Value_FromProto t v = Value t v"

text \<open>\<open>None\<close> where the conversion of a value throws.\<close>

fun MakeKey :: "(ctype \<times> cval) list \<Rightarrow> val list option" where
  "MakeKey [] = Some []"
| "MakeKey ((t, v) # ts) =
     Option.bind (MakeValue t v) (\<lambda>v. map_option (\<lambda>vs. v # vs) (MakeKey ts))"

datatype Bound = kClosed | kOpen

datatype key_bound = KeyBound (kb_key: "val list") (kb_bound: Bound)

definition MakeKeyBoundClosed :: "(ctype \<times> cval) list \<Rightarrow> key_bound option" where
  "MakeKeyBoundClosed ts = map_option (\<lambda>k. KeyBound k kClosed) (MakeKey ts)"

definition MakeKeyBoundOpen :: "(ctype \<times> cval) list \<Rightarrow> key_bound option" where
  "MakeKeyBoundOpen ts = map_option (\<lambda>k. KeyBound k kOpen) (MakeKey ts)"

text \<open>The protos: one of the two start fields and one of the two end fields of a range is set.\<close>

datatype range_end = ClosedEnd "pvalue list" | OpenEnd "pvalue list"

record key_set =
  ks_keys :: "pvalue list list"
  ks_ranges :: "(range_end \<times> range_end) list"
  ks_all :: bool

definition KeySet :: key_set where
  "KeySet = \<lparr>ks_keys = [], ks_ranges = [], ks_all = False\<rparr>"

definition KeySet_All :: key_set where
  "KeySet_All = KeySet\<lparr>ks_all := True\<rparr>"

definition AppendKey :: "pvalue list \<Rightarrow> val list \<Rightarrow> pvalue list" where
  "AppendKey lv key = lv @ map (\<lambda>v. snd (Value_ToProto v)) key"

definition AddKey :: "val list \<Rightarrow> key_set \<Rightarrow> key_set" where
  "AddKey key ks = (if ks_all ks then ks else ks\<lparr>ks_keys := ks_keys ks @ [AppendKey [] key]\<rparr>)"

definition range_end_of :: "key_bound \<Rightarrow> range_end" where
  "range_end_of b =
     (if kb_bound b = kClosed then ClosedEnd (AppendKey [] (kb_key b))
      else OpenEnd (AppendKey [] (kb_key b)))"

definition AddRange :: "key_bound \<Rightarrow> key_bound \<Rightarrow> key_set \<Rightarrow> key_set" where
  "AddRange start end_bound ks =
     (if ks_all ks then ks
      else ks\<lparr>ks_ranges := ks_ranges ks @ [(range_end_of start, range_end_of end_bound)]\<rparr>)"

section \<open>Mutations\<close>

datatype write_op = InsertOp | UpdateOp | InsertOrUpdateOp | ReplaceOp

record write_proto =
  wr_table :: string
  wr_columns :: "string list"
  wr_values :: "pvalue list list"

definition default_write :: write_proto where
  "default_write = \<lparr>wr_table = [], wr_columns = [], wr_values = []\<rparr>"

text \<open>The proto \<open>Mutation\<close>: at most one operation is set, and setting one clears another.\<close>

datatype mutation = MutationNotSet | Write write_op write_proto | Delete string key_set

fun mutable_field :: "write_op \<Rightarrow> mutation \<Rightarrow> write_proto" where
  "mutable_field op (Write op' w) = (if op = op' then w else default_write)"
| "mutable_field op _ = default_write"

definition WriteMutationBuilder :: "write_op \<Rightarrow> string \<Rightarrow> string list \<Rightarrow> mutation" where
  "WriteMutationBuilder op table_name column_names =
     (let field = mutable_field op MutationNotSet
      in Write op (field\<lparr>wr_table := table_name, wr_columns := wr_columns field @ column_names\<rparr>))"

definition AddRow :: "write_op \<Rightarrow> val list \<Rightarrow> mutation \<Rightarrow> mutation" where
  "AddRow op values m =
     (let field = mutable_field op m
      in Write op (field\<lparr>wr_values := wr_values field @ [map (\<lambda>v. snd (Value_ToProto v)) values]\<rparr>))"

definition EmplaceRow :: "write_op \<Rightarrow> (ctype \<times> cval) list \<Rightarrow> mutation \<Rightarrow> mutation option" where
  "EmplaceRow op values m = map_option (\<lambda>vs. AddRow op vs m) (MakeKey values)"

definition MakeWriteMutation ::
    "write_op \<Rightarrow> string \<Rightarrow> string list \<Rightarrow> (ctype \<times> cval) list \<Rightarrow> mutation option" where
  "MakeWriteMutation op table_name columns values =
     EmplaceRow op values (WriteMutationBuilder op table_name columns)"

definition MakeInsertMutation :: "string \<Rightarrow> string list \<Rightarrow> (ctype \<times> cval) list \<Rightarrow> mutation option" where
  "MakeInsertMutation = MakeWriteMutation InsertOp"

definition MakeUpdateMutation :: "string \<Rightarrow> string list \<Rightarrow> (ctype \<times> cval) list \<Rightarrow> mutation option" where
  "MakeUpdateMutation = MakeWriteMutation UpdateOp"

definition MakeInsertOrUpdateMutation ::
    "string \<Rightarrow> string list \<Rightarrow> (ctype \<times> cval) list \<Rightarrow> mutation option" where
  "MakeInsertOrUpdateMutation = MakeWriteMutation InsertOrUpdateOp"

definition MakeReplaceMutation :: "string \<Rightarrow> string list \<Rightarrow> (ctype \<times> cval) list \<Rightarrow> mutation option" where
  "MakeReplaceMutation = MakeWriteMutation ReplaceOp"

definition MakeDeleteMutation :: "string \<Rightarrow> key_set \<Rightarrow> mutation" where
  "MakeDeleteMutation table_name keys = Delete table_name keys"

section \<open>SQL statements\<close>

text \<open>
  The parameters, an \<open>unordered_map\<close>, in the order its iteration has; the names are distinct. Maps of
  protos are lists in the order of their iteration, too.
\<close>

record sql_statement =
  sql :: string
  sql_params :: "(string \<times> val) list"

record statement_proto =
  sp_sql :: string
  sp_params :: "(string \<times> pvalue) list option"
  sp_param_types :: "(string \<times> ptype) list"

fun params_loop ::
    "(string \<times> val) list \<Rightarrow> (string \<times> pvalue) list \<Rightarrow> (string \<times> ptype) list \<Rightarrow>
     (string \<times> pvalue) list \<times> (string \<times> ptype) list" where
  "params_loop [] values types = (values, types)"
| "params_loop ((name, v) # ps) values types =
     (let (t, x) = Value_ToProto v
      in params_loop ps (AList.update name x values) (AList.update name t types))"

definition Statement_ToProto :: "sql_statement \<Rightarrow> statement_proto" where
  "Statement_ToProto s =
     (if sql_params s = [] then \<lparr>sp_sql = sql s, sp_params = None, sp_param_types = []\<rparr>
      else let (values, types) = params_loop (sql_params s) [] []
           in \<lparr>sp_sql = sql s, sp_params = Some values, sp_param_types = types\<rparr>)"

definition ParameterNames :: "sql_statement \<Rightarrow> string list" where
  "ParameterNames s = map fst (sql_params s)"

definition GetParameter :: "sql_statement \<Rightarrow> string \<Rightarrow> val status_or" where
  "GetParameter s parameter_name =
     (case map_of (sql_params s) parameter_name of
        Some v \<Rightarrow> Inr v
      | None \<Rightarrow> Inl (Status kNotFound (''No such parameter: '' @ parameter_name)))"

definition Statement_eq :: "sql_statement \<Rightarrow> sql_statement \<Rightarrow> bool" where
  "Statement_eq a b \<longleftrightarrow> sql a = sql b \<and> length (sql_params a) = length (sql_params b) \<and>
     list_all (\<lambda>(name, v). case map_of (sql_params b) name of None \<Rightarrow> False | Some v' \<Rightarrow> Value_eq v v')
       (sql_params a)"

fun print_params :: "(64 word \<Rightarrow> string) \<Rightarrow> (string \<times> val) list \<Rightarrow> string option" where
  "print_params show_double [] = Some []"
| "print_params show_double ((name, v) # ps) =
     Option.bind (PrintValue show_double v) (\<lambda>t.
       map_option (\<lambda>ts. CHR 0x0A # ''[param]: {'' @ name @ ''='' @ t @ ''}'' @ ts)
         (print_params show_double ps))"

definition PrintStatement :: "(64 word \<Rightarrow> string) \<Rightarrow> sql_statement \<Rightarrow> string option" where
  "PrintStatement show_double s = map_option (\<lambda>ts. sql s @ ts) (print_params show_double (sql_params s))"

section \<open>Options\<close>

record read_options =
  index_name :: string
  read_limit :: int

definition default_read_options :: read_options where
  "default_read_options = \<lparr>index_name = [], read_limit = 0\<rparr>"

record query_options =
  optimizer_version :: "string option"

record partition_options =
  partition_size_bytes :: "int option"
  max_partitions :: "int option"

text \<open>In the proto an unset number is zero.\<close>

record partition_options_proto =
  po_partition_size_bytes :: int
  po_max_partitions :: int

definition PartitionOptions_ToProto :: "partition_options \<Rightarrow> partition_options_proto" where
  "PartitionOptions_ToProto po =
     (let proto = \<lparr>po_partition_size_bytes = 0, po_max_partitions = 0\<rparr>;
          proto = (case max_partitions po of None \<Rightarrow> proto | Some n \<Rightarrow> proto\<lparr>po_max_partitions := n\<rparr>)
      in case partition_size_bytes po of None \<Rightarrow> proto
         | Some n \<Rightarrow> proto\<lparr>po_partition_size_bytes := n\<rparr>)"

section \<open>Requests and partitions\<close>

fun selector_id :: "selector \<Rightarrow> string" where
  "selector_id (Id i) = i"
| "selector_id _ = []"

record read_request =
  rq_session :: string
  rq_transaction :: selector
  rq_table :: string
  rq_index :: string
  rq_columns :: "string list"
  rq_key_set :: key_set
  rq_limit :: int
  rq_resume_token :: string
  rq_partition_token :: string

datatype query_mode = NORMAL | PLAN | PROFILE

record sql_request =
  sq_session :: string
  sq_transaction :: selector
  sq_statement :: statement_proto
  sq_resume_token :: string
  sq_query_mode :: query_mode
  sq_partition_token :: string
  sq_seqno :: int
  sq_query_options :: "string option"

text \<open>A \<open>ReadPartition\<close> is the request it stands for.\<close>

definition MakeReadPartition ::
    "string \<Rightarrow> string \<Rightarrow> string \<Rightarrow> string \<Rightarrow> key_set \<Rightarrow> string list \<Rightarrow> read_options \<Rightarrow> read_request" where
  "MakeReadPartition transaction_id session_id partition_token table_name keys column_names opts =
     \<lparr>rq_session = session_id, rq_transaction = Id transaction_id, rq_table = table_name,
      rq_index = index_name opts, rq_columns = column_names, rq_key_set = keys,
      rq_limit = read_limit opts, rq_resume_token = [], rq_partition_token = partition_token\<rparr>"

definition ReadPartition_ReadOptions :: "read_request \<Rightarrow> read_options" where
  "ReadPartition_ReadOptions p = \<lparr>index_name = rq_index p, read_limit = rq_limit p\<rparr>"

definition SerializeReadPartition ::
    "(read_request \<Rightarrow> string option) \<Rightarrow> read_request \<Rightarrow> string status_or" where
  "SerializeReadPartition serialize p =
     (case serialize p of Some s \<Rightarrow> Inr s
      | None \<Rightarrow> Inl (Status kInvalidArgument ''Failed to serialize SqlPartition''))"

definition DeserializeReadPartition ::
    "(string \<Rightarrow> read_request option) \<Rightarrow> string \<Rightarrow> read_request status_or" where
  "DeserializeReadPartition parse s =
     (case parse s of Some p \<Rightarrow> Inr p
      | None \<Rightarrow> Inl (Status kInvalidArgument ''Failed to deserialize into SqlPartition''))"

record query_partition =
  qp_transaction_id :: string
  qp_session_id :: string
  qp_partition_token :: string
  qp_statement :: sql_statement

definition MakeQueryPartition :: "string \<Rightarrow> string \<Rightarrow> string \<Rightarrow> sql_statement \<Rightarrow> query_partition" where
  "MakeQueryPartition transaction_id session_id partition_token statement =
     \<lparr>qp_transaction_id = transaction_id, qp_session_id = session_id,
      qp_partition_token = partition_token, qp_statement = statement\<rparr>"

text \<open>
  \<open>mutable_params()\<close> is called for the first parameter, so that without parameters it stays unset.
\<close>

definition SerializeQueryPartition ::
    "(sql_request \<Rightarrow> string option) \<Rightarrow> query_partition \<Rightarrow> string status_or" where
  "SerializeQueryPartition serialize p =
     (let st = qp_statement p;
          (values, types) = params_loop (sql_params st) [] [];
          proto = \<lparr>sq_session = qp_session_id p, sq_transaction = Id (qp_transaction_id p),
            sq_statement = \<lparr>sp_sql = sql st, sp_params = (if sql_params st = [] then None else Some values),
              sp_param_types = types\<rparr>,
            sq_resume_token = [], sq_query_mode = NORMAL, sq_partition_token = qp_partition_token p,
            sq_seqno = 0, sq_query_options = None\<rparr>
      in case serialize proto of Some s \<Rightarrow> Inr s
         | None \<Rightarrow> Inl (Status kInvalidArgument ''Failed to serialize QueryPartition''))"

fun parameters_loop ::
    "(string \<times> ptype) list \<Rightarrow> (string \<times> pvalue) list \<Rightarrow> (string \<times> val) list \<Rightarrow> (string \<times> val) list" where
  "parameters_loop types [] params = params"
| "parameters_loop types ((name, v) # ps) params =
     parameters_loop types ps
       (case map_of types name of
          None \<Rightarrow> params
        | Some t \<Rightarrow> if name \<in> fst ` set params then params
                    else params @ [(name, Value_FromProto t v)])"

definition DeserializeQueryPartition ::
    "(string \<Rightarrow> sql_request option) \<Rightarrow> string \<Rightarrow> query_partition status_or" where
  "DeserializeQueryPartition parse s =
     (case parse s of
        None \<Rightarrow> Inl (Status kInvalidArgument ''Failed to deserialize into QueryPartition'')
      | Some proto \<Rightarrow>
          let params = (case sp_params (sq_statement proto) of None \<Rightarrow> []
                        | Some ps \<Rightarrow> parameters_loop (sp_param_types (sq_statement proto)) ps [])
          in Inr (MakeQueryPartition (selector_id (sq_transaction proto)) (sq_session proto)
               (sq_partition_token proto) \<lparr>sql = sp_sql (sq_statement proto), sql_params = params\<rparr>))"

section \<open>Lemmas\<close>

lemma AppendKey_Nil [simp]: "AppendKey [] key = map value_proto key"
  by (simp add: AppendKey_def Value_ToProto_def)

lemma AddKeys:
  "\<not> ks_all ks \<Longrightarrow> fold AddKey keys ks = ks\<lparr>ks_keys := ks_keys ks @ map (map value_proto) keys\<rparr>"
  by (induction keys arbitrary: ks) (simp_all add: AddKey_def)

lemma AddRanges:
  "\<not> ks_all ks \<Longrightarrow> fold (\<lambda>(a, b). AddRange a b) bounds ks =
     ks\<lparr>ks_ranges := ks_ranges ks @ map (\<lambda>(a, b). (range_end_of a, range_end_of b)) bounds\<rparr>"
  by (induction bounds arbitrary: ks) (auto simp: AddRange_def)

lemma All_absorbs:
  assumes "ks_all ks"
  shows "fold AddKey keys ks = ks" "fold (\<lambda>(a, b). AddRange a b) bounds ks = ks"
proof -
  show "fold AddKey keys ks = ks" using assms by (induction keys) (simp_all add: AddKey_def)
  show "fold (\<lambda>(a, b). AddRange a b) bounds ks = ks"
    using assms by (induction bounds) (auto simp: AddRange_def)
qed

lemma AddRows:
  "fold (AddRow op) rows (Write op w) = Write op (w\<lparr>wr_values := wr_values w @ map (map value_proto) rows\<rparr>)"
  by (induction rows arbitrary: w) (simp_all add: AddRow_def Let_def Value_ToProto_def)

lemma params_loop_append:
  assumes "distinct (map fst ps)" "fst ` set ps \<inter> fst ` set vals = {}" "fst ` set ps \<inter> fst ` set types = {}"
  shows "params_loop ps vals types =
    (vals @ map (\<lambda>(n, v). (n, value_proto v)) ps, types @ map (\<lambda>(n, v). (n, value_type v)) ps)"
  using assms
proof (induction ps arbitrary: vals types)
  case (Cons p ps)
  obtain n v where p: "p = (n, v)" by (cases p)
  have fresh: "AList.update n x al = al @ [(n, x)]" if "n \<notin> fst ` set al" for x al
    using that by (induction al) auto
  show ?case using Cons.prems
    by (auto simp: p Value_ToProto_def fresh Cons.IH)
qed simp

lemma params_loop_distinct:
  "distinct (map fst ps) \<Longrightarrow> params_loop ps [] [] =
     (map (\<lambda>(n, v). (n, value_proto v)) ps, map (\<lambda>(n, v). (n, value_type v)) ps)"
  using params_loop_append [of ps "[]" "[]"] by simp

lemma parameters_loop_append:
  assumes "distinct (map fst (qs @ ps))" "\<forall>(n, v) \<in> set ps. map_of types n = Some (value_type v)"
  shows "parameters_loop types (map (\<lambda>(n, v). (n, value_proto v)) ps) qs = qs @ ps"
  using assms
proof (induction ps arbitrary: qs)
  case (Cons p ps)
  obtain n v where p: "p = (n, v)" by (cases p)
  have "n \<notin> fst ` set qs" using Cons.prems(1) by (auto simp: p)
  moreover have "parameters_loop types (map (\<lambda>(n, v). (n, value_proto v)) ps) (qs @ [p]) = (qs @ [p]) @ ps"
    using Cons.prems by (intro Cons.IH) auto
  ultimately show ?case using Cons.prems(2) by (simp add: p Value_FromProto_def)
qed simp

lemma map_of_types: "distinct (map fst ps) \<Longrightarrow> (n, v) \<in> set ps \<Longrightarrow>
    map_of (map (\<lambda>(n, v). (n, f v)) ps) n = Some (f v)"
  by (induction ps) (auto simp: rev_image_eqI)

lemma parameters_loop_params_loop:
  assumes "distinct (map fst ps)"
  shows "parameters_loop (map (\<lambda>(n, v). (n, value_type v)) ps) (map (\<lambda>(n, v). (n, value_proto v)) ps) [] = ps"
  using parameters_loop_append [of "[]" ps] assms map_of_types [OF assms] by auto

lemma split_at_slash:
  assumes "xs @ CHR ''/'' # ys = xs' @ CHR ''/'' # ys'" "CHR ''/'' \<notin> set xs" "CHR ''/'' \<notin> set xs'"
  shows "xs = xs' \<and> ys = ys'"
  using assms
proof (induction xs arbitrary: xs')
  case Nil
  then show ?case by (cases xs') auto
next
  case (Cons x xs)
  then show ?case by (cases xs') auto
qed

text \<open>Ids as the service has them: without slashes.\<close>

definition plain_ids :: "cloud_instance \<Rightarrow> bool" where
  "plain_ids i \<longleftrightarrow> CHR ''/'' \<notin> set (project_id i) \<and> CHR ''/'' \<notin> set (instance_id i)"

lemma Instance_FullName_prefix:
  assumes "Instance_FullName i @ CHR ''/'' # xs = Instance_FullName j @ CHR ''/'' # ys"
    and "plain_ids i" "plain_ids j"
  shows "i = j \<and> xs = ys"
proof -
  let ?rest = "\<lambda>i xs. ''instances/'' @ instance_id i @ CHR ''/'' # xs"
  have "project_id i @ CHR ''/'' # ?rest i xs = project_id j @ CHR ''/'' # ?rest j ys"
    using assms(1) by (simp add: Instance_FullName_def)
  then have p: "project_id i = project_id j" "?rest i xs = ?rest j ys"
    using split_at_slash [of "project_id i" "?rest i xs" "project_id j" "?rest j ys"] assms(2,3)
    unfolding plain_ids_def by blast+
  then have "instance_id i = instance_id j \<and> xs = ys"
    using split_at_slash [of "instance_id i" xs "instance_id j" ys] assms(2,3)
    unfolding plain_ids_def by simp
  with p(1) show ?thesis by (cases i, cases j) simp
qed

section \<open>Properties\<close>

text \<open>
  C36: A partition handed to another process comes back unchanged: for any wire format that reads
  back what it wrote, a query partition that could be serialized is deserialized to the same ids,
  token and statement, every parameter with its name, type and value; and a read partition to the
  same request.
\<close>

theorem partition_round_trip:
  assumes "\<forall>m s. serialize m = Some s \<longrightarrow> parse s = Some m"
    and "\<forall>m s. serialize_read m = Some s \<longrightarrow> parse_read s = Some m"
    and "distinct (ParameterNames (qp_statement p))"
  shows "(\<forall>s. SerializeQueryPartition serialize p = Inr s \<longrightarrow> DeserializeQueryPartition parse s = Inr p) \<and>
    (\<forall>s. SerializeReadPartition serialize_read r = Inr s \<longrightarrow> DeserializeReadPartition parse_read s = Inr r)"
proof (intro conjI allI impI)
  fix s
  let ?ps = "sql_params (qp_statement p)"
  assume ser: "SerializeQueryPartition serialize p = Inr s"
  have d: "distinct (map fst ?ps)" using assms(3) by (simp add: ParameterNames_def)
  obtain m where m: "serialize m = Some s" "sq_session m = qp_session_id p"
      "sq_transaction m = Id (qp_transaction_id p)" "sq_partition_token m = qp_partition_token p"
      "sp_sql (sq_statement m) = sql (qp_statement p)"
      "sp_params (sq_statement m) = (if ?ps = [] then None else Some (map (\<lambda>(n, v). (n, value_proto v)) ?ps))"
      "sp_param_types (sq_statement m) = map (\<lambda>(n, v). (n, value_type v)) ?ps"
    using ser by (auto simp: SerializeQueryPartition_def Let_def params_loop_distinct [OF d] split: option.splits)
  have "parse s = Some m" using assms(1) m(1) by blast
  with m(2-) show "DeserializeQueryPartition parse s = Inr p"
    by (simp add: DeserializeQueryPartition_def MakeQueryPartition_def parameters_loop_params_loop [OF d])
next
  fix s
  assume "SerializeReadPartition serialize_read r = Inr s"
  with assms(2) show "DeserializeReadPartition parse_read s = Inr r"
    by (auto simp: SerializeReadPartition_def DeserializeReadPartition_def split: option.splits)
qed

definition demo_partition :: query_partition where
  "demo_partition = MakeQueryPartition ''t'' ''s'' ''p''
     \<lparr>sql = ''SELECT @x, @y'', sql_params = [(''x'', Value TBool (PBool True)), (''y'', Value TInt64 PNull)]\<rparr>"

definition demo_sql_request :: sql_request where
  "demo_sql_request = \<lparr>sq_session = ''s'', sq_transaction = Id ''t'',
     sq_statement = \<lparr>sp_sql = ''SELECT @x, @y'', sp_params = Some [(''x'', PBool True), (''y'', PNull)],
       sp_param_types = [(''x'', TBool), (''y'', TInt64)]\<rparr>,
     sq_resume_token = [], sq_query_mode = NORMAL, sq_partition_token = ''p'', sq_seqno = 0,
     sq_query_options = None\<rparr>"

theorem partition_round_trip_witness:
  "SerializeQueryPartition (\<lambda>m. if m = demo_sql_request then Some ''wire'' else None) demo_partition =
     Inr ''wire'' \<and>
   DeserializeQueryPartition (\<lambda>s. if s = ''wire'' then Some demo_sql_request else None) ''wire'' =
     Inr demo_partition"
proof -
  let ?ser = "\<lambda>m. if m = demo_sql_request then Some ''wire'' else None"
  let ?par = "\<lambda>s. if s = ''wire'' then Some demo_sql_request else None"
  have s: "SerializeQueryPartition ?ser demo_partition = Inr ''wire''"
    by (simp add: SerializeQueryPartition_def demo_partition_def MakeQueryPartition_def
        demo_sql_request_def Value_ToProto_def)
  have h: "\<forall>m s. ?ser m = Some s \<longrightarrow> ?par s = Some m" by (auto split: if_splits)
  have n: "\<forall>m s. (\<lambda>_ :: read_request. None) m = Some s \<longrightarrow> (\<lambda>_ :: string. None) s = Some m" by simp
  have d: "distinct (ParameterNames (qp_statement demo_partition))"
    by (simp add: ParameterNames_def demo_partition_def MakeQueryPartition_def)
  from partition_round_trip [OF h n d] s show ?thesis by blast
qed

text \<open>
  The builders put down what they are given, in order, and nothing else: keys and ranges (with
  open and closed ends) in a key set, rows in a mutation of the operation it was built for, and a
  key set of all rows absorbs whatever is added to it.
\<close>

theorem builders_keep_order:
  "fold (\<lambda>(a, b). AddRange a b) bounds (fold AddKey keys KeySet) =
     \<lparr>ks_keys = map (map value_proto) keys,
      ks_ranges = map (\<lambda>(a, b). (range_end_of a, range_end_of b)) bounds, ks_all = False\<rparr> \<and>
   fold (\<lambda>(a, b). AddRange a b) bounds (fold AddKey keys KeySet_All) = KeySet_All \<and>
   fold (AddRow op) rows (WriteMutationBuilder op table columns) =
     Write op \<lparr>wr_table = table, wr_columns = columns, wr_values = map (map value_proto) rows\<rparr>"
  by (simp add: AddKeys AddRanges All_absorbs KeySet_def KeySet_All_def WriteMutationBuilder_def
      default_write_def AddRows)

text \<open>
  Names identify resources: with ids free of slashes two databases with the same full name are
  the same, and so are two backups; a database and a backup never share a name.
\<close>

theorem full_names_identify:
  assumes "plain_ids (db_instance d)" "plain_ids (db_instance d')" "plain_ids (backup_instance b)"
    and "plain_ids (backup_instance b')"
  shows "(Database_FullName d = Database_FullName d' \<longrightarrow> d = d') \<and>
    (Backup_FullName b = Backup_FullName b' \<longrightarrow> b = b') \<and> Database_FullName d \<noteq> Backup_FullName b"
proof (intro conjI impI)
  assume "Database_FullName d = Database_FullName d'"
  with assms(1,2) Instance_FullName_prefix [of "db_instance d" "''databases/'' @ database_id d" "db_instance d'"
      "''databases/'' @ database_id d'"] show "d = d'" by (simp add: Database_FullName_def)
next
  assume "Backup_FullName b = Backup_FullName b'"
  with assms(3,4) Instance_FullName_prefix [of "backup_instance b" "''backups/'' @ backup_id b" "backup_instance b'"
      "''backups/'' @ backup_id b'"] show "b = b'" by (simp add: Backup_FullName_def)
next
  show "Database_FullName d \<noteq> Backup_FullName b"
    using assms(1,3) Instance_FullName_prefix [of "db_instance d" "''databases/'' @ database_id d" "backup_instance b"
      "''backups/'' @ backup_id b"] by (auto simp: Database_FullName_def Backup_FullName_def)
qed

theorem full_names_identify_witness:
  "Database_FullName \<lparr>db_instance = \<lparr>project_id = ''p'', instance_id = ''i''\<rparr>, database_id = ''d''\<rparr> =
     ''projects/p/instances/i/databases/d'' \<and>
   Database_FullName \<lparr>db_instance = \<lparr>project_id = ''p'', instance_id = ''i''\<rparr>, database_id = ''d''\<rparr> \<noteq>
     Backup_FullName \<lparr>backup_instance = \<lparr>project_id = ''p'', instance_id = ''i''\<rparr>, backup_id = ''d''\<rparr>"
proof -
  let ?i = "\<lparr>project_id = ''p'', instance_id = ''i''\<rparr>"
  let ?d = "\<lparr>db_instance = ?i, database_id = ''d''\<rparr>" and ?b = "\<lparr>backup_instance = ?i, backup_id = ''d''\<rparr>"
  have "plain_ids (db_instance ?d)" "plain_ids (backup_instance ?b)" by (simp_all add: plain_ids_def)
  with full_names_identify [of ?d ?d ?b ?b] show ?thesis
    by (simp add: Database_FullName_def Instance_FullName_def)
qed

end
