(* ===== verification/Connection.thy ===== *)
theory Connection
  imports Requests Result_Resume
begin

text \<open>
  \<open>connection.h\<close> and \<open>internal/connection_impl.cc\<close>: the operations of a connection. Each visits its
  transaction with a functor that prepares a session, sends its requests and records the id of a
  transaction the service began. Sessions and transactions are shared objects: they live in stores,
  and a \<open>SessionHolder\<close> or a \<open>Transaction\<close> is a position there.
\<close>

section \<open>The service\<close>

record result_set =
  rset_metadata :: "result_metadata option"
  rset_stats :: "result_stats option"

record partition_read_request =
  prr_session :: string
  prr_transaction :: selector
  prr_table :: string
  prr_index :: string
  prr_columns :: "string list"
  prr_key_set :: key_set
  prr_options :: partition_options_proto

record partition_query_request =
  pqr_session :: string
  pqr_transaction :: selector
  pqr_statement :: statement_proto
  pqr_options :: partition_options_proto

record partition_response =
  presp_transaction_id :: string
  presp_tokens :: "string list"

record batch_dml_request =
  bdr_session :: string
  bdr_seqno :: int
  bdr_transaction :: selector
  bdr_statements :: "statement_proto list"

record batch_dml_response =
  bd_result_sets :: "result_set list"
  bd_status :: status

record begin_request =
  br_session :: string
  br_options :: transaction_options

record commit_request =
  cr_session :: string
  cr_mutations :: "mutation list"
  cr_transaction_id :: string

record rollback_request =
  rr_session :: string
  rr_transaction_id :: string

text \<open>
  The stub: unary calls answer and change the state of the service, streaming calls open a stream
  with the operations of \<open>stub_reader\<close>.
\<close>

record ('s, 'w, 'r) spanner_stub =
  stub_reader :: "'r reader"
  StreamingRead :: "'s \<Rightarrow> read_request \<Rightarrow> 'w \<Rightarrow> 'r \<times> 'w"
  ExecuteStreamingSql :: "'s \<Rightarrow> sql_request \<Rightarrow> 'w \<Rightarrow> 'r \<times> 'w"
  stub_ExecuteSql :: "'s \<Rightarrow> sql_request \<Rightarrow> 'w \<Rightarrow> result_set status_or \<times> 'w"
  stub_ExecuteBatchDml :: "'s \<Rightarrow> batch_dml_request \<Rightarrow> 'w \<Rightarrow> batch_dml_response status_or \<times> 'w"
  stub_PartitionRead :: "'s \<Rightarrow> partition_read_request \<Rightarrow> 'w \<Rightarrow> partition_response status_or \<times> 'w"
  stub_PartitionQuery :: "'s \<Rightarrow> partition_query_request \<Rightarrow> 'w \<Rightarrow> partition_response status_or \<times> 'w"
  stub_BeginTransaction :: "'s \<Rightarrow> begin_request \<Rightarrow> 'w \<Rightarrow> string status_or \<times> 'w"
  stub_Commit :: "'s \<Rightarrow> commit_request \<Rightarrow> 'w \<Rightarrow> proto_timestamp status_or \<times> 'w"
  stub_Rollback :: "'s \<Rightarrow> rollback_request \<Rightarrow> 'w \<Rightarrow> unit status_or \<times> 'w"

section \<open>State\<close>

text \<open>
  The pool, the stores and the service. The \<open>k\<close>-th stream that is opened has its own view
  \<open>cw_streams k\<close> of the service.
\<close>

record ('s, 'g, 'w) client_world =
  cw_pool :: "('s, 'g) session_pool"
  cw_sessions :: "session_holder list"
  cw_txns :: "nat transaction_impl list"
  cw_streams :: "nat \<Rightarrow> 'w"
  cw_opened :: nat
  cw_service :: 'w

text \<open>What a connection keeps for good; its policies are those of its pool.\<close>

record ('s, 'g, 'p, 'b, 'w, 'r) connection =
  cn_pool_env :: "('s, 'g, 'p, 'b, 'w) pool_env"
  cn_tracing :: bool
  cn_stub :: "('s, 'w, 'r) spanner_stub"

fun held_session :: "session_holder \<Rightarrow> session" where
  "held_session (Dissociated s) = s"
| "held_session (Pooled s) = s"

fun holder_set_bad :: "session_holder \<Rightarrow> session_holder" where
  "holder_set_bad (Dissociated s) = Dissociated (s\<lparr>is_bad := True\<rparr>)"
| "holder_set_bad (Pooled s) = Pooled (s\<lparr>is_bad := True\<rparr>)"

definition the_session :: "('s, 'g, 'w) client_world \<Rightarrow> nat \<Rightarrow> session" where
  "the_session W h = held_session (cw_sessions W ! h)"

definition set_bad :: "nat \<Rightarrow> ('s, 'g, 'w) client_world \<Rightarrow> ('s, 'g, 'w) client_world" where
  "set_bad h W = W\<lparr>cw_sessions := (cw_sessions W)[h := holder_set_bad (cw_sessions W ! h)]\<rparr>"

definition note_status :: "nat \<Rightarrow> status \<Rightarrow> ('s, 'g, 'w) client_world \<Rightarrow> ('s, 'g, 'w) client_world" where
  "note_status h status W = (if IsSessionNotFound status then set_bad h W else W)"

definition add_session :: "session_holder \<Rightarrow> ('s, 'g, 'w) client_world \<Rightarrow> nat \<times> ('s, 'g, 'w) client_world" where
  "add_session holder W = (length (cw_sessions W), W\<lparr>cw_sessions := cw_sessions W @ [holder]\<rparr>)"

definition add_transaction ::
    "nat transaction_impl \<Rightarrow> ('s, 'g, 'w) client_world \<Rightarrow> nat \<times> ('s, 'g, 'w) client_world" where
  "add_transaction ti W = (length (cw_txns W), W\<lparr>cw_txns := cw_txns W @ [ti]\<rparr>)"

definition MakeReadOnlyTransaction ::
    "read_only_opts \<Rightarrow> ('s, 'g, 'w) client_world \<Rightarrow> nat \<times> ('s, 'g, 'w) client_world" where
  "MakeReadOnlyTransaction opts = add_transaction (Transaction_ReadOnly opts)"

definition MakeReadWriteTransaction :: "('s, 'g, 'w) client_world \<Rightarrow> nat \<times> ('s, 'g, 'w) client_world" where
  "MakeReadWriteTransaction = add_transaction Transaction_ReadWrite"

definition MakeReadWriteTransaction_rerun ::
    "nat \<Rightarrow> ('s, 'g, 'w) client_world \<Rightarrow> nat \<times> ('s, 'g, 'w) client_world" where
  "MakeReadWriteTransaction_rerun txn W = add_transaction (Transaction_rerun (cw_txns W ! txn)) W"

definition MakeSingleUseTransaction ::
    "read_only_opts \<Rightarrow> ('s, 'g, 'w) client_world \<Rightarrow> nat \<times> ('s, 'g, 'w) client_world" where
  "MakeSingleUseTransaction opts = add_transaction (Transaction_SingleUse opts)"

text \<open>The session of given ids belongs to no pool; \<open>now\<close> is the reading of its own clock.\<close>

definition MakeDissociatedSessionHolder :: "int \<Rightarrow> string \<Rightarrow> session_holder" where
  "MakeDissociatedSessionHolder now name =
     Dissociated \<lparr>session_name = name, session_channel = None, is_bad = False, last_use_time = now\<rparr>"

definition MakeTransactionFromIds ::
    "int \<Rightarrow> string \<Rightarrow> string \<Rightarrow> ('s, 'g, 'w) client_world \<Rightarrow> nat \<times> ('s, 'g, 'w) client_world" where
  "MakeTransactionFromIds now session_id transaction_id W =
     (let (h, W) = add_session (MakeDissociatedSessionHolder now session_id) W
      in add_transaction (TransactionImpl (Some h) (Id transaction_id)) W)"

text \<open>\<open>internal::Visit\<close> on a shared transaction.\<close>

definition VisitTransaction ::
    "(nat option \<Rightarrow> selector \<Rightarrow> int \<Rightarrow> ('s, 'g, 'w) client_world \<Rightarrow>
      ('a \<times> nat option \<times> selector \<times> ('s, 'g, 'w) client_world) option) \<Rightarrow>
     nat \<Rightarrow> ('s, 'g, 'w) client_world \<Rightarrow> ('a \<times> ('s, 'g, 'w) client_world) option" where
  "VisitTransaction f txn W =
     (case Visit f (cw_txns W ! txn) W of
        None \<Rightarrow> None
      | Some (r, ti, W) \<Rightarrow> Some (r, W\<lparr>cw_txns := (cw_txns W)[txn := ti]\<rparr>))"

section \<open>Results\<close>

text \<open>A reader is the stream's own one or, when RPC streams are traced, a logging one around it.\<close>

datatype 'r stream_reader = Plain 'r | Traced "'r logging"

fun any_Read :: "'r reader \<Rightarrow> 'r stream_reader \<Rightarrow> (partial_result_set option \<times> 'r stream_reader) option" where
  "any_Read rd (Plain r) = map_option (\<lambda>(m, r). (m, Plain r)) (Read rd r)"
| "any_Read rd (Traced l) = map_option (\<lambda>(m, l). (m, Traced l)) (LoggingReader_Read rd l)"

fun any_Finish :: "'r reader \<Rightarrow> 'r stream_reader \<Rightarrow> status \<times> 'r stream_reader" where
  "any_Finish rd (Plain r) = (let (st, r) = Finish rd r in (st, Plain r))"
| "any_Finish rd (Traced l) = (let (st, l) = LoggingReader_Finish rd l in (st, Traced l))"

fun any_TryCancel :: "'r reader \<Rightarrow> 'r stream_reader \<Rightarrow> 'r stream_reader" where
  "any_TryCancel rd (Plain r) = Plain (TryCancel rd r)"
| "any_TryCancel rd (Traced l) = Traced (LoggingReader_TryCancel rd l)"

definition any_reader :: "'r reader \<Rightarrow> 'r stream_reader reader" where
  "any_reader rd = \<lparr>Read = any_Read rd, Finish = any_Finish rd, TryCancel = any_TryCancel rd\<rparr>"

text \<open>
  The sources of a result: a stream that is resumed, an error (\<open>StatusOnlyResultSetSource\<close>) and the
  result of a DML statement (\<open>DmlResultSetSource\<close>), whose \<open>NextRow\<close> is the default \<open>StatusOr\<close>.
\<close>

datatype ('r, 'p, 'b, 'w) result_source =
    StreamSource "('r stream_reader, 'p, 'b, 'w) resume_config"
      "('r stream_reader, 'p, 'b, 'w) resume source"
  | StatusOnly status
  | DmlSource result_set

fun result_NextRow ::
    "('r, 'p, 'b, 'w) result_source \<Rightarrow> (row status_or \<times> ('r, 'p, 'b, 'w) result_source) option" where
  "result_NextRow (StreamSource cfg s) =
     map_option (\<lambda>(r, s). (r, StreamSource cfg s)) (NextRow (resume_reader cfg) s)"
| "result_NextRow (StatusOnly status) = Some (Inl status, StatusOnly status)"
| "result_NextRow (DmlSource rs) = Some (Inl (Status kUnknown ''default''), DmlSource rs)"

fun result_Metadata :: "('r, 'p, 'b, 'w) result_source \<Rightarrow> result_metadata option" where
  "result_Metadata (StreamSource cfg s) = src_metadata s"
| "result_Metadata (StatusOnly status) = None"
| "result_Metadata (DmlSource rs) = rset_metadata rs"

fun result_Stats :: "('r, 'p, 'b, 'w) result_source \<Rightarrow> result_stats option" where
  "result_Stats (StreamSource cfg s) = src_stats s"
| "result_Stats (StatusOnly status) = None"
| "result_Stats (DmlSource rs) = rset_stats rs"

text \<open>\<open>transaction().id()\<close>, empty when nothing is set.\<close>

definition metadata_txn_id :: "result_metadata option \<Rightarrow> string" where
  "metadata_txn_id md =
     (case md of Some (Metadata _ (Some info)) \<Rightarrow> txn_id info | _ \<Rightarrow> [])"

section \<open>Common steps\<close>

type_synonym ('s, 'g, 'w, 'a) body =
  "nat \<Rightarrow> selector \<Rightarrow> ('s, 'g, 'w) client_world \<Rightarrow> ('a \<times> selector \<times> ('s, 'g, 'w) client_world) option"

definition PrepareSession ::
    "('s, 'g, 'p, 'b, 'w, 'r) connection \<Rightarrow> bool \<Rightarrow> nat option \<Rightarrow> ('s, 'g, 'w) client_world \<Rightarrow>
     (nat status_or \<times> ('s, 'g, 'w) client_world) option" where
  "PrepareSession c dissociate_from_pool session W =
     (case session of
        Some h \<Rightarrow> Some (Inr h, W)
      | None \<Rightarrow>
          (case Allocate (cn_pool_env c) dissociate_from_pool (cw_pool W) (cw_service W) of
             None \<Rightarrow> None
           | Some (r, p, w) \<Rightarrow>
               let W = W\<lparr>cw_pool := p, cw_service := w\<rparr>
               in case r of
                    Blocked \<Rightarrow> None
                  | Failed status \<Rightarrow> Some (Inl status, W)
                  | Allocated holder \<Rightarrow> let (h, W) = add_session holder W in Some (Inr h, W)))"

text \<open>The frame of every functor: what it returns without a session, and what it does with one.\<close>

definition with_session ::
    "('s, 'g, 'p, 'b, 'w, 'r) connection \<Rightarrow> bool \<Rightarrow> (status \<Rightarrow> 'a) \<Rightarrow> ('s, 'g, 'w, 'a) body \<Rightarrow>
     nat option \<Rightarrow> selector \<Rightarrow> ('s, 'g, 'w) client_world \<Rightarrow>
     ('a \<times> nat option \<times> selector \<times> ('s, 'g, 'w) client_world) option" where
  "with_session c dissociate_from_pool failure body session s W =
     (case PrepareSession c dissociate_from_pool session W of
        None \<Rightarrow> None
      | Some (Inl status, W) \<Rightarrow> Some (failure status, session, s, W)
      | Some (Inr h, W) \<Rightarrow> map_option (\<lambda>(r, s, W). (r, Some h, s, W)) (body h s W))"

definition Connection_GetStub :: "nat \<Rightarrow> ('s, 'g, 'w) client_world \<Rightarrow> 's \<times> ('s, 'g, 'w) client_world" where
  "Connection_GetStub h W =
     (let (stub, p) = GetStub (the_session W h) (cw_pool W) in (stub, W\<lparr>cw_pool := p\<rparr>))"

text \<open>A unary call in the retry loop; a session the service does not know is marked bad.\<close>

definition call_rpc ::
    "('s, 'g, 'p, 'b, 'w, 'r) connection \<Rightarrow> ('req \<Rightarrow> 'w \<Rightarrow> 'x status_or \<times> 'w) \<Rightarrow> 'req \<Rightarrow> string \<Rightarrow> nat \<Rightarrow>
     ('s, 'g, 'w) client_world \<Rightarrow> ('x status_or \<times> ('s, 'g, 'w) client_world) option" where
  "call_rpc c rpc request location h W =
     (case RetryLoop (pe_retry (cn_pool_env c)) (pe_policy (cn_pool_env c)) (pe_backoff (cn_pool_env c))
          True rpc request location (cw_service W) of
        None \<Rightarrow> None
      | Some (response, w) \<Rightarrow>
          let W = W\<lparr>cw_service := w\<rparr>
          in Some (response, case response of Inl status \<Rightarrow> note_status h status W | Inr _ \<Rightarrow> W))"

text \<open>A stream that resumes, and its source with the first message read.\<close>

definition stream_factory ::
    "bool \<Rightarrow> ('req \<Rightarrow> 'w \<Rightarrow> 'r \<times> 'w) \<Rightarrow> (string \<Rightarrow> 'req) \<Rightarrow> string \<Rightarrow> 'w \<Rightarrow> 'r stream_reader \<times> 'w" where
  "stream_factory tracing rpc request resume_token w =
     (let (r, w) = rpc (request resume_token) w
      in (if tracing then Traced \<lparr>log_impl = r, log_lines = []\<rparr> else Plain r, w))"

definition stream_config ::
    "('s, 'g, 'p, 'b, 'w, 'r) connection \<Rightarrow> ('req \<Rightarrow> 'w \<Rightarrow> 'r \<times> 'w) \<Rightarrow> (string \<Rightarrow> 'req) \<Rightarrow>
     ('r stream_reader, 'p, 'b, 'w) resume_config" where
  "stream_config c rpc request =
     \<lparr>rc_env = pe_retry (cn_pool_env c), rc_reader = any_reader (stub_reader (cn_stub c)),
      rc_factory = stream_factory (cn_tracing c) rpc request, rc_idempotent = True\<rparr>"

definition open_stream ::
    "('s, 'g, 'p, 'b, 'w, 'r) connection \<Rightarrow> ('req \<Rightarrow> 'w \<Rightarrow> 'r \<times> 'w) \<Rightarrow> (string \<Rightarrow> 'req) \<Rightarrow>
     ('s, 'g, 'w) client_world \<Rightarrow>
     (('r, 'p, 'b, 'w) result_source status_or \<times> ('s, 'g, 'w) client_world) option" where
  "open_stream c rpc request W =
     (let cfg = stream_config c rpc request;
          rpc = Resume_Create cfg (pe_policy (cn_pool_env c)) (pe_backoff (cn_pool_env c))
            (cw_streams W (cw_opened W));
          W = W\<lparr>cw_opened := cw_opened W + 1\<rparr>
      in case Source_Create (resume_reader cfg) rpc of
           None \<Rightarrow> None
         | Some (Inl status) \<Rightarrow> Some (Inl status, W)
         | Some (Inr source) \<Rightarrow> Some (Inr (StreamSource cfg source), W))"

definition begin_without_id :: "string \<Rightarrow> status" where
  "begin_without_id where_text =
     Status kInternal (''Begin transaction requested but no transaction returned'' @ where_text @ ''.'')"

text \<open>The id of a transaction that a result had to begin.\<close>

definition begun_by :: "string \<Rightarrow> selector \<Rightarrow> ('r, 'p, 'b, 'w) result_source \<Rightarrow> selector status_or" where
  "begun_by where_text s reader =
     (if has_begin s then
        (if metadata_txn_id (result_Metadata reader) = [] then Inl (begin_without_id where_text)
         else Inr (Id (metadata_txn_id (result_Metadata reader))))
      else Inr s)"

section \<open>Reads\<close>

record read_params =
  rp_transaction :: nat
  rp_table :: string
  rp_keys :: key_set
  rp_columns :: "string list"
  rp_read_options :: read_options
  rp_partition_token :: "string option"

definition read_request_for :: "string \<Rightarrow> selector \<Rightarrow> read_params \<Rightarrow> string \<Rightarrow> read_request" where
  "read_request_for name s params resume_token =
     \<lparr>rq_session = name, rq_transaction = s, rq_table = rp_table params,
      rq_index = index_name (rp_read_options params), rq_columns = rp_columns params,
      rq_key_set = rp_keys params, rq_limit = read_limit (rp_read_options params),
      rq_resume_token = resume_token,
      rq_partition_token = (case rp_partition_token params of None \<Rightarrow> [] | Some t \<Rightarrow> t)\<rparr>"

definition Read_body ::
    "('s, 'g, 'p, 'b, 'w, 'r) connection \<Rightarrow> read_params \<Rightarrow>
     ('s, 'g, 'w, ('r, 'p, 'b, 'w) result_source) body" where
  "Read_body c params h s W =
     (let (stub, W) = Connection_GetStub h W
      in case open_stream c (StreamingRead (cn_stub c) stub)
             (read_request_for (session_name (the_session W h)) s params) W of
           None \<Rightarrow> None
         | Some (Inl status, W) \<Rightarrow> Some (StatusOnly status, s, note_status h status W)
         | Some (Inr reader, W) \<Rightarrow>
             (case begun_by '' (in Read)'' s reader of
                Inl status \<Rightarrow> Some (StatusOnly status, s, W)
              | Inr s \<Rightarrow> Some (reader, s, W)))"

definition ReadImpl where
  "ReadImpl c params = with_session c False StatusOnly (Read_body c params)"

definition Connection_Read ::
    "('s, 'g, 'p, 'b, 'w, 'r) connection \<Rightarrow> read_params \<Rightarrow> ('s, 'g, 'w) client_world \<Rightarrow>
     (('r, 'p, 'b, 'w) result_source \<times> ('s, 'g, 'w) client_world) option" where
  "Connection_Read c params =
     VisitTransaction (\<lambda>session s seqno. ReadImpl c params session s) (rp_transaction params)"

definition partition_read_request_for ::
    "string \<Rightarrow> selector \<Rightarrow> read_params \<Rightarrow> partition_options \<Rightarrow> partition_read_request" where
  "partition_read_request_for name s params opts =
     \<lparr>prr_session = name, prr_transaction = s, prr_table = rp_table params,
      prr_index = index_name (rp_read_options params), prr_columns = rp_columns params,
      prr_key_set = rp_keys params, prr_options = PartitionOptions_ToProto opts\<rparr>"

definition PartitionRead_body ::
    "('s, 'g, 'p, 'b, 'w, 'r) connection \<Rightarrow> read_params \<Rightarrow> partition_options \<Rightarrow>
     ('s, 'g, 'w, read_request list status_or) body" where
  "PartitionRead_body c params opts h s W =
     (let (stub, W) = Connection_GetStub h W;
          name = session_name (the_session W h)
      in case call_rpc c (stub_PartitionRead (cn_stub c) stub) (partition_read_request_for name s params opts)
             ''PartitionReadImpl'' h W of
           None \<Rightarrow> None
         | Some (Inl status, W) \<Rightarrow> Some (Inl status, s, W)
         | Some (Inr response, W) \<Rightarrow>
             Some (Inr (map (\<lambda>token. MakeReadPartition (presp_transaction_id response) name token
                          (rp_table params) (rp_keys params) (rp_columns params) (rp_read_options params))
                        (presp_tokens response)),
               if has_begin s then Id (presp_transaction_id response) else s, W))"

definition PartitionReadImpl where
  "PartitionReadImpl c params opts = with_session c True Inl (PartitionRead_body c params opts)"

definition Connection_PartitionRead ::
    "('s, 'g, 'p, 'b, 'w, 'r) connection \<Rightarrow> read_params \<Rightarrow> partition_options \<Rightarrow>
     ('s, 'g, 'w) client_world \<Rightarrow> (read_request list status_or \<times> ('s, 'g, 'w) client_world) option" where
  "Connection_PartitionRead c params opts =
     VisitTransaction (\<lambda>session s seqno. PartitionReadImpl c params opts session s) (rp_transaction params)"

definition MakeReadParams ::
    "int \<Rightarrow> read_request \<Rightarrow> ('s, 'g, 'w) client_world \<Rightarrow> read_params \<times> ('s, 'g, 'w) client_world" where
  "MakeReadParams now p W =
     (let (txn, W) = MakeTransactionFromIds now (rq_session p) (selector_id (rq_transaction p)) W
      in (\<lparr>rp_transaction = txn, rp_table = rq_table p, rp_keys = rq_key_set p, rp_columns = rq_columns p,
           rp_read_options = ReadPartition_ReadOptions p, rp_partition_token = Some (rq_partition_token p)\<rparr>, W))"

section \<open>Queries and DML\<close>

record sql_params_in =
  sqp_transaction :: nat
  sqp_statement :: sql_statement
  sqp_query_options :: query_options
  sqp_partition_token :: "string option"

text \<open>The statement's fields are moved into the request, whose parameters are set by \<open>mutable_params\<close>.\<close>

definition request_statement :: "sql_statement \<Rightarrow> statement_proto" where
  "request_statement st =
     (let proto = Statement_ToProto st
      in proto\<lparr>sp_params := Some (case sp_params proto of None \<Rightarrow> [] | Some ps \<Rightarrow> ps)\<rparr>)"

definition sql_request_for ::
    "string \<Rightarrow> selector \<Rightarrow> int \<Rightarrow> sql_params_in \<Rightarrow> query_mode \<Rightarrow> string \<Rightarrow> sql_request" where
  "sql_request_for name s seqno params mode resume_token =
     \<lparr>sq_session = name, sq_transaction = s, sq_statement = request_statement (sqp_statement params),
      sq_resume_token = resume_token, sq_query_mode = mode,
      sq_partition_token = (case sqp_partition_token params of None \<Rightarrow> [] | Some t \<Rightarrow> t),
      sq_seqno = seqno, sq_query_options = optimizer_version (sqp_query_options params)\<rparr>"

definition ExecuteSqlImpl ::
    "int \<Rightarrow> sql_params_in \<Rightarrow> query_mode \<Rightarrow>
     ((string \<Rightarrow> sql_request) \<Rightarrow> ('s, 'g, 'w) client_world \<Rightarrow>
        (('r, 'p, 'b, 'w) result_source status_or \<times> ('s, 'g, 'w) client_world) option) \<Rightarrow>
     ('s, 'g, 'w, ('r, 'p, 'b, 'w) result_source status_or) body" where
  "ExecuteSqlImpl seqno params mode retry_resume_fn h s W =
     (case retry_resume_fn (sql_request_for (session_name (the_session W h)) s seqno params mode) W of
        None \<Rightarrow> None
      | Some (Inl status, W) \<Rightarrow> Some (Inl status, s, W)
      | Some (Inr reader, W) \<Rightarrow>
          (case begun_by [] s reader of
             Inl status \<Rightarrow> Some (Inl status, s, W)
           | Inr s \<Rightarrow> Some (Inr reader, s, W)))"

definition CommonQuery_body ::
    "('s, 'g, 'p, 'b, 'w, 'r) connection \<Rightarrow> int \<Rightarrow> sql_params_in \<Rightarrow> query_mode \<Rightarrow>
     ('s, 'g, 'w, ('r, 'p, 'b, 'w) result_source) body" where
  "CommonQuery_body c seqno params mode h s W =
     (let (stub, W) = Connection_GetStub h W
      in case ExecuteSqlImpl seqno params mode (open_stream c (ExecuteStreamingSql (cn_stub c) stub)) h s W of
           None \<Rightarrow> None
         | Some (Inl status, s, W) \<Rightarrow> Some (StatusOnly status, s, note_status h status W)
         | Some (Inr result, s, W) \<Rightarrow> Some (result, s, W))"

definition CommonQueryImpl where
  "CommonQueryImpl c seqno params mode = with_session c False StatusOnly (CommonQuery_body c seqno params mode)"

definition CommonDml_body ::
    "('s, 'g, 'p, 'b, 'w, 'r) connection \<Rightarrow> int \<Rightarrow> sql_params_in \<Rightarrow> query_mode \<Rightarrow>
     ('s, 'g, 'w, ('r, 'p, 'b, 'w) result_source status_or) body" where
  "CommonDml_body c seqno params mode h s W =
     (let (stub, W) = Connection_GetStub h W
      in ExecuteSqlImpl seqno params mode
           (\<lambda>request W. map_option (\<lambda>(response, W). (map_sum id DmlSource response, W))
              (call_rpc c (stub_ExecuteSql (cn_stub c) stub) (request []) ''CommonDmlImpl'' h W))
           h s W)"

definition CommonDmlImpl where
  "CommonDmlImpl c seqno params mode = with_session c False Inl (CommonDml_body c seqno params mode)"

text \<open>The plan of a statement: \<open>None\<close> for a result without one, which the code dereferences.\<close>

definition AnalyzeSqlImpl where
  "AnalyzeSqlImpl c seqno params session s W =
     map_option
       (\<lambda>(result, session, s, W).
          (map_sum id (\<lambda>r. Option.bind (result_Stats r) query_plan) result, session, s, W))
       (CommonDmlImpl c seqno params PLAN session s W)"

definition Connection_Query ::
    "('s, 'g, 'p, 'b, 'w, 'r) connection \<Rightarrow> query_mode \<Rightarrow> sql_params_in \<Rightarrow> ('s, 'g, 'w) client_world \<Rightarrow>
     (('r, 'p, 'b, 'w) result_source \<times> ('s, 'g, 'w) client_world) option" where
  "Connection_Query c mode params =
     VisitTransaction (\<lambda>session s seqno. CommonQueryImpl c seqno params mode session s) (sqp_transaction params)"

definition Connection_ExecuteQuery where
  "Connection_ExecuteQuery c = Connection_Query c NORMAL"

definition Connection_ProfileQuery where
  "Connection_ProfileQuery c = Connection_Query c PROFILE"

definition Connection_Dml ::
    "('s, 'g, 'p, 'b, 'w, 'r) connection \<Rightarrow> query_mode \<Rightarrow> sql_params_in \<Rightarrow> ('s, 'g, 'w) client_world \<Rightarrow>
     (('r, 'p, 'b, 'w) result_source status_or \<times> ('s, 'g, 'w) client_world) option" where
  "Connection_Dml c mode params =
     VisitTransaction (\<lambda>session s seqno. CommonDmlImpl c seqno params mode session s) (sqp_transaction params)"

definition Connection_ExecuteDml where
  "Connection_ExecuteDml c = Connection_Dml c NORMAL"

definition Connection_ProfileDml where
  "Connection_ProfileDml c = Connection_Dml c PROFILE"

definition Connection_AnalyzeSql ::
    "('s, 'g, 'p, 'b, 'w, 'r) connection \<Rightarrow> sql_params_in \<Rightarrow> ('s, 'g, 'w) client_world \<Rightarrow>
     (pvalue option status_or \<times> ('s, 'g, 'w) client_world) option" where
  "Connection_AnalyzeSql c params =
     VisitTransaction (\<lambda>session s seqno. AnalyzeSqlImpl c seqno params session s) (sqp_transaction params)"

definition partition_query_request_for ::
    "string \<Rightarrow> selector \<Rightarrow> sql_statement \<Rightarrow> partition_options \<Rightarrow> partition_query_request" where
  "partition_query_request_for name s st opts =
     \<lparr>pqr_session = name, pqr_transaction = s, pqr_statement = request_statement st,
      pqr_options = PartitionOptions_ToProto opts\<rparr>"

definition PartitionQuery_body ::
    "('s, 'g, 'p, 'b, 'w, 'r) connection \<Rightarrow> sql_statement \<Rightarrow> partition_options \<Rightarrow>
     ('s, 'g, 'w, query_partition list status_or) body" where
  "PartitionQuery_body c st opts h s W =
     (let name = session_name (the_session W h);
          (stub, W) = Connection_GetStub h W
      in case call_rpc c (stub_PartitionQuery (cn_stub c) stub) (partition_query_request_for name s st opts)
             ''PartitionQueryImpl'' h W of
           None \<Rightarrow> None
         | Some (Inl status, W) \<Rightarrow> Some (Inl status, s, W)
         | Some (Inr response, W) \<Rightarrow>
             Some (Inr (map (\<lambda>token. MakeQueryPartition (presp_transaction_id response) name token st)
                        (presp_tokens response)),
               if has_begin s then Id (presp_transaction_id response) else s, W))"

definition PartitionQueryImpl where
  "PartitionQueryImpl c st opts = with_session c True Inl (PartitionQuery_body c st opts)"

definition Connection_PartitionQuery ::
    "('s, 'g, 'p, 'b, 'w, 'r) connection \<Rightarrow> nat \<Rightarrow> sql_statement \<Rightarrow> partition_options \<Rightarrow>
     ('s, 'g, 'w) client_world \<Rightarrow> (query_partition list status_or \<times> ('s, 'g, 'w) client_world) option" where
  "Connection_PartitionQuery c txn st opts =
     VisitTransaction (\<lambda>session s seqno. PartitionQueryImpl c st opts session s) txn"

definition MakeSqlParams ::
    "int \<Rightarrow> query_partition \<Rightarrow> ('s, 'g, 'w) client_world \<Rightarrow> sql_params_in \<times> ('s, 'g, 'w) client_world" where
  "MakeSqlParams now p W =
     (let (txn, W) = MakeTransactionFromIds now (qp_session_id p) (qp_transaction_id p) W
      in (\<lparr>sqp_transaction = txn, sqp_statement = qp_statement p,
           sqp_query_options = \<lparr>optimizer_version = None\<rparr>,
           sqp_partition_token = Some (qp_partition_token p)\<rparr>, W))"

record batch_dml_result =
  bdml_stats :: "int list"
  bdml_status :: status

definition row_count :: "result_set \<Rightarrow> int" where
  "row_count rs = (case rset_stats rs of None \<Rightarrow> 0 | Some stats \<Rightarrow> row_count_exact stats)"

definition ExecuteBatchDml_body ::
    "('s, 'g, 'p, 'b, 'w, 'r) connection \<Rightarrow> int \<Rightarrow> sql_statement list \<Rightarrow>
     ('s, 'g, 'w, batch_dml_result status_or) body" where
  "ExecuteBatchDml_body c seqno statements h s W =
     (let request = \<lparr>bdr_session = session_name (the_session W h), bdr_seqno = seqno, bdr_transaction = s,
            bdr_statements = map Statement_ToProto statements\<rparr>;
          (stub, W) = Connection_GetStub h W
      in case call_rpc c (stub_ExecuteBatchDml (cn_stub c) stub) request ''ExecuteBatchDmlImpl'' h W of
           None \<Rightarrow> None
         | Some (Inl status, W) \<Rightarrow> Some (Inl status, s, W)
         | Some (Inr response, W) \<Rightarrow>
             Some (Inr \<lparr>bdml_stats = map row_count (bd_result_sets response), bdml_status = bd_status response\<rparr>,
               (case bd_result_sets response of
                  [] \<Rightarrow> s
                | rs # _ \<Rightarrow> if has_begin s then Id (metadata_txn_id (rset_metadata rs)) else s), W))"

definition ExecuteBatchDmlImpl where
  "ExecuteBatchDmlImpl c seqno statements = with_session c False Inl (ExecuteBatchDml_body c seqno statements)"

definition Connection_ExecuteBatchDml ::
    "('s, 'g, 'p, 'b, 'w, 'r) connection \<Rightarrow> nat \<Rightarrow> sql_statement list \<Rightarrow> ('s, 'g, 'w) client_world \<Rightarrow>
     (batch_dml_result status_or \<times> ('s, 'g, 'w) client_world) option" where
  "Connection_ExecuteBatchDml c txn statements =
     VisitTransaction (\<lambda>session s seqno. ExecuteBatchDmlImpl c seqno statements session s) txn"

definition ExecutePartitionedDml_body ::
    "('s, 'g, 'p, 'b, 'w, 'r) connection \<Rightarrow> int \<Rightarrow> sql_statement \<Rightarrow> ('s, 'g, 'w, int status_or) body" where
  "ExecutePartitionedDml_body c seqno st h s W =
     (let name = session_name (the_session W h);
          (stub, W) = Connection_GetStub h W
      in case call_rpc c (stub_BeginTransaction (cn_stub c) stub)
             \<lparr>br_session = name, br_options = PartitionedDml\<rparr> ''ExecutePartitionedDmlImpl'' h W of
           None \<Rightarrow> None
         | Some (Inl status, W) \<Rightarrow> Some (Inl status, s, W)
         | Some (Inr txn, W) \<Rightarrow>
             let s = Id txn;
                 request = \<lparr>sq_session = name, sq_transaction = s, sq_statement = request_statement st,
                   sq_resume_token = [], sq_query_mode = NORMAL, sq_partition_token = [], sq_seqno = seqno,
                   sq_query_options = None\<rparr>
             in (case call_rpc c (stub_ExecuteSql (cn_stub c) stub) request ''ExecutePartitionedDmlImpl'' h W of
                   None \<Rightarrow> None
                 | Some (Inl status, W) \<Rightarrow> Some (Inl status, s, W)
                 | Some (Inr response, W) \<Rightarrow>
                     Some (Inr (case rset_stats response of None \<Rightarrow> 0 | Some stats \<Rightarrow> row_count_lower_bound stats),
                       s, W)))"

definition ExecutePartitionedDmlImpl where
  "ExecutePartitionedDmlImpl c seqno st = with_session c False Inl (ExecutePartitionedDml_body c seqno st)"

definition Connection_ExecutePartitionedDml ::
    "('s, 'g, 'p, 'b, 'w, 'r) connection \<Rightarrow> sql_statement \<Rightarrow> ('s, 'g, 'w) client_world \<Rightarrow>
     (int status_or \<times> ('s, 'g, 'w) client_world) option" where
  "Connection_ExecutePartitionedDml c st W =
     (let (txn, W) = MakeReadOnlyTransaction ReadOnlyOptions_strong W
      in VisitTransaction (\<lambda>session s seqno. ExecutePartitionedDmlImpl c seqno st session s) txn W)"

section \<open>Commit and rollback\<close>

text \<open>The result is the commit timestamp; \<open>None\<close> where its conversion overflows.\<close>

definition Commit_with_id ::
    "('s, 'g, 'p, 'b, 'w, 'r) connection \<Rightarrow> mutation list \<Rightarrow> string \<Rightarrow>
     ('s, 'g, 'w, timestamp option status_or) body" where
  "Commit_with_id c mutations name h s W =
     (let (stub, W) = Connection_GetStub h W
      in case call_rpc c (stub_Commit (cn_stub c) stub)
             \<lparr>cr_session = name, cr_mutations = mutations, cr_transaction_id = selector_id s\<rparr>
             ''CommitImpl'' h W of
           None \<Rightarrow> None
         | Some (response, W) \<Rightarrow> Some (map_sum id FromProto response, s, W))"

definition Commit_begin ::
    "('s, 'g, 'p, 'b, 'w, 'r) connection \<Rightarrow> mutation list \<Rightarrow> string \<Rightarrow> transaction_options \<Rightarrow>
     ('s, 'g, 'w, timestamp option status_or) body" where
  "Commit_begin c mutations name opts h s W =
     (let (stub, W) = Connection_GetStub h W
      in case call_rpc c (stub_BeginTransaction (cn_stub c) stub) \<lparr>br_session = name, br_options = opts\<rparr>
             ''CommitImpl'' h W of
           None \<Rightarrow> None
         | Some (Inl status, W) \<Rightarrow> Some (Inl status, s, W)
         | Some (Inr txn, W) \<Rightarrow> Commit_with_id c mutations name h (Id txn) W)"

definition Commit_body ::
    "('s, 'g, 'p, 'b, 'w, 'r) connection \<Rightarrow> mutation list \<Rightarrow>
     ('s, 'g, 'w, timestamp option status_or) body" where
  "Commit_body c mutations h s W =
     (let name = session_name (the_session W h)
      in case s of
           Id _ \<Rightarrow> Commit_with_id c mutations name h s W
         | Begin opts \<Rightarrow> Commit_begin c mutations name opts h s W
         | SingleUse opts \<Rightarrow> Commit_begin c mutations name opts h s W)"

definition CommitImpl where
  "CommitImpl c mutations = with_session c False Inl (Commit_body c mutations)"

definition Connection_Commit ::
    "('s, 'g, 'p, 'b, 'w, 'r) connection \<Rightarrow> nat \<Rightarrow> mutation list \<Rightarrow> ('s, 'g, 'w) client_world \<Rightarrow>
     (timestamp option status_or \<times> ('s, 'g, 'w) client_world) option" where
  "Connection_Commit c txn mutations =
     VisitTransaction (\<lambda>session s seqno. CommitImpl c mutations session s) txn"

definition rollback_single_use :: status where
  "rollback_single_use = Status kInvalidArgument ''Cannot rollback a single-use transaction''"

definition Rollback_body ::
    "('s, 'g, 'p, 'b, 'w, 'r) connection \<Rightarrow> ('s, 'g, 'w, status) body" where
  "Rollback_body c h s W =
     (case s of
        SingleUse _ \<Rightarrow> Some (rollback_single_use, s, W)
      | Begin _ \<Rightarrow> Some (ok_status, s, W)
      | Id i \<Rightarrow>
          let (stub, W) = Connection_GetStub h W
          in (case call_rpc c (stub_Rollback (cn_stub c) stub)
                  \<lparr>rr_session = session_name (the_session W h), rr_transaction_id = i\<rparr> ''RollbackImpl'' h W of
                None \<Rightarrow> None
              | Some (response, W) \<Rightarrow> Some (result_status response, s, W)))"

definition RollbackImpl where
  "RollbackImpl c = with_session c False (\<lambda>status. status) (Rollback_body c)"

definition Connection_Rollback ::
    "('s, 'g, 'p, 'b, 'w, 'r) connection \<Rightarrow> nat \<Rightarrow> ('s, 'g, 'w) client_world \<Rightarrow>
     (status \<times> ('s, 'g, 'w) client_world) option" where
  "Connection_Rollback c txn =
     VisitTransaction (\<lambda>session s seqno. RollbackImpl c session s) txn"

end
