(* ===== verification/Read_Path.thy ===== *)
theory Read_Path
  imports Connection
begin

text \<open>
  A read from end to end: the rows of a query or read on a connection whose streams fail and are
  resumed, through all the layers of readers.
\<close>

section \<open>Readers over readers\<close>

text \<open>A reader keeps the contract that its image under an abstraction keeps.\<close>

lemma result_reader_image:
  assumes "result_reader rd' valid pending final"
    and read: "\<And>s m t'. Read rd' (\<phi> s) = Some (m, t') \<Longrightarrow> \<exists>s'. Read rd s = Some (m, s') \<and> t' = \<phi> s'"
    and finish: "\<And>s. fst (Finish rd' (\<phi> s)) = fst (Finish rd s)"
  shows "result_reader rd (\<lambda>s. valid (\<phi> s)) (\<lambda>s. pending (\<phi> s)) (\<lambda>s. final (\<phi> s))"
proof
  fix s m ms
  assume "valid (\<phi> s)" "pending (\<phi> s) = m # ms"
  from result_reader.read_more [OF assms(1) this] read
  show "\<exists>s'. Read rd s = Some (Some m, s') \<and> valid (\<phi> s') \<and> pending (\<phi> s') = ms \<and> final (\<phi> s') = final (\<phi> s)"
    by blast
next
  fix s
  assume "valid (\<phi> s)" "pending (\<phi> s) = []"
  from result_reader.read_end [OF assms(1) this] read finish
  show "\<exists>s'. Read rd s = Some (None, s') \<and> fst (Finish rd s') = final (\<phi> s)" by metis
qed

text \<open>The stream inside a plain or a logging reader.\<close>

fun untraced :: "'r stream_reader \<Rightarrow> 'r" where
  "untraced (Plain r) = r"
| "untraced (Traced l) = log_impl l"

lemma any_Read_untraced:
  "Read rd (untraced r) = map_option (\<lambda>(m, r). (m, untraced r)) (Read (any_reader rd) r)"
proof (cases r)
  case (Plain s)
  then show ?thesis by (cases "Read rd s") (auto simp: any_reader_def)
next
  case (Traced l)
  then show ?thesis by (cases "Read rd (log_impl l)") (auto simp: any_reader_def LoggingReader_Read_def)
qed

lemma any_Finish_untraced:
  "Finish rd (untraced r) = (case Finish (any_reader rd) r of (st, r) \<Rightarrow> (st, untraced r))"
proof (cases r)
  case (Plain s)
  then show ?thesis by (cases "Finish rd s") (simp add: any_reader_def)
next
  case (Traced l)
  then show ?thesis by (cases "Finish rd (log_impl l)") (simp add: any_reader_def LoggingReader_Finish_def)
qed

definition map_child :: "('r \<Rightarrow> 'q) \<Rightarrow> ('r, 'p, 'b, 'w) resume \<Rightarrow> ('q, 'p, 'b, 'w) resume" where
  "map_child \<phi> s = \<lparr>rs_retry = rs_retry s, rs_backoff = rs_backoff s, rs_token = rs_token s,
     rs_child = \<phi> (rs_child s), rs_last_status = rs_last_status s, rs_world = rs_world s\<rparr>"

lemma map_child_simps [simp]:
  "rs_retry (map_child \<phi> s) = rs_retry s" "rs_backoff (map_child \<phi> s) = rs_backoff s"
  "rs_token (map_child \<phi> s) = rs_token s" "rs_child (map_child \<phi> s) = \<phi> (rs_child s)"
  "rs_last_status (map_child \<phi> s) = rs_last_status s" "rs_world (map_child \<phi> s) = rs_world s"
  by (simp_all add: map_child_def)

lemma map_child_updates:
  "(map_child \<phi> s)\<lparr>rs_retry := p\<rparr> = map_child \<phi> (s\<lparr>rs_retry := p\<rparr>)"
  "(map_child \<phi> s)\<lparr>rs_token := t\<rparr> = map_child \<phi> (s\<lparr>rs_token := t\<rparr>)"
  "(map_child \<phi> s)\<lparr>rs_backoff := b\<rparr> = map_child \<phi> (s\<lparr>rs_backoff := b\<rparr>)"
  "(map_child \<phi> s)\<lparr>rs_last_status := st\<rparr> = map_child \<phi> (s\<lparr>rs_last_status := st\<rparr>)"
  "(map_child \<phi> s)\<lparr>rs_world := w\<rparr> = map_child \<phi> (s\<lparr>rs_world := w\<rparr>)"
  "(map_child \<phi> s)\<lparr>rs_child := \<phi> r\<rparr> = map_child \<phi> (s\<lparr>rs_child := r\<rparr>)"
  by (simp_all add: map_child_def)

definition config_image ::
    "('r \<Rightarrow> 'q) \<Rightarrow> ('r, 'p, 'b, 'w) resume_config \<Rightarrow> ('q, 'p, 'b, 'w) resume_config \<Rightarrow> bool" where
  "config_image \<phi> cfg cfg' \<longleftrightarrow> rc_env cfg' = rc_env cfg \<and> rc_idempotent cfg' = rc_idempotent cfg \<and>
     (\<forall>r. Read (rc_reader cfg') (\<phi> r) = map_option (\<lambda>(m, r). (m, \<phi> r)) (Read (rc_reader cfg) r)) \<and>
     (\<forall>r. Finish (rc_reader cfg') (\<phi> r) = (case Finish (rc_reader cfg) r of (st, r) \<Rightarrow> (st, \<phi> r))) \<and>
     (\<forall>t w. rc_factory cfg' t w = (case rc_factory cfg t w of (r, w) \<Rightarrow> (\<phi> r, w)))"

lemma Resume_Finish_traced:
  assumes "config_image \<phi> cfg cfg'"
  shows "Resume_Finish cfg' (map_child \<phi> s) =
    (case Resume_Finish cfg s of (st, s) \<Rightarrow> (st, map_child \<phi> s))"
  using assms
  by (auto simp: Resume_Finish_def config_image_def map_child_updates split: option.splits prod.splits)

lemma Resume_Read_traced:
  assumes "Resume_Read cfg' (map_child \<phi> s) = Some y" "config_image \<phi> cfg cfg'"
  shows "\<exists>s'. Resume_Read cfg s = Some (fst y, s') \<and> snd y = map_child \<phi> s'"
proof -
  have "\<forall>s. t = map_child \<phi> s \<longrightarrow> (\<exists>s'. Resume_Read cfg s = Some (fst y, s') \<and> snd y = map_child \<phi> s')"
    if "Resume_Read cfg' t = Some y" for t
  proof (rule Resume_Read.raw_induct [OF _ that, where P = "\<lambda>cfg' t y. config_image \<phi> cfg cfg' \<longrightarrow>
      (\<forall>s. t = map_child \<phi> s \<longrightarrow> (\<exists>s'. Resume_Read cfg s = Some (fst y, s') \<and> snd y = map_child \<phi> s'))",
      THEN mp, OF _ assms(2)], intro impI allI, goal_cases)
    case (1 rr cfg' t y s)
    note IH = 1(1) [rule_format, OF _ 1(3)] and y = 1(2) and im = 1(3) and t = 1(4)
    show ?case
    proof (cases "Read (rc_reader cfg) (rs_child s)")
      case None
      then show ?thesis using y im by (simp add: t config_image_def)
    next
      case (Some mr)
      obtain mm r where mr: "mr = (mm, r)" by (cases mr)
      have rd: "Read (rc_reader cfg') (rs_child t) = Some (mm, \<phi> r)"
        using im Some mr by (simp add: t config_image_def)
      show ?thesis
      proof (cases mm)
        case (Some m)
        then have "y = (Some m, map_child \<phi> (s\<lparr>rs_child := r, rs_token := prs_resume_token m\<rparr>))"
          using y rd by (simp add: t map_child_updates)
        moreover have "Resume_Read cfg s = Some (Some m, s\<lparr>rs_child := r, rs_token := prs_resume_token m\<rparr>)"
          using \<open>Read _ _ = Some mr\<close> mr Some by (simp add: Resume_Read.simps)
        ultimately show ?thesis by simp
      next
        case None
        obtain st s1 where f: "Resume_Finish cfg (s\<lparr>rs_child := r\<rparr>) = (st, s1)"
          by (cases "Resume_Finish cfg (s\<lparr>rs_child := r\<rparr>)")
        then have f': "Resume_Finish cfg' (t\<lparr>rs_child := \<phi> r\<rparr>) = (st, map_child \<phi> s1)"
          using Resume_Finish_traced [OF im, of "s\<lparr>rs_child := r\<rparr>"] by (simp add: t map_child_updates)
        obtain cont p where p: "OnFailure (re_policy (rc_env cfg)) st (rs_retry s1) = (cont, p)"
          by (cases "OnFailure (re_policy (rc_env cfg)) st (rs_retry s1)")
        obtain d b where b: "re_backoff (rc_env cfg) (rs_backoff s1) = (d, b)"
          by (cases "re_backoff (rc_env cfg) (rs_backoff s1)")
        obtain c w where c: "rc_factory cfg (rs_token s1) (re_sleeper (rc_env cfg) d (rs_world s1)) = (c, w)"
          by (cases "rc_factory cfg (rs_token s1) (re_sleeper (rc_env cfg) d (rs_world s1))")
        have c': "rc_factory cfg' (rs_token s1) (re_sleeper (rc_env cfg) d (rs_world s1)) = (\<phi> c, w)"
          using im c by (simp add: config_image_def)
        have e: "rc_env cfg' = rc_env cfg" "rc_idempotent cfg' = rc_idempotent cfg"
          using im by (simp_all add: config_image_def)
        define s2 where "s2 = s1\<lparr>rs_retry := p, rs_backoff := b, rs_last_status := None, rs_child := c, rs_world := w\<rparr>"
        have lhs: "Resume_Read cfg s =
            (if status_ok st then Some (None, s1) else if \<not> rc_idempotent cfg then Some (None, s1)
             else if \<not> cont then Some (None, s1\<lparr>rs_retry := p\<rparr>)
             else if IsExhausted (re_policy (rc_env cfg)) p then Some (None, s2) else Resume_Read cfg s2)"
          using \<open>Read _ _ = Some mr\<close> mr None
          by (subst Resume_Read.simps) (simp add: f p b c s2_def)
        have rhs: "(if status_ok st then Some (None, map_child \<phi> s1)
             else if \<not> rc_idempotent cfg then Some (None, map_child \<phi> s1)
             else if \<not> cont then Some (None, map_child \<phi> (s1\<lparr>rs_retry := p\<rparr>))
             else if IsExhausted (re_policy (rc_env cfg)) p then Some (None, map_child \<phi> s2)
             else rr cfg' (map_child \<phi> s2)) = Some y"
          using y rd None by (simp add: e f' p b c' s2_def map_child_updates Let_def cong: if_cong)
        show ?thesis
        proof (cases "status_ok st \<or> \<not> rc_idempotent cfg \<or> \<not> cont \<or> IsExhausted (re_policy (rc_env cfg)) p")
          case True
          then show ?thesis using lhs rhs by (auto split: if_splits)
        next
          case False
          then have "rr cfg' (map_child \<phi> s2) = Some y" using rhs by simp
          from IH [OF this] False lhs show ?thesis by auto
        qed
      qed
    qed
  qed
  with assms(1) show ?thesis by blast
qed

lemma resume_image_reader:
  assumes "result_reader (resume_reader cfg') valid pending final" "config_image \<phi> cfg cfg'"
  shows "result_reader (resume_reader cfg) (\<lambda>s. valid (map_child \<phi> s)) (\<lambda>s. pending (map_child \<phi> s))
    (\<lambda>s. final (map_child \<phi> s))"
proof (rule result_reader_image [OF assms(1)])
  fix s m t'
  assume "Read (resume_reader cfg') (map_child \<phi> s) = Some (m, t')"
  then have "Resume_Read cfg' (map_child \<phi> s) = Some (m, t')" by (simp add: resume_reader_def)
  from Resume_Read_traced [OF this assms(2)]
  show "\<exists>s'. Read (resume_reader cfg) s = Some (m, s') \<and> t' = map_child \<phi> s'" by (simp add: resume_reader_def)
next
  fix s
  show "fst (Finish (resume_reader cfg') (map_child \<phi> s)) = fst (Finish (resume_reader cfg) s)"
    using Resume_Finish_traced [OF assms(2), of s] by (simp add: resume_reader_def split: prod.splits)
qed

section \<open>Opening a stream\<close>

text \<open>A patient connection: it retries transient failures only, some number of times.\<close>

definition patient :: "('s, 'g, nat, 'b, 'w, 'r) connection \<Rightarrow> bool" where
  "patient c \<longleftrightarrow>
     re_policy (pe_retry (cn_pool_env c)) = limited_error_count SafeGrpcRetry_IsPermanentFailure \<and>
     (\<forall>d w. re_sleeper (pe_retry (cn_pool_env c)) d w = w)"

lemma stream_config_traced:
  assumes "stub_reader (cn_stub c) = default_reader" "\<And>token w. rpc (request token) w = serve ms token w"
  shows "config_image untraced (stream_config c rpc request) (resume_config_for (pe_retry (cn_pool_env c)) ms)"
  using assms any_Read_untraced [of default_reader] any_Finish_untraced [of default_reader]
  by (auto simp: config_image_def stream_config_def resume_config_for_def stream_factory_def
      simp del: Read_default split: prod.splits)

lemma yields_StreamSource:
  assumes "yields (NextRow (resume_reader cfg)) s rows e"
  shows "yields result_NextRow (StreamSource cfg s) rows e"
  using assms by (induction rule: yields.induct) (auto intro: yields.intros)

lemma open_stream_rows:
  assumes service: "stub_reader (cn_stub c) = default_reader" "\<And>token w. rpc (request token) w = serve (m # ms) token w"
    and c: "patient c" and tokens: "tokens_ok (m # ms)"
    and faults: "\<forall>(n, st) \<in> set (cw_streams W (cw_opened W)). code st \<in> {kUnavailable, kResourceExhausted}"
      "length (cw_streams W (cw_opened W)) < pe_policy (cn_pool_env c)"
    and vals: "delivers None (m # ms) vs None" "prs_metadata m = Some md" "row_type_fields md \<noteq> []"
      "length vs = n * length (row_type_fields md)"
  shows "\<exists>cfg s. open_stream c rpc request W = Some (Inr (StreamSource cfg s), W\<lparr>cw_opened := cw_opened W + 1\<rparr>) \<and>
    src_metadata s = Some md \<and>
    all_rows result_NextRow (StreamSource cfg s) =
      Some (map Inr (map (typed_row md) (chop (length (row_type_fields md)) vs)))"
proof -
  let ?env = "pe_retry (cn_pool_env c)"
  let ?cfg' = "resume_config_for ?env (m # ms)" and ?cfg = "stream_config c rpc request"
  let ?p = "pe_policy (cn_pool_env c)" and ?b = "pe_backoff (cn_pool_env c)"
  let ?w = "cw_streams W (cw_opened W)"
  let ?r = "Resume_Create ?cfg ?p ?b ?w"
  have im: "config_image untraced ?cfg ?cfg'" by (rule stream_config_traced) (rule service)+
  have env: "re_policy ?env = limited_error_count SafeGrpcRetry_IsPermanentFailure"
    "\<And>d w. re_sleeper ?env d w = w" using c by (simp_all add: patient_def)
  have create: "map_child untraced ?r = Resume_Create ?cfg' ?p ?b ?w"
    using im by (auto simp: config_image_def Resume_Create_def map_child_def split: prod.splits)
  have rd: "result_reader (resume_reader ?cfg) (\<lambda>s. resume_valid (m # ms) (map_child untraced s))
      (\<lambda>s. resume_pending (m # ms) (map_child untraced s)) (\<lambda>s. ok_status)"
    using resume_image_reader [OF resume_result_reader [OF env tokens] im] .
  have v: "resume_valid (m # ms) (map_child untraced ?r)" "resume_pending (m # ms) (map_child untraced ?r) = m # ms"
    unfolding create using Resume_Create_valid [OF faults, of "m # ms" ?env ?b] by blast+
  from result_reader.Source_Create_inv [OF rd v vals(2,1)] obtain s where
    s: "Source_Create (resume_reader ?cfg) ?r = Some (Inr s)" "src_metadata s = Some md"
    by (auto simp: source_inv_def)
  obtain s' where "Source_Create (resume_reader ?cfg) ?r = Some (Inr s')"
    "yields (NextRow (resume_reader ?cfg)) s' (map (typed_row md) (chop (length (row_type_fields md)) vs)) (Inr empty_row)"
    using result_reader.stream_rows [OF rd v vals(2,1,3)] chop_rest_exact [OF vals(3,4)]
    by (auto simp: end_of_rows_def)
  with s(1) yields_StreamSource have
    "yields result_NextRow (StreamSource ?cfg s) (map (typed_row md) (chop (length (row_type_fields md)) vs)) (Inr empty_row)"
    by fastforce
  from all_rows_yields [OF this] s show ?thesis
    by (simp add: open_stream_def end_results_def)
qed

section \<open>Properties\<close>

text \<open>
  C2: A read over a connection, in a transaction that has a session and that no other visitor is
  beginning. The service answers the one request that the session, the selector and the parameters make
  up with messages each of which has a resume token, not empty and other than those of the other messages; the
  first has the columns, and the values fill whole rows. The streams break with \<open>kUnavailable\<close> or
  \<open>kResourceExhausted\<close>, fewer times than the policy that counts failures allows. Then, traced or not and
  however the values are cut into messages, the read returns exactly the rows of the answer, once each
  and in order, with the columns' types; and a transaction that is to be begun gets the id of the
  answer, which is not empty. Without tokens rows may come twice
  (\<open>Result_Resume.resume_empty_token_restarts\<close>).
\<close>

theorem read_end_to_end:
  assumes "stub_reader (cn_stub c) = default_reader" "patient c"
    and "\<forall>stub req w. StreamingRead (cn_stub c) stub req w =
      serve (answer (req\<lparr>rq_resume_token := []\<rparr>)) (rq_resume_token req) w"
    and "t = rp_transaction params" "t < length (cw_txns W)" "ti = cw_txns W ! t"
    and "ti_session ti = Some h" "ti_state ti \<noteq> kPending"
    and "answer (read_request_for (session_name (the_session W h)) (ti_selector ti) params []) = m # ms"
    and "tokens_ok (m # ms)" "delivers None (m # ms) vs None" "prs_metadata m = Some md"
    and "row_type_fields md \<noteq> []" "length vs = n * length (row_type_fields md)"
    and "\<forall>(n, st) \<in> set (cw_streams W (cw_opened W)). code st \<in> {kUnavailable, kResourceExhausted}"
    and "length (cw_streams W (cw_opened W)) < pe_policy (cn_pool_env c)"
    and "has_begin (ti_selector ti) \<Longrightarrow> metadata_txn_id (Some md) \<noteq> []"
  shows "\<exists>r W'. Connection_Read c params W = Some (r, W') \<and>
    all_rows result_NextRow r = Some (map Inr (map (typed_row md) (chop (length (row_type_fields md)) vs))) \<and>
    ti_selector (cw_txns W' ! t) =
      (if has_begin (ti_selector ti) then Id (metadata_txn_id (Some md)) else ti_selector ti)"
proof -
  let ?s = "ti_selector ti"
  obtain stub V where g: "Connection_GetStub h W = (stub, V)" by (cases "Connection_GetStub h W")
  then have V: "cw_txns V = cw_txns W" "the_session V h = the_session W h" "cw_streams V = cw_streams W"
    "cw_opened V = cw_opened W"
    by (auto simp: Connection_GetStub_def the_session_def split: prod.splits)
  let ?name = "session_name (the_session W h)"
  have rpc: "StreamingRead (cn_stub c) stub (read_request_for ?name ?s params token) w = serve (m # ms) token w"
    for token w
  proof -
    have "(read_request_for ?name ?s params token)\<lparr>rq_resume_token := []\<rparr> = read_request_for ?name ?s params []"
      "rq_resume_token (read_request_for ?name ?s params token) = token"
      by (simp_all add: read_request_for_def)
    with assms(3,9) show ?thesis by simp
  qed
  have "\<forall>(n, st) \<in> set (cw_streams V (cw_opened V)). code st \<in> {kUnavailable, kResourceExhausted}"
    "length (cw_streams V (cw_opened V)) < pe_policy (cn_pool_env c)" using V assms(15,16) by simp_all
  with open_stream_rows [of c "StreamingRead (cn_stub c) stub" "read_request_for ?name ?s params" m ms V vs md n,
      OF assms(1) rpc assms(2,10)] assms(11-14)
  obtain cfg src where o: "open_stream c (StreamingRead (cn_stub c) stub) (read_request_for ?name ?s params) V =
      Some (Inr (StreamSource cfg src), V\<lparr>cw_opened := cw_opened V + 1\<rparr>)" "src_metadata src = Some md"
    "all_rows result_NextRow (StreamSource cfg src) =
      Some (map Inr (map (typed_row md) (chop (length (row_type_fields md)) vs)))" by blast
  let ?s' = "if has_begin ?s then Id (metadata_txn_id (Some md)) else ?s"
  have "begun_by x ?s (StreamSource cfg src) = Inr ?s'" for x
    using assms(17) o(2) by (simp add: begun_by_def)
  with g o V have "Read_body c params h ?s W = Some (StreamSource cfg src, ?s', V\<lparr>cw_opened := cw_opened V + 1\<rparr>)"
    by (simp add: Read_body_def)
  then obtain W' where "Connection_Read c params W = Some (StreamSource cfg src, W')"
    "ti_selector (cw_txns W' ! t) = ?s'"
    using assms(4-8) V
    by (cases "ti_state ti") (auto simp: Connection_Read_def ReadImpl_def VisitTransaction_def Visit_def Let_def
        with_session_def PrepareSession_def)
  with o(3) show ?thesis by blast
qed

definition demo_message1 :: partial_result_set where
  "demo_message1 = token_message (Some (Metadata [(''x'', TString)] (Some (TxnInfo ''t9'' None)))) [''A''] ''k1''"

definition demo_message2 :: partial_result_set where
  "demo_message2 = token_message None [''B''] ''k2''"

definition streaming_connection :: "(string, unit, nat, int, faults, grpc_stream) connection" where
  "streaming_connection =
     \<lparr>cn_pool_env = \<lparr>pe_retry = patient_env, pe_policy = 3, pe_backoff = 10,
        pe_create = (\<lambda>stub req w. (Inl (Status kUnavailable ''busy''), w)), pe_shuffle = (\<lambda>g ss. (ss, g))\<rparr>,
      cn_tracing = True,
      cn_stub = \<lparr>stub_reader = default_reader,
        StreamingRead = (\<lambda>stub req w. serve [demo_message1, demo_message2] (rq_resume_token req) w),
        ExecuteStreamingSql = (\<lambda>stub req w. serve [demo_message1, demo_message2] (sq_resume_token req) w),
        stub_ExecuteSql = (\<lambda>stub req w. (Inl (Status kUnavailable ''busy''), w)),
        stub_ExecuteBatchDml = (\<lambda>stub req w. (Inl (Status kUnavailable ''busy''), w)),
        stub_PartitionRead = (\<lambda>stub req w. (Inl (Status kUnavailable ''busy''), w)),
        stub_PartitionQuery = (\<lambda>stub req w. (Inl (Status kUnavailable ''busy''), w)),
        stub_BeginTransaction = (\<lambda>stub req w. (Inl (Status kUnavailable ''busy''), w)),
        stub_Commit = (\<lambda>stub req w. (Inl (Status kUnavailable ''busy''), w)),
        stub_Rollback = (\<lambda>stub req w. (Inl (Status kUnavailable ''busy''), w))\<rparr>\<rparr>"

definition streaming_world :: "(string, unit, faults) client_world" where
  "streaming_world = \<lparr>cw_pool = demo_pool, cw_sessions = [MakeDissociatedSessionHolder 0 ''s''],
     cw_txns = [TransactionImpl (Some 0) (Begin (ReadOnly ReadOnlyOptions_strong))],
     cw_streams = (\<lambda>_. [(0, Status kUnavailable ''a''), (1, Status kUnavailable ''b'')]), cw_opened = 0,
     cw_service = []\<rparr>"

definition demo_read :: read_params where
  "demo_read = \<lparr>rp_transaction = 0, rp_table = ''T'', rp_keys = KeySet_All, rp_columns = [''x''],
     rp_read_options = default_read_options, rp_partition_token = None\<rparr>"

theorem read_end_to_end_witness:
  "\<exists>r W'. Connection_Read streaming_connection demo_read streaming_world = Some (r, W') \<and>
     all_rows result_NextRow r = Some [Inr (Row [Value TString (PString ''A'')] [''x'']),
       Inr (Row [Value TString (PString ''B'')] [''x''])] \<and>
     ti_selector (cw_txns W' ! 0) = Id ''t9''"
proof -
  let ?md = "Metadata [(''x'', TString)] (Some (TxnInfo ''t9'' None))"
  let ?ms = "[demo_message1, demo_message2]"
  have "delivers None [demo_message2] (prs_values demo_message2 @ []) None"
    by (rule delivers.whole) (simp_all add: demo_message2_def token_message_def delivers.finished)
  then have "delivers None ?ms (prs_values demo_message1 @ (prs_values demo_message2 @ [])) None"
    by (rule delivers.whole [rotated]) (simp add: demo_message1_def token_message_def)
  then have d: "delivers None ?ms [PString ''A'', PString ''B''] None"
    by (simp add: demo_message1_def demo_message2_def token_message_def)
  have tokens: "tokens_ok ?ms" by (simp add: tokens_ok_def demo_message1_def demo_message2_def token_message_def)
  have c: "stub_reader (cn_stub streaming_connection) = default_reader" "patient streaming_connection"
    "\<forall>stub req w. StreamingRead (cn_stub streaming_connection) stub req w =
       serve ((\<lambda>_. ?ms) (req\<lparr>rq_resume_token := []\<rparr>)) (rq_resume_token req) w"
    by (simp_all add: streaming_connection_def patient_def patient_env_def)
  have W: "0 = rp_transaction demo_read" "0 < length (cw_txns streaming_world)"
    "ti_session (cw_txns streaming_world ! 0) = Some 0" "ti_state (cw_txns streaming_world ! 0) \<noteq> kPending"
    "ti_selector (cw_txns streaming_world ! 0) = Begin (ReadOnly ReadOnlyOptions_strong)"
    "\<forall>(n, st) \<in> set (cw_streams streaming_world (cw_opened streaming_world)). code st \<in> {kUnavailable, kResourceExhausted}"
    "length (cw_streams streaming_world (cw_opened streaming_world)) < pe_policy (cn_pool_env streaming_connection)"
    by (simp_all add: demo_read_def streaming_world_def TransactionImpl_def streaming_connection_def)
  have m: "prs_metadata demo_message1 = Some ?md" by (simp add: demo_message1_def token_message_def)
  show ?thesis
    using read_end_to_end [OF c W(1,2) refl W(3,4) refl tokens d m _ _ W(6,7), of 2] W(5)
    by (simp add: metadata_txn_id_def typed_row_def chop.simps)
qed

end
