(* ===== verification/Connection_Operations.thy ===== *)
theory Connection_Operations
  imports Connection
begin

text \<open>
  What the operations of a connection keep: the functors as visitors of a transaction
  (\<open>connection_functor\<close>), any sequence of operations (\<open>connection_step\<close>) and its invariant, and the
  requests that an operation sends.
\<close>

section \<open>What an operation may change\<close>

text \<open>
  A functor's body works with a session at hand. It keeps the transactions, and the sessions but
  for marking them bad, and the selector but for an id that it assigns.
\<close>

definition sessions_kept :: "session_holder list \<Rightarrow> session_holder list \<Rightarrow> bool" where
  "sessions_kept ss ss' \<longleftrightarrow> length ss \<le> length ss' \<and>
     (\<forall>h < length ss. ss' ! h = ss ! h \<or> ss' ! h = holder_set_bad (ss ! h))"

definition functor_effect ::
    "selector \<Rightarrow> ('s, 'g, 'w) client_world \<Rightarrow> selector \<Rightarrow> ('s, 'g, 'w) client_world \<Rightarrow> bool" where
  "functor_effect s W s' W' \<longleftrightarrow> (s' = s \<or> (\<forall>i. s \<noteq> Id i) \<and> (\<exists>i. s' = Id i)) \<and>
     cw_txns W' = cw_txns W \<and> sessions_kept (cw_sessions W) (cw_sessions W')"

lemma holder_set_bad_idem [simp]: "holder_set_bad (holder_set_bad h) = holder_set_bad h"
  by (cases h) simp_all

lemma session_name_set_bad [simp]:
  "session_name (held_session (holder_set_bad h)) = session_name (held_session h)"
  "session_channel (held_session (holder_set_bad h)) = session_channel (held_session h)"
  "is_bad (held_session (holder_set_bad h))"
  by (cases h; simp)+

lemma sessions_kept_refl [intro, simp]: "sessions_kept ss ss"
  by (simp add: sessions_kept_def)

lemma sessions_kept_trans [trans]:
  assumes "sessions_kept ss ss'" "sessions_kept ss' ss''"
  shows "sessions_kept ss ss''"
  unfolding sessions_kept_def
proof (intro conjI allI impI)
  show "length ss \<le> length ss''" using assms unfolding sessions_kept_def by linarith
  fix h assume "h < length ss"
  moreover from this assms(1) have "h < length ss'" unfolding sessions_kept_def by linarith
  ultimately show "ss'' ! h = ss ! h \<or> ss'' ! h = holder_set_bad (ss ! h)"
    using assms unfolding sessions_kept_def by (metis holder_set_bad_idem)
qed

lemma sessions_kept_append [simp]: "sessions_kept ss (ss @ xs)"
  by (simp add: sessions_kept_def nth_append)

lemma sessions_kept_set_bad [simp]: "sessions_kept ss (ss[h := holder_set_bad (ss ! h)])"
proof -
  have "ss[h := holder_set_bad (ss ! h)] ! k \<in> {ss ! k, holder_set_bad (ss ! k)}" if "k < length ss" for k
    using that by (cases "k = h") simp_all
  then show ?thesis by (auto simp: sessions_kept_def)
qed

lemma note_status_keeps [simp]:
  "cw_txns (note_status h st W) = cw_txns W" "cw_pool (note_status h st W) = cw_pool W"
  "cw_service (note_status h st W) = cw_service W" "cw_streams (note_status h st W) = cw_streams W"
  "sessions_kept (cw_sessions W) (cw_sessions (note_status h st W))"
  by (simp_all add: note_status_def set_bad_def)

lemma functor_effect_refl [intro, simp]: "functor_effect s W s W"
  by (simp add: functor_effect_def)

lemma functor_effect_same:
  "functor_effect s W s W' \<longleftrightarrow> cw_txns W' = cw_txns W \<and> sessions_kept (cw_sessions W) (cw_sessions W')"
  by (simp add: functor_effect_def)

lemma functor_effect_trans:
  "functor_effect s W s' W' \<Longrightarrow> functor_effect s' W' s'' W'' \<Longrightarrow> functor_effect s W s'' W''"
  unfolding functor_effect_def by (auto intro: sessions_kept_trans)

lemma functor_effect_begun:
  "functor_effect s W s' W' \<Longrightarrow> (\<And>i. s \<noteq> Id i) \<Longrightarrow> functor_effect s W (Id i) W'"
  unfolding functor_effect_def by auto

lemma Connection_GetStub_effect:
  "Connection_GetStub h W = (stub, W') \<Longrightarrow> functor_effect s W s W' \<and> cw_sessions W' = cw_sessions W \<and>
     cw_service W' = cw_service W"
  by (auto simp: Connection_GetStub_def functor_effect_same split: prod.splits)

lemma call_rpc_effect:
  assumes "call_rpc c rpc request location h W = Some (r, W')"
  shows "functor_effect s W s W'"
proof -
  obtain w where W': "W' = (case r of Inl status \<Rightarrow> note_status h status (W\<lparr>cw_service := w\<rparr>)
      | Inr _ \<Rightarrow> W\<lparr>cw_service := w\<rparr>)"
    using assms unfolding call_rpc_def Let_def by (auto split: option.splits)
  show ?thesis
    using note_status_keeps(5) [of "W\<lparr>cw_service := w\<rparr>" h]
    by (cases r) (simp_all add: W' functor_effect_same)
qed

lemma open_stream_effect:
  "open_stream c rpc request W = Some (r, W') \<Longrightarrow> functor_effect s W s W'"
  by (auto simp: open_stream_def functor_effect_same Let_def split: option.splits sum.splits)

lemma begun_by_effect:
  "begun_by where_text s reader = Inr s' \<Longrightarrow> functor_effect s W s W' \<Longrightarrow> functor_effect s W s' W'"
  by (cases s) (auto simp: begun_by_def functor_effect_def split: if_splits)

lemma begun_or_same:
  "functor_effect s W s W' \<Longrightarrow> functor_effect s W (if has_begin s then Id i else s) W'"
  by (cases s) (auto simp: functor_effect_def)

lemma note_status_effect:
  "functor_effect s W s' W' \<Longrightarrow> functor_effect s W s' (note_status h st W')"
  unfolding functor_effect_def using note_status_keeps(5) sessions_kept_trans by auto

lemmas effect_intros = Connection_GetStub_effect [THEN conjunct1] call_rpc_effect open_stream_effect
  begun_by_effect begun_or_same note_status_effect

text \<open>Every operation in turn.\<close>

lemma Read_body_effect:
  assumes "Read_body c params h s W = Some (r, s', W')"
  shows "functor_effect s W s' W'"
proof -
  obtain stub W1 where g: "Connection_GetStub h W = (stub, W1)" by (cases "Connection_GetStub h W")
  obtain r2 W2 where o: "open_stream c (StreamingRead (cn_stub c) stub)
      (read_request_for (session_name (the_session W1 h)) s params) W1 = Some (r2, W2)"
    using assms by (auto simp: Read_body_def g split: option.splits)
  have e: "functor_effect s W s W2"
    using functor_effect_trans effect_intros(1) [OF g] effect_intros(3) [OF o] by blast
  show ?thesis
    using assms e by (auto simp: Read_body_def g o split: sum.splits intro: effect_intros(4,6))
qed

lemma call_body_effect:
  assumes "Connection_GetStub h W = (stub, W1)" "call_rpc c rpc request location h W1 = Some (r, W2)"
  shows "functor_effect s W s W2"
  using functor_effect_trans effect_intros(1) [OF assms(1)] effect_intros(2) [OF assms(2)] by blast

lemma PartitionRead_body_effect:
  "PartitionRead_body c params opts h s W = Some (r, s', W') \<Longrightarrow> functor_effect s W s' W'"
  by (auto simp: PartitionRead_body_def Let_def split: prod.splits option.splits sum.splits
      intro: call_body_effect begun_or_same)

lemma PartitionQuery_body_effect:
  "PartitionQuery_body c st opts h s W = Some (r, s', W') \<Longrightarrow> functor_effect s W s' W'"
  by (auto simp: PartitionQuery_body_def Let_def split: prod.splits option.splits sum.splits
      intro: call_body_effect begun_or_same)

lemma ExecuteSqlImpl_effect:
  assumes "ExecuteSqlImpl seqno params mode fn h s W = Some (r, s', W')"
    and "\<And>request r s W'. fn request W = Some (r, W') \<Longrightarrow> functor_effect s W s W'"
  shows "functor_effect s W s' W'"
proof -
  obtain r2 W2 where o: "fn (sql_request_for (session_name (the_session W h)) s seqno params mode) W = Some (r2, W2)"
    using assms(1) by (auto simp: ExecuteSqlImpl_def split: option.splits)
  have e: "functor_effect s W s W2" by (rule assms(2) [OF o])
  show ?thesis
    using assms(1) e by (auto simp: ExecuteSqlImpl_def o split: sum.splits intro: begun_by_effect)
qed

lemma CommonQuery_body_effect:
  assumes "CommonQuery_body c seqno params mode h s W = Some (r, s', W')"
  shows "functor_effect s W s' W'"
proof -
  obtain stub W1 where g: "Connection_GetStub h W = (stub, W1)" by (cases "Connection_GetStub h W")
  obtain r2 s2 W2 where o: "ExecuteSqlImpl seqno params mode
      (open_stream c (ExecuteStreamingSql (cn_stub c) stub)) h s W1 = Some (r2, s2, W2)"
    using assms by (auto simp: CommonQuery_body_def g split: option.splits)
  have "functor_effect s W s2 W2"
    using functor_effect_trans effect_intros(1) [OF g] ExecuteSqlImpl_effect [OF o] open_stream_effect by blast
  then show ?thesis
    using assms by (auto simp: CommonQuery_body_def g o split: sum.splits intro: note_status_effect)
qed

lemma CommonDml_body_effect:
  assumes "CommonDml_body c seqno params mode h s W = Some (r, s', W')"
  shows "functor_effect s W s' W'"
proof -
  obtain stub W1 where g: "Connection_GetStub h W = (stub, W1)" by (cases "Connection_GetStub h W")
  have "functor_effect s W1 s' W'"
    using assms unfolding CommonDml_body_def g by (auto elim!: ExecuteSqlImpl_effect intro: call_rpc_effect)
  then show ?thesis using functor_effect_trans effect_intros(1) [OF g] by blast
qed

lemma ExecuteBatchDml_body_effect:
  "ExecuteBatchDml_body c seqno statements h s W = Some (r, s', W') \<Longrightarrow> functor_effect s W s' W'"
  by (auto simp: ExecuteBatchDml_body_def Let_def split: prod.splits option.splits sum.splits list.splits
      intro: call_body_effect begun_or_same)

lemma ExecutePartitionedDml_body_effect:
  assumes "ExecutePartitionedDml_body c seqno st h s W = Some (r, s', W')" "\<And>i. s \<noteq> Id i"
  shows "functor_effect s W s' W'"
proof -
  let ?name = "session_name (the_session W h)"
  obtain stub W1 where g: "Connection_GetStub h W = (stub, W1)" by (cases "Connection_GetStub h W")
  obtain r2 W2 where o: "call_rpc c (stub_BeginTransaction (cn_stub c) stub)
      \<lparr>br_session = ?name, br_options = PartitionedDml\<rparr> ''ExecutePartitionedDmlImpl'' h W1 = Some (r2, W2)"
    using assms(1) by (auto simp: ExecutePartitionedDml_body_def Let_def g split: option.splits)
  have e: "functor_effect s W s W2" by (rule call_body_effect [OF g o])
  show ?thesis
    using assms(1) e
    by (auto simp: ExecutePartitionedDml_body_def g o Let_def split: sum.splits option.splits
        intro: functor_effect_trans [OF functor_effect_begun [OF e assms(2)] call_rpc_effect])
qed

lemma Commit_with_id_effect:
  "Commit_with_id c mutations name h s W = Some (r, s', W') \<Longrightarrow> functor_effect s W s' W'"
  by (auto simp: Commit_with_id_def split: prod.splits option.splits intro: call_body_effect)

lemma Commit_begin_effect:
  assumes "Commit_begin c mutations name opts h s W = Some (r, s', W')" "\<And>i. s \<noteq> Id i"
  shows "functor_effect s W s' W'"
proof -
  obtain stub W1 where g: "Connection_GetStub h W = (stub, W1)" by (cases "Connection_GetStub h W")
  obtain r2 W2 where o: "call_rpc c (stub_BeginTransaction (cn_stub c) stub)
      \<lparr>br_session = name, br_options = opts\<rparr> ''CommitImpl'' h W1 = Some (r2, W2)"
    using assms(1) by (auto simp: Commit_begin_def g split: option.splits)
  have e: "functor_effect s W s W2" by (rule call_body_effect [OF g o])
  show ?thesis
    using assms(1) e functor_effect_trans [OF functor_effect_begun [OF e assms(2)]]
    by (auto simp: Commit_begin_def g o split: sum.splits dest: Commit_with_id_effect)
qed

lemma Commit_body_effect:
  "Commit_body c mutations h s W = Some (r, s', W') \<Longrightarrow> functor_effect s W s' W'"
  by (cases s) (auto simp: Commit_body_def dest: Commit_with_id_effect Commit_begin_effect)

lemma Rollback_body_effect:
  "Rollback_body c h s W = Some (r, s', W') \<Longrightarrow> functor_effect s W s' W'"
  by (cases s) (auto simp: Rollback_body_def split: prod.splits option.splits intro: call_body_effect)

section \<open>The functors as visitors\<close>

text \<open>What \<open>Visit\<close> relies on: a functor made of a body with this effect keeps the contract.\<close>

locale connection_functor =
  fixes c :: "('s, 'g, 'p, 'b, 'w, 'r) connection"
    and dissociate_from_pool :: bool
    and failure :: "status \<Rightarrow> 'a"
    and body :: "int \<Rightarrow> ('s, 'g, 'w, 'a) body"
  assumes body_effect: "body seqno h s W = Some (r, s', W') \<Longrightarrow> functor_effect s W s' W'"

lemma PrepareSession_effect:
  assumes "PrepareSession c d session W = Some (r, W')"
  shows "cw_txns W' = cw_txns W \<and> sessions_kept (cw_sessions W) (cw_sessions W') \<and>
    (\<forall>h. session = Some h \<longrightarrow> r = Inr h \<and> W' = W) \<and>
    (session = None \<longrightarrow> (\<forall>h. r = Inr h \<longrightarrow> h < length (cw_sessions W')))"
  using assms
  by (auto simp: PrepareSession_def add_session_def Let_def split: option.splits allocated.splits)

lemma with_session_effect_at:
  assumes "with_session c d failure body session s W = Some (r, session', s', W')"
    and body: "\<And>h W r s' W'. body h s W = Some (r, s', W') \<Longrightarrow> functor_effect s W s' W'"
  shows "functor_effect s W s' W' \<and> visit_result session s session' s' \<and>
    (\<forall>h. session' = Some h \<longrightarrow> session = Some h \<or> h < length (cw_sessions W'))"
proof -
  obtain p W1 where p: "PrepareSession c d session W = Some (p, W1)"
    using assms(1) by (auto simp: with_session_def split: option.splits)
  note e = PrepareSession_effect [OF p]
  show ?thesis
  proof (cases p)
    case (Inl status)
    then show ?thesis using assms(1) e
      by (auto simp: with_session_def p functor_effect_same visit_result_def)
  next
    case (Inr h)
    then have b: "body h s W1 = Some (r, s', W')" "session' = Some h"
      using assms(1) by (auto simp: with_session_def p)
    have f: "functor_effect s W1 s' W'" by (rule body [OF b(1)])
    have "functor_effect s W s W1" using e by (simp add: functor_effect_same)
    with f have "functor_effect s W s' W'" using functor_effect_trans by blast
    moreover have "length (cw_sessions W1) \<le> length (cw_sessions W')"
      using f by (simp add: functor_effect_def sessions_kept_def)
    ultimately show ?thesis using e Inr b(2)
      by (cases session) (auto simp: visit_result_def functor_effect_def)
  qed
qed

context connection_functor
begin

lemma with_session_effect:
  assumes "with_session c dissociate_from_pool failure (body n) session s W = Some (r, session', s', W')"
  shows "functor_effect s W s' W' \<and> visit_result session s session' s' \<and>
    (\<forall>h. session' = Some h \<longrightarrow> session = Some h \<or> h < length (cw_sessions W'))"
  by (rule with_session_effect_at [OF assms]) (rule body_effect)

end

sublocale connection_functor \<subseteq> visitor
  "\<lambda>session s n W. with_session c dissociate_from_pool failure (body n) session s W"
  by unfold_locales (use with_session_effect in blast)

text \<open>
  The world: every transaction is idle, with a session that exists; and what the future may not
  change.
\<close>

definition txn_ok :: "nat \<Rightarrow> nat transaction_impl \<Rightarrow> bool" where
  "txn_ok n ti \<longleftrightarrow> ti_state ti = after_visit (ti_selector ti) \<and> 0 \<le> ti_seqno ti \<and>
     (\<forall>h. ti_session ti = Some h \<longrightarrow> h < n)"

definition world_ok :: "('s, 'g, 'w) client_world \<Rightarrow> bool" where
  "world_ok W \<longleftrightarrow> (\<forall>ti \<in> set (cw_txns W). txn_ok (length (cw_sessions W)) ti)"

definition txn_le :: "nat transaction_impl \<Rightarrow> nat transaction_impl \<Rightarrow> bool" where
  "txn_le ti ti' \<longleftrightarrow> ti_seqno ti \<le> ti_seqno ti' \<and>
     (\<forall>i. ti_selector ti = Id i \<longrightarrow> ti_selector ti' = Id i) \<and>
     (\<forall>h. ti_session ti = Some h \<longrightarrow> ti_session ti' = Some h)"

definition world_le :: "('s, 'g, 'w) client_world \<Rightarrow> ('s, 'g, 'w) client_world \<Rightarrow> bool" where
  "world_le W W' \<longleftrightarrow> sessions_kept (cw_sessions W) (cw_sessions W') \<and>
     length (cw_txns W) \<le> length (cw_txns W') \<and>
     (\<forall>t < length (cw_txns W). txn_le (cw_txns W ! t) (cw_txns W' ! t))"

lemma txn_le_refl [simp]: "txn_le ti ti"
  by (simp add: txn_le_def)

lemma txn_le_trans: "txn_le a b \<Longrightarrow> txn_le b c \<Longrightarrow> txn_le a c"
  unfolding txn_le_def by auto

lemma world_le_refl [simp]: "world_le W W"
  by (simp add: world_le_def)

lemma world_le_trans:
  assumes "world_le W W'" "world_le W' W''"
  shows "world_le W W''"
  unfolding world_le_def
proof (intro conjI allI impI)
  show "sessions_kept (cw_sessions W) (cw_sessions W'')"
    using assms sessions_kept_trans unfolding world_le_def by blast
  show "length (cw_txns W) \<le> length (cw_txns W'')" using assms unfolding world_le_def by linarith
  fix t assume t: "t < length (cw_txns W)"
  moreover from this assms(1) have "t < length (cw_txns W')" unfolding world_le_def by linarith
  ultimately show "txn_le (cw_txns W ! t) (cw_txns W'' ! t)"
    using assms txn_le_trans unfolding world_le_def by blast
qed

lemma txn_ok_mono: "txn_ok n ti \<Longrightarrow> n \<le> m \<Longrightarrow> txn_ok m ti"
  unfolding txn_ok_def by (meson less_le_trans)

lemma world_ok_sessions:
  "world_ok W \<Longrightarrow> cw_txns W' = cw_txns W \<Longrightarrow> sessions_kept (cw_sessions W) (cw_sessions W') \<Longrightarrow>
   world_ok W' \<and> world_le W W'"
  unfolding world_ok_def world_le_def sessions_kept_def by (auto intro: txn_ok_mono)

lemma add_transaction_ok:
  assumes "add_transaction ti W = (t, W')" "world_ok W" "txn_ok (length (cw_sessions W)) ti"
  shows "world_ok W' \<and> world_le W W' \<and> t < length (cw_txns W')"
  using assms by (auto simp: add_transaction_def world_ok_def world_le_def nth_append)

lemma txn_ok_TransactionImpl [simp]:
  "txn_ok n (TransactionImpl s sel) \<longleftrightarrow> (\<forall>h. s = Some h \<longrightarrow> h < n)"
  by (auto simp: txn_ok_def TransactionImpl_def)

text \<open>A visit of a transaction of the world.\<close>

lemma VisitTransaction_ok:
  assumes "VisitTransaction f txn W = Some (r, W')" "world_ok W" "txn < length (cw_txns W)"
    and f: "\<And>n session' s' W1. f (ti_session (cw_txns W ! txn)) (ti_selector (cw_txns W ! txn)) n W =
      Some (r, session', s', W1) \<Longrightarrow> functor_effect (ti_selector (cw_txns W ! txn)) W s' W1 \<and>
        visit_result (ti_session (cw_txns W ! txn)) (ti_selector (cw_txns W ! txn)) session' s' \<and>
        (\<forall>h. session' = Some h \<longrightarrow> ti_session (cw_txns W ! txn) = Some h \<or> h < length (cw_sessions W1))"
  shows "world_ok W' \<and> world_le W W' \<and> ti_seqno (cw_txns W' ! txn) = ti_seqno (cw_txns W ! txn) + 1"
proof -
  let ?ti = "cw_txns W ! txn"
  have ok: "txn_ok (length (cw_sessions W)) ?ti" using assms(2,3) by (simp add: world_ok_def)
  obtain ti W1 where v: "Visit f ?ti W = Some (r, ti, W1)" and W': "W' = W1\<lparr>cw_txns := (cw_txns W1)[txn := ti]\<rparr>"
    using assms(1) by (auto simp: VisitTransaction_def split: option.splits)
  from v obtain session' s' where s': "f (ti_session ?ti) (ti_selector ?ti) (ti_seqno ?ti + 1) W =
      Some (r, session', s', W1)"
    and ti: "ti_session ti = session'" "ti_selector ti = s'" "ti_seqno ti = ti_seqno ?ti + 1"
      "ti_state ti = (if ti_state ?ti = kDone then kDone else after_visit s')"
    by (auto simp: Visit_def Let_def split: txn_state.splits option.splits)
  note e = f [OF s']
  have len: "length (cw_sessions W) \<le> length (cw_sessions W1)" "cw_txns W1 = cw_txns W"
    using e by (simp_all add: functor_effect_def sessions_kept_def)
  have "ti_state ti = after_visit s'"
    using ti(4) ok e by (auto simp: txn_ok_def after_visit_def functor_effect_def split: if_splits)
  then have "txn_ok (length (cw_sessions W1)) ti"
    using ti e ok len(1) by (auto simp: txn_ok_def)
  moreover have "txn_le ?ti ti"
    using ti e by (auto simp: txn_le_def visit_result_def)
  ultimately have new: "txn_ok (length (cw_sessions W')) ti" "txn_le ?ti ti" by (simp_all add: W')
  have txns: "cw_txns W' = (cw_txns W)[txn := ti]" "length (cw_sessions W') = length (cw_sessions W1)"
    using len(2) by (simp_all add: W')
  have "world_ok W'"
    unfolding world_ok_def
  proof
    fix x assume "x \<in> set (cw_txns W')"
    then have "x = ti \<or> x \<in> set (cw_txns W)" using set_update_subset_insert txns(1) by fastforce
    then show "txn_ok (length (cw_sessions W')) x"
      using new(1) assms(2) len(1) txns(2) unfolding world_ok_def by (auto intro: txn_ok_mono)
  qed
  moreover have "txn_le (cw_txns W ! t) (cw_txns W' ! t)" if "t < length (cw_txns W)" for t
    using that new(2) txns(1) by (cases "t = txn") simp_all
  then have "world_le W W'"
    using e txns(1) by (simp add: world_le_def functor_effect_def W')
  ultimately show ?thesis using assms(3) txns(1) ti(3) by simp
qed


context connection_functor
begin

lemma Visit_ok:
  assumes "VisitTransaction (\<lambda>session s n. with_session c dissociate_from_pool failure (body n) session s) txn W =
      Some (r, W')" "world_ok W" "txn < length (cw_txns W)"
  shows "world_ok W' \<and> world_le W W' \<and> ti_seqno (cw_txns W' ! txn) = ti_seqno (cw_txns W ! txn) + 1"
  by (rule VisitTransaction_ok [OF assms]) (use with_session_effect in blast)

end

interpretation read: connection_functor c False StatusOnly "\<lambda>n. Read_body c params" for c params
  by unfold_locales (rule Read_body_effect)

interpretation partition_read: connection_functor c True Inl "\<lambda>n. PartitionRead_body c params opts"
  for c params opts
  by unfold_locales (rule PartitionRead_body_effect)

interpretation query: connection_functor c False StatusOnly "\<lambda>n. CommonQuery_body c n params mode"
  for c params mode
  by unfold_locales (rule CommonQuery_body_effect)

interpretation dml: connection_functor c False Inl "\<lambda>n. CommonDml_body c n params mode" for c params mode
  by unfold_locales (rule CommonDml_body_effect)

interpretation partition_query: connection_functor c True Inl "\<lambda>n. PartitionQuery_body c st opts"
  for c st opts
  by unfold_locales (rule PartitionQuery_body_effect)

interpretation batch_dml: connection_functor c False Inl "\<lambda>n. ExecuteBatchDml_body c n statements"
  for c statements
  by unfold_locales (rule ExecuteBatchDml_body_effect)

interpretation commit: connection_functor c False Inl "\<lambda>n. Commit_body c mutations" for c mutations
  by unfold_locales (rule Commit_body_effect)

interpretation rollback: connection_functor c False "\<lambda>status. status" "\<lambda>n. Rollback_body c" for c
  by unfold_locales (rule Rollback_body_effect)

section \<open>All operations\<close>

text \<open>
  One step of the client: it makes a transaction or calls an operation of the connection, or
  something else moves, the pool, the service or the badness of a session.
\<close>

inductive connection_step ::
    "('s, 'g, 'p, 'b, 'w, 'r) connection \<Rightarrow> ('s, 'g, 'w) client_world \<Rightarrow> ('s, 'g, 'w) client_world \<Rightarrow> bool"
  for c where
  read_only: "MakeReadOnlyTransaction opts W = (t, W') \<Longrightarrow> connection_step c W W'"
| read_write: "MakeReadWriteTransaction W = (t, W') \<Longrightarrow> connection_step c W W'"
| rerun: "txn < length (cw_txns W) \<Longrightarrow> MakeReadWriteTransaction_rerun txn W = (t, W') \<Longrightarrow> connection_step c W W'"
| single_use: "MakeSingleUseTransaction opts W = (t, W') \<Longrightarrow> connection_step c W W'"
| from_ids: "MakeTransactionFromIds now sid tid W = (t, W') \<Longrightarrow> connection_step c W W'"
| read: "rp_transaction rp < length (cw_txns W) \<Longrightarrow> Connection_Read c rp W = Some (r, W') \<Longrightarrow>
    connection_step c W W'"
| partition_read: "rp_transaction rp < length (cw_txns W) \<Longrightarrow>
    Connection_PartitionRead c rp po W = Some (r, W') \<Longrightarrow> connection_step c W W'"
| query: "sqp_transaction sp < length (cw_txns W) \<Longrightarrow> Connection_Query c mode sp W = Some (r, W') \<Longrightarrow>
    connection_step c W W'"
| dml: "sqp_transaction sp < length (cw_txns W) \<Longrightarrow> Connection_Dml c mode sp W = Some (r, W') \<Longrightarrow>
    connection_step c W W'"
| analyze: "sqp_transaction sp < length (cw_txns W) \<Longrightarrow> Connection_AnalyzeSql c sp W = Some (r, W') \<Longrightarrow>
    connection_step c W W'"
| partition_query: "txn < length (cw_txns W) \<Longrightarrow> Connection_PartitionQuery c txn st po W = Some (r, W') \<Longrightarrow>
    connection_step c W W'"
| batch_dml: "txn < length (cw_txns W) \<Longrightarrow> Connection_ExecuteBatchDml c txn sts W = Some (r, W') \<Longrightarrow>
    connection_step c W W'"
| partitioned_dml: "Connection_ExecutePartitionedDml c st W = Some (r, W') \<Longrightarrow> connection_step c W W'"
| commit: "txn < length (cw_txns W) \<Longrightarrow> Connection_Commit c txn ms W = Some (r, W') \<Longrightarrow>
    connection_step c W W'"
| rollback: "txn < length (cw_txns W) \<Longrightarrow> Connection_Rollback c txn W = Some (r, W') \<Longrightarrow>
    connection_step c W W'"
| surroundings: "cw_txns W' = cw_txns W \<Longrightarrow> cw_sessions W' = cw_sessions W \<Longrightarrow> connection_step c W W'"
| bad: "connection_step c W (set_bad h W)"

lemma MakeTransactionFromIds_ok:
  assumes "MakeTransactionFromIds now sid tid W = (t, W')" "world_ok W"
  shows "world_ok W' \<and> world_le W W' \<and> t < length (cw_txns W')"
proof -
  let ?W = "W\<lparr>cw_sessions := cw_sessions W @ [MakeDissociatedSessionHolder now sid]\<rparr>"
  have W: "world_ok ?W" "world_le W ?W" using world_ok_sessions [OF assms(2), of ?W] by simp_all
  have "add_transaction (TransactionImpl (Some (length (cw_sessions W))) (Id tid)) ?W = (t, W')"
    using assms(1) by (simp add: MakeTransactionFromIds_def add_session_def)
  from add_transaction_ok [OF this W(1)] W(2) show ?thesis
    using world_le_trans by auto
qed

lemma ExecutePartitionedDml_ok:
  assumes "Connection_ExecutePartitionedDml c st W = Some (r, W')" "world_ok W"
  shows "world_ok W' \<and> world_le W W'"
proof -
  obtain txn W1 where m: "MakeReadOnlyTransaction ReadOnlyOptions_strong W = (txn, W1)"
    by (cases "MakeReadOnlyTransaction ReadOnlyOptions_strong W")
  then have a: "add_transaction (Transaction_ReadOnly ReadOnlyOptions_strong) W = (txn, W1)"
    by (simp add: MakeReadOnlyTransaction_def)
  have W1: "world_ok W1 \<and> world_le W W1 \<and> txn < length (cw_txns W1)"
    by (rule add_transaction_ok [OF a assms(2)]) (simp add: Transaction_ReadOnly_def)
  have t: "ti_selector (cw_txns W1 ! txn) = Begin (ReadOnly ReadOnlyOptions_strong)"
    "ti_session (cw_txns W1 ! txn) = None"
    using a by (auto simp: add_transaction_def Transaction_ReadOnly_def TransactionImpl_def)
  have v: "VisitTransaction (\<lambda>session s n. ExecutePartitionedDmlImpl c n st session s) txn W1 = Some (r, W')"
    using assms(1) by (simp add: Connection_ExecutePartitionedDml_def m)
  have "world_ok W' \<and> world_le W1 W' \<and> ti_seqno (cw_txns W' ! txn) = ti_seqno (cw_txns W1 ! txn) + 1"
  proof (rule VisitTransaction_ok [OF v])
    show "world_ok W1" "txn < length (cw_txns W1)" using W1 by simp_all
    fix n session' s' W2
    assume "ExecutePartitionedDmlImpl c n st (ti_session (cw_txns W1 ! txn)) (ti_selector (cw_txns W1 ! txn)) W1 =
      Some (r, session', s', W2)"
    then show "functor_effect (ti_selector (cw_txns W1 ! txn)) W1 s' W2 \<and>
        visit_result (ti_session (cw_txns W1 ! txn)) (ti_selector (cw_txns W1 ! txn)) session' s' \<and>
        (\<forall>h. session' = Some h \<longrightarrow> ti_session (cw_txns W1 ! txn) = Some h \<or> h < length (cw_sessions W2))"
      unfolding ExecutePartitionedDmlImpl_def
      by (rule with_session_effect_at) (rule ExecutePartitionedDml_body_effect, simp_all add: t)
  qed
  with W1 world_le_trans show ?thesis by blast
qed

lemma connection_step_ok:
  assumes "connection_step c W W'" "world_ok W"
  shows "world_ok W' \<and> world_le W W'"
  using assms
proof (induction rule: connection_step.induct)
  case (read_only opts W t W')
  then show ?case using add_transaction_ok [of _ W t W']
    by (auto simp: MakeReadOnlyTransaction_def Transaction_ReadOnly_def)
next
  case (read_write W t W')
  then show ?case using add_transaction_ok [of _ W t W']
    by (auto simp: MakeReadWriteTransaction_def Transaction_ReadWrite_def)
next
  case (rerun txn W t W')
  then have "txn_ok (length (cw_sessions W)) (cw_txns W ! txn)" by (simp add: world_ok_def)
  then have "txn_ok (length (cw_sessions W)) (Transaction_rerun (cw_txns W ! txn))"
    unfolding Transaction_rerun_def txn_ok_TransactionImpl by (simp add: txn_ok_def)
  with rerun show ?case using add_transaction_ok [of _ W t W']
    by (auto simp: MakeReadWriteTransaction_rerun_def)
next
  case (single_use opts W t W')
  then show ?case using add_transaction_ok [of _ W t W']
    by (auto simp: MakeSingleUseTransaction_def Transaction_SingleUse_def)
next
  case (from_ids now sid tid W t W')
  then show ?case using MakeTransactionFromIds_ok by blast
next
  case (read rp W r W')
  then show ?case using read.Visit_ok [of c rp] by (auto simp: Connection_Read_def ReadImpl_def)
next
  case (partition_read rp W po r W')
  then show ?case using partition_read.Visit_ok [of c rp po]
    by (auto simp: Connection_PartitionRead_def PartitionReadImpl_def)
next
  case (query sp W mode r W')
  then show ?case using query.Visit_ok [of c sp mode]
    by (auto simp: Connection_Query_def CommonQueryImpl_def)
next
  case (dml sp W mode r W')
  then show ?case using dml.Visit_ok [of c sp mode] by (auto simp: Connection_Dml_def CommonDmlImpl_def)
next
  case (analyze sp W r W')
  have "world_ok W' \<and> world_le W W' \<and> ti_seqno (cw_txns W' ! sqp_transaction sp) =
      ti_seqno (cw_txns W ! sqp_transaction sp) + 1"
    using analyze(2) [unfolded Connection_AnalyzeSql_def] analyze(3,1)
    by (rule VisitTransaction_ok)
      (auto simp: AnalyzeSqlImpl_def CommonDmlImpl_def dest: dml.with_session_effect)
  then show ?case by blast
next
  case (partition_query txn W st po r W')
  then show ?case using partition_query.Visit_ok [of c st po]
    by (auto simp: Connection_PartitionQuery_def PartitionQueryImpl_def)
next
  case (batch_dml txn W sts r W')
  then show ?case using batch_dml.Visit_ok [of c sts]
    by (auto simp: Connection_ExecuteBatchDml_def ExecuteBatchDmlImpl_def)
next
  case (partitioned_dml st W r W')
  then show ?case using ExecutePartitionedDml_ok by blast
next
  case (commit txn W ms r W')
  then show ?case using commit.Visit_ok [of c ms] by (auto simp: Connection_Commit_def CommitImpl_def)
next
  case (rollback txn W r W')
  then show ?case using rollback.Visit_ok [of c] by (auto simp: Connection_Rollback_def RollbackImpl_def)
next
  case (surroundings W' W)
  then show ?case using world_ok_sessions [of W W'] by simp
next
  case (bad W h)
  then show ?case using world_ok_sessions [of W "set_bad h W"] by (simp add: set_bad_def)
qed

lemma connection_steps_ok:
  "(connection_step c)\<^sup>*\<^sup>* W W' \<Longrightarrow> world_ok W \<Longrightarrow> world_ok W' \<and> world_le W W'"
proof (induction rule: rtranclp_induct)
  case (step W1 W2)
  then show ?case using connection_step_ok world_le_trans by blast
qed simp

section \<open>Requests that are sent\<close>

text \<open>
  A service that keeps a record of the unary requests it gets; its answers are arbitrary. The
  retry loop sends copies of one request, at least one if it succeeds.
\<close>

datatype unary_request =
    BeginSent begin_request | CommitSent commit_request | RollbackSent rollback_request

definition recording ::
    "('s, 'g, 'p, 'b, unary_request list, 'r) connection \<Rightarrow> bool" where
  "recording c \<longleftrightarrow>
     (\<forall>d w. re_sleeper (pe_retry (cn_pool_env c)) d w = w) \<and>
     (\<forall>stub req w. snd (stub_BeginTransaction (cn_stub c) stub req w) = w @ [BeginSent req]) \<and>
     (\<forall>stub req w. snd (stub_Commit (cn_stub c) stub req w) = w @ [CommitSent req]) \<and>
     (\<forall>stub req w. snd (stub_Rollback (cn_stub c) stub req w) = w @ [RollbackSent req])"

lemma RetryLoop_while_sends:
  assumes "RetryLoop_while env i f req loc p b st w = Some y"
  shows "(\<forall>w. snd (f req w) = w @ [e]) \<longrightarrow> (\<forall>d w. re_sleeper env d w = w) \<longrightarrow>
    (\<exists>n. snd y = w @ replicate n e \<and> (is_value (fst y) \<or> \<not> IsExhausted (re_policy env) p \<longrightarrow> 0 < n))"
proof (rule RetryLoop_while.raw_induct [OF _ assms, where P = "\<lambda>env i f req loc p b st w y.
    (\<forall>w. snd (f req w) = w @ [e]) \<longrightarrow> (\<forall>d w. re_sleeper env d w = w) \<longrightarrow>
    (\<exists>n. snd y = w @ replicate n e \<and> (is_value (fst y) \<or> \<not> IsExhausted (re_policy env) p \<longrightarrow> 0 < n))"], intro impI, goal_cases)
  case (1 rl env i f req loc p b st w y)
  note IH = 1(1) [rule_format] and y = 1(2) and rec = 1(3,4) [rule_format]
  obtain x w1 where f: "f req w = (x, w1)" by (cases "f req w")
  then have w1: "w1 = w @ replicate 1 e" using rec(1) [of w] by simp
  show ?case
  proof (cases "IsExhausted (re_policy env) p")
    case True
    then have "y = (Inl (RetryLoopError (re_show env) ''Retry policy exhausted in'' loc st), w)" using y by simp
    then show ?thesis using True by (intro exI [of _ 0]) simp
  next
    case False
    show ?thesis
    proof (cases x)
      case (Inr v)
      then have "y = (Inr v, w1)" using y False by (simp add: f)
      then show ?thesis using w1 by (intro exI [of _ 1]) simp
    next
      case (Inl st1)
      obtain cont p1 where p1: "OnFailure (re_policy env) st1 p = (cont, p1)"
        by (cases "OnFailure (re_policy env) st1 p")
      obtain d b1 where b1: "re_backoff env b = (d, b1)" by (cases "re_backoff env b")
      show ?thesis
      proof (cases "i \<and> cont")
        case True
        then have "rl env i f req loc p1 b1 st1 (re_sleeper env d w1) = Some y"
          using y False Inl by (simp add: f p1 b1)
        from IH [OF this] rec obtain n where "snd y = w1 @ replicate n e" by auto
        then show ?thesis using w1 by (intro exI [of _ "Suc n"]) simp
      next
        case stop: False
        then have "snd y = w1 \<and> \<not> is_value (fst y)"
          using y False Inl by (auto simp: f p1 split: if_splits)
        then show ?thesis using w1 by (intro exI [of _ 1]) simp
      qed
    qed
  qed
qed

text \<open>The retry policy allows a call.\<close>

definition can_call :: "('s, 'g, 'p, 'b, 'w, 'r) connection \<Rightarrow> bool" where
  "can_call c \<longleftrightarrow> \<not> IsExhausted (re_policy (pe_retry (cn_pool_env c))) (pe_policy (cn_pool_env c))"

lemma call_rpc_sends:
  assumes "call_rpc c rpc req loc h W = Some (r, W')" "\<And>w. snd (rpc req w) = w @ [e]" "recording c"
  shows "\<exists>n. cw_service W' = cw_service W @ replicate n e \<and> (is_value r \<longrightarrow> 0 < n) \<and>
    (can_call c \<longrightarrow> 0 < n)"
proof -
  obtain w where w: "RetryLoop (pe_retry (cn_pool_env c)) (pe_policy (cn_pool_env c)) (pe_backoff (cn_pool_env c))
      True rpc req loc (cw_service W) = Some (r, w)" and W': "cw_service W' = w"
    using assms(1) by (auto simp: call_rpc_def Let_def split: option.splits sum.splits)
  have "\<forall>d w. re_sleeper (pe_retry (cn_pool_env c)) d w = w" using assms(3) by (simp add: recording_def)
  with RetryLoop_while_sends [OF w [unfolded RetryLoop_def], of e] assms(2) W' show ?thesis
    by (auto simp: can_call_def)
qed

lemma recording_sends:
  assumes "recording c"
  shows "snd (stub_BeginTransaction (cn_stub c) stub breq w) = w @ [BeginSent breq]"
    "snd (stub_Commit (cn_stub c) stub creq w) = w @ [CommitSent creq]"
    "snd (stub_Rollback (cn_stub c) stub rreq w) = w @ [RollbackSent rreq]"
  using assms by (simp_all add: recording_def)

lemma Commit_with_id_sends:
  assumes "Commit_with_id c ms name h s W = Some (r, s', W')" "recording c"
  shows "s' = s \<and> (\<exists>n. cw_service W' = cw_service W @ replicate n (CommitSent
    \<lparr>cr_session = name, cr_mutations = ms, cr_transaction_id = selector_id s\<rparr>) \<and> (is_value r \<longrightarrow> 0 < n))"
proof -
  obtain stub W1 where g: "Connection_GetStub h W = (stub, W1)" by (cases "Connection_GetStub h W")
  then have W1: "cw_service W1 = cw_service W" using Connection_GetStub_effect [OF g] by blast
  obtain r2 where o: "call_rpc c (stub_Commit (cn_stub c) stub)
      \<lparr>cr_session = name, cr_mutations = ms, cr_transaction_id = selector_id s\<rparr> ''CommitImpl'' h W1 = Some (r2, W')"
    and r: "r = map_sum id FromProto r2" "s' = s"
    using assms(1) by (auto simp: Commit_with_id_def g split: option.splits)
  have "is_value r \<longleftrightarrow> is_value r2" using r by (cases r2) simp_all
  with call_rpc_sends [OF o recording_sends(2) [OF assms(2)] assms(2)] W1 r show ?thesis by auto
qed

text \<open>A commit: the requests to begin a transaction, then those to commit it.\<close>

lemma Commit_body_sends:
  assumes "Commit_body c ms h s W = Some (r, s', W')" "recording c"
  shows "\<exists>k n. cw_service W' = cw_service W @
      replicate k (BeginSent \<lparr>br_session = session_name (the_session W h),
        br_options = (case s of Begin opts \<Rightarrow> opts | SingleUse opts \<Rightarrow> opts | Id _ \<Rightarrow> ReadWrite)\<rparr>) @
      replicate n (CommitSent \<lparr>cr_session = session_name (the_session W h), cr_mutations = ms,
        cr_transaction_id = selector_id s'\<rparr>) \<and>
    ((\<exists>i. s = Id i) \<longrightarrow> k = 0) \<and> (n \<noteq> 0 \<longrightarrow> (\<exists>i. s' = Id i)) \<and> ((\<forall>i. s \<noteq> Id i) \<and> n \<noteq> 0 \<longrightarrow> 0 < k) \<and>
    (is_value r \<longrightarrow> 0 < n)"
proof (cases "\<exists>i. s = Id i")
  case True
  then obtain i where i: "s = Id i" by blast
  then have "Commit_with_id c ms (session_name (the_session W h)) h s W = Some (r, s', W')"
    using assms(1) by (simp add: Commit_body_def)
  from Commit_with_id_sends [OF this assms(2)] obtain n where "s' = s"
    "cw_service W' = cw_service W @ replicate n (CommitSent \<lparr>cr_session = session_name (the_session W h),
       cr_mutations = ms, cr_transaction_id = selector_id s\<rparr>)" "is_value r \<longrightarrow> 0 < n" by blast
  then show ?thesis using i by (intro exI [of _ 0] exI [of _ n]) simp
next
  case False
  define opts where "opts = (case s of Begin opts \<Rightarrow> opts | SingleUse opts \<Rightarrow> opts | Id _ \<Rightarrow> ReadWrite)"
  let ?name = "session_name (the_session W h)"
  have b: "Commit_begin c ms ?name opts h s W = Some (r, s', W')"
    using assms(1) False by (cases s) (simp_all add: Commit_body_def opts_def)
  obtain stub W1 where g: "Connection_GetStub h W = (stub, W1)" by (cases "Connection_GetStub h W")
  then have W1: "cw_service W1 = cw_service W" using Connection_GetStub_effect [OF g] by blast
  obtain r2 W2 where o: "call_rpc c (stub_BeginTransaction (cn_stub c) stub)
      \<lparr>br_session = ?name, br_options = opts\<rparr> ''CommitImpl'' h W1 = Some (r2, W2)"
    using b by (auto simp: Commit_begin_def g split: option.splits)
  from call_rpc_sends [OF o recording_sends(1) [OF assms(2)] assms(2)] W1 obtain k where k: "cw_service W2 = cw_service W @
      replicate k (BeginSent \<lparr>br_session = ?name, br_options = opts\<rparr>)" "is_value r2 \<longrightarrow> 0 < k" by auto
  show ?thesis
  proof (cases r2)
    case (Inl st)
    then have "r = Inl st" "W' = W2" using b by (auto simp: Commit_begin_def g o)
    then show ?thesis using k False unfolding opts_def by (intro exI [of _ k] exI [of _ 0]) simp
  next
    case (Inr i)
    then have "Commit_with_id c ms ?name h (Id i) W2 = Some (r, s', W')"
      using b by (simp add: Commit_begin_def g o)
    from Commit_with_id_sends [OF this assms(2)] obtain n where "s' = Id i"
      "cw_service W' = cw_service W2 @ replicate n (CommitSent \<lparr>cr_session = ?name, cr_mutations = ms,
         cr_transaction_id = i\<rparr>)" "is_value r \<longrightarrow> 0 < n" by auto
    then show ?thesis using k False Inr unfolding opts_def by (intro exI [of _ k] exI [of _ n]) simp
  qed
qed

text \<open>What a visit ran, and what it leaves behind.\<close>

lemma VisitTransaction_run:
  assumes "VisitTransaction f txn W = Some (r, W')" "txn < length (cw_txns W)"
    and "\<And>session' s' W'. f (ti_session (cw_txns W ! txn)) (ti_selector (cw_txns W ! txn))
        (ti_seqno (cw_txns W ! txn) + 1) W = Some (r, session', s', W') \<Longrightarrow>
      functor_effect (ti_selector (cw_txns W ! txn)) W s' W'"
  obtains session' s' W1 where
    "f (ti_session (cw_txns W ! txn)) (ti_selector (cw_txns W ! txn)) (ti_seqno (cw_txns W ! txn) + 1) W =
       Some (r, session', s', W1)"
    "ti_selector (cw_txns W' ! txn) = s'" "ti_session (cw_txns W' ! txn) = session'"
    "cw_service W' = cw_service W1" "cw_sessions W' = cw_sessions W1"
proof -
  let ?ti = "cw_txns W ! txn"
  obtain ti W1 where v: "Visit f ?ti W = Some (r, ti, W1)" and W': "W' = W1\<lparr>cw_txns := (cw_txns W1)[txn := ti]\<rparr>"
    using assms(1) by (auto simp: VisitTransaction_def split: option.splits)
  from v obtain session' s' where s': "f (ti_session ?ti) (ti_selector ?ti) (ti_seqno ?ti + 1) W =
      Some (r, session', s', W1)" "ti_session ti = session'" "ti_selector ti = s'"
    by (auto simp: Visit_def Let_def split: txn_state.splits option.splits)
  have "cw_txns W1 = cw_txns W" using assms(3) [OF s'(1)] by (simp add: functor_effect_def)
  then have "cw_txns W' ! txn = ti" using assms(2) by (simp add: W')
  with s' W' that show ?thesis by simp
qed

context connection_functor
begin

lemma Visit_run:
  assumes "VisitTransaction (\<lambda>session s n. with_session c dissociate_from_pool failure (body n) session s) txn W =
      Some (r, W')" "txn < length (cw_txns W)"
  obtains session' s' W1 where
    "with_session c dissociate_from_pool failure (body (ti_seqno (cw_txns W ! txn) + 1))
       (ti_session (cw_txns W ! txn)) (ti_selector (cw_txns W ! txn)) W = Some (r, session', s', W1)"
    "ti_selector (cw_txns W' ! txn) = s'" "ti_session (cw_txns W' ! txn) = session'"
    "cw_service W' = cw_service W1" "cw_sessions W' = cw_sessions W1"
proof (rule VisitTransaction_run [OF assms])
  show "functor_effect (ti_selector (cw_txns W ! txn)) W s' W1"
    if "with_session c dissociate_from_pool failure (body (ti_seqno (cw_txns W ! txn) + 1))
      (ti_session (cw_txns W ! txn)) (ti_selector (cw_txns W ! txn)) W = Some (r, session', s', W1)"
    for session' s' W1
    using with_session_effect [OF that] by blast
qed (use that in blast)

end

lemma with_session_Some:
  "with_session c d failure body (Some h) s W = map_option (\<lambda>(r, s, W). (r, Some h, s, W)) (body h s W)"
  by (simp add: with_session_def PrepareSession_def)

text \<open>Sessions the service does not know.\<close>

lemma note_status_marks:
  "IsSessionNotFound st \<Longrightarrow> h < length (cw_sessions W) \<Longrightarrow> is_bad (the_session (note_status h st W) h)"
  by (simp add: note_status_def set_bad_def the_session_def)

lemma sessions_kept_length: "functor_effect s W s' W' \<Longrightarrow> h < length (cw_sessions W) \<Longrightarrow> h < length (cw_sessions W')"
  by (simp add: functor_effect_def sessions_kept_def)

lemma call_rpc_marks:
  assumes "call_rpc c rpc request location h W = Some (Inl st, W')" "IsSessionNotFound st"
    "h < length (cw_sessions W)"
  shows "is_bad (the_session W' h)"
proof -
  obtain w where "W' = note_status h st (W\<lparr>cw_service := w\<rparr>)"
    using assms(1) by (auto simp: call_rpc_def Let_def split: option.splits)
  then show ?thesis using note_status_marks [OF assms(2), of h "W\<lparr>cw_service := w\<rparr>"] assms(3) by simp
qed

lemma call_body_marks:
  assumes "Connection_GetStub h W = (stub, W1)" "call_rpc c rpc request location h W1 = Some (Inl st, W2)"
    "IsSessionNotFound st" "h < length (cw_sessions W)"
  shows "is_bad (the_session W2 h)"
  by (rule call_rpc_marks [OF assms(2,3)]) (use assms(4) Connection_GetStub_effect [OF assms(1)] in simp)

text \<open>The session that a visit leaves with its transaction, attached before or by the visit.\<close>

lemma with_session_marks:
  assumes "with_session c d failure body session s W = Some (r, Some h, s', W')"
    and "\<And>h. session = Some h \<Longrightarrow> h < length (cw_sessions W)"
    and "\<And>h W. body h s W = Some (r, s', W') \<Longrightarrow> h < length (cw_sessions W) \<Longrightarrow> is_bad (the_session W' h)"
  shows "is_bad (the_session W' h)"
proof -
  obtain x W1 where p: "PrepareSession c d session W = Some (x, W1)"
    using assms(1) by (auto simp: with_session_def split: option.splits)
  note e = PrepareSession_effect [OF p]
  obtain h1 where h1: "x = Inr h1"
    using assms(1) p e by (cases x; cases session) (auto simp: with_session_def)
  then have b: "body h s W1 = Some (r, s', W')" "h1 = h" using assms(1) by (auto simp: with_session_def p)
  have "h < length (cw_sessions W1)" using e assms(2) h1 b(2) by (cases session) auto
  then show ?thesis by (rule assms(3) [OF b(1)])
qed

lemma Visit_marks:
  assumes v: "VisitTransaction (\<lambda>session s n. with_session c d failure (body n) session s) t W = Some (r, W')"
    and t: "t < length (cw_txns W)"
    and sess: "\<And>h. ti_session (cw_txns W ! t) = Some h \<Longrightarrow> h < length (cw_sessions W)"
    and eff: "\<And>n h W r s' W'. body n h sel W = Some (r, s', W') \<Longrightarrow> functor_effect sel W s' W'"
    and sel: "ti_selector (cw_txns W ! t) = sel"
    and marks: "\<And>n h s W s' W'. body n h s W = Some (r, s', W') \<Longrightarrow> h < length (cw_sessions W) \<Longrightarrow>
      is_bad (the_session W' h)"
  shows "(\<forall>h. ti_session (cw_txns W' ! t) = Some h \<longrightarrow> is_bad (the_session W' h)) \<and>
    (\<forall>h. ti_session (cw_txns W ! t) = Some h \<longrightarrow> ti_session (cw_txns W' ! t) = Some h)"
proof -
  have effect: "functor_effect (ti_selector (cw_txns W ! t)) W s' W1 \<and>
      visit_result session (ti_selector (cw_txns W ! t)) session' s'"
    if "with_session c d failure (body n) session (ti_selector (cw_txns W ! t)) W = Some (r, session', s', W1)"
    for n session r session' s' W1
  proof -
    have "functor_effect sel W s' W1 \<and> visit_result session sel session' s' \<and>
        (\<forall>h. session' = Some h \<longrightarrow> session = Some h \<or> h < length (cw_sessions W1))"
      by (rule with_session_effect_at [OF that [unfolded sel]]) (erule eff)
    then show ?thesis by (simp add: sel)
  qed
  obtain session' s' W1 where w: "with_session c d failure (body (ti_seqno (cw_txns W ! t) + 1))
      (ti_session (cw_txns W ! t)) (ti_selector (cw_txns W ! t)) W = Some (r, session', s', W1)"
    "ti_session (cw_txns W' ! t) = session'" "cw_sessions W' = cw_sessions W1"
    by (rule VisitTransaction_run [OF v t]) (use effect in \<open>blast, blast\<close>)
  have "is_bad (the_session W1 h)" if "session' = Some h" for h
    by (rule with_session_marks [OF w(1) [unfolded that] sess]) (assumption, erule (1) marks)
  moreover have "visit_result (ti_session (cw_txns W ! t)) (ti_selector (cw_txns W ! t)) session' s'"
    using effect [OF w(1)] by blast
  ultimately show ?thesis using w(2,3) by (auto simp: visit_result_def the_session_def)
qed

lemma begun_by_error: "begun_by x s r = Inl st \<Longrightarrow> has_begin s \<and> st = begin_without_id x"
  by (auto simp: begun_by_def split: if_splits)

lemma begin_without_id_found [simp]: "\<not> IsSessionNotFound (begin_without_id x)"
  by (simp add: begin_without_id_def IsSessionNotFound_def)

lemma begun_by_begin:
  "begun_by x (Begin opts) r = Inr s' \<Longrightarrow> \<exists>i. i \<noteq> [] \<and> s' = Id i \<and> metadata_txn_id (result_Metadata r) = i"
  by (auto simp: begun_by_def split: if_splits)

lemma Read_body_begin:
  assumes "Read_body c params h (Begin opts) W = Some (r, s', W')"
  shows "(\<exists>i. i \<noteq> [] \<and> s' = Id i \<and> metadata_txn_id (result_Metadata r) = i) \<or>
    (\<exists>st. r = StatusOnly st) \<and> s' = Begin opts"
  using assms
  by (auto simp: Read_body_def split: prod.splits option.splits sum.splits dest: begun_by_begin)

lemma CommonQuery_body_begin:
  assumes "CommonQuery_body c n params mode h (Begin opts) W = Some (r, s', W')"
  shows "(\<exists>i. i \<noteq> [] \<and> s' = Id i \<and> metadata_txn_id (result_Metadata r) = i) \<or>
    (\<exists>st. r = StatusOnly st) \<and> s' = Begin opts"
  using assms
  by (auto simp: CommonQuery_body_def ExecuteSqlImpl_def split: prod.splits option.splits sum.splits
      dest: begun_by_begin)

lemma with_session_begin:
  assumes "with_session c d StatusOnly body session (Begin opts) W = Some (r, session', s', W')"
    and "\<And>h W r s' W'. body h (Begin opts) W = Some (r, s', W') \<Longrightarrow> P r s'"
    and "\<And>st. P (StatusOnly st) (Begin opts)"
  shows "P r s'"
  using assms by (auto simp: with_session_def split: option.splits sum.splits prod.splits)

lemma Read_body_marks:
  assumes "Read_body c params h s W = Some (StatusOnly st, s', W')" "IsSessionNotFound st"
    "h < length (cw_sessions W)"
  shows "is_bad (the_session W' h)"
proof -
  obtain stub W1 where g: "Connection_GetStub h W = (stub, W1)" by (cases "Connection_GetStub h W")
  obtain r2 W2 where o: "open_stream c (StreamingRead (cn_stub c) stub)
      (read_request_for (session_name (the_session W1 h)) s params) W1 = Some (r2, W2)"
    using assms(1) by (auto simp: Read_body_def g split: option.splits)
  have "h < length (cw_sessions W2)"
    using assms(3) sessions_kept_length open_stream_effect [OF o] Connection_GetStub_effect [OF g] by metis
  moreover have "\<forall>s. r2 \<noteq> Inr (StatusOnly s)"
    using o by (auto simp: open_stream_def Let_def split: option.splits sum.splits)
  ultimately show ?thesis using assms(1,2) note_status_marks
    by (auto simp: Read_body_def g o split: sum.splits dest: begun_by_error)
qed

lemma CommonQuery_body_marks:
  assumes "CommonQuery_body c n params mode h s W = Some (StatusOnly st, s', W')" "IsSessionNotFound st"
    "h < length (cw_sessions W)"
  shows "is_bad (the_session W' h)"
proof -
  obtain stub W1 where g: "Connection_GetStub h W = (stub, W1)" by (cases "Connection_GetStub h W")
  obtain r2 s2 W2 where o: "ExecuteSqlImpl n params mode
      (open_stream c (ExecuteStreamingSql (cn_stub c) stub)) h s W1 = Some (r2, s2, W2)"
    using assms(1) by (auto simp: CommonQuery_body_def g split: option.splits)
  have "functor_effect s W1 s2 W2" by (rule ExecuteSqlImpl_effect [OF o]) (rule open_stream_effect)
  then have "h < length (cw_sessions W2)"
    using assms(3) sessions_kept_length Connection_GetStub_effect [OF g] by metis
  moreover have "\<forall>s. r2 \<noteq> Inr (StatusOnly s)"
    using o by (auto simp: ExecuteSqlImpl_def open_stream_def Let_def split: option.splits sum.splits)
  ultimately show ?thesis using assms(1,2) note_status_marks
    by (auto simp: CommonQuery_body_def g o split: sum.splits)
qed

lemma map_sum_Inl: "map_sum id f r = Inl st \<longleftrightarrow> r = Inl st"
  by (cases r) simp_all

lemma CommonDml_body_marks:
  assumes "CommonDml_body c n params mode h s W = Some (Inl st, s', W')" "IsSessionNotFound st"
    "h < length (cw_sessions W)"
  shows "is_bad (the_session W' h)"
proof -
  obtain stub W1 where g: "Connection_GetStub h W = (stub, W1)" by (cases "Connection_GetStub h W")
  obtain request where "call_rpc c (stub_ExecuteSql (cn_stub c) stub) request ''CommonDmlImpl'' h W1 =
      Some (Inl st, W')"
    using assms(1,2) by (auto simp: CommonDml_body_def ExecuteSqlImpl_def g map_sum_Inl dest!: begun_by_error
        split: option.splits sum.splits)
  then show ?thesis by (rule call_body_marks [OF g _ assms(2,3)])
qed

lemma PartitionRead_body_marks:
  "PartitionRead_body c params opts h s W = Some (Inl st, s', W') \<Longrightarrow> IsSessionNotFound st \<Longrightarrow>
   h < length (cw_sessions W) \<Longrightarrow> is_bad (the_session W' h)"
  by (auto simp: PartitionRead_body_def Let_def split: prod.splits option.splits sum.splits
      intro: call_body_marks)

lemma PartitionQuery_body_marks:
  "PartitionQuery_body c q opts h s W = Some (Inl st, s', W') \<Longrightarrow> IsSessionNotFound st \<Longrightarrow>
   h < length (cw_sessions W) \<Longrightarrow> is_bad (the_session W' h)"
  by (auto simp: PartitionQuery_body_def Let_def split: prod.splits option.splits sum.splits
      intro: call_body_marks)

lemma ExecuteBatchDml_body_marks:
  "ExecuteBatchDml_body c n sts h s W = Some (Inl st, s', W') \<Longrightarrow> IsSessionNotFound st \<Longrightarrow>
   h < length (cw_sessions W) \<Longrightarrow> is_bad (the_session W' h)"
  by (auto simp: ExecuteBatchDml_body_def Let_def split: prod.splits option.splits sum.splits
      intro: call_body_marks)

lemma ExecutePartitionedDml_body_marks:
  assumes "ExecutePartitionedDml_body c n q h s W = Some (Inl st, s', W')" "IsSessionNotFound st"
    "h < length (cw_sessions W)"
  shows "is_bad (the_session W' h)"
proof -
  obtain stub W1 where g: "Connection_GetStub h W = (stub, W1)" by (cases "Connection_GetStub h W")
  obtain r2 W2 where o: "call_rpc c (stub_BeginTransaction (cn_stub c) stub)
      \<lparr>br_session = session_name (the_session W h), br_options = PartitionedDml\<rparr>
      ''ExecutePartitionedDmlImpl'' h W1 = Some (r2, W2)"
    using assms(1) by (auto simp: ExecutePartitionedDml_body_def Let_def g split: option.splits)
  show ?thesis
  proof (cases r2)
    case (Inl e)
    then show ?thesis
      using assms(1) call_body_marks [OF g o [unfolded Inl] _ assms(3)] assms(2)
      by (simp add: ExecutePartitionedDml_body_def Let_def g o)
  next
    case (Inr i)
    have "h < length (cw_sessions W2)"
      by (rule sessions_kept_length [OF call_body_effect [OF g o] assms(3)])
    then show ?thesis
      using assms(1,2) Inr
      by (auto simp: ExecutePartitionedDml_body_def Let_def g o split: option.splits sum.splits
          intro: call_rpc_marks)
  qed
qed

text \<open>The plan is taken from the result of the DML functor.\<close>

lemma AnalyzeSqlImpl_with_session:
  "AnalyzeSqlImpl c n params session s W = with_session c False Inl
     (\<lambda>h s W. map_option (\<lambda>(r, s, W). (map_sum id (\<lambda>r. Option.bind (result_Stats r) query_plan) r, s, W))
        (CommonDml_body c n params PLAN h s W)) session s W"
  by (auto simp: AnalyzeSqlImpl_def CommonDmlImpl_def with_session_def option.map_comp
      split: option.splits sum.splits intro!: map_option_cong)

lemma Commit_with_id_marks:
  assumes "Commit_with_id c ms name h s W = Some (Inl st, s', W')" "IsSessionNotFound st"
    "h < length (cw_sessions W)"
  shows "is_bad (the_session W' h)"
proof -
  obtain stub W1 where g: "Connection_GetStub h W = (stub, W1)" by (cases "Connection_GetStub h W")
  obtain r where "call_rpc c (stub_Commit (cn_stub c) stub)
      \<lparr>cr_session = name, cr_mutations = ms, cr_transaction_id = selector_id s\<rparr> ''CommitImpl'' h W1 = Some (r, W')"
    "map_sum id FromProto r = Inl st"
    using assms(1) by (auto simp: Commit_with_id_def g split: option.splits)
  moreover have "h < length (cw_sessions W1)" using assms(3) Connection_GetStub_effect [OF g] by simp
  ultimately show ?thesis using call_rpc_marks assms(2) by (cases r) auto
qed

lemma Commit_begin_marks:
  assumes "Commit_begin c ms name opts h s W = Some (Inl st, s', W')" "IsSessionNotFound st"
    "h < length (cw_sessions W)"
  shows "is_bad (the_session W' h)"
proof -
  obtain stub W1 where g: "Connection_GetStub h W = (stub, W1)" by (cases "Connection_GetStub h W")
  obtain r2 W2 where o: "call_rpc c (stub_BeginTransaction (cn_stub c) stub)
      \<lparr>br_session = name, br_options = opts\<rparr> ''CommitImpl'' h W1 = Some (r2, W2)"
    using assms(1) by (auto simp: Commit_begin_def g split: option.splits)
  have h: "h < length (cw_sessions W1)" using assms(3) Connection_GetStub_effect [OF g] by simp
  with sessions_kept_length call_rpc_effect [OF o] have "h < length (cw_sessions W2)" by blast
  with assms(1,2) h o show ?thesis
    by (cases r2) (auto simp: Commit_begin_def g dest: call_rpc_marks Commit_with_id_marks)
qed

lemma Commit_body_marks:
  "Commit_body c ms h s W = Some (Inl st, s', W') \<Longrightarrow> IsSessionNotFound st \<Longrightarrow> h < length (cw_sessions W) \<Longrightarrow>
   is_bad (the_session W' h)"
  by (cases s) (auto simp: Commit_body_def dest: Commit_with_id_marks Commit_begin_marks)

lemma Rollback_body_marks:
  assumes "Rollback_body c h s W = Some (st, s', W')" "IsSessionNotFound st" "h < length (cw_sessions W)"
  shows "is_bad (the_session W' h)"
proof (cases s)
  case (Id i)
  obtain stub W1 where g: "Connection_GetStub h W = (stub, W1)" by (cases "Connection_GetStub h W")
  obtain r where "call_rpc c (stub_Rollback (cn_stub c) stub)
      \<lparr>rr_session = session_name (the_session W1 h), rr_transaction_id = i\<rparr> ''RollbackImpl'' h W1 = Some (r, W')"
    "st = result_status r"
    using assms(1) Id by (auto simp: Rollback_body_def g split: option.splits)
  moreover have "h < length (cw_sessions W1)" using assms(3) Connection_GetStub_effect [OF g] by simp
  moreover have "\<not> IsSessionNotFound ok_status" by (simp add: IsSessionNotFound_def)
  ultimately show ?thesis using call_rpc_marks assms(2) by (cases r) auto
qed (use assms in \<open>auto simp: Rollback_body_def rollback_single_use_def IsSessionNotFound_def\<close>)

section \<open>An example\<close>

definition recording_env :: "(nat, int, unary_request list) retry_env" where
  "recording_env = \<lparr>re_policy = limited_error_count SafeGrpcRetry_IsPermanentFailure,
     re_backoff = (\<lambda>b. (b, 2 * b)), re_sleeper = (\<lambda>d w. w), re_show = message\<rparr>"

text \<open>A service that is unavailable for the first request it ever gets.\<close>

definition answer_second :: "unary_request \<Rightarrow> 'a \<Rightarrow> unary_request list \<Rightarrow> 'a status_or \<times> unary_request list" where
  "answer_second e x w = (if w = [] then Inl (Status kUnavailable ''busy'') else Inr x, w @ [e])"

definition demo_connection :: "(string, unit, nat, int, unary_request list, grpc_stream) connection" where
  "demo_connection =
     \<lparr>cn_pool_env = \<lparr>pe_retry = recording_env, pe_policy = 3, pe_backoff = 10,
        pe_create = (\<lambda>stub req w. (Inl (Status kUnavailable ''busy''), w)), pe_shuffle = (\<lambda>g ss. (ss, g))\<rparr>,
      cn_tracing = False,
      cn_stub = \<lparr>stub_reader = default_reader,
        StreamingRead = (\<lambda>stub req w. (grpc_script [] ok_status, w)),
        ExecuteStreamingSql = (\<lambda>stub req w. (grpc_script [text_message (Some (Metadata [(''x'', TString)]
          (Some (TxnInfo ''t2'' None)))) [''A''] False] ok_status, w)),
        stub_ExecuteSql = (\<lambda>stub req w. (Inr \<lparr>rset_metadata = None, rset_stats = None\<rparr>, w)),
        stub_ExecuteBatchDml = (\<lambda>stub req w. (Inr \<lparr>bd_result_sets = [], bd_status = ok_status\<rparr>, w)),
        stub_PartitionRead = (\<lambda>stub req w. (Inr \<lparr>presp_transaction_id = ''t1'', presp_tokens = []\<rparr>, w)),
        stub_PartitionQuery = (\<lambda>stub req w. (Inr \<lparr>presp_transaction_id = ''t1'', presp_tokens = []\<rparr>, w)),
        stub_BeginTransaction = (\<lambda>stub req. answer_second (BeginSent req) ''t1''),
        stub_Commit = (\<lambda>stub req. answer_second (CommitSent req) (ProtoTimestamp 1 2)),
        stub_Rollback = (\<lambda>stub req. answer_second (RollbackSent req) ())\<rparr>\<rparr>"

definition demo_world :: "selector \<Rightarrow> (string, unit, unary_request list) client_world" where
  "demo_world sel = \<lparr>cw_pool = demo_pool, cw_sessions = [MakeDissociatedSessionHolder 0 ''s''],
     cw_txns = [TransactionImpl (Some 0) sel], cw_streams = (\<lambda>_. []), cw_opened = 0, cw_service = []\<rparr>"

lemma demo_recording: "recording demo_connection"
  by (simp add: recording_def demo_connection_def answer_second_def recording_env_def)

lemma demo_transient: "\<not> SafeGrpcRetry_IsPermanentFailure (Status kUnavailable ''busy'')"
  by (simp add: SafeGrpcRetry_IsPermanentFailure_def SafeGrpcRetry_IsTransientFailure_def)

text \<open>The first call of all is made twice.\<close>

lemma demo_call:
  assumes "rpc = (\<lambda>req. answer_second (e req) x)" "cw_service W = w"
  shows "call_rpc demo_connection rpc req loc h W = Some (Inr x, W\<lparr>cw_service :=
    (if w = [] then [e req, e req] else w @ [e req])\<rparr>)"
  using assms by (simp add: call_rpc_def RetryLoop_def RetryLoop_while.simps demo_connection_def
      recording_env_def limited_error_count_def answer_second_def demo_transient)

lemmas demo_simps = demo_world_def TransactionImpl_def after_visit_def VisitTransaction_def Visit_def
  with_session_Some Connection_GetStub_def GetStub_def the_session_def MakeDissociatedSessionHolder_def
  demo_pool_def Let_def

lemma demo_stubs:
  "stub_BeginTransaction (cn_stub demo_connection) stub = (\<lambda>req. answer_second (BeginSent req) ''t1'')"
  "stub_Commit (cn_stub demo_connection) stub = (\<lambda>req. answer_second (CommitSent req) (ProtoTimestamp 1 2))"
  "stub_Rollback (cn_stub demo_connection) stub = (\<lambda>req. answer_second (RollbackSent req) ())"
  by (simp_all add: demo_connection_def)

lemma demo_from_ids:
  "MakeTransactionFromIds 0 ''s'' ''t'' ((demo_world (Id ''t''))\<lparr>cw_txns := [], cw_sessions := []\<rparr>) =
     (0, demo_world (Id ''t''))"
  unfolding MakeTransactionFromIds_def add_session_def add_transaction_def demo_world_def Let_def prod.case
    prod.inject client_world.simps list.size append_Nil
  by (intro conjI client_world.equality) (simp_all only: client_world.simps list.size append_Nil)

text \<open>A pool that may not grow and fails instead, and a transaction that has no session.\<close>

definition exhausted_world :: "(string, unit, unary_request list) client_world" where
  "exhausted_world = (demo_world (Begin ReadWrite))
     \<lparr>cw_pool := demo_pool\<lparr>total_sessions := 4, pool_options := demo_options\<lparr>action_on_exhaustion := kFail\<rparr>\<rparr>,
      cw_txns := [Transaction_ReadWrite]\<rparr>"

lemma exhausted_no_session:
  "PrepareSession demo_connection False None exhausted_world = Some (Inl pool_exhausted, exhausted_world)"
  by (simp add: PrepareSession_def exhausted_world_def demo_world_def demo_pool_def Allocate.simps
      Allocate_turn_def demo_options_def)

section \<open>Properties\<close>

text \<open>
  C11: Transactions keep their identity: whatever is called on a connection, in any order, every
  transaction is idle between the calls; its sequence number never falls; once it has an id or a
  session it keeps it, the session keeps its name and channel, and a session that is bad stays bad.
\<close>

theorem transactions_keep_identity:
  assumes "cw_txns W0 = []" "(connection_step c)\<^sup>*\<^sup>* W0 W" "(connection_step c)\<^sup>*\<^sup>* W W'"
    and "t < length (cw_txns W)" "ti = cw_txns W ! t" "ti' = cw_txns W' ! t"
  shows "ti_state ti = after_visit (ti_selector ti) \<and> ti_seqno ti \<le> ti_seqno ti' \<and>
    (\<forall>i. ti_selector ti = Id i \<longrightarrow> ti_selector ti' = Id i) \<and>
    (\<forall>h. ti_session ti = Some h \<longrightarrow> ti_session ti' = Some h \<and>
       session_name (the_session W' h) = session_name (the_session W h) \<and>
       session_channel (the_session W' h) = session_channel (the_session W h) \<and>
       (is_bad (the_session W h) \<longrightarrow> is_bad (the_session W' h)))"
proof -
  have "world_ok W0" using assms(1) by (simp add: world_ok_def)
  with connection_steps_ok [OF assms(2)] have ok: "world_ok W" by blast
  have le: "world_le W W'" using connection_steps_ok [OF assms(3) ok] by blast
  have ti: "txn_ok (length (cw_sessions W)) ti" using ok assms(4,5) by (simp add: world_ok_def)
  have "txn_le ti ti'" using le assms(4-6) by (simp add: world_le_def)
  moreover have "session_name (the_session W' h) = session_name (the_session W h) \<and>
      session_channel (the_session W' h) = session_channel (the_session W h) \<and>
      (is_bad (the_session W h) \<longrightarrow> is_bad (the_session W' h))" if "ti_session ti = Some h" for h
  proof -
    have "h < length (cw_sessions W)" using ti that by (simp add: txn_ok_def)
    then have "cw_sessions W' ! h = cw_sessions W ! h \<or> cw_sessions W' ! h = holder_set_bad (cw_sessions W ! h)"
      using le by (simp add: world_le_def sessions_kept_def)
    then show ?thesis by (auto simp: the_session_def)
  qed
  ultimately show ?thesis using ti by (simp add: txn_ok_def txn_le_def)
qed

theorem transactions_keep_identity_witness:
  "\<exists>W'. Connection_Rollback demo_connection 0 (demo_world (Id ''t'')) = Some (ok_status, W') \<and>
     ti_selector (cw_txns W' ! 0) = Id ''t'' \<and> session_name (the_session W' 0) = ''s'' \<and>
     0 \<le> ti_seqno (cw_txns W' ! 0)"
proof -
  let ?V = "(demo_world (Id ''t''))\<lparr>cw_txns := [], cw_sessions := []\<rparr>" and ?W = "demo_world (Id ''t'')"
  have "MakeTransactionFromIds 0 ''s'' ''t'' ?V = (0, ?W)"
    by (rule demo_from_ids)
  then have s0: "(connection_step demo_connection)\<^sup>*\<^sup>* ?V ?W" by (blast intro: connection_step.from_ids)
  obtain W' where r: "Connection_Rollback demo_connection 0 ?W = Some (ok_status, W')"
    by (simp add: Connection_Rollback_def RollbackImpl_def Rollback_body_def demo_stubs demo_call [OF refl] demo_simps)
  have W: "0 < length (cw_txns ?W)" "ti_selector (cw_txns ?W ! 0) = Id ''t''" "ti_session (cw_txns ?W ! 0) = Some 0"
    "session_name (the_session ?W 0) = ''s''" "ti_seqno (cw_txns ?W ! 0) = 0"
    by (simp_all add: demo_world_def TransactionImpl_def the_session_def MakeDissociatedSessionHolder_def)
  have s: "(connection_step demo_connection)\<^sup>*\<^sup>* ?W W'" using connection_step.rollback [OF W(1) r] by blast
  have "cw_txns ?V = []" by simp
  from transactions_keep_identity [OF this s0 s W(1) refl refl] r W show ?thesis by simp
qed

text \<open>
  C7: A commit sends, in this order: requests to begin a transaction, if it has no id yet and with
  its own options, and requests to commit, which all carry the session's name, the mutations and the
  id that the transaction has afterwards; a commit that succeeds has sent at least one of the
  latter, and none is sent for a transaction that could not be begun.
\<close>

theorem commit_requests:
  assumes "Connection_Commit c txn ms W = Some (r, W')" "recording c" "txn < length (cw_txns W)"
    and "ti_session (cw_txns W ! txn) = Some h" "s = ti_selector (cw_txns W ! txn)"
    and "s' = ti_selector (cw_txns W' ! txn)" "name = session_name (the_session W h)"
  shows "\<exists>k n. cw_service W' = cw_service W @
      replicate k (BeginSent \<lparr>br_session = name,
        br_options = (case s of Begin opts \<Rightarrow> opts | SingleUse opts \<Rightarrow> opts | Id _ \<Rightarrow> ReadWrite)\<rparr>) @
      replicate n (CommitSent \<lparr>cr_session = name, cr_mutations = ms, cr_transaction_id = selector_id s'\<rparr>) \<and>
    ((\<exists>i. s = Id i) \<longrightarrow> k = 0 \<and> s' = s) \<and> (n \<noteq> 0 \<longrightarrow> (\<exists>i. s' = Id i)) \<and>
    ((\<forall>i. s \<noteq> Id i) \<and> n \<noteq> 0 \<longrightarrow> 0 < k) \<and> (is_value r \<longrightarrow> 0 < n)"
proof -
  have v: "VisitTransaction (\<lambda>session s n. with_session c False Inl (Commit_body c ms) session s) txn W = Some (r, W')"
    using assms(1) by (simp add: Connection_Commit_def CommitImpl_def)
  obtain session' s1 W1 where "with_session c False Inl (Commit_body c ms) (Some h) s W = Some (r, session', s1, W1)"
    "s' = s1" "cw_service W' = cw_service W1"
    using commit.Visit_run [OF v assms(3)] assms(4-6) by metis
  then have b: "Commit_body c ms h s W = Some (r, s', W1)" "cw_service W' = cw_service W1"
    by (auto simp: with_session_Some)
  have "(\<exists>i. s = Id i) \<longrightarrow> s' = s"
    using Commit_body_effect [OF b(1)] by (auto simp: functor_effect_def)
  with Commit_body_sends [OF b(1) assms(2)] b(2) assms(7) show ?thesis by auto
qed

theorem commit_requests_witness:
  "\<exists>W'. Connection_Commit demo_connection 0 [MutationNotSet] (demo_world (Begin ReadWrite)) =
     Some (Inr (Some (Timestamp 1 2)), W') \<and>
   cw_service W' = [BeginSent \<lparr>br_session = ''s'', br_options = ReadWrite\<rparr>,
     BeginSent \<lparr>br_session = ''s'', br_options = ReadWrite\<rparr>,
     CommitSent \<lparr>cr_session = ''s'', cr_mutations = [MutationNotSet], cr_transaction_id = ''t1''\<rparr>] \<and>
   selector_id (ti_selector (cw_txns W' ! 0)) = ''t1'' \<and> (\<exists>i. ti_selector (cw_txns W' ! 0) = Id i)"
proof -
  let ?W = "demo_world (Begin ReadWrite)"
  have ts: "FromProto (ProtoTimestamp 1 2) = Some (Timestamp 1 2)"
    using FromProto_ToProto [of "Timestamp 1 2"] by (simp add: ToProto_def normalized_def in_int64_def)
  obtain W' where r: "Connection_Commit demo_connection 0 [MutationNotSet] ?W = Some (Inr (Some (Timestamp 1 2)), W')"
    and w: "cw_service W' = [BeginSent \<lparr>br_session = ''s'', br_options = ReadWrite\<rparr>,
     BeginSent \<lparr>br_session = ''s'', br_options = ReadWrite\<rparr>,
     CommitSent \<lparr>cr_session = ''s'', cr_mutations = [MutationNotSet], cr_transaction_id = ''t1''\<rparr>]"
    "selector_id (ti_selector (cw_txns W' ! 0)) = ''t1''"
    by (simp add: Connection_Commit_def CommitImpl_def Commit_body_def Commit_begin_def Commit_with_id_def
        demo_stubs demo_call [OF refl] demo_simps ts)
  have "0 < length (cw_txns ?W)" "ti_session (cw_txns ?W ! 0) = Some 0"
    by (simp_all add: demo_world_def TransactionImpl_def)
  from commit_requests [OF r demo_recording this refl refl refl] r w show ?thesis by auto
qed

lemma Rollback_body_sends:
  assumes "Rollback_body c h s W = Some (r, s', W')" "recording c"
  shows "s' = s \<and>
    (case s of
       SingleUse _ \<Rightarrow> r = rollback_single_use \<and> cw_service W' = cw_service W
     | Begin _ \<Rightarrow> r = ok_status \<and> cw_service W' = cw_service W
     | Id i \<Rightarrow> \<exists>n. cw_service W' = cw_service W @ replicate n (RollbackSent
         \<lparr>rr_session = session_name (the_session W h), rr_transaction_id = i\<rparr>) \<and> (can_call c \<longrightarrow> 0 < n))"
proof (cases s)
  case (Id i)
  obtain stub W2 where g: "Connection_GetStub h W = (stub, W2)" by (cases "Connection_GetStub h W")
  then have W2: "cw_service W2 = cw_service W" "cw_sessions W2 = cw_sessions W"
    using Connection_GetStub_effect [OF g] by simp_all
  obtain x where o: "call_rpc c (stub_Rollback (cn_stub c) stub)
      \<lparr>rr_session = session_name (the_session W2 h), rr_transaction_id = i\<rparr> ''RollbackImpl'' h W2 = Some (x, W')"
    and x: "r = result_status x" "s' = s"
    using assms(1) Id by (auto simp: Rollback_body_def g split: option.splits)
  from call_rpc_sends [OF o recording_sends(3) [OF assms(2)] assms(2)] x Id W2 show ?thesis
    by (cases x) (auto simp: the_session_def)
next
  case (SingleUse opts)
  then have "r = rollback_single_use" "s' = s" "W' = W" using assms(1) by (auto simp: Rollback_body_def)
  with SingleUse show ?thesis by simp
next
  case (Begin opts)
  then have "r = ok_status" "s' = s" "W' = W" using assms(1) by (auto simp: Rollback_body_def)
  with Begin show ?thesis by simp
qed

lemma Rollback_sends:
  assumes "Connection_Rollback c txn W = Some (r, W')" "recording c" "txn < length (cw_txns W)"
    and "s = ti_selector (cw_txns W ! txn)"
    and "PrepareSession c False (ti_session (cw_txns W ! txn)) W = Some (p, W1)"
  shows "ti_selector (cw_txns W' ! txn) = s \<and>
    (case p of
       Inl status \<Rightarrow> r = status \<and> ti_session (cw_txns W' ! txn) = None \<and> cw_service W' = cw_service W1
     | Inr h \<Rightarrow> ti_session (cw_txns W' ! txn) = Some h \<and>
         (case s of
            SingleUse _ \<Rightarrow> r = rollback_single_use \<and> cw_service W' = cw_service W1
          | Begin _ \<Rightarrow> r = ok_status \<and> cw_service W' = cw_service W1
          | Id i \<Rightarrow> \<exists>n. cw_service W' = cw_service W1 @ replicate n (RollbackSent
              \<lparr>rr_session = session_name (the_session W1 h), rr_transaction_id = i\<rparr>) \<and> (can_call c \<longrightarrow> 0 < n))) \<and>
    (\<forall>h. ti_session (cw_txns W ! txn) = Some h \<longrightarrow> p = Inr h \<and> W1 = W)"
proof -
  have v: "VisitTransaction (\<lambda>session s n. with_session c False (\<lambda>st. st) (Rollback_body c) session s) txn W =
      Some (r, W')"
    using assms(1) by (simp add: Connection_Rollback_def RollbackImpl_def)
  obtain session' s' W2 where w: "with_session c False (\<lambda>st. st) (Rollback_body c) (ti_session (cw_txns W ! txn)) s W =
      Some (r, session', s', W2)" "ti_selector (cw_txns W' ! txn) = s'" "ti_session (cw_txns W' ! txn) = session'"
    "cw_service W' = cw_service W2"
    using rollback.Visit_run [OF v assms(3)] assms(4) by metis
  note e = PrepareSession_effect [OF assms(5)]
  show ?thesis
  proof (cases p)
    case (Inl status)
    with w e assms(5) show ?thesis
      by (cases "ti_session (cw_txns W ! txn)") (auto simp: with_session_def)
  next
    case (Inr h)
    then have b: "Rollback_body c h s W1 = Some (r, s', W2)" "session' = Some h"
      using w(1) assms(5) by (auto simp: with_session_def)
    from Rollback_body_sends [OF b(1) assms(2)] b(2) w(2-4) e Inr show ?thesis by (cases s) simp_all
  qed
qed

text \<open>
  C18: A rollback first takes a session if the transaction has none; if that fails, its error is the
  result and no rollback is sent. With a session, a transaction without an id is not rolled back by a
  request: the operation succeeds if none was begun yet and is refused for a single-use transaction.
  With an id, only requests to roll back this id in this session are sent, and one at least if the
  retry policy allows any. The selector is never changed.
\<close>

theorem rollback_requests:
  assumes "Connection_Rollback c txn W = Some (r, W')" "recording c" "txn < length (cw_txns W)"
    and "s = ti_selector (cw_txns W ! txn)"
    and "PrepareSession c False (ti_session (cw_txns W ! txn)) W = Some (p, W1)"
  shows "ti_selector (cw_txns W' ! txn) = s \<and>
    (case p of
       Inl status \<Rightarrow> r = status \<and> ti_session (cw_txns W' ! txn) = None \<and> cw_service W' = cw_service W1
     | Inr h \<Rightarrow> ti_session (cw_txns W' ! txn) = Some h \<and>
         (case s of
            SingleUse _ \<Rightarrow> r = rollback_single_use \<and> cw_service W' = cw_service W1
          | Begin _ \<Rightarrow> r = ok_status \<and> cw_service W' = cw_service W1
          | Id i \<Rightarrow> \<exists>n. cw_service W' = cw_service W1 @ replicate n (RollbackSent
              \<lparr>rr_session = session_name (the_session W1 h), rr_transaction_id = i\<rparr>) \<and> (can_call c \<longrightarrow> 0 < n))) \<and>
    (\<forall>h. ti_session (cw_txns W ! txn) = Some h \<longrightarrow> p = Inr h \<and> W1 = W)"
  by (rule Rollback_sends [OF assms])

text \<open>With a session, and without one where the pool cannot make one.\<close>

theorem rollback_requests_witness:
  "(\<exists>W'. Connection_Rollback demo_connection 0 (demo_world (Id ''t'')) = Some (ok_status, W') \<and>
     cw_service W' = [RollbackSent \<lparr>rr_session = ''s'', rr_transaction_id = ''t''\<rparr>,
       RollbackSent \<lparr>rr_session = ''s'', rr_transaction_id = ''t''\<rparr>] \<and>
     ti_selector (cw_txns W' ! 0) = Id ''t'') \<and>
   (\<exists>W'. Connection_Rollback demo_connection 0 exhausted_world = Some (pool_exhausted, W') \<and>
     cw_service W' = [] \<and> ti_session (cw_txns W' ! 0) = None)"
proof
  let ?W = "demo_world (Id ''t'')"
  obtain W' where r: "Connection_Rollback demo_connection 0 ?W = Some (ok_status, W')"
    and w: "cw_service W' = [RollbackSent \<lparr>rr_session = ''s'', rr_transaction_id = ''t''\<rparr>,
     RollbackSent \<lparr>rr_session = ''s'', rr_transaction_id = ''t''\<rparr>]"
    by (simp add: Connection_Rollback_def RollbackImpl_def Rollback_body_def demo_stubs demo_call [OF refl] demo_simps)
  have t: "0 < length (cw_txns ?W)" "ti_selector (cw_txns ?W ! 0) = Id ''t''"
    "PrepareSession demo_connection False (ti_session (cw_txns ?W ! 0)) ?W = Some (Inr 0, ?W)"
    by (simp_all add: demo_world_def TransactionImpl_def PrepareSession_def)
  from rollback_requests [OF r demo_recording t(1) refl t(3)] r w t(2)
  show "\<exists>W'. Connection_Rollback demo_connection 0 ?W = Some (ok_status, W') \<and>
     cw_service W' = [RollbackSent \<lparr>rr_session = ''s'', rr_transaction_id = ''t''\<rparr>,
       RollbackSent \<lparr>rr_session = ''s'', rr_transaction_id = ''t''\<rparr>] \<and>
     ti_selector (cw_txns W' ! 0) = Id ''t''" by auto
next
  let ?W = exhausted_world
  have t: "0 < length (cw_txns ?W)" "ti_session (cw_txns ?W ! 0) = None" "cw_service ?W = []"
    by (simp_all add: exhausted_world_def demo_world_def Transaction_ReadWrite_def TransactionImpl_def)
  have "ti_state (cw_txns ?W ! 0) = kBegin"
    by (simp add: exhausted_world_def Transaction_ReadWrite_def TransactionImpl_def after_visit_def)
  then obtain r W' where r: "Connection_Rollback demo_connection 0 ?W = Some (r, W')"
    using exhausted_no_session t(2)
    by (auto simp: Connection_Rollback_def RollbackImpl_def VisitTransaction_def Visit_def with_session_def Let_def)
  from rollback_requests [OF r demo_recording t(1) refl exhausted_no_session [folded t(2)]] r t(3)
  show "\<exists>W'. Connection_Rollback demo_connection 0 ?W = Some (pool_exhausted, W') \<and>
     cw_service W' = [] \<and> ti_session (cw_txns W' ! 0) = None" by auto
qed

text \<open>
  C14: A read or a query that is to begin its transaction either does, and then the transaction has
  the id, not empty, that the result's metadata carry; or it returns an error and the next visitor
  will try to begin the transaction again.
\<close>

theorem begun_or_error:
  assumes "Connection_Read c params W = Some (r, W') \<and> t = rp_transaction params \<or>
      Connection_Query c mode sparams W = Some (r, W') \<and> t = sqp_transaction sparams"
    and "t < length (cw_txns W)" "ti_selector (cw_txns W ! t) = Begin opts"
  shows "(\<exists>i. i \<noteq> [] \<and> ti_selector (cw_txns W' ! t) = Id i \<and> metadata_txn_id (result_Metadata r) = i) \<or>
    (\<exists>st. r = StatusOnly st) \<and> ti_selector (cw_txns W' ! t) = Begin opts"
  using assms(1)
proof (elim disjE conjE)
  assume "Connection_Read c params W = Some (r, W')" "t = rp_transaction params"
  then have v: "VisitTransaction (\<lambda>session s n. with_session c False StatusOnly (Read_body c params) session s) t W =
      Some (r, W')" by (simp add: Connection_Read_def ReadImpl_def)
  obtain session' s' W1 where w: "with_session c False StatusOnly (Read_body c params)
      (ti_session (cw_txns W ! t)) (Begin opts) W = Some (r, session', s', W1)"
    "ti_selector (cw_txns W' ! t) = s'"
    using read.Visit_run [OF v assms(2)] assms(3) by metis
  show ?thesis unfolding w(2) by (rule with_session_begin [OF w(1)]) (drule Read_body_begin, auto)
next
  assume "Connection_Query c mode sparams W = Some (r, W')" "t = sqp_transaction sparams"
  then have v: "VisitTransaction (\<lambda>session s n. with_session c False StatusOnly
      (CommonQuery_body c n sparams mode) session s) t W = Some (r, W')"
    by (simp add: Connection_Query_def CommonQueryImpl_def)
  obtain n session' s' W1 where w: "with_session c False StatusOnly (CommonQuery_body c n sparams mode)
      (ti_session (cw_txns W ! t)) (Begin opts) W = Some (r, session', s', W1)"
    "ti_selector (cw_txns W' ! t) = s'"
    using query.Visit_run [OF v assms(2)] assms(3) by metis
  show ?thesis unfolding w(2) by (rule with_session_begin [OF w(1)]) (drule CommonQuery_body_begin, auto)
qed

definition demo_query :: sql_params_in where
  "demo_query = \<lparr>sqp_transaction = 0, sqp_statement = \<lparr>sql = ''SELECT 1'', sql_params = []\<rparr>,
     sqp_query_options = \<lparr>optimizer_version = None\<rparr>, sqp_partition_token = None\<rparr>"

theorem begun_or_error_witness:
  "\<exists>r W'. Connection_Query demo_connection NORMAL demo_query (demo_world (Begin ReadWrite)) = Some (r, W') \<and>
     metadata_txn_id (result_Metadata r) = ''t2'' \<and> ti_selector (cw_txns W' ! 0) = Id ''t2''"
proof -
  let ?W = "demo_world (Begin ReadWrite)"
  obtain r W' where r: "Connection_Query demo_connection NORMAL demo_query ?W = Some (r, W')"
    "metadata_txn_id (result_Metadata r) = ''t2''"
    by (simp add: Connection_Query_def CommonQueryImpl_def CommonQuery_body_def ExecuteSqlImpl_def demo_query_def
        demo_simps open_stream_def stream_config_def Resume_Create_def stream_factory_def demo_connection_def
        Source_Create_def ReadFromStream_def resume_reader_def Resume_Read.simps any_reader_def Read_default
        grpc_script_def text_message_def store_metadata_def store_stats_def store_values_def begun_by_def
        metadata_txn_id_def)
  have "0 < length (cw_txns ?W)" "ti_selector (cw_txns ?W ! 0) = Begin ReadWrite"
    by (simp_all add: demo_world_def TransactionImpl_def)
  moreover have "\<forall>st. r \<noteq> StatusOnly st" using r(2) by (auto simp: metadata_txn_id_def)
  moreover have "0 = sqp_transaction demo_query" by (simp add: demo_query_def)
  ultimately show ?thesis
    using begun_or_error [of demo_connection _ ?W r W' 0 NORMAL demo_query ReadWrite] r by auto
qed

text \<open>Every operation of a connection that returns the error \<open>st\<close>, and the transaction it visits.\<close>

inductive failed_operation ::
    "('s, 'g, 'p, 'b, 'w, 'r) connection \<Rightarrow> nat \<Rightarrow> status \<Rightarrow> ('s, 'g, 'w) client_world \<Rightarrow> ('s, 'g, 'w) client_world \<Rightarrow> bool"
  for c where
  read: "rp_transaction params < length (cw_txns W) \<Longrightarrow> Connection_Read c params W = Some (StatusOnly st, W') \<Longrightarrow>
    failed_operation c (rp_transaction params) st W W'"
| partition_read: "rp_transaction params < length (cw_txns W) \<Longrightarrow>
    Connection_PartitionRead c params opts W = Some (Inl st, W') \<Longrightarrow>
    failed_operation c (rp_transaction params) st W W'"
| query: "sqp_transaction sp < length (cw_txns W) \<Longrightarrow> Connection_Query c mode sp W = Some (StatusOnly st, W') \<Longrightarrow>
    failed_operation c (sqp_transaction sp) st W W'"
| dml: "sqp_transaction sp < length (cw_txns W) \<Longrightarrow> Connection_Dml c mode sp W = Some (Inl st, W') \<Longrightarrow>
    failed_operation c (sqp_transaction sp) st W W'"
| analyze: "sqp_transaction sp < length (cw_txns W) \<Longrightarrow> Connection_AnalyzeSql c sp W = Some (Inl st, W') \<Longrightarrow>
    failed_operation c (sqp_transaction sp) st W W'"
| partition_query: "t < length (cw_txns W) \<Longrightarrow> Connection_PartitionQuery c t q opts W = Some (Inl st, W') \<Longrightarrow>
    failed_operation c t st W W'"
| batch_dml: "t < length (cw_txns W) \<Longrightarrow> Connection_ExecuteBatchDml c t sts W = Some (Inl st, W') \<Longrightarrow>
    failed_operation c t st W W'"
| partitioned_dml: "Connection_ExecutePartitionedDml c q W = Some (Inl st, W') \<Longrightarrow>
    failed_operation c (length (cw_txns W)) st W W'"
| commit: "t < length (cw_txns W) \<Longrightarrow> Connection_Commit c t ms W = Some (Inl st, W') \<Longrightarrow>
    failed_operation c t st W W'"
| rollback: "t < length (cw_txns W) \<Longrightarrow> Connection_Rollback c t W = Some (st, W') \<Longrightarrow>
    failed_operation c t st W W'"

text \<open>
  C19: A session that the service has lost is never used again: whichever operation of a connection
  returns the error that a session was not found (for a read or a query: before its first message),
  the session that its transaction then has, be it from before or taken by this operation, is marked
  bad; and a bad session is not returned to the pool. A session that was attached stays attached.
\<close>

theorem lost_session_marked:
  assumes "failed_operation c t st W W'" "IsSessionNotFound st"
    and "\<forall>h. t < length (cw_txns W) \<and> ti_session (cw_txns W ! t) = Some h \<longrightarrow> h < length (cw_sessions W)"
  shows "(\<forall>h. ti_session (cw_txns W' ! t) = Some h \<longrightarrow> is_bad (the_session W' h)) \<and>
    (t < length (cw_txns W) \<longrightarrow>
       (\<forall>h. ti_session (cw_txns W ! t) = Some h \<longrightarrow> ti_session (cw_txns W' ! t) = Some h))"
  using assms
proof (induction rule: failed_operation.induct)
  case (read params W st W')
  have "(\<forall>h. ti_session (cw_txns W' ! rp_transaction params) = Some h \<longrightarrow> is_bad (the_session W' h)) \<and>
      (\<forall>h. ti_session (cw_txns W ! rp_transaction params) = Some h \<longrightarrow> ti_session (cw_txns W' ! rp_transaction params) = Some h)"
    by (rule Visit_marks [OF read(2) [unfolded Connection_Read_def ReadImpl_def] read(1)])
      (use read(1,4) in blast, erule Read_body_effect, rule refl, erule (1) Read_body_marks [OF _ read(3)])
  then show ?case by blast
next
  case (partition_read params W opts st W')
  have "(\<forall>h. ti_session (cw_txns W' ! rp_transaction params) = Some h \<longrightarrow> is_bad (the_session W' h)) \<and>
      (\<forall>h. ti_session (cw_txns W ! rp_transaction params) = Some h \<longrightarrow> ti_session (cw_txns W' ! rp_transaction params) = Some h)"
    by (rule Visit_marks [OF partition_read(2) [unfolded Connection_PartitionRead_def PartitionReadImpl_def] partition_read(1)])
      (use partition_read(1,4) in blast, erule PartitionRead_body_effect, rule refl, erule (1) PartitionRead_body_marks [OF _ partition_read(3)])
  then show ?case by blast
next
  case (query sp W mode st W')
  have "(\<forall>h. ti_session (cw_txns W' ! sqp_transaction sp) = Some h \<longrightarrow> is_bad (the_session W' h)) \<and>
      (\<forall>h. ti_session (cw_txns W ! sqp_transaction sp) = Some h \<longrightarrow> ti_session (cw_txns W' ! sqp_transaction sp) = Some h)"
    by (rule Visit_marks [OF query(2) [unfolded Connection_Query_def CommonQueryImpl_def] query(1)])
      (use query(1,4) in blast, erule CommonQuery_body_effect, rule refl, erule (1) CommonQuery_body_marks [OF _ query(3)])
  then show ?case by blast
next
  case (dml sp W mode st W')
  have "(\<forall>h. ti_session (cw_txns W' ! sqp_transaction sp) = Some h \<longrightarrow> is_bad (the_session W' h)) \<and>
      (\<forall>h. ti_session (cw_txns W ! sqp_transaction sp) = Some h \<longrightarrow> ti_session (cw_txns W' ! sqp_transaction sp) = Some h)"
    by (rule Visit_marks [OF dml(2) [unfolded Connection_Dml_def CommonDmlImpl_def] dml(1)])
      (use dml(1,4) in blast, erule CommonDml_body_effect, rule refl, erule (1) CommonDml_body_marks [OF _ dml(3)])
  then show ?case by blast
next
  case (analyze sp W st W')
  let ?body = "\<lambda>n h s W. map_option (\<lambda>(r, s, W).
      (map_sum id (\<lambda>r. Option.bind (result_Stats r) query_plan) r, s, W)) (CommonDml_body c n sp PLAN h s W)"
  have eff: "?body n h s W = Some (r, s', W') \<Longrightarrow> functor_effect s W s' W'" for n h s W r s' W'
    by (auto dest: CommonDml_body_effect)
  have marks: "?body n h s W = Some (Inl st, s', W') \<Longrightarrow> h < length (cw_sessions W) \<Longrightarrow>
      is_bad (the_session W' h)" for n h s W s' W'
    using CommonDml_body_marks [OF _ analyze(3)] by (auto simp: map_sum_Inl)
  have "(\<forall>h. ti_session (cw_txns W' ! sqp_transaction sp) = Some h \<longrightarrow> is_bad (the_session W' h)) \<and>
      (\<forall>h. ti_session (cw_txns W ! sqp_transaction sp) = Some h \<longrightarrow>
        ti_session (cw_txns W' ! sqp_transaction sp) = Some h)"
    by (rule Visit_marks [OF analyze(2) [unfolded Connection_AnalyzeSql_def AnalyzeSqlImpl_with_session] analyze(1)])
      (use analyze(1,4) in blast, erule eff, rule refl, erule (1) marks)
  then show ?case by blast
next
  case (partition_query t W q opts st W')
  have "(\<forall>h. ti_session (cw_txns W' ! t) = Some h \<longrightarrow> is_bad (the_session W' h)) \<and>
      (\<forall>h. ti_session (cw_txns W ! t) = Some h \<longrightarrow> ti_session (cw_txns W' ! t) = Some h)"
    by (rule Visit_marks [OF partition_query(2) [unfolded Connection_PartitionQuery_def PartitionQueryImpl_def] partition_query(1)])
      (use partition_query(1,4) in blast, erule PartitionQuery_body_effect, rule refl, erule (1) PartitionQuery_body_marks [OF _ partition_query(3)])
  then show ?case by blast
next
  case (batch_dml t W sts st W')
  have "(\<forall>h. ti_session (cw_txns W' ! t) = Some h \<longrightarrow> is_bad (the_session W' h)) \<and>
      (\<forall>h. ti_session (cw_txns W ! t) = Some h \<longrightarrow> ti_session (cw_txns W' ! t) = Some h)"
    by (rule Visit_marks [OF batch_dml(2) [unfolded Connection_ExecuteBatchDml_def ExecuteBatchDmlImpl_def] batch_dml(1)])
      (use batch_dml(1,4) in blast, erule ExecuteBatchDml_body_effect, rule refl, erule (1) ExecuteBatchDml_body_marks [OF _ batch_dml(3)])
  then show ?case by blast
next
  case (partitioned_dml q W st W')
  let ?ti = "Transaction_ReadOnly ReadOnlyOptions_strong :: nat transaction_impl"
  let ?W = "W\<lparr>cw_txns := cw_txns W @ [?ti]\<rparr>" and ?t = "length (cw_txns W)"
  have v: "VisitTransaction (\<lambda>session s n. with_session c False Inl
      (ExecutePartitionedDml_body c n q) session s) ?t ?W = Some (Inl st, W')"
    using partitioned_dml(1)
    by (simp add: Connection_ExecutePartitionedDml_def MakeReadOnlyTransaction_def add_transaction_def
        ExecutePartitionedDmlImpl_def)
  have ti: "cw_txns ?W ! ?t = ?ti" "ti_session ?ti = None"
    "ti_selector ?ti = Begin (ReadOnly ReadOnlyOptions_strong)"
    by (simp_all add: Transaction_ReadOnly_def TransactionImpl_def)
  have "(\<forall>h. ti_session (cw_txns W' ! ?t) = Some h \<longrightarrow> is_bad (the_session W' h)) \<and>
      (\<forall>h. ti_session (cw_txns ?W ! ?t) = Some h \<longrightarrow> ti_session (cw_txns W' ! ?t) = Some h)"
  proof (rule Visit_marks [OF v])
    show "ti_selector (cw_txns ?W ! ?t) = Begin (ReadOnly ReadOnlyOptions_strong)" using ti by simp
    show "functor_effect (Begin (ReadOnly ReadOnlyOptions_strong)) W s' W'"
      if "ExecutePartitionedDml_body c n q h (Begin (ReadOnly ReadOnlyOptions_strong)) W = Some (r, s', W')"
      for n h W r s' W'
      using ExecutePartitionedDml_body_effect [OF that] by simp
    show "is_bad (the_session W' h)"
      if "ExecutePartitionedDml_body c n q h s W = Some (Inl st, s', W')" "h < length (cw_sessions W)"
      for n h s W s' W'
      by (rule ExecutePartitionedDml_body_marks [OF that(1) partitioned_dml(2) that(2)])
  qed (use ti in auto)
  then show ?case by simp
next
  case (commit t W ms st W')
  have "(\<forall>h. ti_session (cw_txns W' ! t) = Some h \<longrightarrow> is_bad (the_session W' h)) \<and>
      (\<forall>h. ti_session (cw_txns W ! t) = Some h \<longrightarrow> ti_session (cw_txns W' ! t) = Some h)"
    by (rule Visit_marks [OF commit(2) [unfolded Connection_Commit_def CommitImpl_def] commit(1)])
      (use commit(1,4) in blast, erule Commit_body_effect, rule refl, erule (1) Commit_body_marks [OF _ commit(3)])
  then show ?case by blast
next
  case (rollback t W st W')
  have "(\<forall>h. ti_session (cw_txns W' ! t) = Some h \<longrightarrow> is_bad (the_session W' h)) \<and>
      (\<forall>h. ti_session (cw_txns W ! t) = Some h \<longrightarrow> ti_session (cw_txns W' ! t) = Some h)"
    by (rule Visit_marks [OF rollback(2) [unfolded Connection_Rollback_def RollbackImpl_def] rollback(1)])
      (use rollback(1,4) in blast, erule Rollback_body_effect, rule refl, erule (1) Rollback_body_marks [OF _ rollback(3)])
  then show ?case by blast
qed

definition forgetful_connection :: "(string, unit, nat, int, unary_request list, grpc_stream) connection" where
  "forgetful_connection = demo_connection\<lparr>cn_stub := (cn_stub demo_connection)\<lparr>
     stub_Rollback := (\<lambda>stub req w. (Inl (Status kNotFound ''Session not found''), w))\<rparr>\<rparr>"

theorem lost_session_marked_witness:
  "\<exists>st W'. Connection_Rollback forgetful_connection 0 (demo_world (Id ''t'')) = Some (st, W') \<and>
     code st = kNotFound \<and> is_bad (the_session W' 0) \<and> \<not> is_bad (the_session (demo_world (Id ''t'')) 0)"
proof -
  let ?W = "demo_world (Id ''t'')"
  obtain st W' where r: "Connection_Rollback forgetful_connection 0 ?W = Some (st, W')" "IsSessionNotFound st"
    by (simp add: Connection_Rollback_def RollbackImpl_def Rollback_body_def forgetful_connection_def call_rpc_def
        RetryLoop_def RetryLoop_while.simps RetryLoopError_def demo_connection_def recording_env_def
        limited_error_count_def SafeGrpcRetry_IsPermanentFailure_def SafeGrpcRetry_IsTransientFailure_def
        IsSessionNotFound_def demo_simps)
  have W: "0 < length (cw_txns ?W)" "ti_session (cw_txns ?W ! 0) = Some 0" "0 < length (cw_sessions ?W)"
    "\<not> is_bad (the_session ?W 0)"
    by (simp_all add: demo_world_def TransactionImpl_def the_session_def MakeDissociatedSessionHolder_def)
  have "is_bad (the_session W' 0)"
    using lost_session_marked [OF failed_operation.rollback [OF W(1) r(1)] r(2)] W by auto
  with r W(4) show ?thesis by (auto simp: IsSessionNotFound_def)
qed

end
