(* ===== verification/Client.thy ===== *)
theory Client
  imports Connection_Operations
begin

text \<open>
  \<open>client.cc\<close>, \<open>client.h\<close> and \<open>client_options.h\<close>: the operations of a \<open>Client\<close>, which make or take a
  transaction and overlay the query options, and the loop of \<open>Client::Commit\<close>, which runs a mutator
  again after transient failures. Also \<open>MakeConnection\<close>.
\<close>

section \<open>The client\<close>

text \<open>
  A connection, the options and the value of \<open>SPANNER_OPTIMIZER_VERSION\<close> in the environment, which is
  read once.
\<close>

record ('s, 'g, 'p, 'b, 'w, 'r) client =
  cl_conn :: "('s, 'g, 'p, 'b, 'w, 'r) connection"
  cl_opts :: query_options
  cl_env :: "string option"

definition OverlayQueryOptions ::
    "('s, 'g, 'p, 'b, 'w, 'r) client \<Rightarrow> query_options \<Rightarrow> query_options" where
  "OverlayQueryOptions cl preferred =
     (let fallback = cl_opts cl in
      if optimizer_version preferred \<noteq> None then \<lparr>optimizer_version = optimizer_version preferred\<rparr>
      else if optimizer_version fallback \<noteq> None then \<lparr>optimizer_version = optimizer_version fallback\<rparr>
      else if cl_env cl \<noteq> None then \<lparr>optimizer_version = cl_env cl\<rparr>
      else \<lparr>optimizer_version = None\<rparr>)"

section \<open>Reads and queries\<close>

definition read_params_for ::
    "nat \<Rightarrow> string \<Rightarrow> key_set \<Rightarrow> string list \<Rightarrow> read_options \<Rightarrow> read_params" where
  "read_params_for txn table keys columns opts =
     \<lparr>rp_transaction = txn, rp_table = table, rp_keys = keys, rp_columns = columns, rp_read_options = opts,
      rp_partition_token = None\<rparr>"

definition sql_params_for :: "nat \<Rightarrow> sql_statement \<Rightarrow> query_options \<Rightarrow> sql_params_in" where
  "sql_params_for txn st opts =
     \<lparr>sqp_transaction = txn, sqp_statement = st, sqp_query_options = opts, sqp_partition_token = None\<rparr>"

definition Client_Read_txn ::
    "('s, 'g, 'p, 'b, 'w, 'r) client \<Rightarrow> nat \<Rightarrow> string \<Rightarrow> key_set \<Rightarrow> string list \<Rightarrow> read_options \<Rightarrow>
     ('s, 'g, 'w) client_world \<Rightarrow> (('r, 'p, 'b, 'w) result_source \<times> ('s, 'g, 'w) client_world) option" where
  "Client_Read_txn cl txn table keys columns opts W =
     Connection_Read (cl_conn cl) (read_params_for txn table keys columns opts) W"

definition Client_Read_single ::
    "('s, 'g, 'p, 'b, 'w, 'r) client \<Rightarrow> read_only_opts \<Rightarrow> string \<Rightarrow> key_set \<Rightarrow> string list \<Rightarrow> read_options \<Rightarrow>
     ('s, 'g, 'w) client_world \<Rightarrow> (('r, 'p, 'b, 'w) result_source \<times> ('s, 'g, 'w) client_world) option" where
  "Client_Read_single cl topts table keys columns opts W =
     (let (txn, W) = MakeSingleUseTransaction topts W
      in Connection_Read (cl_conn cl) (read_params_for txn table keys columns opts) W)"

definition Client_Read where
  "Client_Read cl table keys columns opts W =
     (let (txn, W) = MakeSingleUseTransaction (SingleUseOptions_ro ReadOnlyOptions_strong) W
      in Connection_Read (cl_conn cl) (read_params_for txn table keys columns opts) W)"

definition Client_Read_partition ::
    "('s, 'g, 'p, 'b, 'w, 'r) client \<Rightarrow> int \<Rightarrow> read_request \<Rightarrow>
     ('s, 'g, 'w) client_world \<Rightarrow> (('r, 'p, 'b, 'w) result_source \<times> ('s, 'g, 'w) client_world) option" where
  "Client_Read_partition cl now part W =
     (let (params, W) = MakeReadParams now part W in Connection_Read (cl_conn cl) params W)"

definition Client_PartitionRead where
  "Client_PartitionRead cl txn table keys columns opts popts W =
     Connection_PartitionRead (cl_conn cl) (read_params_for txn table keys columns opts) popts W"

definition Client_ExecuteQuery_txn ::
    "('s, 'g, 'p, 'b, 'w, 'r) client \<Rightarrow> nat \<Rightarrow> sql_statement \<Rightarrow> query_options \<Rightarrow>
     ('s, 'g, 'w) client_world \<Rightarrow> (('r, 'p, 'b, 'w) result_source \<times> ('s, 'g, 'w) client_world) option" where
  "Client_ExecuteQuery_txn cl txn st opts W =
     Connection_ExecuteQuery (cl_conn cl) (sql_params_for txn st (OverlayQueryOptions cl opts)) W"

definition Client_ExecuteQuery_single ::
    "('s, 'g, 'p, 'b, 'w, 'r) client \<Rightarrow> read_only_opts \<Rightarrow> sql_statement \<Rightarrow> query_options \<Rightarrow>
     ('s, 'g, 'w) client_world \<Rightarrow> (('r, 'p, 'b, 'w) result_source \<times> ('s, 'g, 'w) client_world) option" where
  "Client_ExecuteQuery_single cl topts st opts W =
     (let (txn, W) = MakeSingleUseTransaction topts W
      in Connection_ExecuteQuery (cl_conn cl) (sql_params_for txn st (OverlayQueryOptions cl opts)) W)"

definition Client_ExecuteQuery where
  "Client_ExecuteQuery cl st opts W =
     (let (txn, W) = MakeSingleUseTransaction (SingleUseOptions_ro ReadOnlyOptions_strong) W
      in Connection_ExecuteQuery (cl_conn cl) (sql_params_for txn st (OverlayQueryOptions cl opts)) W)"

definition Client_ExecuteQuery_partition ::
    "('s, 'g, 'p, 'b, 'w, 'r) client \<Rightarrow> int \<Rightarrow> query_partition \<Rightarrow> query_options \<Rightarrow>
     ('s, 'g, 'w) client_world \<Rightarrow> (('r, 'p, 'b, 'w) result_source \<times> ('s, 'g, 'w) client_world) option" where
  "Client_ExecuteQuery_partition cl now part opts W =
     (let (params, W) = MakeSqlParams now part W;
          params = params\<lparr>sqp_query_options := OverlayQueryOptions cl opts\<rparr>
      in Connection_ExecuteQuery (cl_conn cl) params W)"

definition Client_ProfileQuery_txn ::
    "('s, 'g, 'p, 'b, 'w, 'r) client \<Rightarrow> nat \<Rightarrow> sql_statement \<Rightarrow> query_options \<Rightarrow>
     ('s, 'g, 'w) client_world \<Rightarrow> (('r, 'p, 'b, 'w) result_source \<times> ('s, 'g, 'w) client_world) option" where
  "Client_ProfileQuery_txn cl txn st opts W =
     Connection_ProfileQuery (cl_conn cl) (sql_params_for txn st (OverlayQueryOptions cl opts)) W"

definition Client_ProfileQuery_single ::
    "('s, 'g, 'p, 'b, 'w, 'r) client \<Rightarrow> read_only_opts \<Rightarrow> sql_statement \<Rightarrow> query_options \<Rightarrow>
     ('s, 'g, 'w) client_world \<Rightarrow> (('r, 'p, 'b, 'w) result_source \<times> ('s, 'g, 'w) client_world) option" where
  "Client_ProfileQuery_single cl topts st opts W =
     (let (txn, W) = MakeSingleUseTransaction topts W
      in Connection_ProfileQuery (cl_conn cl) (sql_params_for txn st (OverlayQueryOptions cl opts)) W)"

definition Client_ProfileQuery where
  "Client_ProfileQuery cl st opts W =
     (let (txn, W) = MakeSingleUseTransaction (SingleUseOptions_ro ReadOnlyOptions_strong) W
      in Connection_ProfileQuery (cl_conn cl) (sql_params_for txn st (OverlayQueryOptions cl opts)) W)"

definition Client_PartitionQuery where
  "Client_PartitionQuery cl txn st popts W = Connection_PartitionQuery (cl_conn cl) txn st popts W"

section \<open>DML\<close>

definition Client_ExecuteDml where
  "Client_ExecuteDml cl txn st opts W =
     Connection_ExecuteDml (cl_conn cl) (sql_params_for txn st (OverlayQueryOptions cl opts)) W"

definition Client_ProfileDml where
  "Client_ProfileDml cl txn st opts W =
     Connection_ProfileDml (cl_conn cl) (sql_params_for txn st (OverlayQueryOptions cl opts)) W"

definition Client_AnalyzeSql where
  "Client_AnalyzeSql cl txn st opts W =
     Connection_AnalyzeSql (cl_conn cl) (sql_params_for txn st (OverlayQueryOptions cl opts)) W"

definition Client_ExecuteBatchDml where
  "Client_ExecuteBatchDml cl txn statements W = Connection_ExecuteBatchDml (cl_conn cl) txn statements W"

definition Client_ExecutePartitionedDml where
  "Client_ExecutePartitionedDml cl st W = Connection_ExecutePartitionedDml (cl_conn cl) st W"

section \<open>Committing\<close>

definition Client_Commit_txn ::
    "('s, 'g, 'p, 'b, 'w, 'r) client \<Rightarrow> nat \<Rightarrow> mutation list \<Rightarrow> ('s, 'g, 'w) client_world \<Rightarrow>
     (timestamp option status_or \<times> ('s, 'g, 'w) client_world) option" where
  "Client_Commit_txn cl txn mutations W = Connection_Commit (cl_conn cl) txn mutations W"

definition Client_Rollback ::
    "('s, 'g, 'p, 'b, 'w, 'r) client \<Rightarrow> nat \<Rightarrow> ('s, 'g, 'w) client_world \<Rightarrow>
     (status \<times> ('s, 'g, 'w) client_world) option" where
  "Client_Rollback cl txn W = Connection_Rollback (cl_conn cl) txn W"

text \<open>
  A mutator returns mutations or an error, throws a \<open>RuntimeStatusError\<close> or throws something else; it
  may use the transaction, and \<open>None\<close> is a mutator that does not return.
\<close>

datatype mutator_result = Returns "mutation list status_or" | ThrowsStatus status | ThrowsOther

type_synonym ('s, 'g, 'w) mutator =
  "nat \<Rightarrow> ('s, 'g, 'w) client_world \<Rightarrow> (mutator_result \<times> ('s, 'g, 'w) client_world) option"

text \<open>What the \<open>catch\<close> of a \<open>RuntimeStatusError\<close> makes of it.\<close>

definition thrown_status :: "status \<Rightarrow> status" where
  "thrown_status status =
     (if status_ok status then Status kUnknown ''OK Status thrown from mutator'' else status)"

text \<open>
  The body of the loop: it returns, throws the mutator's exception again, or goes on with the
  transient failure. A failure of the rollback is only logged.
\<close>

datatype attempt = Finished "timestamp option status_or" | Rethrown | Again status

definition commit_mutations ::
    "('s, 'g, 'p, 'b, 'w, 'r) client \<Rightarrow> nat \<Rightarrow> mutation list status_or \<Rightarrow> ('s, 'g, 'w) client_world \<Rightarrow>
     (attempt \<times> ('s, 'g, 'w) client_world) option" where
  "commit_mutations cl txn mutations W =
     (case mutations of
        Inr ms \<Rightarrow>
          map_option
            (\<lambda>(result, W). (if SafeTransactionRerun_IsTransientFailure (result_status result)
               then Again (result_status result) else Finished result, W))
            (Client_Commit_txn cl txn ms W)
      | Inl status \<Rightarrow>
          if SafeTransactionRerun_IsTransientFailure status then Some (Again status, W)
          else map_option (\<lambda>(rb_status, W). (Finished (Inl status), W)) (Client_Rollback cl txn W))"

definition Commit_attempt ::
    "('s, 'g, 'p, 'b, 'w, 'r) client \<Rightarrow> ('s, 'g, 'w) mutator \<Rightarrow> nat \<Rightarrow> ('s, 'g, 'w) client_world \<Rightarrow>
     (attempt \<times> ('s, 'g, 'w) client_world) option" where
  "Commit_attempt cl mutator txn W =
     (case mutator txn W of
        None \<Rightarrow> None
      | Some (Returns mutations, W) \<Rightarrow> commit_mutations cl txn mutations W
      | Some (ThrowsStatus status, W) \<Rightarrow> commit_mutations cl txn (Inl (thrown_status status)) W
      | Some (ThrowsOther, W) \<Rightarrow> map_option (\<lambda>(rb_status, W). (Rethrown, W)) (Client_Rollback cl txn W))"

text \<open>The transaction of the next attempt.\<close>

definition mark_session_bad ::
    "nat option \<Rightarrow> selector \<Rightarrow> int \<Rightarrow> ('s, 'g, 'w) client_world \<Rightarrow>
     (bool \<times> nat option \<times> selector \<times> ('s, 'g, 'w) client_world) option" where
  "mark_session_bad session s seqno W =
     Some (True, session, s, case session of None \<Rightarrow> W | Some h \<Rightarrow> set_bad h W)"

definition next_transaction ::
    "nat \<Rightarrow> status \<Rightarrow> ('s, 'g, 'w) client_world \<Rightarrow> (nat \<times> ('s, 'g, 'w) client_world) option" where
  "next_transaction txn status W =
     (if IsSessionNotFound status then
        map_option (\<lambda>(_, W). MakeReadWriteTransaction W) (VisitTransaction mark_session_bad txn W)
      else Some (MakeReadWriteTransaction_rerun txn W))"

text \<open>
  The loop. The rerun policy, the backoff policy and \<open>sleep_for\<close> are those of \<open>env\<close>; the result is
  \<open>None\<close> where the exception of the mutator leaves the function.
\<close>

partial_function (option) Commit_loop ::
    "('q, 'd, 'w) retry_env \<Rightarrow> ('s, 'g, 'p, 'b, 'w, 'r) client \<Rightarrow> ('s, 'g, 'w) mutator \<Rightarrow> 'q \<Rightarrow> 'd \<Rightarrow> nat \<Rightarrow>
     ('s, 'g, 'w) client_world \<Rightarrow>
     (timestamp option status_or option \<times> ('s, 'g, 'w) client_world) option" where
  "Commit_loop env cl mutator rerun_policy backoff txn W =
     (case Commit_attempt cl mutator txn W of
        None \<Rightarrow> None
      | Some (Finished result, W) \<Rightarrow> Some (Some result, W)
      | Some (Rethrown, W) \<Rightarrow> Some (None, W)
      | Some (Again status, W) \<Rightarrow>
          let (continue, rerun_policy) = OnFailure (re_policy env) status rerun_policy
          in if \<not> continue then Some (Some (Inl status), W)
             else case next_transaction txn status W of
                    None \<Rightarrow> None
                  | Some (txn, W) \<Rightarrow>
                      let (delay, backoff) = re_backoff env backoff
                      in Commit_loop env cl mutator rerun_policy backoff txn
                           (W\<lparr>cw_service := re_sleeper env delay (cw_service W)\<rparr>))"

definition Client_Commit_mutator ::
    "('q, 'd, 'w) retry_env \<Rightarrow> ('s, 'g, 'p, 'b, 'w, 'r) client \<Rightarrow> ('s, 'g, 'w) mutator \<Rightarrow> 'q \<Rightarrow> 'd \<Rightarrow>
     ('s, 'g, 'w) client_world \<Rightarrow>
     (timestamp option status_or option \<times> ('s, 'g, 'w) client_world) option" where
  "Client_Commit_mutator env cl mutator rerun_policy backoff W =
     (let (txn, W) = MakeReadWriteTransaction W
      in Commit_loop env cl mutator rerun_policy backoff txn W)"

text \<open>
  The default policies, a rerun policy that is limited in time and an exponential backoff, are made
  by the library: by \<open>limited_time\<close> from the duration and by \<open>exponential\<close> from the initial delay, the
  maximal delay, both in milliseconds, and the scaling.
\<close>

definition Client_Commit_default ::
    "('q, 'd, 'w) retry_env \<Rightarrow> (int \<Rightarrow> 'q) \<Rightarrow> (int \<Rightarrow> int \<Rightarrow> int \<Rightarrow> 'd) \<Rightarrow>
     ('s, 'g, 'p, 'b, 'w, 'r) client \<Rightarrow> ('s, 'g, 'w) mutator \<Rightarrow> ('s, 'g, 'w) client_world \<Rightarrow>
     (timestamp option status_or option \<times> ('s, 'g, 'w) client_world) option" where
  "Client_Commit_default env limited_time exponential cl mutator W =
     (let rerun_maximum_duration = 10 * 60 * 1000;
          backoff_initial_delay = 100;
          backoff_maximum_delay = 5 * 60 * 1000;
          backoff_scaling = 2
      in Client_Commit_mutator env cl mutator (limited_time rerun_maximum_duration)
           (exponential backoff_initial_delay backoff_maximum_delay backoff_scaling) W)"

definition Client_Commit where
  "Client_Commit env limited_time exponential cl mutations W =
     Client_Commit_default env limited_time exponential cl (\<lambda>txn W. Some (Returns (Inr mutations), W)) W"

section \<open>Making a connection\<close>

text \<open>
  \<open>ConnectionImpl\<close>'s constructor makes the session pool; the policies are those of \<open>env\<close>. The error is
  the exception of the pool's constructor.
\<close>

definition ConnectionImpl ::
    "('s, 'g, 'p, 'b, 'w) pool_env \<Rightarrow> ('s, 'w, 'r) spanner_stub \<Rightarrow> string \<Rightarrow> 's list \<Rightarrow> bool \<Rightarrow>
     session_pool_options \<Rightarrow> (nat \<Rightarrow> int) \<Rightarrow> 'g \<Rightarrow> (nat \<Rightarrow> 'w) \<Rightarrow> 'w \<Rightarrow>
     (string + (('s, 'g, 'p, 'b, 'w, 'r) connection \<times> ('s, 'g, 'w) client_world)) option" where
  "ConnectionImpl env rpcs db stubs tracing opts clock gen streams w =
     (case MakeSessionPool env db stubs opts clock gen w of
        None \<Rightarrow> None
      | Some (Inl msg) \<Rightarrow> Some (Inl msg)
      | Some (Inr (pool, w)) \<Rightarrow>
          Some (Inr (\<lparr>cn_pool_env = env, cn_tracing = tracing, cn_stub = rpcs\<rparr>,
            \<lparr>cw_pool = pool, cw_sessions = [], cw_txns = [], cw_streams = streams, cw_opened = 0,
             cw_service = w\<rparr>)))"

text \<open>One stub for each channel, at least one.\<close>

definition MakeConnection where
  "MakeConnection env rpcs create_stub db num_channels tracing opts clock gen streams w =
     (let num_channels = max (num_channels :: int) 1;
          stubs = map create_stub [0..<nat num_channels]
      in ConnectionImpl env rpcs (Database_FullName db) stubs tracing opts clock gen streams w)"

section \<open>Runs of the commit loop\<close>

text \<open>The attempts that failed and were followed by another: their transactions and their failures.\<close>

inductive commit_run ::
    "('q, 'd, 'w) retry_env \<Rightarrow> ('s, 'g, 'p, 'b, 'w, 'r) client \<Rightarrow> ('s, 'g, 'w) mutator \<Rightarrow> 'q \<Rightarrow> 'd \<Rightarrow> nat \<Rightarrow>
     ('s, 'g, 'w) client_world \<Rightarrow> (nat \<times> status) list \<Rightarrow> 'q \<Rightarrow> 'd \<Rightarrow> nat \<Rightarrow> ('s, 'g, 'w) client_world \<Rightarrow> bool"
  for env cl mutator where
  start: "commit_run env cl mutator q d txn W [] q d txn W"
| again: "Commit_attempt cl mutator txn W = Some (Again st, W1) \<Longrightarrow>
    OnFailure (re_policy env) st q = (True, q1) \<Longrightarrow> next_transaction txn st W1 = Some (txn1, W2) \<Longrightarrow>
    re_backoff env d = (delay, d1) \<Longrightarrow>
    commit_run env cl mutator q1 d1 txn1 (W2\<lparr>cw_service := re_sleeper env delay (cw_service W2)\<rparr>)
      runs q' d' txn' W' \<Longrightarrow>
    commit_run env cl mutator q d txn W ((txn, st) # runs) q' d' txn' W'"

fun attempt_result :: "attempt \<Rightarrow> timestamp option status_or option" where
  "attempt_result (Finished result) = Some result"
| "attempt_result Rethrown = None"
| "attempt_result (Again status) = Some (Inl status)"

text \<open>A mutator is a client: what it does are operations of the connection.\<close>

definition mutator_ok ::
    "('s, 'g, 'p, 'b, 'w, 'r) connection \<Rightarrow> ('s, 'g, 'w) mutator \<Rightarrow> bool" where
  "mutator_ok c mutator \<longleftrightarrow> (\<forall>txn W m W'. txn < length (cw_txns W) \<longrightarrow> mutator txn W = Some (m, W') \<longrightarrow>
     (connection_step c)\<^sup>*\<^sup>* W W')"

lemma world_le_length: "world_le W W' \<Longrightarrow> length (cw_txns W) \<le> length (cw_txns W')"
  by (simp add: world_le_def)

lemma world_le_txn: "world_le W W' \<Longrightarrow> t < length (cw_txns W) \<Longrightarrow> t < length (cw_txns W')"
  by (simp add: world_le_def)

lemma commit_mutations_ok:
  assumes "commit_mutations cl txn mutations W = Some (a, W')" "world_ok W" "txn < length (cw_txns W)"
  shows "world_ok W' \<and> world_le W W'"
proof (cases mutations)
  case (Inl st)
  show ?thesis
  proof (cases "SafeTransactionRerun_IsTransientFailure st")
    case False
    then obtain r where "Connection_Rollback (cl_conn cl) txn W = Some (r, W')"
      using assms(1) Inl by (auto simp: commit_mutations_def Client_Rollback_def)
    then show ?thesis using connection_step_ok [OF connection_step.rollback] assms by blast
  qed (use assms Inl in \<open>auto simp: commit_mutations_def\<close>)
next
  case (Inr ms)
  then obtain r where "Connection_Commit (cl_conn cl) txn ms W = Some (r, W')"
    using assms(1) by (auto simp: commit_mutations_def Client_Commit_txn_def split: if_splits)
  then show ?thesis using connection_step_ok [OF connection_step.commit] assms by blast
qed

lemma Commit_attempt_ok:
  assumes "Commit_attempt cl mutator txn W = Some (a, W')" "world_ok W" "txn < length (cw_txns W)"
    and "mutator_ok (cl_conn cl) mutator"
  shows "world_ok W' \<and> world_le W W'"
proof -
  obtain m W1 where m: "mutator txn W = Some (m, W1)"
    using assms(1) by (auto simp: Commit_attempt_def split: option.splits)
  have "(connection_step (cl_conn cl))\<^sup>*\<^sup>* W W1" using assms(3,4) m unfolding mutator_ok_def by blast
  from connection_steps_ok [OF this assms(2)] have W1: "world_ok W1" "world_le W W1" by simp_all
  then have t: "txn < length (cw_txns W1)" using assms(3) world_le_txn by blast
  have "world_ok W' \<and> world_le W1 W'"
  proof (cases m)
    case ThrowsOther
    then obtain r where "Connection_Rollback (cl_conn cl) txn W1 = Some (r, W')"
      using assms(1) m by (auto simp: Commit_attempt_def Client_Rollback_def)
    then show ?thesis using connection_step_ok [OF connection_step.rollback] W1 t by blast
  qed (use assms(1) m commit_mutations_ok [OF _ W1(1) t] in \<open>auto simp: Commit_attempt_def\<close>)
  with W1 world_le_trans show ?thesis by blast
qed

lemma mutations_again:
  "commit_mutations cl txn mutations W = Some (Again st, W') \<Longrightarrow> SafeTransactionRerun_IsTransientFailure st"
  by (cases mutations) (auto simp: commit_mutations_def split: if_splits)

lemma attempt_again:
  "Commit_attempt cl mutator txn W = Some (Again st, W') \<Longrightarrow> SafeTransactionRerun_IsTransientFailure st"
  by (auto simp: Commit_attempt_def split: option.splits mutator_result.splits dest: mutations_again)

text \<open>The next transaction exists, is a new one and starts without an id.\<close>

lemma next_transaction_ok:
  assumes "world_ok W" "txn < length (cw_txns W)"
  shows "\<exists>W'. next_transaction txn st W = Some (length (cw_txns W), W') \<and> world_ok W' \<and> world_le W W' \<and>
    length (cw_txns W') = length (cw_txns W) + 1"
proof (cases "IsSessionNotFound st")
  case True
  let ?ti = "cw_txns W ! txn"
  have st: "ti_state ?ti \<noteq> kPending"
    using assms by (auto simp: world_ok_def txn_ok_def after_visit_def split: if_splits)
  then obtain W1 where v: "VisitTransaction mark_session_bad txn W = Some (True, W1)"
    by (cases "ti_state ?ti") (auto simp: VisitTransaction_def Visit_def mark_session_bad_def Let_def)
  have W1: "world_ok W1 \<and> world_le W W1 \<and> ti_seqno (cw_txns W1 ! txn) = ti_seqno ?ti + 1"
    by (rule VisitTransaction_ok [OF v assms])
      (auto simp: mark_session_bad_def functor_effect_same visit_result_def set_bad_def split: option.splits)
  have len: "length (cw_txns W1) = length (cw_txns W)"
    using v by (auto simp: VisitTransaction_def Visit_def mark_session_bad_def Let_def set_bad_def
        split: option.splits txn_state.splits)
  obtain W' where W': "MakeReadWriteTransaction W1 = (length (cw_txns W), W')"
    "length (cw_txns W') = length (cw_txns W) + 1"
    by (auto simp: MakeReadWriteTransaction_def add_transaction_def len)
  then have "connection_step undefined W1 W'" by (blast intro: connection_step.read_write)
  from connection_step_ok [OF this] W1 world_le_trans have "world_ok W' \<and> world_le W W'" by blast
  with W' True v show ?thesis by (simp add: next_transaction_def)
next
  case False
  obtain W' where W': "MakeReadWriteTransaction_rerun txn W = (length (cw_txns W), W')"
    "length (cw_txns W') = length (cw_txns W) + 1"
    by (auto simp: MakeReadWriteTransaction_rerun_def add_transaction_def)
  then have "connection_step undefined W W'" using assms(2) by (blast intro: connection_step.rerun)
  from connection_step_ok [OF this assms(1)] W' False show ?thesis by (simp add: next_transaction_def)
qed

lemma world_ok_service [simp]:
  "world_ok (W\<lparr>cw_service := w\<rparr>) = world_ok W" "world_le W' (W\<lparr>cw_service := w\<rparr>) = world_le W' W"
  by (simp_all add: world_ok_def world_le_def)

text \<open>Every attempt has a transaction of its own.\<close>

lemma commit_run_distinct:
  assumes "commit_run env cl mutator q d txn W runs q' d' txn' W'"
    and "world_ok W" "txn < length (cw_txns W)" "mutator_ok (cl_conn cl) mutator"
  shows "sorted_wrt (<) (map fst runs @ [txn']) \<and> (\<forall>t \<in> set (map fst runs @ [txn']). txn \<le> t)"
  using assms
proof (induction rule: commit_run.induct)
  case (again txn W st W1 q q1 txn1 W2 d delay d1 runs q' d' txn' W')
  have W1: "world_ok W1" "world_le W W1" using Commit_attempt_ok again by blast+
  then have t1: "txn < length (cw_txns W1)" using again.prems world_le_txn by blast
  from next_transaction_ok [OF W1(1) this, of st] again.hyps(3)
  have n: "txn1 = length (cw_txns W1)" "world_ok W2" "txn1 < length (cw_txns W2)" by auto
  with again.IH again.prems(3) have ih: "sorted_wrt (<) (map fst runs @ [txn'])"
    "\<forall>t \<in> set (map fst runs @ [txn']). txn1 \<le> t" by auto
  have less: "txn < txn1" using n t1 by simp
  have "txn < t" if "t \<in> set (map fst runs @ [txn'])" for t
    using ih(2) that less less_le_trans by blast
  then show ?case using ih(1) by (auto intro: less_imp_le)
qed simp

lemma commit_run_failures:
  assumes "commit_run env cl mutator q d txn W runs q' d' txn' W'"
  shows "\<forall>(t, st) \<in> set runs. SafeTransactionRerun_IsTransientFailure st"
  using assms by (induction rule: commit_run.induct) (auto dest: attempt_again)

context retry_policy
begin

lemma Commit_loop_outcome:
  assumes "re_policy env = pol" "mutator_ok (cl_conn cl) mutator"
    and "\<not> IsExhausted pol q" "world_ok W" "txn < length (cw_txns W)"
  shows "\<exists>runs q' d' txn' W'. commit_run env cl mutator q d txn W runs q' d' txn' W' \<and>
    length runs < budget q \<and> \<not> IsExhausted pol q' \<and>
    Commit_loop env cl mutator q d txn W =
      map_option (\<lambda>(a, W). (attempt_result a, W)) (Commit_attempt cl mutator txn' W') \<and>
    (\<forall>st W''. Commit_attempt cl mutator txn' W' = Some (Again st, W'') \<longrightarrow> \<not> fst (OnFailure pol st q'))"
  using assms(3-)
proof (induction "budget q" arbitrary: q d txn W rule: less_induct)
  case less
  have bud: "0 < budget q" using less.prems(1) exhausted by auto
  have stop: ?case if "Commit_loop env cl mutator q d txn W =
      map_option (\<lambda>(a, W). (attempt_result a, W)) (Commit_attempt cl mutator txn W)"
    "\<forall>st W''. Commit_attempt cl mutator txn W = Some (Again st, W'') \<longrightarrow> \<not> fst (OnFailure pol st q)"
    using that bud less.prems(1) commit_run.start
    by (intro exI [of _ "[]"] exI [of _ q] exI [of _ d] exI [of _ txn] exI [of _ W]) simp
  show ?case
  proof (cases "\<exists>st W1. Commit_attempt cl mutator txn W = Some (Again st, W1) \<and> fst (OnFailure pol st q)")
    case False
    show ?thesis
    proof (rule stop)
      show "Commit_loop env cl mutator q d txn W =
          map_option (\<lambda>(a, W). (attempt_result a, W)) (Commit_attempt cl mutator txn W)"
        using False assms(1)
        by (subst Commit_loop.simps) (auto split: option.splits attempt.splits prod.splits)
    qed (use False in blast)
  next
    case True
    then obtain st W1 q1 where a: "Commit_attempt cl mutator txn W = Some (Again st, W1)"
      and o: "OnFailure pol st q = (True, q1)" by (metis prod.collapse)
    note q1 = OnFailure_True [OF o less.prems(1)]
    have W1: "world_ok W1" "txn < length (cw_txns W1)"
      using Commit_attempt_ok [OF a less.prems(2,3) assms(2)] world_le_txn less.prems(3) by blast+
    from next_transaction_ok [OF this, of st] obtain txn1 W2
      where n: "next_transaction txn st W1 = Some (txn1, W2)" "world_ok W2" "txn1 < length (cw_txns W2)" by auto
    obtain delay d1 where b: "re_backoff env d = (delay, d1)" by (cases "re_backoff env d")
    let ?W = "W2\<lparr>cw_service := re_sleeper env delay (cw_service W2)\<rparr>"
    have step: "Commit_loop env cl mutator q d txn W = Commit_loop env cl mutator q1 d1 txn1 ?W"
      using a o n b assms(1) by (subst Commit_loop.simps) simp
    have W: "world_ok ?W" "txn1 < length (cw_txns ?W)" using n by simp_all
    from less.hyps [OF q1(3,2) W, of d1] obtain runs q' d' txn' W' where
      ih: "commit_run env cl mutator q1 d1 txn1 ?W runs q' d' txn' W'" "length runs < budget q1"
      "\<not> IsExhausted pol q'" "Commit_loop env cl mutator q1 d1 txn1 ?W =
        map_option (\<lambda>(a, W). (attempt_result a, W)) (Commit_attempt cl mutator txn' W')"
      "\<forall>st W''. Commit_attempt cl mutator txn' W' = Some (Again st, W'') \<longrightarrow> \<not> fst (OnFailure pol st q')"
      by blast
    have "commit_run env cl mutator q d txn W ((txn, st) # runs) q' d' txn' W'"
      using a o n b ih(1) assms(1) by (intro commit_run.again) simp_all
    moreover have "length ((txn, st) # runs) < budget q" using ih(2) q1(3) by simp
    ultimately show ?thesis using ih(3-) unfolding step by blast
  qed
qed

end

text \<open>With a policy that counts failures, every rerun uses up one.\<close>

lemma commit_run_counts:
  assumes "commit_run env cl mutator q d txn W runs q' d' txn' W'"
    and "re_policy env = limited_error_count SafeTransactionRerun_IsPermanentFailure"
  shows "q' + length runs = q"
  using assms
proof (induction rule: commit_run.induct)
  case (again txn W st W1 q q1 txn1 W2 d delay d1 runs q' d' txn' W')
  then have "\<not> SafeTransactionRerun_IsPermanentFailure st"
    by (auto simp: SafeTransactionRerun_IsPermanentFailure_def dest: attempt_again)
  then have "q1 = q - 1" "1 < q" using again.hyps(2) again.prems by (simp_all add: limited_error_count_def)
  with again.IH again.prems show ?case by simp
qed simp

section \<open>Properties\<close>

lemma MakeReadWriteTransaction_ok:
  assumes "world_ok W" "MakeReadWriteTransaction W = (txn, W')"
  shows "world_ok W' \<and> world_le W W' \<and> txn < length (cw_txns W')"
proof -
  have "connection_step undefined W W'" using assms(2) by (blast intro: connection_step.read_write)
  from connection_step_ok [OF this assms(1)] assms(2) show ?thesis
    by (auto simp: MakeReadWriteTransaction_def add_transaction_def)
qed

text \<open>
  C6: The commit loop ends: whatever the mutator and the service do, a client that may fail \<open>n\<close>
  times makes at most \<open>n\<close> attempts, each with a transaction of its own and all but the last failing
  transiently, and returns what the last one yields; it gives up on a transient failure only after
  exactly \<open>n\<close> attempts.
\<close>

theorem commit_reruns:
  assumes "re_policy env = limited_error_count SafeTransactionRerun_IsPermanentFailure" "0 < n"
    and "mutator_ok (cl_conn cl) mutator" "world_ok W" "MakeReadWriteTransaction W = (txn, W0)"
  shows "\<exists>runs q' d' txn' W1. commit_run env cl mutator n d txn W0 runs q' d' txn' W1 \<and>
    length runs < n \<and> distinct (map fst runs @ [txn']) \<and>
    (\<forall>(t, st) \<in> set runs. SafeTransactionRerun_IsTransientFailure st) \<and>
    Client_Commit_mutator env cl mutator n d W =
      map_option (\<lambda>(a, W). (attempt_result a, W)) (Commit_attempt cl mutator txn' W1) \<and>
    (\<forall>st W2. Commit_attempt cl mutator txn' W1 = Some (Again st, W2) \<longrightarrow> length runs + 1 = n)"
proof -
  have W0: "world_ok W0" "txn < length (cw_txns W0)" using MakeReadWriteTransaction_ok assms(4,5) by blast+
  obtain runs q' d' txn' W1 where r: "commit_run env cl mutator n d txn W0 runs q' d' txn' W1"
    "length runs < n" "Commit_loop env cl mutator n d txn W0 =
      map_option (\<lambda>(a, W). (attempt_result a, W)) (Commit_attempt cl mutator txn' W1)"
    "\<forall>st W2. Commit_attempt cl mutator txn' W1 = Some (Again st, W2) \<longrightarrow>
      \<not> fst (OnFailure (limited_error_count SafeTransactionRerun_IsPermanentFailure) st q')"
    using rerun_retry.Commit_loop_outcome [OF assms(1,3) _ W0, of n d] assms(2)
    by (auto simp: limited_error_count_def)
  have count: "q' + length runs = n" by (rule commit_run_counts [OF r(1) assms(1)])
  have "length runs + 1 = n" if a: "Commit_attempt cl mutator txn' W1 = Some (Again st, W2)" for st W2
  proof -
    have "\<not> SafeTransactionRerun_IsPermanentFailure st"
      using attempt_again [OF a] by (simp add: SafeTransactionRerun_IsPermanentFailure_def)
    then have "q' \<le> 1" using r(4) a by (auto simp: limited_error_count_def)
    then show ?thesis using count r(2) by linarith
  qed
  moreover have "distinct (map fst runs @ [txn'])"
    using commit_run_distinct [OF r(1) W0 assms(3)] strict_sorted_iff by blast
  moreover have "Client_Commit_mutator env cl mutator n d W = Commit_loop env cl mutator n d txn W0"
    using assms(5) by (simp add: Client_Commit_mutator_def)
  ultimately show ?thesis using r commit_run_failures [OF r(1)] by metis
qed

definition demo_client :: "(string, unit, nat, int, unary_request list, grpc_stream) client" where
  "demo_client = \<lparr>cl_conn = demo_connection, cl_opts = \<lparr>optimizer_version = None\<rparr>, cl_env = None\<rparr>"

definition demo_rerun_env :: "(nat, int, unary_request list) retry_env" where
  "demo_rerun_env = recording_env\<lparr>re_policy := limited_error_count SafeTransactionRerun_IsPermanentFailure\<rparr>"

definition aborting :: "(string, unit, unary_request list) mutator" where
  "aborting txn W = Some (Returns (Inl (Status kAborted ''conflict'')), W)"

lemma aborting_attempt:
  "Commit_attempt demo_client aborting txn W = Some (Again (Status kAborted ''conflict''), W)"
  by (simp add: Commit_attempt_def aborting_def commit_mutations_def
      SafeTransactionRerun_IsTransientFailure_def)

theorem commit_reruns_witness:
  "\<exists>runs W1. Client_Commit_mutator demo_rerun_env demo_client aborting 3 100 (demo_world (Id ''t'')) =
     Some (Some (Inl (Status kAborted ''conflict'')), W1) \<and> length runs = 2 \<and>
     (\<exists>q d t W0 txn. MakeReadWriteTransaction (demo_world (Id ''t'')) = (txn, W0) \<and>
       commit_run demo_rerun_env demo_client aborting 3 100 txn W0 runs q d t W1)"
proof -
  let ?W = "demo_world (Id ''t'')"
  obtain txn W0 where m: "MakeReadWriteTransaction ?W = (txn, W0)" by (cases "MakeReadWriteTransaction ?W")
  have "mutator_ok (cl_conn demo_client) aborting" by (simp add: mutator_ok_def aborting_def)
  moreover have "world_ok ?W"
    by (simp add: demo_world_def world_ok_def)
  moreover have "re_policy demo_rerun_env = limited_error_count SafeTransactionRerun_IsPermanentFailure"
    by (simp add: demo_rerun_env_def)
  ultimately obtain runs q' d' txn' W1 where
    "commit_run demo_rerun_env demo_client aborting 3 100 txn W0 runs q' d' txn' W1"
    "Client_Commit_mutator demo_rerun_env demo_client aborting 3 100 ?W =
      map_option (\<lambda>(a, W). (attempt_result a, W)) (Commit_attempt demo_client aborting txn' W1)"
    "\<forall>st W2. Commit_attempt demo_client aborting txn' W1 = Some (Again st, W2) \<longrightarrow> length runs + 1 = 3"
    using commit_reruns [of demo_rerun_env 3 demo_client aborting ?W txn W0 100] m by auto
  then show ?thesis using m by (intro exI [of _ runs] exI [of _ W1]) (auto simp: aborting_attempt)
qed

text \<open>
  C20: The transaction of the next attempt is a new one that is begun anew. After a transient failure
  it stays on the session of the failed one, and no session changes; if that session was lost, it is
  marked bad and the new transaction has none yet.
\<close>

theorem next_transaction_session:
  assumes "next_transaction txn st W = Some (txn', W')" "world_ok W" "txn < length (cw_txns W)"
  shows "txn' = length (cw_txns W) \<and> txn' < length (cw_txns W') \<and>
    ti_selector (cw_txns W' ! txn') = Begin ReadWrite \<and>
    (if IsSessionNotFound st then ti_session (cw_txns W' ! txn') = None \<and>
       (\<forall>h. ti_session (cw_txns W ! txn) = Some h \<longrightarrow> is_bad (the_session W' h))
     else ti_session (cw_txns W' ! txn') = ti_session (cw_txns W ! txn) \<and> cw_sessions W' = cw_sessions W)"
proof (cases "IsSessionNotFound st")
  case True
  let ?ti = "cw_txns W ! txn"
  have h: "h < length (cw_sessions W)" if "ti_session ?ti = Some h" for h
    using that assms(2,3) by (auto simp: world_ok_def txn_ok_def)
  obtain r W1 where v: "VisitTransaction mark_session_bad txn W = Some (r, W1)"
    "MakeReadWriteTransaction W1 = (txn', W')"
    using assms(1) True by (auto simp: next_transaction_def)
  have W1: "length (cw_txns W1) = length (cw_txns W)"
    "cw_sessions W1 = cw_sessions (case ti_session ?ti of None \<Rightarrow> W | Some h \<Rightarrow> set_bad h W)"
    using v(1) by (auto simp: VisitTransaction_def Visit_def mark_session_bad_def Let_def set_bad_def
        split: option.splits txn_state.splits)
  then show ?thesis using v(2) True h
    by (auto simp: MakeReadWriteTransaction_def add_transaction_def Transaction_ReadWrite_def
        TransactionImpl_def set_bad_def the_session_def)
next
  case False
  then show ?thesis using assms(1)
    by (auto simp: next_transaction_def MakeReadWriteTransaction_rerun_def add_transaction_def
        Transaction_rerun_def TransactionImpl_def)
qed

theorem next_transaction_session_witness:
  "\<exists>txn W'. next_transaction 0 (Status kNotFound ''Session not found'') (demo_world (Id ''t'')) = Some (txn, W') \<and>
     ti_session (cw_txns W' ! txn) = None \<and> is_bad (the_session W' 0)"
proof -
  let ?W = "demo_world (Id ''t'')" and ?st = "Status kNotFound ''Session not found''"
  have W: "world_ok ?W" by (simp add: demo_world_def world_ok_def)
  have W': "0 < length (cw_txns ?W)" "ti_session (cw_txns ?W ! 0) = Some 0"
    by (simp_all add: demo_world_def TransactionImpl_def)
  obtain txn W' where n: "next_transaction 0 ?st ?W = Some (txn, W')"
    using next_transaction_ok [OF W W'(1), of ?st] by blast
  have "IsSessionNotFound ?st" by (simp add: IsSessionNotFound_def)
  with next_transaction_session [OF n W W'(1)] W'(2) n show ?thesis by auto
qed




end
