(* ===== verification/Session_Lifetimes.thy ===== *)
theory Session_Lifetimes
  imports Connection_Operations
begin

text \<open>
  Who holds a session. A \<open>SessionHolder\<close> is shared by the transactions that use its session; when the
  last of them is destroyed, the deleter of \<open>SessionPool::MakeSessionHolder\<close> gives the session back.
  This theory adds the destruction of transactions to the operations of a connection and shows that
  sessions are neither lost nor shared: each one of the pool is idle in it or held, by one holder.
  The stream of a result does not refer to the holder, so nothing here depends on streams.
\<close>

section \<open>Transactions and the sessions they hold\<close>

text \<open>The world, and the transactions that no one refers to any longer.\<close>

record ('s, 'g, 'w) lifetimes =
  lt_world :: "('s, 'g, 'w) client_world"
  lt_dropped :: "nat list"

definition live :: "('s, 'g, 'w) lifetimes \<Rightarrow> nat \<Rightarrow> bool" where
  "live L t \<longleftrightarrow> t < length (cw_txns (lt_world L)) \<and> t \<notin> set (lt_dropped L)"

definition referenced :: "('s, 'g, 'w) lifetimes \<Rightarrow> nat \<Rightarrow> bool" where
  "referenced L h \<longleftrightarrow>
     list_ex (\<lambda>t. live L t \<and> ti_session (cw_txns (lt_world L) ! t) = Some h) [0..<length (cw_txns (lt_world L))]"

text \<open>The destruction of a transaction, and of the holder of its session unless it is shared.\<close>

definition drop_transaction :: "nat \<Rightarrow> ('s, 'g, 'w) lifetimes \<Rightarrow> ('s, 'g, 'w) lifetimes" where
  "drop_transaction t L =
     (let W = lt_world L; L = L\<lparr>lt_dropped := t # lt_dropped L\<rparr>
      in case ti_session (cw_txns W ! t) of
           None \<Rightarrow> L
         | Some h \<Rightarrow>
             if referenced L h then L
             else (case SessionHolder_delete (cw_sessions W ! h) (Some (cw_pool W)) of
                     None \<Rightarrow> L
                   | Some p \<Rightarrow> L\<lparr>lt_world := W\<lparr>cw_pool := p\<rparr>\<rparr>))"




section \<open>What the pool owns\<close>









definition session_id :: "session \<Rightarrow> string \<times> nat option" where
  "session_id s = (session_name s, session_channel s)"






section \<open>Calls in the retry loop\<close>



section \<open>Allocation\<close>






section \<open>The operations\<close>



definition holder_ids :: "session_holder \<Rightarrow> (string \<times> nat option) list" where
  "holder_ids h = map session_id (kept h)"

definition pool_effect ::
    "('w \<Rightarrow> string set) \<Rightarrow> ('s, 'g, 'w) client_world \<Rightarrow> ('s, 'g, 'w) client_world \<Rightarrow> bool" where
  "pool_effect issued W W' \<longleftrightarrow> issued (cw_service W) \<subseteq> issued (cw_service W') \<and>
     (\<exists>k. cw_pool W' = (cw_pool W)\<lparr>next_dissociated_stub_channel := k\<rparr>) \<and>
     map holder_ids (cw_sessions W') = map holder_ids (cw_sessions W)"

lemma holder_ids_set_bad [simp]: "holder_ids (holder_set_bad h) = holder_ids h"
  by (cases h) (simp_all add: holder_ids_def session_id_def)

lemma next_channel_same: "\<exists>k. p = p\<lparr>next_dissociated_stub_channel := k\<rparr>"
  by (rule exI [of _ "next_dissociated_stub_channel p"]) simp

lemma pool_effect_refl [simp]: "pool_effect issued W W"
  by (simp add: pool_effect_def next_channel_same)























section \<open>Sessions of live transactions\<close>













section \<open>Steps keep the sessions\<close>



























lemma drop_transaction_fields [simp]:
  "lt_dropped (drop_transaction t L) = t # lt_dropped L"
  "cw_txns (lt_world (drop_transaction t L)) = cw_txns (lt_world L)"
  by (auto simp: drop_transaction_def Let_def split: option.splits)






section \<open>An example\<close>








section \<open>Properties\<close>





end
