(* ===== verification/Stub_Decorators.thy ===== *)
theory Stub_Decorators
  imports Connection
begin

text \<open>
  The stub that a connection is given (\<open>CreateDefaultSpannerStub\<close> in \<open>internal/spanner_stub.cc\<close>): gRPC's
  own one, which is a parameter, wrapped by \<open>MetadataSpannerStub\<close> (\<open>internal/metadata_spanner_stub.cc\<close>)
  and, when RPCs are traced, by \<open>LoggingSpannerStub\<close> (\<open>internal/logging_spanner_stub.cc\<close>,
  \<open>internal/log_wrapper.h\<close>).
\<close>

section \<open>Stubs\<close>

text \<open>The metadata of a \<open>ClientContext\<close>, in the order they were added.\<close>

type_synonym context_md = "(string \<times> string) list"

record list_sessions_request =
  lsr_database :: string
  lsr_page_token :: string

text \<open>
  A call takes its context and its request. A session is its name, and so are the requests to create,
  get and delete one, of a database or of itself; a handle of an asynchronous call or a stream may be a
  null pointer. The state is that of the service and the lines of the log.
\<close>

type_synonym ('req, 'a, 'w) rpc =
  "context_md \<Rightarrow> 'req \<Rightarrow> 'w \<times> string list \<Rightarrow> 'a \<times> 'w \<times> string list"

record ('r, 'h, 'w) rpc_stub =
  rpc_CreateSession :: "(string, string status_or, 'w) rpc"
  rpc_BatchCreateSessions :: "(batch_create_request, string list status_or, 'w) rpc"
  rpc_AsyncBatchCreateSessions :: "(batch_create_request, 'h option, 'w) rpc"
  rpc_GetSession :: "(string, string status_or, 'w) rpc"
  rpc_AsyncGetSession :: "(string, 'h option, 'w) rpc"
  rpc_ListSessions :: "(list_sessions_request, string list status_or, 'w) rpc"
  rpc_DeleteSession :: "(string, status, 'w) rpc"
  rpc_AsyncDeleteSession :: "(string, 'h option, 'w) rpc"
  rpc_ExecuteSql :: "(sql_request, result_set status_or, 'w) rpc"
  rpc_ExecuteStreamingSql :: "(sql_request, 'r option, 'w) rpc"
  rpc_ExecuteBatchDml :: "(batch_dml_request, batch_dml_response status_or, 'w) rpc"
  rpc_StreamingRead :: "(read_request, 'r option, 'w) rpc"
  rpc_BeginTransaction :: "(begin_request, string status_or, 'w) rpc"
  rpc_Commit :: "(commit_request, proto_timestamp status_or, 'w) rpc"
  rpc_Rollback :: "(rollback_request, status, 'w) rpc"
  rpc_PartitionQuery :: "(partition_query_request, partition_response status_or, 'w) rpc"
  rpc_PartitionRead :: "(partition_read_request, partition_response status_or, 'w) rpc"

section \<open>The default stub\<close>

text \<open>
  gRPC's stub: a unary call gives a \<open>grpc::Status\<close>, of type \<open>'e\<close>, and a response. What it does is not
  known; of its status the code asks whether it is OK and converts it.
\<close>

record 'e grpc_statuses =
  grpc_ok :: "'e \<Rightarrow> bool"
  MakeStatusFromRpcError :: "'e \<Rightarrow> status"

record ('e, 'r, 'h, 'w) grpc_stub = "'e grpc_statuses" +
  grpc_CreateSession :: "context_md \<Rightarrow> string \<Rightarrow> 'w \<Rightarrow> ('e \<times> string) \<times> 'w"
  grpc_BatchCreateSessions :: "context_md \<Rightarrow> batch_create_request \<Rightarrow> 'w \<Rightarrow> ('e \<times> string list) \<times> 'w"
  grpc_AsyncBatchCreateSessions :: "context_md \<Rightarrow> batch_create_request \<Rightarrow> 'w \<Rightarrow> 'h option \<times> 'w"
  grpc_GetSession :: "context_md \<Rightarrow> string \<Rightarrow> 'w \<Rightarrow> ('e \<times> string) \<times> 'w"
  grpc_AsyncGetSession :: "context_md \<Rightarrow> string \<Rightarrow> 'w \<Rightarrow> 'h option \<times> 'w"
  grpc_ListSessions :: "context_md \<Rightarrow> list_sessions_request \<Rightarrow> 'w \<Rightarrow> ('e \<times> string list) \<times> 'w"
  grpc_DeleteSession :: "context_md \<Rightarrow> string \<Rightarrow> 'w \<Rightarrow> 'e \<times> 'w"
  grpc_AsyncDeleteSession :: "context_md \<Rightarrow> string \<Rightarrow> 'w \<Rightarrow> 'h option \<times> 'w"
  grpc_ExecuteSql :: "context_md \<Rightarrow> sql_request \<Rightarrow> 'w \<Rightarrow> ('e \<times> result_set) \<times> 'w"
  grpc_ExecuteStreamingSql :: "context_md \<Rightarrow> sql_request \<Rightarrow> 'w \<Rightarrow> 'r option \<times> 'w"
  grpc_ExecuteBatchDml :: "context_md \<Rightarrow> batch_dml_request \<Rightarrow> 'w \<Rightarrow> ('e \<times> batch_dml_response) \<times> 'w"
  grpc_StreamingRead :: "context_md \<Rightarrow> read_request \<Rightarrow> 'w \<Rightarrow> 'r option \<times> 'w"
  grpc_BeginTransaction :: "context_md \<Rightarrow> begin_request \<Rightarrow> 'w \<Rightarrow> ('e \<times> string) \<times> 'w"
  grpc_Commit :: "context_md \<Rightarrow> commit_request \<Rightarrow> 'w \<Rightarrow> ('e \<times> proto_timestamp) \<times> 'w"
  grpc_Rollback :: "context_md \<Rightarrow> rollback_request \<Rightarrow> 'w \<Rightarrow> 'e \<times> 'w"
  grpc_PartitionQuery :: "context_md \<Rightarrow> partition_query_request \<Rightarrow> 'w \<Rightarrow> ('e \<times> partition_response) \<times> 'w"
  grpc_PartitionRead :: "context_md \<Rightarrow> partition_read_request \<Rightarrow> 'w \<Rightarrow> ('e \<times> partition_response) \<times> 'w"

definition default_rpc ::
    "('x \<Rightarrow> 'a) \<Rightarrow> (context_md \<Rightarrow> 'req \<Rightarrow> 'w \<Rightarrow> 'x \<times> 'w) \<Rightarrow> ('req, 'a, 'w) rpc" where
  "default_rpc result call context request = (\<lambda>(w, log).
     (let (x, w) = call context request w in (result x, (w, log))))"

definition unary_result :: "('e, 'z) grpc_statuses_scheme \<Rightarrow> 'e \<times> 'a \<Rightarrow> 'a status_or" where
  "unary_result g = (\<lambda>(grpc_status, response).
     if \<not> grpc_ok g grpc_status then Inl (MakeStatusFromRpcError g grpc_status) else Inr response)"

definition DefaultSpannerStub :: "('e, 'r, 'h, 'w) grpc_stub \<Rightarrow> ('r, 'h, 'w) rpc_stub" where
  "DefaultSpannerStub g =
     \<lparr>rpc_CreateSession = default_rpc (unary_result g) (grpc_CreateSession g),
      rpc_BatchCreateSessions = default_rpc (unary_result g) (grpc_BatchCreateSessions g),
      rpc_AsyncBatchCreateSessions = default_rpc (\<lambda>x. x) (grpc_AsyncBatchCreateSessions g),
      rpc_GetSession = default_rpc (unary_result g) (grpc_GetSession g),
      rpc_AsyncGetSession = default_rpc (\<lambda>x. x) (grpc_AsyncGetSession g),
      rpc_ListSessions = default_rpc (unary_result g) (grpc_ListSessions g),
      rpc_DeleteSession = default_rpc (MakeStatusFromRpcError g) (grpc_DeleteSession g),
      rpc_AsyncDeleteSession = default_rpc (\<lambda>x. x) (grpc_AsyncDeleteSession g),
      rpc_ExecuteSql = default_rpc (unary_result g) (grpc_ExecuteSql g),
      rpc_ExecuteStreamingSql = default_rpc (\<lambda>x. x) (grpc_ExecuteStreamingSql g),
      rpc_ExecuteBatchDml = default_rpc (unary_result g) (grpc_ExecuteBatchDml g),
      rpc_StreamingRead = default_rpc (\<lambda>x. x) (grpc_StreamingRead g),
      rpc_BeginTransaction = default_rpc (unary_result g) (grpc_BeginTransaction g),
      rpc_Commit = default_rpc (unary_result g) (grpc_Commit g),
      rpc_Rollback = default_rpc (MakeStatusFromRpcError g) (grpc_Rollback g),
      rpc_PartitionQuery = default_rpc (unary_result g) (grpc_PartitionQuery g),
      rpc_PartitionRead = default_rpc (unary_result g) (grpc_PartitionRead g)\<rparr>"

section \<open>Metadata\<close>

definition SetMetadata :: "string \<Rightarrow> string \<Rightarrow> context_md \<Rightarrow> context_md" where
  "SetMetadata api_client_header request_params context =
     context @ [(''x-goog-request-params'', request_params), (''x-goog-api-client'', api_client_header)]"

definition with_metadata ::
    "string \<Rightarrow> ('req \<Rightarrow> string) \<Rightarrow> ('req, 'a, 'w) rpc \<Rightarrow> ('req, 'a, 'w) rpc" where
  "with_metadata header params child context request w =
     child (SetMetadata header (params request) context) request w"

definition MetadataSpannerStub :: "string \<Rightarrow> ('r, 'h, 'w) rpc_stub \<Rightarrow> ('r, 'h, 'w) rpc_stub" where
  "MetadataSpannerStub header child =
     \<lparr>rpc_CreateSession = with_metadata header (\<lambda>r. ''database='' @ r) (rpc_CreateSession child),
      rpc_BatchCreateSessions =
        with_metadata header (\<lambda>r. ''database='' @ request_database r) (rpc_BatchCreateSessions child),
      rpc_AsyncBatchCreateSessions =
        with_metadata header (\<lambda>r. ''database='' @ request_database r) (rpc_AsyncBatchCreateSessions child),
      rpc_GetSession = with_metadata header (\<lambda>r. ''name='' @ r) (rpc_GetSession child),
      rpc_AsyncGetSession = with_metadata header (\<lambda>r. ''name='' @ r) (rpc_AsyncGetSession child),
      rpc_ListSessions = with_metadata header (\<lambda>r. ''database='' @ lsr_database r) (rpc_ListSessions child),
      rpc_DeleteSession = with_metadata header (\<lambda>r. ''name='' @ r) (rpc_DeleteSession child),
      rpc_AsyncDeleteSession = with_metadata header (\<lambda>r. ''name='' @ r) (rpc_AsyncDeleteSession child),
      rpc_ExecuteSql = with_metadata header (\<lambda>r. ''session='' @ sq_session r) (rpc_ExecuteSql child),
      rpc_ExecuteStreamingSql =
        with_metadata header (\<lambda>r. ''session='' @ sq_session r) (rpc_ExecuteStreamingSql child),
      rpc_ExecuteBatchDml = with_metadata header (\<lambda>r. ''session='' @ bdr_session r) (rpc_ExecuteBatchDml child),
      rpc_StreamingRead = with_metadata header (\<lambda>r. ''session='' @ rq_session r) (rpc_StreamingRead child),
      rpc_BeginTransaction = with_metadata header (\<lambda>r. ''session='' @ br_session r) (rpc_BeginTransaction child),
      rpc_Commit = with_metadata header (\<lambda>r. ''session='' @ cr_session r) (rpc_Commit child),
      rpc_Rollback = with_metadata header (\<lambda>r. ''session='' @ rr_session r) (rpc_Rollback child),
      rpc_PartitionQuery = with_metadata header (\<lambda>r. ''session='' @ pqr_session r) (rpc_PartitionQuery child),
      rpc_PartitionRead = with_metadata header (\<lambda>r. ''session='' @ prr_session r) (rpc_PartitionRead child)\<rparr>"

section \<open>Logging\<close>

text \<open>
  The messages that \<open>DebugString\<close> prints; protobuf's printer and the printing of a status are a
  parameter.
\<close>

datatype log_message =
    LDatabase string | LSessionName string | LBatchCreate batch_create_request | LListSessions list_sessions_request
  | LSql sql_request | LBatchDml batch_dml_request | LReadRequest read_request | LBegin begin_request
  | LCommit commit_request | LRollback rollback_request | LPartitionQuery partition_query_request
  | LPartitionRead partition_read_request
  | LSession string | LSessions "string list" | LSessionList "string list" | LResultSet result_set
  | LBatchDmlResponse batch_dml_response | LTransaction string | LCommitResponse proto_timestamp
  | LPartitionResponse partition_response

record 'm printers =
  DebugString :: "'m \<Rightarrow> string"
  print_status :: "status \<Rightarrow> string"

text \<open>\<open>DebugString\<close> sets up protobuf's printer, a parameter, with the options of tracing.\<close>

record tracing_options =
  single_line_mode :: bool
  use_short_repeated_primitives :: bool
  truncate_string_field_longer_than :: int

definition printers_with ::
    "(bool \<Rightarrow> bool \<Rightarrow> int \<Rightarrow> 'm \<Rightarrow> string) \<Rightarrow> (status \<Rightarrow> string) \<Rightarrow> tracing_options \<Rightarrow> 'm printers" where
  "printers_with PrintToString show_status options =
     \<lparr>DebugString = PrintToString (single_line_mode options) (use_short_repeated_primitives options)
        (truncate_string_field_longer_than options),
      print_status = show_status\<rparr>"

definition LogWrapper ::
    "'m printers \<Rightarrow> ('req \<Rightarrow> 'm) \<Rightarrow> ('a \<Rightarrow> string) \<Rightarrow> string \<Rightarrow> ('req, 'a, 'w) rpc \<Rightarrow> ('req, 'a, 'w) rpc" where
  "LogWrapper pr req_message show_response where_text functor context request = (\<lambda>(w, log).
     (let log = log @ [where_text @ ''() << '' @ DebugString pr (req_message request)];
          (response, (w, log)) = functor context request (w, log);
          log = log @ [where_text @ ''() >> '' @ show_response response]
      in (response, (w, log))))"

text \<open>The overloads for a \<open>Status\<close>, a \<open>StatusOr\<close>, a stream and an asynchronous call.\<close>

definition LogWrapper_Status where
  "LogWrapper_Status pr req_message =
     LogWrapper pr req_message (\<lambda>response. ''status='' @ print_status pr response)"

definition LogWrapper_StatusOr ::
    "'m printers \<Rightarrow> ('req \<Rightarrow> 'm) \<Rightarrow> ('a \<Rightarrow> 'm) \<Rightarrow> string \<Rightarrow> ('req, 'a status_or, 'w) rpc \<Rightarrow>
     ('req, 'a status_or, 'w) rpc" where
  "LogWrapper_StatusOr pr req_message resp_message =
     LogWrapper pr req_message
       (\<lambda>response. case response of Inl status \<Rightarrow> ''status='' @ print_status pr status
          | Inr x \<Rightarrow> ''response='' @ DebugString pr (resp_message x))"

definition LogWrapper_stream where
  "LogWrapper_stream pr req_message =
     LogWrapper pr req_message
       (\<lambda>response. (case response of None \<Rightarrow> ''null'' | Some _ \<Rightarrow> ''not null'') @ '' stream'')"

definition LogWrapper_async where
  "LogWrapper_async pr req_message =
     LogWrapper pr req_message
       (\<lambda>response. (case response of None \<Rightarrow> ''null'' | Some _ \<Rightarrow> ''not null'') @ '' async response reader'')"

text \<open>
  The overload for a future, whose functor takes no context: it logs whether the future is satisfied
  (\<open>wait_for\<close> with no time to wait), not its value.
\<close>

datatype future_status = Ready | Timeout | Deferred | Unknown_status

definition LogWrapper_future ::
    "'m printers \<Rightarrow> ('req \<Rightarrow> 'm) \<Rightarrow> ('f \<Rightarrow> future_status) \<Rightarrow> string \<Rightarrow>
     ('req \<Rightarrow> 'w \<times> string list \<Rightarrow> 'f \<times> 'w \<times> string list) \<Rightarrow>
     'req \<Rightarrow> 'w \<times> string list \<Rightarrow> 'f \<times> 'w \<times> string list" where
  "LogWrapper_future pr req_message wait_for where_text functor request = (\<lambda>(w, log).
     (let log = log @ [where_text @ ''() << '' @ DebugString pr (req_message request)];
          (response, (w, log)) = functor request (w, log);
          msg = (case wait_for response of
                   Ready \<Rightarrow> ''a ready future''
                 | Timeout \<Rightarrow> ''an unsatisfied future''
                 | Deferred \<Rightarrow> ''a deferred future''
                 | Unknown_status \<Rightarrow> ''a future in an unknown state'')
      in (response, (w, log @ [where_text @ ''() >> '' @ msg]))))"

definition LoggingSpannerStub :: "log_message printers \<Rightarrow> ('r, 'h, 'w) rpc_stub \<Rightarrow> ('r, 'h, 'w) rpc_stub" where
  "LoggingSpannerStub pr child =
     \<lparr>rpc_CreateSession = LogWrapper_StatusOr pr LDatabase LSession ''CreateSession'' (rpc_CreateSession child),
      rpc_BatchCreateSessions =
        LogWrapper_StatusOr pr LBatchCreate LSessions ''BatchCreateSessions'' (rpc_BatchCreateSessions child),
      rpc_AsyncBatchCreateSessions =
        LogWrapper_async pr LBatchCreate ''AsyncBatchCreateSessions'' (rpc_AsyncBatchCreateSessions child),
      rpc_GetSession = LogWrapper_StatusOr pr LSessionName LSession ''GetSession'' (rpc_GetSession child),
      rpc_AsyncGetSession = LogWrapper_async pr LSessionName ''AsyncGetSession'' (rpc_AsyncGetSession child),
      rpc_ListSessions = LogWrapper_StatusOr pr LListSessions LSessionList ''ListSessions'' (rpc_ListSessions child),
      rpc_DeleteSession = LogWrapper_Status pr LSessionName ''DeleteSession'' (rpc_DeleteSession child),
      rpc_AsyncDeleteSession =
        LogWrapper_async pr LSessionName ''AsyncDeleteSession'' (rpc_AsyncDeleteSession child),
      rpc_ExecuteSql = LogWrapper_StatusOr pr LSql LResultSet ''ExecuteSql'' (rpc_ExecuteSql child),
      rpc_ExecuteStreamingSql =
        LogWrapper_stream pr LSql ''ExecuteStreamingSql'' (rpc_ExecuteStreamingSql child),
      rpc_ExecuteBatchDml =
        LogWrapper_StatusOr pr LBatchDml LBatchDmlResponse ''ExecuteBatchDml'' (rpc_ExecuteBatchDml child),
      rpc_StreamingRead = LogWrapper_stream pr LReadRequest ''StreamingRead'' (rpc_StreamingRead child),
      rpc_BeginTransaction =
        LogWrapper_StatusOr pr LBegin LTransaction ''BeginTransaction'' (rpc_BeginTransaction child),
      rpc_Commit = LogWrapper_StatusOr pr LCommit LCommitResponse ''Commit'' (rpc_Commit child),
      rpc_Rollback = LogWrapper_Status pr LRollback ''Rollback'' (rpc_Rollback child),
      rpc_PartitionQuery =
        LogWrapper_StatusOr pr LPartitionQuery LPartitionResponse ''PartitionQuery'' (rpc_PartitionQuery child),
      rpc_PartitionRead =
        LogWrapper_StatusOr pr LPartitionRead LPartitionResponse ''PartitionRead'' (rpc_PartitionRead child)\<rparr>"

section \<open>The stub of a connection\<close>

definition CreateDefaultSpannerStub ::
    "string \<Rightarrow> log_message printers \<Rightarrow> bool \<Rightarrow> ('e, 'r, 'h, 'w) grpc_stub \<Rightarrow> ('r, 'h, 'w) rpc_stub" where
  "CreateDefaultSpannerStub api_client_header pr rpc_tracing_enabled g =
     (let stub = DefaultSpannerStub g;
          stub = MetadataSpannerStub api_client_header stub
      in if rpc_tracing_enabled then LoggingSpannerStub pr stub else stub)"

text \<open>
  What a call of the stub comes to: one call of gRPC's with two more entries of metadata, its result,
  its state and, when calls are traced, two lines in the log.
\<close>

definition relays ::
    "string \<Rightarrow> bool \<Rightarrow> ('req \<Rightarrow> string) \<Rightarrow> ('x \<Rightarrow> 'a) \<Rightarrow> (context_md \<Rightarrow> 'req \<Rightarrow> 'w \<Rightarrow> 'x \<times> 'w) \<Rightarrow>
     ('req, 'a, 'w) rpc \<Rightarrow> bool" where
  "relays header traced params result call rpc \<longleftrightarrow>
     (\<forall>context request w log. \<exists>lines. length lines = (if traced then 2 else 0) \<and>
        rpc context request (w, log) =
          (case call (context @ [(''x-goog-request-params'', params request), (''x-goog-api-client'', header)])
              request w of (x, w') \<Rightarrow> (result x, (w', log @ lines))))"

lemma relays_metadata: "relays header False params result call (with_metadata header params (default_rpc result call))"
  by (simp add: relays_def with_metadata_def default_rpc_def SetMetadata_def split: prod.splits)

lemma relays_logged:
  assumes "relays header False params result call rpc"
  shows "relays header True params result call (LogWrapper pr req_message shown where_text rpc)"
  unfolding relays_def
proof (intro allI)
  fix ctx request w log
  let ?md = "ctx @ [(''x-goog-request-params'', params request), (''x-goog-api-client'', header)]"
  obtain x w' where c: "call ?md request w = (x, w')" by (cases "call ?md request w")
  have r: "rpc ctx request (w, l) = (result x, (w', l))" for l
    using assms [unfolded relays_def, rule_format, of ctx request w l] by (auto simp: c)
  show "\<exists>lines. length lines = (if True then 2 else 0) \<and>
      LogWrapper pr req_message shown where_text rpc ctx request (w, log) =
        (case call ?md request w of (x, w') \<Rightarrow> (result x, (w', log @ lines)))"
    by (intro exI [of _ "[where_text @ ''() << '' @ DebugString pr (req_message request),
          where_text @ ''() >> '' @ shown (result x)]"]) (simp add: LogWrapper_def c r)
qed

lemma spanner_stub_relays:
  "relays header traced (\<lambda>r. ''database='' @ r) (unary_result g) (grpc_CreateSession g)
    (rpc_CreateSession (CreateDefaultSpannerStub header pr traced g))"
  "relays header traced (\<lambda>r. ''database='' @ request_database r) (unary_result g) (grpc_BatchCreateSessions g)
    (rpc_BatchCreateSessions (CreateDefaultSpannerStub header pr traced g))"
  "relays header traced (\<lambda>r. ''database='' @ request_database r) (\<lambda>x. x) (grpc_AsyncBatchCreateSessions g)
    (rpc_AsyncBatchCreateSessions (CreateDefaultSpannerStub header pr traced g))"
  "relays header traced (\<lambda>r. ''name='' @ r) (unary_result g) (grpc_GetSession g)
    (rpc_GetSession (CreateDefaultSpannerStub header pr traced g))"
  "relays header traced (\<lambda>r. ''name='' @ r) (\<lambda>x. x) (grpc_AsyncGetSession g)
    (rpc_AsyncGetSession (CreateDefaultSpannerStub header pr traced g))"
  "relays header traced (\<lambda>r. ''database='' @ lsr_database r) (unary_result g) (grpc_ListSessions g)
    (rpc_ListSessions (CreateDefaultSpannerStub header pr traced g))"
  "relays header traced (\<lambda>r. ''name='' @ r) (MakeStatusFromRpcError g) (grpc_DeleteSession g)
    (rpc_DeleteSession (CreateDefaultSpannerStub header pr traced g))"
  "relays header traced (\<lambda>r. ''name='' @ r) (\<lambda>x. x) (grpc_AsyncDeleteSession g)
    (rpc_AsyncDeleteSession (CreateDefaultSpannerStub header pr traced g))"
  "relays header traced (\<lambda>r. ''session='' @ sq_session r) (unary_result g) (grpc_ExecuteSql g)
    (rpc_ExecuteSql (CreateDefaultSpannerStub header pr traced g))"
  "relays header traced (\<lambda>r. ''session='' @ sq_session r) (\<lambda>x. x) (grpc_ExecuteStreamingSql g)
    (rpc_ExecuteStreamingSql (CreateDefaultSpannerStub header pr traced g))"
  "relays header traced (\<lambda>r. ''session='' @ bdr_session r) (unary_result g) (grpc_ExecuteBatchDml g)
    (rpc_ExecuteBatchDml (CreateDefaultSpannerStub header pr traced g))"
  "relays header traced (\<lambda>r. ''session='' @ rq_session r) (\<lambda>x. x) (grpc_StreamingRead g)
    (rpc_StreamingRead (CreateDefaultSpannerStub header pr traced g))"
  "relays header traced (\<lambda>r. ''session='' @ br_session r) (unary_result g) (grpc_BeginTransaction g)
    (rpc_BeginTransaction (CreateDefaultSpannerStub header pr traced g))"
  "relays header traced (\<lambda>r. ''session='' @ cr_session r) (unary_result g) (grpc_Commit g)
    (rpc_Commit (CreateDefaultSpannerStub header pr traced g))"
  "relays header traced (\<lambda>r. ''session='' @ rr_session r) (MakeStatusFromRpcError g) (grpc_Rollback g)
    (rpc_Rollback (CreateDefaultSpannerStub header pr traced g))"
  "relays header traced (\<lambda>r. ''session='' @ pqr_session r) (unary_result g) (grpc_PartitionQuery g)
    (rpc_PartitionQuery (CreateDefaultSpannerStub header pr traced g))"
  "relays header traced (\<lambda>r. ''session='' @ prr_session r) (unary_result g) (grpc_PartitionRead g)
    (rpc_PartitionRead (CreateDefaultSpannerStub header pr traced g))"
  by (cases traced; simp add: CreateDefaultSpannerStub_def MetadataSpannerStub_def LoggingSpannerStub_def
      DefaultSpannerStub_def LogWrapper_Status_def LogWrapper_StatusOr_def LogWrapper_stream_def
      LogWrapper_async_def relays_metadata relays_logged)+

text \<open>
  Tracing and routing change nothing else: whether calls are traced or not, every call of the stub
  that a connection is given makes exactly one call of gRPC's, with the routing header of its request
  (the session it runs in, the session it asks for, or the database) and the client's header behind the
  metadata it had, and returns this call's result; a traced call leaves two lines in the log.
\<close>

theorem default_stub_relays:
  "relays header traced (\<lambda>r. ''database='' @ r) (unary_result g) (grpc_CreateSession g)
      (rpc_CreateSession (CreateDefaultSpannerStub header pr traced g)) \<and>
    relays header traced (\<lambda>r. ''database='' @ request_database r) (unary_result g) (grpc_BatchCreateSessions g)
      (rpc_BatchCreateSessions (CreateDefaultSpannerStub header pr traced g)) \<and>
    relays header traced (\<lambda>r. ''database='' @ request_database r) (\<lambda>x. x) (grpc_AsyncBatchCreateSessions g)
      (rpc_AsyncBatchCreateSessions (CreateDefaultSpannerStub header pr traced g)) \<and>
    relays header traced (\<lambda>r. ''name='' @ r) (unary_result g) (grpc_GetSession g)
      (rpc_GetSession (CreateDefaultSpannerStub header pr traced g)) \<and>
    relays header traced (\<lambda>r. ''name='' @ r) (\<lambda>x. x) (grpc_AsyncGetSession g)
      (rpc_AsyncGetSession (CreateDefaultSpannerStub header pr traced g)) \<and>
    relays header traced (\<lambda>r. ''database='' @ lsr_database r) (unary_result g) (grpc_ListSessions g)
      (rpc_ListSessions (CreateDefaultSpannerStub header pr traced g)) \<and>
    relays header traced (\<lambda>r. ''name='' @ r) (MakeStatusFromRpcError g) (grpc_DeleteSession g)
      (rpc_DeleteSession (CreateDefaultSpannerStub header pr traced g)) \<and>
    relays header traced (\<lambda>r. ''name='' @ r) (\<lambda>x. x) (grpc_AsyncDeleteSession g)
      (rpc_AsyncDeleteSession (CreateDefaultSpannerStub header pr traced g)) \<and>
    relays header traced (\<lambda>r. ''session='' @ sq_session r) (unary_result g) (grpc_ExecuteSql g)
      (rpc_ExecuteSql (CreateDefaultSpannerStub header pr traced g)) \<and>
    relays header traced (\<lambda>r. ''session='' @ sq_session r) (\<lambda>x. x) (grpc_ExecuteStreamingSql g)
      (rpc_ExecuteStreamingSql (CreateDefaultSpannerStub header pr traced g)) \<and>
    relays header traced (\<lambda>r. ''session='' @ bdr_session r) (unary_result g) (grpc_ExecuteBatchDml g)
      (rpc_ExecuteBatchDml (CreateDefaultSpannerStub header pr traced g)) \<and>
    relays header traced (\<lambda>r. ''session='' @ rq_session r) (\<lambda>x. x) (grpc_StreamingRead g)
      (rpc_StreamingRead (CreateDefaultSpannerStub header pr traced g)) \<and>
    relays header traced (\<lambda>r. ''session='' @ br_session r) (unary_result g) (grpc_BeginTransaction g)
      (rpc_BeginTransaction (CreateDefaultSpannerStub header pr traced g)) \<and>
    relays header traced (\<lambda>r. ''session='' @ cr_session r) (unary_result g) (grpc_Commit g)
      (rpc_Commit (CreateDefaultSpannerStub header pr traced g)) \<and>
    relays header traced (\<lambda>r. ''session='' @ rr_session r) (MakeStatusFromRpcError g) (grpc_Rollback g)
      (rpc_Rollback (CreateDefaultSpannerStub header pr traced g)) \<and>
    relays header traced (\<lambda>r. ''session='' @ pqr_session r) (unary_result g) (grpc_PartitionQuery g)
      (rpc_PartitionQuery (CreateDefaultSpannerStub header pr traced g)) \<and>
    relays header traced (\<lambda>r. ''session='' @ prr_session r) (unary_result g) (grpc_PartitionRead g)
      (rpc_PartitionRead (CreateDefaultSpannerStub header pr traced g))"
  by (intro conjI spanner_stub_relays)

end
