(* ===== verification/Admin_Operations.thy ===== *)
theory Admin_Operations
  imports Retry_Loops
begin

text \<open>
  What the two admin clients (\<open>database_admin_connection.cc\<close>, \<open>database_admin_client.cc\<close>,
  \<open>instance_admin_connection.cc\<close>, \<open>instance_admin_client.cc\<close>) share: calls in the retry loop, long
  running operations, which are called and then polled, and the loop that updates an IAM policy. A
  future is the value it gets in the end: the polling thread runs to its end within the operation.
\<close>

section \<open>Calls and long running operations\<close>

record ('p, 'b, 'w) admin_policies =
  ap_retry :: "('p, 'b, 'w) retry_env"
  ap_policy :: 'p
  ap_backoff :: 'b
  ap_polling :: "('p, 'b, 'w) retry_env"
  ap_polling_policy :: "'p \<times> 'b"

definition admin_call ::
    "('p, 'b, 'w) admin_policies \<Rightarrow> bool \<Rightarrow> ('req \<Rightarrow> 'w \<Rightarrow> 'a status_or \<times> 'w) \<Rightarrow> 'req \<Rightarrow> string \<Rightarrow> 'w \<Rightarrow>
     ('a status_or \<times> 'w) option" where
  "admin_call ap is_idempotent rpc request location w =
     RetryLoop (ap_retry ap) (ap_policy ap) (ap_backoff ap) is_idempotent rpc request location w"

definition admin_await ::
    "('p, 'b, 'w) admin_policies \<Rightarrow> (string \<Rightarrow> 'w \<Rightarrow> operation status_or \<times> 'w) \<Rightarrow>
     (operation \<Rightarrow> string \<Rightarrow> 'a status_or) \<Rightarrow> string \<Rightarrow> operation \<Rightarrow> 'w \<Rightarrow> ('a status_or \<times> 'w) option" where
  "admin_await ap get_operation extract location operation w =
     PollingLoop (ap_polling ap) extract get_operation operation location (ap_polling_policy ap) w"

definition long_running ::
    "('p, 'b, 'w) admin_policies \<Rightarrow> bool \<Rightarrow> ('req \<Rightarrow> 'w \<Rightarrow> operation status_or \<times> 'w) \<Rightarrow> 'req \<Rightarrow> string \<Rightarrow>
     (operation \<Rightarrow> 'w \<Rightarrow> ('a status_or \<times> 'w) option) \<Rightarrow> 'w \<Rightarrow> ('a status_or \<times> 'w) option" where
  "long_running ap is_idempotent rpc request location await w =
     (case admin_call ap is_idempotent rpc request location w of
        None \<Rightarrow> None
      | Some (Inl status, w) \<Rightarrow> Some (Inl status, w)
      | Some (Inr operation, w) \<Rightarrow> await operation w)"

text \<open>The first page of a list; the pages are walked by the library's \<open>PaginationRange\<close>.\<close>

record list_request =
  lr_parent :: string
  lr_page_token :: string

record filtered_list_request =
  flr_parent :: string
  flr_filter :: string
  flr_page_token :: string

record 'a list_response =
  lr_items :: "'a list"
  lr_next_page_token :: string

section \<open>IAM policies\<close>

text \<open>Of a policy the code only reads and writes the etag.\<close>

record iam_policy =
  policy_version :: int
  policy_bindings :: "(string \<times> string list) list"
  policy_etag :: string

record set_iam_request =
  sir_resource :: string
  sir_policy :: iam_policy

record test_iam_request =
  tir_resource :: string
  tir_permissions :: "string list"

definition admin_GetIamPolicy ::
    "('p, 'b, 'w) admin_policies \<Rightarrow> (string \<Rightarrow> 'w \<Rightarrow> iam_policy status_or \<times> 'w) \<Rightarrow> string \<Rightarrow> 'w \<Rightarrow>
     (iam_policy status_or \<times> 'w) option" where
  "admin_GetIamPolicy ap rpc resource = admin_call ap True rpc resource ''GetIamPolicy''"

definition admin_SetIamPolicy ::
    "('p, 'b, 'w) admin_policies \<Rightarrow> (set_iam_request \<Rightarrow> 'w \<Rightarrow> iam_policy status_or \<times> 'w) \<Rightarrow> string \<Rightarrow>
     iam_policy \<Rightarrow> 'w \<Rightarrow> (iam_policy status_or \<times> 'w) option" where
  "admin_SetIamPolicy ap rpc resource policy =
     (let request = \<lparr>sir_resource = resource, sir_policy = policy\<rparr>;
          is_idempotent = policy_etag policy \<noteq> []
      in admin_call ap is_idempotent rpc request ''SetIamPolicy'')"

text \<open>
  The loop of \<open>SetIamPolicy\<close> with an updater: it reads the policy, lets the updater change it and
  writes the result with the etag it read; it starts again when this fails transiently.
\<close>

definition iam_attempt ::
    "('w \<Rightarrow> (iam_policy status_or \<times> 'w) option) \<Rightarrow> (iam_policy \<Rightarrow> 'w \<Rightarrow> (iam_policy status_or \<times> 'w) option) \<Rightarrow>
     (iam_policy \<Rightarrow> iam_policy option) \<Rightarrow> 'w \<Rightarrow> (iam_policy status_or \<times> 'w) option" where
  "iam_attempt get put updater w =
     (case get w of
        None \<Rightarrow> None
      | Some (Inl status, w) \<Rightarrow> Some (Inl status, w)
      | Some (Inr current_policy, w) \<Rightarrow>
          (case updater current_policy of
             None \<Rightarrow> Some (Inr current_policy, w)
           | Some desired \<Rightarrow> put (desired\<lparr>policy_etag := policy_etag current_policy\<rparr>) w))"

partial_function (option) SetIamPolicy_loop ::
    "('q, 'd, 'w) retry_env \<Rightarrow> ('w \<Rightarrow> (iam_policy status_or \<times> 'w) option) \<Rightarrow>
     (iam_policy \<Rightarrow> 'w \<Rightarrow> (iam_policy status_or \<times> 'w) option) \<Rightarrow> (iam_policy \<Rightarrow> iam_policy option) \<Rightarrow>
     'q \<Rightarrow> 'd \<Rightarrow> 'w \<Rightarrow> (iam_policy status_or \<times> 'w) option" where
  "SetIamPolicy_loop env get put updater rerun_policy backoff w =
     (case iam_attempt get put updater w of
        None \<Rightarrow> None
      | Some (Inr result, w) \<Rightarrow> Some (Inr result, w)
      | Some (Inl last_status, w) \<Rightarrow>
          let (continue, rerun_policy) = OnFailure (re_policy env) last_status rerun_policy
          in if \<not> continue then Some (Inl last_status, w)
             else
               let (delay, backoff) = re_backoff env backoff;
                   w = re_sleeper env delay w
               in if IsExhausted (re_policy env) rerun_policy then Some (Inl last_status, w)
                  else SetIamPolicy_loop env get put updater rerun_policy backoff w)"

text \<open>The default policies: minutes and milliseconds in milliseconds, as for \<open>Client::Commit\<close>.\<close>

definition SetIamPolicy_default ::
    "('q, 'd, 'w) retry_env \<Rightarrow> (int \<Rightarrow> 'q) \<Rightarrow> (int \<Rightarrow> int \<Rightarrow> int \<Rightarrow> 'd) \<Rightarrow>
     ('q \<Rightarrow> 'd \<Rightarrow> 'w \<Rightarrow> (iam_policy status_or \<times> 'w) option) \<Rightarrow> 'w \<Rightarrow> (iam_policy status_or \<times> 'w) option" where
  "SetIamPolicy_default env limited_time exponential run =
     (let rerun_maximum_duration = 15 * 60 * 1000;
          backoff_initial_delay = 1000;
          backoff_maximum_delay = 5 * 60 * 1000;
          backoff_scaling = 2
      in run (limited_time rerun_maximum_duration)
           (exponential backoff_initial_delay backoff_maximum_delay backoff_scaling))"

section \<open>Updates are atomic\<close>

text \<open>
  What the documentation of the IAM service says of etags: a policy that is read is the one in force
  and has an etag; a policy with an etag is written only over the policy with this etag; and an etag
  identifies a version of the policy.
\<close>

locale iam_service =
  fixes current :: "string \<Rightarrow> 'w \<Rightarrow> iam_policy"
    and get_rpc :: "string \<Rightarrow> 'w \<Rightarrow> iam_policy status_or \<times> 'w"
    and set_rpc :: "set_iam_request \<Rightarrow> 'w \<Rightarrow> iam_policy status_or \<times> 'w"
  assumes read_current: "get_rpc resource w = (Inr p, w') \<Longrightarrow> p = current resource w \<and> policy_etag p \<noteq> []"
    and write_checked: "set_rpc req w = (Inr r, w') \<Longrightarrow> policy_etag (sir_policy req) \<noteq> [] \<Longrightarrow>
      policy_etag (sir_policy req) = policy_etag (current (sir_resource req) w)"
    and etag_version: "policy_etag (current resource w1) = policy_etag (current resource w2) \<Longrightarrow>
      current resource w1 = current resource w2"

text \<open>What the loop needs of its two calls; \<open>wrote\<close> is one accepted write, with its states.\<close>

locale iam_calls =
  fixes now_in_force :: "'w \<Rightarrow> iam_policy"
    and get :: "'w \<Rightarrow> (iam_policy status_or \<times> 'w) option"
    and put :: "iam_policy \<Rightarrow> 'w \<Rightarrow> (iam_policy status_or \<times> 'w) option"
    and wrote :: "iam_policy \<Rightarrow> 'w \<Rightarrow> iam_policy \<Rightarrow> 'w \<Rightarrow> bool"
  assumes get_reads: "get w = Some (Inr p, w') \<Longrightarrow> policy_etag p \<noteq> [] \<and> (\<exists>w1. p = now_in_force w1)"
    and put_writes: "put p w = Some (Inr r, w') \<Longrightarrow> \<exists>w1. wrote p w1 r w'"
    and wrote_over: "wrote p w r w' \<Longrightarrow> policy_etag p \<noteq> [] \<Longrightarrow> p' = now_in_force w1 \<Longrightarrow>
      policy_etag p' = policy_etag p \<Longrightarrow> p' = now_in_force w"
begin

text \<open>A successful attempt applied the updater to the policy that the write replaced.\<close>

definition atomic_update :: "(iam_policy \<Rightarrow> iam_policy option) \<Rightarrow> iam_policy \<Rightarrow> 'w \<Rightarrow> bool" where
  "atomic_update updater r w' \<longleftrightarrow>
     (\<exists>w1. r = now_in_force w1 \<and> updater r = None) \<or>
     (\<exists>w1 desired. updater (now_in_force w1) = Some desired \<and>
        wrote (desired\<lparr>policy_etag := policy_etag (now_in_force w1)\<rparr>) w1 r w')"

lemma iam_attempt_atomic:
  assumes "iam_attempt get put updater w = Some (Inr r, w')"
  shows "atomic_update updater r w'"
proof -
  obtain p w1 where g: "get w = Some (Inr p, w1)"
    using assms by (auto simp: iam_attempt_def split: option.splits sum.splits)
  from get_reads [OF g] obtain w0 where p: "policy_etag p \<noteq> []" "p = now_in_force w0" by blast
  show ?thesis
  proof (cases "updater p")
    case None
    then have "r = p" using assms g by (simp add: iam_attempt_def)
    then show ?thesis using p None unfolding atomic_update_def by blast
  next
    case (Some desired)
    then have "put (desired\<lparr>policy_etag := policy_etag p\<rparr>) w1 = Some (Inr r, w')"
      using assms g by (simp add: iam_attempt_def)
    then obtain w2 where w2: "wrote (desired\<lparr>policy_etag := policy_etag p\<rparr>) w2 r w'" using put_writes by blast
    have "p = now_in_force w2" using wrote_over [OF w2 _ p(2)] p(1) by simp
    then show ?thesis using Some w2 unfolding atomic_update_def by blast
  qed
qed

lemma SetIamPolicy_loop_atomic:
  assumes "SetIamPolicy_loop env get put updater q d w = Some (Inr r, w')"
  shows "atomic_update updater r w'"
proof -
  have "g = get \<longrightarrow> s = put \<longrightarrow> u = updater \<longrightarrow> is_value (fst y) \<longrightarrow> atomic_update updater (projr (fst y)) (snd y)"
    if "SetIamPolicy_loop env g s u q d w = Some y" for env g s u q d w y
  proof (rule SetIamPolicy_loop.raw_induct [OF _ that, where P = "\<lambda>env g s u q d w y. g = get \<longrightarrow>
      s = put \<longrightarrow> u = updater \<longrightarrow> is_value (fst y) \<longrightarrow> atomic_update updater (projr (fst y)) (snd y)"],
      intro impI, goal_cases)
    case (1 f env g s u q d w y)
    note IH = 1(1) and y = 1(2) and eq = 1(3-5) and v = 1(6)
    obtain r1 w1 where a: "iam_attempt get put updater w = Some (r1, w1)"
      using y eq by (cases "iam_attempt get put updater w") auto
    show ?case
    proof (cases r1)
      case (Inr x)
      then have "y = (Inr x, w1)" using y eq a by simp
      then show ?thesis using iam_attempt_atomic a Inr by simp
    next
      case (Inl st)
      obtain c q1 where o: "OnFailure (re_policy env) st q = (c, q1)" by (cases "OnFailure (re_policy env) st q")
      obtain delay d1 where b: "re_backoff env d = (delay, d1)" by (cases "re_backoff env d")
      have "f env get put updater q1 d1 (re_sleeper env delay w1) = Some y"
        using y v unfolding eq a Inl by (auto simp: o b Let_def split: if_splits)
      from IH [OF this] v show ?thesis by simp
    qed
  qed
  from this [OF assms] show ?thesis by simp
qed

end

lemma RetryLoop_while_last:
  assumes "RetryLoop_while env i f req loc p b st w = Some y"
  shows "\<forall>x w'. y = (Inr x, w') \<longrightarrow> (\<exists>w1. f req w1 = (Inr x, w'))"
proof (rule RetryLoop_while.raw_induct [OF _ assms, where P = "\<lambda>env i f req loc p b st w y.
    \<forall>x w'. y = (Inr x, w') \<longrightarrow> (\<exists>w1. f req w1 = (Inr x, w'))"], goal_cases)
  case (1 rl env i f req loc p b st w y)
  obtain x1 w1 where f: "f req w = (x1, w1)" by (cases "f req w")
  show ?case
  proof (cases x1)
    case (Inr v)
    then show ?thesis using 1(2) f by (auto split: if_splits)
  next
    case (Inl st1)
    then show ?thesis using 1 f by (auto split: if_splits prod.splits)
  qed
qed

lemma admin_call_last:
  "admin_call ap i rpc request location w = Some (Inr x, w') \<Longrightarrow> \<exists>w1. rpc request w1 = (Inr x, w')"
  unfolding admin_call_def RetryLoop_def by (drule RetryLoop_while_last) simp

sublocale iam_service \<subseteq> iam_calls
  "current resource"
  "admin_GetIamPolicy ap get_rpc resource"
  "admin_SetIamPolicy ap set_rpc resource"
  "\<lambda>p w r w'. set_rpc \<lparr>sir_resource = resource, sir_policy = p\<rparr> w = (Inr r, w')"
  for resource ap
proof
  fix w p w'
  assume "admin_GetIamPolicy ap get_rpc resource w = Some (Inr p, w')"
  then obtain w1 where "get_rpc resource w1 = (Inr p, w')"
    unfolding admin_GetIamPolicy_def by (blast dest: admin_call_last)
  then show "policy_etag p \<noteq> [] \<and> (\<exists>w1. p = current resource w1)" using read_current by blast
next
  fix p w r w'
  assume "admin_SetIamPolicy ap set_rpc resource p w = Some (Inr r, w')"
  then show "\<exists>w1. set_rpc \<lparr>sir_resource = resource, sir_policy = p\<rparr> w1 = (Inr r, w')"
    unfolding admin_SetIamPolicy_def Let_def by (rule admin_call_last)
next
  fix p w r w' p' w1
  assume "set_rpc \<lparr>sir_resource = resource, sir_policy = p\<rparr> w = (Inr r, w')" "policy_etag p \<noteq> []"
    "p' = current resource w1" "policy_etag p' = policy_etag p"
  then show "p' = current resource w"
    using write_checked [of "\<lparr>sir_resource = resource, sir_policy = p\<rparr>" w r w'] etag_version by auto
qed

context iam_service
begin

lemma SetIamPolicy_atomic:
  assumes "SetIamPolicy_loop env (admin_GetIamPolicy ap get_rpc resource)
    (admin_SetIamPolicy ap set_rpc resource) updater q d w = Some (Inr r, w')"
  shows "(\<exists>w1. r = current resource w1 \<and> updater r = None) \<or>
    (\<exists>w1 desired. updater (current resource w1) = Some desired \<and>
       set_rpc \<lparr>sir_resource = resource,
         sir_policy = desired\<lparr>policy_etag := policy_etag (current resource w1)\<rparr>\<rparr> w1 = (Inr r, w'))"
  using SetIamPolicy_loop_atomic [OF assms] unfolding atomic_update_def .

end

section \<open>The loop ends\<close>

text \<open>The attempts that failed with \<open>sts\<close> and were followed by another.\<close>

inductive iam_run ::
    "('q, 'd, 'w) retry_env \<Rightarrow> ('w \<Rightarrow> (iam_policy status_or \<times> 'w) option) \<Rightarrow> 'q \<Rightarrow> 'd \<Rightarrow> 'w \<Rightarrow>
     status list \<Rightarrow> 'q \<Rightarrow> 'd \<Rightarrow> 'w \<Rightarrow> bool" for env attempt where
  start: "iam_run env attempt q d w [] q d w"
| again: "attempt w = Some (Inl st, w1) \<Longrightarrow> OnFailure (re_policy env) st q = (True, q1) \<Longrightarrow>
    re_backoff env d = (delay, d1) \<Longrightarrow> iam_run env attempt q1 d1 (re_sleeper env delay w1) sts q' d' w' \<Longrightarrow>
    iam_run env attempt q d w (st # sts) q' d' w'"

context retry_policy
begin

lemma SetIamPolicy_loop_ends:
  assumes "re_policy env = pol" "\<not> IsExhausted pol q"
  shows "\<exists>sts q' d' w1. iam_run env (iam_attempt get put updater) q d w sts q' d' w1 \<and>
    length sts < budget q \<and> (\<forall>st \<in> set sts. \<not> permanent st) \<and> \<not> IsExhausted pol q' \<and>
    SetIamPolicy_loop env get put updater q d w = iam_attempt get put updater w1 \<and>
    (\<forall>st w2. iam_attempt get put updater w1 = Some (Inl st, w2) \<longrightarrow> \<not> fst (OnFailure pol st q'))"
  using assms(2)
proof (induction "budget q" arbitrary: q d w rule: less_induct)
  case less
  let ?at = "iam_attempt get put updater"
  have bud: "0 < budget q" using less.prems exhausted by auto
  show ?case
  proof (cases "\<exists>st w1. ?at w = Some (Inl st, w1) \<and> fst (OnFailure pol st q)")
    case False
    then have "SetIamPolicy_loop env get put updater q d w = ?at w"
      using assms(1) by (subst SetIamPolicy_loop.simps) (auto split: option.splits sum.splits prod.splits)
    then show ?thesis using False bud less.prems iam_run.start
      by (intro exI [of _ "[]"] exI [of _ q] exI [of _ d] exI [of _ w]) auto
  next
    case True
    then obtain st w1 q1 where a: "?at w = Some (Inl st, w1)" and o: "OnFailure pol st q = (True, q1)"
      by (metis prod.collapse)
    obtain delay d1 where b: "re_backoff env d = (delay, d1)" by (cases "re_backoff env d")
    note q1 = OnFailure_True [OF o less.prems]
    let ?w = "re_sleeper env delay w1"
    have step: "SetIamPolicy_loop env get put updater q d w = SetIamPolicy_loop env get put updater q1 d1 ?w"
      using a o b q1(2) assms(1) by (subst SetIamPolicy_loop.simps) simp
    from less.hyps [OF q1(3,2), of d1 ?w] obtain sts q' d' w2 where
      ih: "iam_run env ?at q1 d1 ?w sts q' d' w2" "length sts < budget q1" "\<forall>st \<in> set sts. \<not> permanent st"
      "\<not> IsExhausted pol q'" "SetIamPolicy_loop env get put updater q1 d1 ?w = ?at w2"
      "\<forall>st w3. ?at w2 = Some (Inl st, w3) \<longrightarrow> \<not> fst (OnFailure pol st q')"
      by blast
    have "iam_run env ?at q d w (st # sts) q' d' w2"
      using a o b ih(1) assms(1) by (intro iam_run.again) simp_all
    moreover have "length (st # sts) < budget q" "\<forall>s \<in> set (st # sts). \<not> permanent s"
      using ih(2,3) q1 by simp_all
    ultimately show ?thesis using ih(4-) unfolding step by blast
  qed
qed

end

lemma iam_run_counts:
  assumes "iam_run env at q d w sts q' d' w'"
    and "re_policy env = limited_error_count SafeTransactionRerun_IsPermanentFailure"
  shows "q' + length sts = q"
  using assms
proof (induction rule: iam_run.induct)
  case (again w st w1 q q1 d delay d1 sts q' d' w')
  then have "q1 = q - 1" "1 < q" by (auto simp: limited_error_count_def split: if_splits)
  with again.IH again.prems show ?case by simp
qed simp

text \<open>With a policy that counts the attempts.\<close>

lemma SetIamPolicy_loop_counted:
  assumes "re_policy env = limited_error_count SafeTransactionRerun_IsPermanentFailure" "0 < n"
  shows "\<exists>sts q' d' w1. iam_run env (iam_attempt get put updater) n d w sts q' d' w1 \<and> length sts < n \<and>
    (\<forall>st \<in> set sts. \<not> SafeTransactionRerun_IsPermanentFailure st) \<and>
    SetIamPolicy_loop env get put updater n d w = iam_attempt get put updater w1 \<and>
    (\<forall>st w2. iam_attempt get put updater w1 = Some (Inl st, w2) \<longrightarrow>
       SafeTransactionRerun_IsPermanentFailure st \<or> length sts + 1 = n)"
proof -
  let ?at = "iam_attempt get put updater"
  obtain sts q' d' w1 where r: "iam_run env ?at n d w sts q' d' w1" "length sts < n"
    "\<forall>st \<in> set sts. \<not> SafeTransactionRerun_IsPermanentFailure st"
    "SetIamPolicy_loop env get put updater n d w = ?at w1"
    "\<forall>st w2. ?at w1 = Some (Inl st, w2) \<longrightarrow>
      \<not> fst (OnFailure (limited_error_count SafeTransactionRerun_IsPermanentFailure) st q')"
    using rerun_retry.SetIamPolicy_loop_ends [OF assms(1), of n get put updater d w] assms(2)
    by (auto simp: limited_error_count_def)
  have "q' + length sts = n" by (rule iam_run_counts [OF r(1) assms(1)])
  then have "SafeTransactionRerun_IsPermanentFailure st \<or> length sts + 1 = n"
    if "?at w1 = Some (Inl st, w2)" for st w2
    using r(2,5) that by (auto simp: limited_error_count_def split: if_splits)
  with r show ?thesis by blast
qed

section \<open>Calls that are made once\<close>

text \<open>A call that is not idempotent is made at most once.\<close>

lemma admin_call_once:
  "admin_call ap False rpc request location w =
     Some (if IsExhausted (re_policy (ap_retry ap)) (ap_policy ap) then
             (Inl (RetryLoopError (re_show (ap_retry ap)) ''Retry policy exhausted in'' location ok_status), w)
           else case rpc request w of
             (Inr x, w') \<Rightarrow> (Inr x, w')
           | (Inl st, w') \<Rightarrow> (Inl (RetryLoopError (re_show (ap_retry ap))
               ''Error in non-idempotent operation'' location st), w'))"
  unfolding admin_call_def RetryLoop_def
  by (subst RetryLoop_while.simps) (auto split: prod.splits sum.splits)

end
