(* ===== verification/Loop_Images.thy ===== *)
theory Loop_Images
  imports Admin_Operations
begin

text \<open>
  Loops over a state and over an image of it: when every call of a loop acts on the image of its state
  as another call does, so does the loop. What an image forgets (a log, say) has no effect then.
\<close>

section \<open>Images of calls\<close>

definition call_image :: "('v \<Rightarrow> 'w) \<Rightarrow> ('req \<Rightarrow> 'w \<Rightarrow> 'a \<times> 'w) \<Rightarrow> ('req \<Rightarrow> 'v \<Rightarrow> 'a \<times> 'v) \<Rightarrow> bool" where
  "call_image \<pi> f f' \<longleftrightarrow> (\<forall>req v. f req (\<pi> v) = map_prod id \<pi> (f' req v))"

definition run_image :: "('v \<Rightarrow> 'w) \<Rightarrow> ('w \<Rightarrow> ('a \<times> 'w) option) \<Rightarrow> ('v \<Rightarrow> ('a \<times> 'v) option) \<Rightarrow> bool" where
  "run_image \<pi> m m' \<longleftrightarrow> (\<forall>v. m (\<pi> v) = map_option (map_prod id \<pi>) (m' v))"

text \<open>An image of partial runs, from the two directions.\<close>

lemma run_imageI:
  assumes "\<And>v y. m' v = Some y \<Longrightarrow> m (\<pi> v) = Some (map_prod id \<pi> y)"
    and "\<And>v y. m (\<pi> v) = Some y \<Longrightarrow> \<exists>y'. m' v = Some y'"
  shows "run_image \<pi> m m'"
  unfolding run_image_def
proof
  fix v
  show "m (\<pi> v) = map_option (map_prod id \<pi>) (m' v)"
  proof (cases "m' v")
    case None
    then have "m (\<pi> v) = None" using assms(2) [of v] by (cases "m (\<pi> v)") auto
    then show ?thesis using None by simp
  qed (use assms(1) in auto)
qed

lemma call_imageD: "call_image \<pi> f f' \<Longrightarrow> f' req v = (x, v') \<Longrightarrow> f req (\<pi> v) = (x, \<pi> v')"
  by (simp add: call_image_def)

lemma run_imageD: "run_image \<pi> m m' \<Longrightarrow> m (\<pi> v) = map_option (map_prod id \<pi>) (m' v)"
  by (simp add: run_image_def)

lemma run_image_map: "run_image \<pi> m m' \<Longrightarrow>
    run_image \<pi> (\<lambda>w. map_option (\<lambda>(r, w). (g r, w)) (m w)) (\<lambda>v. map_option (\<lambda>(r, v). (g r, v)) (m' v))"
  by (simp add: run_image_def option.map_comp comp_def map_prod_def case_prod_beta)

section \<open>Images of loops\<close>

text \<open>The sleepers of the two environments, which act on the states, agree.\<close>

locale loop_image =
  fixes \<pi> :: "'v \<Rightarrow> 'w"
    and env :: "('p, 'b, 'w) retry_env"
    and env' :: "('p, 'b, 'v) retry_env"
  assumes policy: "re_policy env' = re_policy env"
    and backoff: "re_backoff env' = re_backoff env"
    and shown: "re_show env' = re_show env"
    and sleeper: "\<pi> (re_sleeper env' d v) = re_sleeper env d (\<pi> v)"
begin

lemma on_failure: "GenericPollingPolicy_OnFailure env' st pp = GenericPollingPolicy_OnFailure env st pp"
  by (cases pp) (simp add: GenericPollingPolicy_OnFailure_def policy)

lemma wait: "GenericPollingPolicy_WaitPeriod env' pp = GenericPollingPolicy_WaitPeriod env pp"
  by (cases pp) (simp add: GenericPollingPolicy_WaitPeriod_def backoff)

lemma RetryLoop_while_forth:
  assumes f: "call_image \<pi> f f'" and y: "RetryLoop_while env' i f' req loc p b st v = Some y"
  shows "RetryLoop_while env i f req loc p b st (\<pi> v) = Some (map_prod id \<pi> y)"
proof -
  have "e = env' \<longrightarrow> g = f' \<longrightarrow> RetryLoop_while env i f req loc p b st (\<pi> v) = Some (map_prod id \<pi> y)"
    if "RetryLoop_while e i g req loc p b st v = Some y" for e g i req loc p b st v y
  proof (rule RetryLoop_while.raw_induct [OF _ that, where P = "\<lambda>e i g req loc p b st v y. e = env' \<longrightarrow> g = f' \<longrightarrow>
      RetryLoop_while env i f req loc p b st (\<pi> v) = Some (map_prod id \<pi> y)"], intro impI, goal_cases)
    case (1 rl e i g req loc p b st v y)
    note IH = 1(1) [rule_format, OF _ refl refl] and y = 1(2) [unfolded 1(3,4)]
    obtain x v1 where c: "f' req v = (x, v1)" by (cases "f' req v")
    note c' = call_imageD [OF f c]
    obtain r v2 where "y = (r, v2)" by (cases y)
    with y IH show ?case
      by (subst RetryLoop_while.simps)
        (auto simp: c c' policy backoff shown sleeper [symmetric] split: if_splits prod.splits sum.splits)
  qed
  then show ?thesis using y by blast
qed

lemma RetryLoop_while_back:
  assumes f: "call_image \<pi> f f'" and y: "RetryLoop_while env i f req loc p b st (\<pi> v) = Some y"
  shows "\<exists>y'. RetryLoop_while env' i f' req loc p b st v = Some y'"
proof -
  have "e = env \<longrightarrow> g = f \<longrightarrow> (\<forall>v. w = \<pi> v \<longrightarrow> (\<exists>y'. RetryLoop_while env' i f' req loc p b st v = Some y'))"
    if "RetryLoop_while e i g req loc p b st w = Some y" for e g i req loc p b st w y
  proof (rule RetryLoop_while.raw_induct [OF _ that, where P = "\<lambda>e i g req loc p b st w y. e = env \<longrightarrow> g = f \<longrightarrow>
      (\<forall>v. w = \<pi> v \<longrightarrow> (\<exists>y'. RetryLoop_while env' i f' req loc p b st v = Some y'))"],
      intro impI allI, goal_cases)
    case (1 rl e i g req loc p b st w y v)
    note IH = 1(1) [rule_format, OF _ refl refl refl] and y = 1(2) [unfolded 1(3-5)]
    obtain x v1 where c: "f' req v = (x, v1)" by (cases "f' req v")
    note c' = call_imageD [OF f c]
    obtain r v2 where "y = (r, v2)" by (cases y)
    with y IH show ?case
      by (subst RetryLoop_while.simps)
        (auto simp: c c' policy backoff shown sleeper [symmetric] split: if_splits prod.splits sum.splits)
  qed
  then show ?thesis using y by blast
qed

lemma RetryLoop_image:
  "call_image \<pi> f f' \<Longrightarrow> run_image \<pi> (RetryLoop env p b i f req loc) (RetryLoop env' p b i f' req loc)"
  unfolding RetryLoop_def by (rule run_imageI) (rule RetryLoop_while_forth RetryLoop_while_back, assumption+)+

lemma PollingLoop_forth:
  assumes f: "call_image \<pi> f f'" and y: "PollingLoop env' extract f' operation loc pp v = Some y"
  shows "PollingLoop env extract f operation loc pp (\<pi> v) = Some (map_prod id \<pi> y)"
proof -
  have "e = env' \<longrightarrow> g = f' \<longrightarrow> PollingLoop env x f operation loc pp (\<pi> v) = Some (map_prod id \<pi> y)"
    if "PollingLoop e x g operation loc pp v = Some y" for e x g operation loc pp v y
  proof (rule PollingLoop.raw_induct [OF _ that, where P = "\<lambda>e x g operation loc pp v y. e = env' \<longrightarrow> g = f' \<longrightarrow>
      PollingLoop env x f operation loc pp (\<pi> v) = Some (map_prod id \<pi> y)"], intro impI, goal_cases)
    case (1 pl e x g operation loc pp v y)
    note IH = 1(1) [rule_format, OF _ refl refl] and y = 1(2) [unfolded 1(3,4)]
    obtain d pp1 where d: "GenericPollingPolicy_WaitPeriod env pp = (d, pp1)"
      by (cases "GenericPollingPolicy_WaitPeriod env pp")
    obtain u v1 where c: "f' (op_name operation) (re_sleeper env' d v) = (u, v1)"
      by (cases "f' (op_name operation) (re_sleeper env' d v)")
    note c' = call_imageD [OF f c, unfolded sleeper]
    obtain r v2 where "y = (r, v2)" by (cases y)
    with y IH show ?case
      by (subst PollingLoop.simps) (auto simp: c c' d on_failure wait split: if_splits prod.splits)
  qed
  then show ?thesis using y by blast
qed

lemma PollingLoop_back:
  assumes f: "call_image \<pi> f f'" and y: "PollingLoop env extract f operation loc pp (\<pi> v) = Some y"
  shows "\<exists>y'. PollingLoop env' extract f' operation loc pp v = Some y'"
proof -
  have "e = env \<longrightarrow> g = f \<longrightarrow> (\<forall>v. w = \<pi> v \<longrightarrow> (\<exists>y'. PollingLoop env' x f' operation loc pp v = Some y'))"
    if "PollingLoop e x g operation loc pp w = Some y" for e x g operation loc pp w y
  proof (rule PollingLoop.raw_induct [OF _ that, where P = "\<lambda>e x g operation loc pp w y. e = env \<longrightarrow> g = f \<longrightarrow>
      (\<forall>v. w = \<pi> v \<longrightarrow> (\<exists>y'. PollingLoop env' x f' operation loc pp v = Some y'))"], intro impI allI, goal_cases)
    case (1 pl e x g operation loc pp w y v)
    note IH = 1(1) [rule_format, OF _ refl refl refl] and y = 1(2) [unfolded 1(3-5)]
    obtain d pp1 where d: "GenericPollingPolicy_WaitPeriod env pp = (d, pp1)"
      by (cases "GenericPollingPolicy_WaitPeriod env pp")
    obtain u v1 where c: "f' (op_name operation) (re_sleeper env' d v) = (u, v1)"
      by (cases "f' (op_name operation) (re_sleeper env' d v)")
    note c' = call_imageD [OF f c, unfolded sleeper]
    obtain r v2 where "y = (r, v2)" by (cases y)
    with y IH show ?case
      by (subst PollingLoop.simps) (auto simp: c c' d on_failure wait split: if_splits prod.splits)
  qed
  then show ?thesis using y by blast
qed

lemma PollingLoop_image:
  "call_image \<pi> f f' \<Longrightarrow>
    run_image \<pi> (PollingLoop env extract f operation loc pp) (PollingLoop env' extract f' operation loc pp)"
  by (rule run_imageI) (rule PollingLoop_forth PollingLoop_back, assumption+)+

lemma SetIamPolicy_loop_forth:
  assumes a: "run_image \<pi> (iam_attempt get put updater) (iam_attempt get' put' updater)"
    and y: "SetIamPolicy_loop env' get' put' updater q d v = Some y"
  shows "SetIamPolicy_loop env get put updater q d (\<pi> v) = Some (map_prod id \<pi> y)"
proof -
  have "e = env' \<longrightarrow> g = get' \<longrightarrow> s = put' \<longrightarrow> u = updater \<longrightarrow>
      SetIamPolicy_loop env get put updater q d (\<pi> v) = Some (map_prod id \<pi> y)"
    if "SetIamPolicy_loop e g s u q d v = Some y" for e g s u q d v y
  proof (rule SetIamPolicy_loop.raw_induct [OF _ that, where P = "\<lambda>e g s u q d v y. e = env' \<longrightarrow> g = get' \<longrightarrow>
      s = put' \<longrightarrow> u = updater \<longrightarrow> SetIamPolicy_loop env get put updater q d (\<pi> v) = Some (map_prod id \<pi> y)"],
      intro impI, goal_cases)
    case (1 sl e g s u q d v y)
    note IH = 1(1) [rule_format, OF _ refl refl refl refl] and y = 1(2) [unfolded 1(3-6)]
    obtain r v2 where "y = (r, v2)" by (cases y)
    with y IH show ?case
      by (subst SetIamPolicy_loop.simps)
        (auto simp: run_imageD [OF a] policy backoff sleeper [symmetric] Let_def
          split: if_splits prod.splits option.splits sum.splits)
  qed
  then show ?thesis using y by blast
qed

lemma SetIamPolicy_loop_back:
  assumes a: "run_image \<pi> (iam_attempt get put updater) (iam_attempt get' put' updater)"
    and y: "SetIamPolicy_loop env get put updater q d (\<pi> v) = Some y"
  shows "\<exists>y'. SetIamPolicy_loop env' get' put' updater q d v = Some y'"
proof -
  have "e = env \<longrightarrow> g = get \<longrightarrow> s = put \<longrightarrow> u = updater \<longrightarrow>
      (\<forall>v. w = \<pi> v \<longrightarrow> (\<exists>y'. SetIamPolicy_loop env' get' put' updater q d v = Some y'))"
    if "SetIamPolicy_loop e g s u q d w = Some y" for e g s u q d w y
  proof (rule SetIamPolicy_loop.raw_induct [OF _ that, where P = "\<lambda>e g s u q d w y. e = env \<longrightarrow> g = get \<longrightarrow>
      s = put \<longrightarrow> u = updater \<longrightarrow> (\<forall>v. w = \<pi> v \<longrightarrow> (\<exists>y'. SetIamPolicy_loop env' get' put' updater q d v = Some y'))"],
      intro impI allI, goal_cases)
    case (1 sl e g s u q d w y v)
    note IH = 1(1) [rule_format, OF _ refl refl refl refl refl] and y = 1(2) [unfolded 1(3-7)]
    obtain r v2 where "y = (r, v2)" by (cases y)
    with y IH show ?case
      by (subst SetIamPolicy_loop.simps)
        (auto simp: run_imageD [OF a] policy backoff sleeper [symmetric] Let_def
          split: if_splits prod.splits option.splits sum.splits)
  qed
  then show ?thesis using y by blast
qed

lemma SetIamPolicy_loop_image:
  assumes get: "run_image \<pi> get get'" and put: "\<And>policy. run_image \<pi> (put policy) (put' policy)"
  shows "run_image \<pi> (SetIamPolicy_loop env get put updater q d) (SetIamPolicy_loop env' get' put' updater q d)"
proof -
  have "run_image \<pi> (iam_attempt get put updater) (iam_attempt get' put' updater)"
    unfolding run_image_def iam_attempt_def
    by (auto simp: run_imageD [OF get] run_imageD [OF put] split: option.splits prod.splits sum.splits)
  then show ?thesis
    by (intro run_imageI) (rule SetIamPolicy_loop_forth SetIamPolicy_loop_back, assumption+)+
qed

end

section \<open>Images of the operations\<close>

definition policies_image :: "('v \<Rightarrow> 'w) \<Rightarrow> ('p, 'b, 'w) admin_policies \<Rightarrow> ('p, 'b, 'v) admin_policies \<Rightarrow> bool" where
  "policies_image \<pi> ap ap' \<longleftrightarrow> loop_image \<pi> (ap_retry ap) (ap_retry ap') \<and>
     loop_image \<pi> (ap_polling ap) (ap_polling ap') \<and> ap_policy ap' = ap_policy ap \<and>
     ap_backoff ap' = ap_backoff ap \<and> ap_polling_policy ap' = ap_polling_policy ap"

lemma admin_call_image:
  "policies_image \<pi> ap ap' \<Longrightarrow> call_image \<pi> f f' \<Longrightarrow>
    run_image \<pi> (admin_call ap i f req loc) (admin_call ap' i f' req loc)"
  using loop_image.RetryLoop_image [of \<pi> "ap_retry ap" "ap_retry ap'" f f' "ap_policy ap" "ap_backoff ap" i req loc]
  by (simp add: policies_image_def admin_call_def run_image_def)

lemma admin_await_image:
  "policies_image \<pi> ap ap' \<Longrightarrow> call_image \<pi> f f' \<Longrightarrow>
    run_image \<pi> (admin_await ap f extract loc operation) (admin_await ap' f' extract loc operation)"
  using loop_image.PollingLoop_image [of \<pi> "ap_polling ap" "ap_polling ap'" f f' "extract" operation loc
      "ap_polling_policy ap"]
  by (simp add: policies_image_def admin_await_def run_image_def)

lemma long_running_image:
  assumes "policies_image \<pi> ap ap'" and f: "call_image \<pi> f f'"
    and await: "\<And>operation. run_image \<pi> (await operation) (await' operation)"
  shows "run_image \<pi> (long_running ap i f req loc await) (long_running ap' i f' req loc await')"
  unfolding run_image_def long_running_def
  by (auto simp: run_imageD [OF admin_call_image [OF assms(1) f]] run_imageD [OF await]
      split: option.splits prod.splits sum.splits)

end
