(* ===== verification/Database_Admin.thy ===== *)
theory Database_Admin
  imports Admin_Operations Requests
begin

text \<open>
  \<open>database_admin_connection.cc\<close> and \<open>database_admin_client.cc\<close>: databases, their IAM policies and
  backups. A message the code does not look into is its serialized text, and so is the \<open>Any\<close> that a
  long running operation ends with.
\<close>

section \<open>The service\<close>

record create_database_request =
  cdr_parent :: string
  cdr_create_statement :: string
  cdr_extra_statements :: "string list"

record update_ddl_request =
  udr_database :: string
  udr_statements :: "string list"

record restore_request =
  rdr_parent :: string
  rdr_database_id :: string
  rdr_backup :: string

record backup_proto =
  bkp_name :: string
  bkp_database :: string
  bkp_expire_time :: "proto_timestamp option"

record create_backup_request =
  cbr_parent :: string
  cbr_backup_id :: string
  cbr_backup :: backup_proto

record update_backup_request =
  ubr_backup :: backup_proto
  ubr_update_mask :: "string list"

record 'w database_admin_stub =
  da_CreateDatabase :: "create_database_request \<Rightarrow> 'w \<Rightarrow> operation status_or \<times> 'w"
  da_GetDatabase :: "string \<Rightarrow> 'w \<Rightarrow> string status_or \<times> 'w"
  da_GetDatabaseDdl :: "string \<Rightarrow> 'w \<Rightarrow> string list status_or \<times> 'w"
  da_UpdateDatabase :: "update_ddl_request \<Rightarrow> 'w \<Rightarrow> operation status_or \<times> 'w"
  da_DropDatabase :: "string \<Rightarrow> 'w \<Rightarrow> unit status_or \<times> 'w"
  da_ListDatabases :: "list_request \<Rightarrow> 'w \<Rightarrow> string list_response status_or \<times> 'w"
  da_RestoreDatabase :: "restore_request \<Rightarrow> 'w \<Rightarrow> operation status_or \<times> 'w"
  da_GetIamPolicy :: "string \<Rightarrow> 'w \<Rightarrow> iam_policy status_or \<times> 'w"
  da_SetIamPolicy :: "set_iam_request \<Rightarrow> 'w \<Rightarrow> iam_policy status_or \<times> 'w"
  da_TestIamPermissions :: "test_iam_request \<Rightarrow> 'w \<Rightarrow> string list status_or \<times> 'w"
  da_CreateBackup :: "create_backup_request \<Rightarrow> 'w \<Rightarrow> operation status_or \<times> 'w"
  da_GetBackup :: "string \<Rightarrow> 'w \<Rightarrow> backup_proto status_or \<times> 'w"
  da_DeleteBackup :: "string \<Rightarrow> 'w \<Rightarrow> unit status_or \<times> 'w"
  da_ListBackups :: "filtered_list_request \<Rightarrow> 'w \<Rightarrow> backup_proto list_response status_or \<times> 'w"
  da_UpdateBackup :: "update_backup_request \<Rightarrow> 'w \<Rightarrow> backup_proto status_or \<times> 'w"
  da_ListBackupOperations :: "filtered_list_request \<Rightarrow> 'w \<Rightarrow> operation list_response status_or \<times> 'w"
  da_ListDatabaseOperations :: "filtered_list_request \<Rightarrow> 'w \<Rightarrow> operation list_response status_or \<times> 'w"
  da_GetOperation :: "string \<Rightarrow> 'w \<Rightarrow> operation status_or \<times> 'w"
  da_CancelOperation :: "string \<Rightarrow> 'w \<Rightarrow> unit status_or \<times> 'w"

record ('p, 'b, 'w) database_admin =
  dc_policies :: "('p, 'b, 'w) admin_policies"
  dc_stub :: "'w database_admin_stub"

section \<open>Databases\<close>

definition AwaitDatabase :: "('p, 'b, 'w) database_admin \<Rightarrow> operation \<Rightarrow> 'w \<Rightarrow> (any status_or \<times> 'w) option" where
  "AwaitDatabase c = admin_await (dc_policies c) (da_GetOperation (dc_stub c))
     (PollingLoopResponseExtractor ''google.spanner.admin.database.v1.Database'') ''AwaitDatabase''"

definition AwaitUpdateDatabase ::
    "('p, 'b, 'w) database_admin \<Rightarrow> operation \<Rightarrow> 'w \<Rightarrow> (any status_or \<times> 'w) option" where
  "AwaitUpdateDatabase c = admin_await (dc_policies c) (da_GetOperation (dc_stub c))
     (PollingLoopMetadataExtractor ''google.spanner.admin.database.v1.UpdateDatabaseDdlMetadata'')
     ''AwaitUpdateDatabase''"

definition AwaitCreateBackup ::
    "('p, 'b, 'w) database_admin \<Rightarrow> operation \<Rightarrow> 'w \<Rightarrow> (any status_or \<times> 'w) option" where
  "AwaitCreateBackup c = admin_await (dc_policies c) (da_GetOperation (dc_stub c))
     (PollingLoopResponseExtractor ''google.spanner.admin.database.v1.Backup'') ''AwaitCreateBackup''"

text \<open>The callback of a future that is cancelled.\<close>

definition cancel_backup :: "('p, 'b, 'w) database_admin \<Rightarrow> operation \<Rightarrow> 'w \<Rightarrow> 'w" where
  "cancel_backup c operation w = snd (da_CancelOperation (dc_stub c) (op_name operation) w)"

definition create_database_request_for :: "database \<Rightarrow> string list \<Rightarrow> create_database_request" where
  "create_database_request_for db extra_statements =
     \<lparr>cdr_parent = Instance_FullName (db_instance db),
      cdr_create_statement = ''CREATE DATABASE `'' @ database_id db @ ''`'',
      cdr_extra_statements = extra_statements\<rparr>"

definition CreateDatabase ::
    "('p, 'b, 'w) database_admin \<Rightarrow> database \<Rightarrow> string list \<Rightarrow> 'w \<Rightarrow> (any status_or \<times> 'w) option" where
  "CreateDatabase c db extra_statements =
     long_running (dc_policies c) False (da_CreateDatabase (dc_stub c))
       (create_database_request_for db extra_statements) ''CreateDatabase'' (AwaitDatabase c)"

definition GetDatabase :: "('p, 'b, 'w) database_admin \<Rightarrow> database \<Rightarrow> 'w \<Rightarrow> (string status_or \<times> 'w) option" where
  "GetDatabase c db =
     admin_call (dc_policies c) True (da_GetDatabase (dc_stub c)) (Database_FullName db) ''GetDatabase''"

definition GetDatabaseDdl ::
    "('p, 'b, 'w) database_admin \<Rightarrow> database \<Rightarrow> 'w \<Rightarrow> (string list status_or \<times> 'w) option" where
  "GetDatabaseDdl c db =
     admin_call (dc_policies c) True (da_GetDatabaseDdl (dc_stub c)) (Database_FullName db) ''GetDatabaseDdl''"

definition UpdateDatabase ::
    "('p, 'b, 'w) database_admin \<Rightarrow> database \<Rightarrow> string list \<Rightarrow> 'w \<Rightarrow> (any status_or \<times> 'w) option" where
  "UpdateDatabase c db statements =
     long_running (dc_policies c) False (da_UpdateDatabase (dc_stub c))
       \<lparr>udr_database = Database_FullName db, udr_statements = statements\<rparr> ''UpdateDatabase''
       (AwaitUpdateDatabase c)"

definition DropDatabase :: "('p, 'b, 'w) database_admin \<Rightarrow> database \<Rightarrow> 'w \<Rightarrow> (status \<times> 'w) option" where
  "DropDatabase c db w =
     map_option (\<lambda>(r, w). (result_status r, w))
       (admin_call (dc_policies c) True (da_DropDatabase (dc_stub c)) (Database_FullName db) ''DropDatabase'' w)"

definition RestoreDatabase ::
    "('p, 'b, 'w) database_admin \<Rightarrow> database \<Rightarrow> string \<Rightarrow> 'w \<Rightarrow> (any status_or \<times> 'w) option" where
  "RestoreDatabase c db backup_full_name =
     long_running (dc_policies c) False (da_RestoreDatabase (dc_stub c))
       \<lparr>rdr_parent = Instance_FullName (db_instance db), rdr_database_id = database_id db,
        rdr_backup = backup_full_name\<rparr> ''RestoreDatabase'' (AwaitDatabase c)"

text \<open>
  A list is a range of the library, made of the first request, the loader of a page and the items of
  a page.
\<close>

definition ListDatabases where
  "ListDatabases c paginate inst =
     paginate \<lparr>lr_parent = Instance_FullName inst, lr_page_token = []\<rparr>
       (\<lambda>r. admin_call (dc_policies c) True (da_ListDatabases (dc_stub c)) r ''ListDatabases'') lr_items"

definition ListBackups where
  "ListBackups c paginate inst flt =
     paginate \<lparr>flr_parent = Instance_FullName inst, flr_filter = flt, flr_page_token = []\<rparr>
       (\<lambda>r. admin_call (dc_policies c) True (da_ListBackups (dc_stub c)) r ''ListBackups'') lr_items"

definition ListBackupOperations where
  "ListBackupOperations c paginate inst flt =
     paginate \<lparr>flr_parent = Instance_FullName inst, flr_filter = flt, flr_page_token = []\<rparr>
       (\<lambda>r. admin_call (dc_policies c) True (da_ListBackupOperations (dc_stub c)) r ''ListBackupOperations'')
       lr_items"

definition ListDatabaseOperations where
  "ListDatabaseOperations c paginate inst flt =
     paginate \<lparr>flr_parent = Instance_FullName inst, flr_filter = flt, flr_page_token = []\<rparr>
       (\<lambda>r. admin_call (dc_policies c) True (da_ListDatabaseOperations (dc_stub c)) r
          ''ListDatabaseOperations'')
       lr_items"

section \<open>IAM policies\<close>

definition Database_GetIamPolicy ::
    "('p, 'b, 'w) database_admin \<Rightarrow> database \<Rightarrow> 'w \<Rightarrow> (iam_policy status_or \<times> 'w) option" where
  "Database_GetIamPolicy c db =
     admin_GetIamPolicy (dc_policies c) (da_GetIamPolicy (dc_stub c)) (Database_FullName db)"

definition Database_SetIamPolicy ::
    "('p, 'b, 'w) database_admin \<Rightarrow> database \<Rightarrow> iam_policy \<Rightarrow> 'w \<Rightarrow> (iam_policy status_or \<times> 'w) option" where
  "Database_SetIamPolicy c db policy =
     admin_SetIamPolicy (dc_policies c) (da_SetIamPolicy (dc_stub c)) (Database_FullName db) policy"

definition Database_SetIamPolicy_updater ::
    "('q, 'd, 'w) retry_env \<Rightarrow> ('p, 'b, 'w) database_admin \<Rightarrow> database \<Rightarrow>
     (iam_policy \<Rightarrow> iam_policy option) \<Rightarrow> 'q \<Rightarrow> 'd \<Rightarrow> 'w \<Rightarrow> (iam_policy status_or \<times> 'w) option" where
  "Database_SetIamPolicy_updater env c db updater =
     SetIamPolicy_loop env (Database_GetIamPolicy c db) (Database_SetIamPolicy c db) updater"

definition Database_SetIamPolicy_default where
  "Database_SetIamPolicy_default env limited_time exponential c db updater =
     SetIamPolicy_default env limited_time exponential (Database_SetIamPolicy_updater env c db updater)"

definition Database_TestIamPermissions ::
    "('p, 'b, 'w) database_admin \<Rightarrow> database \<Rightarrow> string list \<Rightarrow> 'w \<Rightarrow> (string list status_or \<times> 'w) option" where
  "Database_TestIamPermissions c db permissions =
     admin_call (dc_policies c) True (da_TestIamPermissions (dc_stub c))
       \<lparr>tir_resource = Database_FullName db, tir_permissions = permissions\<rparr> ''TestIamPermissions''"

section \<open>Backups\<close>

text \<open>\<open>time_utils.h\<close>; \<open>period\<close> is that of the time point, and \<open>None\<close> an overflow.\<close>

definition ConvertTimePointToProtoTimestamp ::
    "int \<times> int \<Rightarrow> int \<Rightarrow> proto_timestamp status_or option" where
  "ConvertTimePointToProtoTimestamp period time_point =
     map_option (map_sum id ToProto) (MakeTimestamp period time_point)"

definition create_backup_request_for :: "database \<Rightarrow> string \<Rightarrow> proto_timestamp \<Rightarrow> create_backup_request" where
  "create_backup_request_for db bid expire_time =
     \<lparr>cbr_parent = Instance_FullName (db_instance db), cbr_backup_id = bid,
      cbr_backup = \<lparr>bkp_name = [], bkp_database = Database_FullName db, bkp_expire_time = Some expire_time\<rparr>\<rparr>"

definition CreateBackup ::
    "('p, 'b, 'w) database_admin \<Rightarrow> int \<times> int \<Rightarrow> database \<Rightarrow> string \<Rightarrow> int \<Rightarrow> 'w \<Rightarrow>
     (any status_or \<times> 'w) option" where
  "CreateBackup c period db bid expire_time w =
     (case ConvertTimePointToProtoTimestamp period expire_time of
        None \<Rightarrow> None
      | Some (Inl status) \<Rightarrow> Some (Inl status, w)
      | Some (Inr proto_expire_time) \<Rightarrow>
          long_running (dc_policies c) False (da_CreateBackup (dc_stub c))
            (create_backup_request_for db bid proto_expire_time) ''CreateBackup'' (AwaitCreateBackup c) w)"

definition GetBackup :: "('p, 'b, 'w) database_admin \<Rightarrow> string \<Rightarrow> 'w \<Rightarrow> (backup_proto status_or \<times> 'w) option" where
  "GetBackup c name = admin_call (dc_policies c) True (da_GetBackup (dc_stub c)) name ''GetBackup''"

definition DeleteBackup :: "('p, 'b, 'w) database_admin \<Rightarrow> string \<Rightarrow> 'w \<Rightarrow> (status \<times> 'w) option" where
  "DeleteBackup c name w =
     map_option (\<lambda>(r, w). (result_status r, w))
       (admin_call (dc_policies c) True (da_DeleteBackup (dc_stub c)) name ''DeleteBackup'' w)"

definition UpdateBackup ::
    "('p, 'b, 'w) database_admin \<Rightarrow> update_backup_request \<Rightarrow> 'w \<Rightarrow> (backup_proto status_or \<times> 'w) option" where
  "UpdateBackup c request =
     admin_call (dc_policies c) True (da_UpdateBackup (dc_stub c)) request ''UpdateBackup''"

text \<open>The client takes a backup by its resource name or as the proto of a backup.\<close>

definition Client_GetBackup where
  "Client_GetBackup c b = GetBackup c (Backup_FullName b)"

definition Client_DeleteBackup where
  "Client_DeleteBackup c b = DeleteBackup c (Backup_FullName b)"

definition Client_DeleteBackup_proto where
  "Client_DeleteBackup_proto c b = DeleteBackup c (bkp_name b)"

definition Client_RestoreDatabase where
  "Client_RestoreDatabase c db b = RestoreDatabase c db (Backup_FullName b)"

definition Client_RestoreDatabase_proto where
  "Client_RestoreDatabase_proto c db b = RestoreDatabase c db (bkp_name b)"

definition UpdateBackupExpireTime_named ::
    "('p, 'b, 'w) database_admin \<Rightarrow> int \<times> int \<Rightarrow> string \<Rightarrow> int \<Rightarrow> 'w \<Rightarrow>
     (backup_proto status_or \<times> 'w) option" where
  "UpdateBackupExpireTime_named c period name expire_time w =
     (case ConvertTimePointToProtoTimestamp period expire_time of
        None \<Rightarrow> None
      | Some (Inl status) \<Rightarrow> Some (Inl status, w)
      | Some (Inr proto_expire_time) \<Rightarrow>
          UpdateBackup c
            \<lparr>ubr_backup = \<lparr>bkp_name = name, bkp_database = [], bkp_expire_time = Some proto_expire_time\<rparr>,
             ubr_update_mask = [''expire_time'']\<rparr> w)"

definition UpdateBackupExpireTime where
  "UpdateBackupExpireTime c period b = UpdateBackupExpireTime_named c period (Backup_FullName b)"

definition UpdateBackupExpireTime_proto where
  "UpdateBackupExpireTime_proto c period b = UpdateBackupExpireTime_named c period (bkp_name b)"

section \<open>Properties\<close>

text \<open>
  An update of a database's policy never loses another client's update: when it succeeds, then
  the updater was applied to the very policy that its write replaced, in one step of the service, or
  it was applied to a policy that was in force and asked for no change. This holds whatever others do
  between the reads and the writes.
\<close>

theorem update_policy_atomic:
  assumes "iam_service current (da_GetIamPolicy (dc_stub c)) (da_SetIamPolicy (dc_stub c))"
    and "Database_SetIamPolicy_updater env c db updater q d w = Some (Inr r, w')"
    and "resource = Database_FullName db"
  shows "(\<exists>w1. r = current resource w1 \<and> updater r = None) \<or>
    (\<exists>w1 desired. updater (current resource w1) = Some desired \<and>
       da_SetIamPolicy (dc_stub c) \<lparr>sir_resource = resource,
         sir_policy = desired\<lparr>policy_etag := policy_etag (current resource w1)\<rparr>\<rparr> w1 = (Inr r, w'))"
  using iam_service.SetIamPolicy_atomic [OF assms(1) assms(2) [unfolded Database_SetIamPolicy_updater_def
      Database_GetIamPolicy_def Database_SetIamPolicy_def, folded assms(3)]] .

text \<open>
  A service whose policy names one member, with the etag \<open>v\<close> and this name; another client changes
  \<open>a\<close> to \<open>ab\<close> after the first read.
\<close>

definition demo_current :: "string \<Rightarrow> string \<Rightarrow> iam_policy" where
  "demo_current resource w = \<lparr>policy_version = 1, policy_bindings = [(''role'', [w])], policy_etag = CHR ''v'' # w\<rparr>"

definition demo_get_policy :: "string \<Rightarrow> string \<Rightarrow> iam_policy status_or \<times> string" where
  "demo_get_policy resource w = (Inr (demo_current resource w), if w = ''a'' then ''ab'' else w)"

fun policy_member :: "iam_policy \<Rightarrow> string" where
  "policy_member p = (case policy_bindings p of (_, m # _) # _ \<Rightarrow> m | _ \<Rightarrow> [])"

definition demo_set_policy :: "set_iam_request \<Rightarrow> string \<Rightarrow> iam_policy status_or \<times> string" where
  "demo_set_policy req w =
     (let p = sir_policy req; w' = policy_member p
      in if policy_etag p \<noteq> [] \<and> policy_etag p \<noteq> CHR ''v'' # w then (Inl (Status kAborted ''conflict''), w)
         else (Inr (demo_current (sir_resource req) w'), w'))"

interpretation demo_iam: iam_service demo_current demo_get_policy demo_set_policy
  by unfold_locales (auto simp: demo_current_def demo_get_policy_def demo_set_policy_def Let_def split: if_splits)

definition demo_policies :: "(nat, int, 'w) admin_policies" where
  "demo_policies =
     (let env = \<lparr>re_policy = limited_error_count SafeGrpcRetry_IsPermanentFailure, re_backoff = (\<lambda>b. (b, 2 * b)),
            re_sleeper = (\<lambda>d w. w), re_show = message\<rparr>
      in \<lparr>ap_retry = env, ap_policy = 3, ap_backoff = 10, ap_polling = env, ap_polling_policy = (3, 10)\<rparr>)"

definition no_answer :: "'req \<Rightarrow> 'w \<Rightarrow> 'a status_or \<times> 'w" where
  "no_answer req w = (Inl (Status kUnavailable ''down''), w)"

definition demo_admin :: "(nat, int, string) database_admin" where
  "demo_admin =
     \<lparr>dc_policies = demo_policies,
      dc_stub =
        \<lparr>da_CreateDatabase = no_answer, da_GetDatabase = no_answer, da_GetDatabaseDdl = no_answer,
         da_UpdateDatabase = no_answer, da_DropDatabase = no_answer, da_ListDatabases = no_answer,
         da_RestoreDatabase = no_answer, da_GetIamPolicy = demo_get_policy, da_SetIamPolicy = demo_set_policy,
         da_TestIamPermissions = no_answer, da_CreateBackup = no_answer, da_GetBackup = no_answer,
         da_DeleteBackup = no_answer, da_ListBackups = no_answer, da_UpdateBackup = no_answer,
         da_ListBackupOperations = no_answer, da_ListDatabaseOperations = no_answer,
         da_GetOperation = no_answer, da_CancelOperation = no_answer\<rparr>\<rparr>"

definition demo_rerun :: "(nat, int, 'w) retry_env" where
  "demo_rerun = \<lparr>re_policy = limited_error_count SafeTransactionRerun_IsPermanentFailure,
     re_backoff = (\<lambda>b. (b, 2 * b)), re_sleeper = (\<lambda>d w. w), re_show = message\<rparr>"

definition demo_updater :: "iam_policy \<Rightarrow> iam_policy option" where
  "demo_updater p = Some (p\<lparr>policy_bindings := [(''role'', [policy_member p @ ''c''])]\<rparr>)"

definition demo_database :: database where
  "demo_database = \<lparr>db_instance = \<lparr>project_id = ''p'', instance_id = ''i''\<rparr>, database_id = ''d''\<rparr>"

lemmas demo_admin_simps = admin_GetIamPolicy_def admin_SetIamPolicy_def admin_call_def RetryLoop_def
  RetryLoop_while.simps demo_policies_def demo_get_policy_def demo_set_policy_def demo_current_def
  limited_error_count_def SafeGrpcRetry_IsPermanentFailure_def SafeGrpcRetry_IsTransientFailure_def
  SafeTransactionRerun_IsPermanentFailure_def SafeTransactionRerun_IsTransientFailure_def
  RetryLoopError_def demo_rerun_def demo_updater_def iam_attempt_def Let_def

lemma demo_update:
  "Database_SetIamPolicy_updater demo_rerun demo_admin demo_database demo_updater 3 100 ''a'' =
     Some (Inr (demo_current (Database_FullName demo_database) ''abc''), ''abc'')"
  by (simp add: Database_SetIamPolicy_updater_def Database_GetIamPolicy_def Database_SetIamPolicy_def
      SetIamPolicy_loop.simps demo_admin_def demo_admin_simps)

theorem update_policy_atomic_witness:
  "\<exists>w1. w1 = ''ab'' \<and> demo_updater (demo_current (Database_FullName demo_database) w1) \<noteq> None \<and>
     Database_SetIamPolicy_updater demo_rerun demo_admin demo_database demo_updater 3 100 ''a'' =
       Some (Inr (demo_current (Database_FullName demo_database) (w1 @ ''c'')), w1 @ ''c'')"
proof -
  have s: "iam_service demo_current (da_GetIamPolicy (dc_stub demo_admin)) (da_SetIamPolicy (dc_stub demo_admin))"
    using demo_iam.iam_service_axioms by (simp add: demo_admin_def)
  obtain w1 where "da_SetIamPolicy (dc_stub demo_admin) \<lparr>sir_resource = Database_FullName demo_database,
      sir_policy = the (demo_updater (demo_current (Database_FullName demo_database) w1))\<lparr>policy_etag :=
        policy_etag (demo_current (Database_FullName demo_database) w1)\<rparr>\<rparr> w1 =
      (Inr (demo_current (Database_FullName demo_database) ''abc''), ''abc'')"
    using update_policy_atomic [OF s demo_update refl] by (auto simp: demo_updater_def)
  then have "w1 @ ''c'' = ''ab'' @ ''c''"
    by (simp add: demo_admin_def demo_set_policy_def demo_updater_def demo_current_def Let_def)
  then have "w1 = ''ab''" by blast
  then show ?thesis using demo_update by (simp add: demo_updater_def)
qed

definition single_call ::
    "('p, 'b, 'w) admin_policies \<Rightarrow> ('req \<Rightarrow> 'w \<Rightarrow> operation status_or \<times> 'w) \<Rightarrow> 'req \<Rightarrow> string \<Rightarrow>
     (operation \<Rightarrow> 'w \<Rightarrow> ('a status_or \<times> 'w) option) \<Rightarrow> 'w \<Rightarrow> ('a status_or \<times> 'w) option" where
  "single_call ap rpc request location await w =
     (if IsExhausted (re_policy (ap_retry ap)) (ap_policy ap) then
        Some (Inl (RetryLoopError (re_show (ap_retry ap)) ''Retry policy exhausted in'' location ok_status), w)
      else case rpc request w of
             (Inl st, w') \<Rightarrow> Some (Inl (RetryLoopError (re_show (ap_retry ap))
               ''Error in non-idempotent operation'' location st), w')
           | (Inr operation, w') \<Rightarrow> await operation w')"

lemma long_running_once: "long_running ap False rpc request location await w = single_call ap rpc request location await w"
  by (auto simp: long_running_def admin_call_once single_call_def split: prod.splits sum.splits)

text \<open>
  C31: Operations that must not be repeated are sent at most once: creating, changing and restoring a
  database and creating a backup make one call, whatever it answers, and afterwards only poll the
  operation that it started; a failed call is reported with its code.
\<close>

theorem operations_sent_once:
  "CreateDatabase c db extra w = single_call (dc_policies c) (da_CreateDatabase (dc_stub c))
     (create_database_request_for db extra) ''CreateDatabase'' (AwaitDatabase c) w \<and>
   UpdateDatabase c db statements w = single_call (dc_policies c) (da_UpdateDatabase (dc_stub c))
     \<lparr>udr_database = Database_FullName db, udr_statements = statements\<rparr> ''UpdateDatabase''
     (AwaitUpdateDatabase c) w \<and>
   RestoreDatabase c db name w = single_call (dc_policies c) (da_RestoreDatabase (dc_stub c))
     \<lparr>rdr_parent = Instance_FullName (db_instance db), rdr_database_id = database_id db, rdr_backup = name\<rparr>
     ''RestoreDatabase'' (AwaitDatabase c) w \<and>
   CreateBackup c period db bid expire_time w =
     (case ConvertTimePointToProtoTimestamp period expire_time of
        None \<Rightarrow> None
      | Some (Inl status) \<Rightarrow> Some (Inl status, w)
      | Some (Inr t) \<Rightarrow> single_call (dc_policies c) (da_CreateBackup (dc_stub c))
          (create_backup_request_for db bid t) ''CreateBackup'' (AwaitCreateBackup c) w)"
  by (simp add: CreateDatabase_def UpdateDatabase_def RestoreDatabase_def CreateBackup_def long_running_once
      split: option.split sum.split)

end
