(* ===== verification/Instance_Admin.thy ===== *)
theory Instance_Admin
  imports Admin_Operations Requests
begin

text \<open>
  \<open>instance_admin_connection.cc\<close>, \<open>instance_admin_client.cc\<close> and the builders of
  \<open>create_instance_request_builder.h\<close> and \<open>update_instance_request_builder.h\<close>: instances and their
  IAM policies.
\<close>

section \<open>Requests and their builders\<close>

text \<open>The labels are a \<open>protobuf::Map\<close>, whose \<open>insert\<close> keeps an entry that is there.\<close>

record instance_proto =
  ip_name :: string
  ip_config :: string
  ip_display_name :: string
  ip_node_count :: int
  ip_labels :: "string \<rightharpoonup> string"

definition default_instance :: instance_proto where
  "default_instance = \<lparr>ip_name = [], ip_config = [], ip_display_name = [], ip_node_count = 0, ip_labels = (\<lambda>_. None)\<rparr>"

record create_instance_request =
  cir_parent :: string
  cir_instance_id :: string
  cir_instance :: instance_proto

record update_instance_request =
  uir_instance :: instance_proto
  uir_field_mask :: "string list"

fun insert_labels :: "(string \<times> string) list \<Rightarrow> (string \<rightharpoonup> string) \<Rightarrow> (string \<rightharpoonup> string)" where
  "insert_labels [] m = m"
| "insert_labels ((k, v) # labels) m = insert_labels labels (if m k = None then m(k \<mapsto> v) else m)"

definition CreateInstanceRequestBuilder :: "cloud_instance \<Rightarrow> string \<Rightarrow> create_instance_request" where
  "CreateInstanceRequestBuilder inst config =
     \<lparr>cir_parent = ''projects/'' @ project_id inst, cir_instance_id = instance_id inst,
      cir_instance = default_instance\<lparr>ip_name := Instance_FullName inst, ip_display_name := instance_id inst,
        ip_node_count := 1, ip_config := config\<rparr>\<rparr>"

definition Create_SetDisplayName :: "string \<Rightarrow> create_instance_request \<Rightarrow> create_instance_request" where
  "Create_SetDisplayName name r = r\<lparr>cir_instance := (cir_instance r)\<lparr>ip_display_name := name\<rparr>\<rparr>"

definition Create_SetNodeCount :: "int \<Rightarrow> create_instance_request \<Rightarrow> create_instance_request" where
  "Create_SetNodeCount n r = r\<lparr>cir_instance := (cir_instance r)\<lparr>ip_node_count := n\<rparr>\<rparr>"

definition Create_SetLabels :: "(string \<times> string) list \<Rightarrow> create_instance_request \<Rightarrow> create_instance_request" where
  "Create_SetLabels labels r =
     r\<lparr>cir_instance := (cir_instance r)\<lparr>ip_labels := insert_labels labels (ip_labels (cir_instance r))\<rparr>\<rparr>"

definition UpdateInstanceRequestBuilder :: update_instance_request where
  "UpdateInstanceRequestBuilder = \<lparr>uir_instance = default_instance, uir_field_mask = []\<rparr>"

definition UpdateInstanceRequestBuilder_name :: "string \<Rightarrow> update_instance_request" where
  "UpdateInstanceRequestBuilder_name name =
     UpdateInstanceRequestBuilder\<lparr>uir_instance := default_instance\<lparr>ip_name := name\<rparr>\<rparr>"

definition UpdateInstanceRequestBuilder_instance :: "cloud_instance \<Rightarrow> update_instance_request" where
  "UpdateInstanceRequestBuilder_instance inst =
     UpdateInstanceRequestBuilder\<lparr>uir_instance := default_instance\<lparr>ip_name := Instance_FullName inst\<rparr>\<rparr>"

definition UpdateInstanceRequestBuilder_proto :: "instance_proto \<Rightarrow> update_instance_request" where
  "UpdateInstanceRequestBuilder_proto inst = UpdateInstanceRequestBuilder\<lparr>uir_instance := inst\<rparr>"

text \<open>\<open>FieldMaskUtil::IsPathInFieldMask\<close> for the name of a field at the top.\<close>

definition add_path :: "string \<Rightarrow> update_instance_request \<Rightarrow> update_instance_request" where
  "add_path path r =
     (if path \<in> set (uir_field_mask r) then r else r\<lparr>uir_field_mask := uir_field_mask r @ [path]\<rparr>)"

definition Update_SetName :: "string \<Rightarrow> update_instance_request \<Rightarrow> update_instance_request" where
  "Update_SetName name r = r\<lparr>uir_instance := (uir_instance r)\<lparr>ip_name := name\<rparr>\<rparr>"

definition Update_SetDisplayName :: "string \<Rightarrow> update_instance_request \<Rightarrow> update_instance_request" where
  "Update_SetDisplayName name r =
     (let r = add_path ''display_name'' r in r\<lparr>uir_instance := (uir_instance r)\<lparr>ip_display_name := name\<rparr>\<rparr>)"

definition Update_SetNodeCount :: "int \<Rightarrow> update_instance_request \<Rightarrow> update_instance_request" where
  "Update_SetNodeCount n r =
     (let r = add_path ''node_count'' r in r\<lparr>uir_instance := (uir_instance r)\<lparr>ip_node_count := n\<rparr>\<rparr>)"

definition Update_AddLabels :: "(string \<times> string) list \<Rightarrow> update_instance_request \<Rightarrow> update_instance_request" where
  "Update_AddLabels labels r =
     (let r = add_path ''labels'' r
      in r\<lparr>uir_instance := (uir_instance r)\<lparr>ip_labels := insert_labels labels (ip_labels (uir_instance r))\<rparr>\<rparr>)"

definition Update_SetLabels :: "(string \<times> string) list \<Rightarrow> update_instance_request \<Rightarrow> update_instance_request" where
  "Update_SetLabels labels r =
     Update_AddLabels labels (r\<lparr>uir_instance := (uir_instance r)\<lparr>ip_labels := (\<lambda>_. None)\<rparr>\<rparr>)"

section \<open>The service and the connection\<close>

record 'w instance_admin_stub =
  ia_GetInstance :: "string \<Rightarrow> 'w \<Rightarrow> instance_proto status_or \<times> 'w"
  ia_CreateInstance :: "create_instance_request \<Rightarrow> 'w \<Rightarrow> operation status_or \<times> 'w"
  ia_UpdateInstance :: "update_instance_request \<Rightarrow> 'w \<Rightarrow> operation status_or \<times> 'w"
  ia_DeleteInstance :: "string \<Rightarrow> 'w \<Rightarrow> unit status_or \<times> 'w"
  ia_GetInstanceConfig :: "string \<Rightarrow> 'w \<Rightarrow> string status_or \<times> 'w"
  ia_ListInstanceConfigs :: "list_request \<Rightarrow> 'w \<Rightarrow> string list_response status_or \<times> 'w"
  ia_ListInstances :: "filtered_list_request \<Rightarrow> 'w \<Rightarrow> instance_proto list_response status_or \<times> 'w"
  ia_GetIamPolicy :: "string \<Rightarrow> 'w \<Rightarrow> iam_policy status_or \<times> 'w"
  ia_SetIamPolicy :: "set_iam_request \<Rightarrow> 'w \<Rightarrow> iam_policy status_or \<times> 'w"
  ia_TestIamPermissions :: "test_iam_request \<Rightarrow> 'w \<Rightarrow> string list status_or \<times> 'w"
  ia_GetOperation :: "string \<Rightarrow> 'w \<Rightarrow> operation status_or \<times> 'w"

record ('p, 'b, 'w) instance_admin =
  ic_policies :: "('p, 'b, 'w) admin_policies"
  ic_stub :: "'w instance_admin_stub"

definition GetInstance :: "('p, 'b, 'w) instance_admin \<Rightarrow> string \<Rightarrow> 'w \<Rightarrow> (instance_proto status_or \<times> 'w) option" where
  "GetInstance c name = admin_call (ic_policies c) True (ia_GetInstance (ic_stub c)) name ''GetInstance''"

definition AwaitCreateOrUpdateInstance ::
    "('p, 'b, 'w) instance_admin \<Rightarrow> operation \<Rightarrow> 'w \<Rightarrow> (any status_or \<times> 'w) option" where
  "AwaitCreateOrUpdateInstance c = admin_await (ic_policies c) (ia_GetOperation (ic_stub c))
     (PollingLoopResponseExtractor ''google.spanner.admin.instance.v1.Instance'') ''AwaitCreateOrUpdateInstance''"

definition CreateInstance ::
    "('p, 'b, 'w) instance_admin \<Rightarrow> create_instance_request \<Rightarrow> 'w \<Rightarrow> (any status_or \<times> 'w) option" where
  "CreateInstance c request =
     long_running (ic_policies c) False (ia_CreateInstance (ic_stub c)) request ''CreateInstance''
       (AwaitCreateOrUpdateInstance c)"

definition UpdateInstance ::
    "('p, 'b, 'w) instance_admin \<Rightarrow> update_instance_request \<Rightarrow> 'w \<Rightarrow> (any status_or \<times> 'w) option" where
  "UpdateInstance c request =
     long_running (ic_policies c) True (ia_UpdateInstance (ic_stub c)) request ''UpdateInstance''
       (AwaitCreateOrUpdateInstance c)"

definition DeleteInstance :: "('p, 'b, 'w) instance_admin \<Rightarrow> string \<Rightarrow> 'w \<Rightarrow> (status \<times> 'w) option" where
  "DeleteInstance c name w =
     map_option (\<lambda>(r, w). (result_status r, w))
       (admin_call (ic_policies c) True (ia_DeleteInstance (ic_stub c)) name ''DeleteInstance'' w)"

definition GetInstanceConfig :: "('p, 'b, 'w) instance_admin \<Rightarrow> string \<Rightarrow> 'w \<Rightarrow> (string status_or \<times> 'w) option" where
  "GetInstanceConfig c name =
     admin_call (ic_policies c) True (ia_GetInstanceConfig (ic_stub c)) name ''GetInstanceConfig''"

definition ListInstanceConfigs where
  "ListInstanceConfigs c paginate project =
     paginate \<lparr>lr_parent = ''projects/'' @ project, lr_page_token = []\<rparr>
       (\<lambda>r. admin_call (ic_policies c) True (ia_ListInstanceConfigs (ic_stub c)) r ''ListInstanceConfigs'')
       lr_items"

definition ListInstances where
  "ListInstances c paginate project flt =
     paginate \<lparr>flr_parent = ''projects/'' @ project, flr_filter = flt, flr_page_token = []\<rparr>
       (\<lambda>r. admin_call (ic_policies c) True (ia_ListInstances (ic_stub c)) r ''ListInstances'') lr_items"

definition Instance_GetIamPolicy ::
    "('p, 'b, 'w) instance_admin \<Rightarrow> string \<Rightarrow> 'w \<Rightarrow> (iam_policy status_or \<times> 'w) option" where
  "Instance_GetIamPolicy c name = admin_GetIamPolicy (ic_policies c) (ia_GetIamPolicy (ic_stub c)) name"

definition Instance_SetIamPolicy ::
    "('p, 'b, 'w) instance_admin \<Rightarrow> string \<Rightarrow> iam_policy \<Rightarrow> 'w \<Rightarrow> (iam_policy status_or \<times> 'w) option" where
  "Instance_SetIamPolicy c name policy =
     admin_SetIamPolicy (ic_policies c) (ia_SetIamPolicy (ic_stub c)) name policy"

definition Instance_TestIamPermissions ::
    "('p, 'b, 'w) instance_admin \<Rightarrow> string \<Rightarrow> string list \<Rightarrow> 'w \<Rightarrow> (string list status_or \<times> 'w) option" where
  "Instance_TestIamPermissions c name permissions =
     admin_call (ic_policies c) True (ia_TestIamPermissions (ic_stub c))
       \<lparr>tir_resource = name, tir_permissions = permissions\<rparr> ''TestIamPermissions''"

section \<open>The client\<close>

definition Client_GetInstance where
  "Client_GetInstance c inst = GetInstance c (Instance_FullName inst)"

definition Client_DeleteInstance where
  "Client_DeleteInstance c inst = DeleteInstance c (Instance_FullName inst)"

definition Client_GetIamPolicy ::
    "('p, 'b, 'w) instance_admin \<Rightarrow> cloud_instance \<Rightarrow> 'w \<Rightarrow> (iam_policy status_or \<times> 'w) option" where
  "Client_GetIamPolicy c inst = Instance_GetIamPolicy c (Instance_FullName inst)"

definition Client_SetIamPolicy ::
    "('p, 'b, 'w) instance_admin \<Rightarrow> cloud_instance \<Rightarrow> iam_policy \<Rightarrow> 'w \<Rightarrow> (iam_policy status_or \<times> 'w) option" where
  "Client_SetIamPolicy c inst policy = Instance_SetIamPolicy c (Instance_FullName inst) policy"

definition Client_TestIamPermissions where
  "Client_TestIamPermissions c inst permissions = Instance_TestIamPermissions c (Instance_FullName inst) permissions"

definition Instance_SetIamPolicy_updater ::
    "('q, 'd, 'w) retry_env \<Rightarrow> ('p, 'b, 'w) instance_admin \<Rightarrow> cloud_instance \<Rightarrow>
     (iam_policy \<Rightarrow> iam_policy option) \<Rightarrow> 'q \<Rightarrow> 'd \<Rightarrow> 'w \<Rightarrow> (iam_policy status_or \<times> 'w) option" where
  "Instance_SetIamPolicy_updater env c inst updater =
     SetIamPolicy_loop env (Client_GetIamPolicy c inst) (Client_SetIamPolicy c inst) updater"

definition Instance_SetIamPolicy_default where
  "Instance_SetIamPolicy_default env limited_time exponential c inst updater =
     SetIamPolicy_default env limited_time exponential (Instance_SetIamPolicy_updater env c inst updater)"

section \<open>What a builder builds\<close>

datatype update_op =
    SetName string | SetDisplayName string | SetNodeCount int
  | AddLabels "(string \<times> string) list" | SetLabels "(string \<times> string) list"

fun run_update_op :: "update_op \<Rightarrow> update_instance_request \<Rightarrow> update_instance_request" where
  "run_update_op (SetName name) = Update_SetName name"
| "run_update_op (SetDisplayName name) = Update_SetDisplayName name"
| "run_update_op (SetNodeCount n) = Update_SetNodeCount n"
| "run_update_op (AddLabels labels) = Update_AddLabels labels"
| "run_update_op (SetLabels labels) = Update_SetLabels labels"

text \<open>The path of the field that an operation changes.\<close>

fun op_path :: "update_op \<Rightarrow> string option" where
  "op_path (SetName _) = None"
| "op_path (SetDisplayName _) = Some ''display_name''"
| "op_path (SetNodeCount _) = Some ''node_count''"
| "op_path (AddLabels _) = Some ''labels''"
| "op_path (SetLabels _) = Some ''labels''"

lemma uir_field_mask_run:
  "uir_field_mask (run_update_op oper r) =
     (case op_path oper of
        Some path \<Rightarrow> if path \<in> set (uir_field_mask r) then uir_field_mask r else uir_field_mask r @ [path]
      | None \<Rightarrow> uir_field_mask r)"
  by (cases oper) (simp_all add: Update_SetName_def Update_SetDisplayName_def Update_SetNodeCount_def
      Update_AddLabels_def Update_SetLabels_def add_path_def)

text \<open>
  What the calls ask for: a field has the value of the last call that sets it, and the labels are the
  entries given since the last \<open>SetLabels\<close>, of which the first with a key counts.
\<close>

fun set_name :: "update_op \<Rightarrow> string option" where
  "set_name (SetName name) = Some name"
| "set_name _ = None"

fun set_display_name :: "update_op \<Rightarrow> string option" where
  "set_display_name (SetDisplayName name) = Some name"
| "set_display_name _ = None"

fun set_node_count :: "update_op \<Rightarrow> int option" where
  "set_node_count (SetNodeCount n) = Some n"
| "set_node_count _ = None"

fun added_labels :: "update_op \<Rightarrow> (string \<times> string) list" where
  "added_labels (AddLabels labels) = labels"
| "added_labels (SetLabels labels) = labels"
| "added_labels _ = []"

fun resets_labels :: "update_op \<Rightarrow> bool" where
  "resets_labels (SetLabels _) \<longleftrightarrow> True"
| "resets_labels _ \<longleftrightarrow> False"

definition latest :: "('a \<Rightarrow> 'b option) \<Rightarrow> 'a list \<Rightarrow> 'b \<Rightarrow> 'b" where
  "latest f xs d = last (d # List.map_filter f xs)"

definition labels_since_set :: "update_op list \<Rightarrow> (string \<rightharpoonup> string) \<Rightarrow> (string \<rightharpoonup> string)" where
  "labels_since_set ops m =
     (let recent = rev (takeWhile (\<lambda>x. \<not> resets_labels x) (rev ops));
          reset = dropWhile (\<lambda>x. \<not> resets_labels x) (rev ops)
      in case reset of
           [] \<Rightarrow> map_of (concat (map added_labels recent)) ++ m
         | x # _ \<Rightarrow> map_of (added_labels x @ concat (map added_labels recent)))"

lemma latest_step [simp]: "latest f [] d = d" "latest f (x # xs) d = latest f xs (case f x of Some v \<Rightarrow> v | None \<Rightarrow> d)"
  by (simp_all add: latest_def List.map_filter_def split: option.split)

lemma insert_labels_map_of: "insert_labels labels m = map_of labels ++ m"
  by (induction labels m rule: insert_labels.induct)
    (auto simp: fun_eq_iff map_add_def split: option.split)

lemma ip_labels_run:
  "ip_labels (uir_instance (run_update_op x r)) =
     map_of (added_labels x) ++ (if resets_labels x then Map.empty else ip_labels (uir_instance r))"
  by (cases x) (simp_all add: Update_SetName_def Update_SetDisplayName_def Update_SetNodeCount_def
      Update_AddLabels_def Update_SetLabels_def add_path_def insert_labels_map_of)

lemma ip_fields_run:
  "ip_name (uir_instance (run_update_op x r)) = (case set_name x of Some v \<Rightarrow> v | None \<Rightarrow> ip_name (uir_instance r))"
  "ip_display_name (uir_instance (run_update_op x r)) =
     (case set_display_name x of Some v \<Rightarrow> v | None \<Rightarrow> ip_display_name (uir_instance r))"
  "ip_node_count (uir_instance (run_update_op x r)) =
     (case set_node_count x of Some v \<Rightarrow> v | None \<Rightarrow> ip_node_count (uir_instance r))"
  "ip_config (uir_instance (run_update_op x r)) = ip_config (uir_instance r)"
  by (cases x; simp add: Update_SetName_def Update_SetDisplayName_def Update_SetNodeCount_def
      Update_AddLabels_def Update_SetLabels_def add_path_def)+

lemma ip_fields_run_all:
  "ip_name (uir_instance (fold run_update_op ops r)) = latest set_name ops (ip_name (uir_instance r))"
  "ip_display_name (uir_instance (fold run_update_op ops r)) =
     latest set_display_name ops (ip_display_name (uir_instance r))"
  "ip_node_count (uir_instance (fold run_update_op ops r)) =
     latest set_node_count ops (ip_node_count (uir_instance r))"
  "ip_config (uir_instance (fold run_update_op ops r)) = ip_config (uir_instance r)"
  by (induction ops arbitrary: r) (simp_all add: ip_fields_run)

lemma labels_since_set_snoc:
  "labels_since_set (ops @ [x]) m =
     map_of (added_labels x) ++ (if resets_labels x then Map.empty else labels_since_set ops m)"
proof (cases "\<exists>y \<in> set ops. resets_labels y")
  case True
  then show ?thesis by (auto simp: labels_since_set_def Let_def split: list.split)
next
  case False
  then have no_reset: "dropWhile (\<lambda>y. \<not> resets_labels y) (rev ops) = []"
    "takeWhile (\<lambda>y. \<not> resets_labels y) (rev ops) = rev ops" by (simp_all add: takeWhile_eq_all_conv)
  show ?thesis by (simp add: labels_since_set_def Let_def no_reset)
qed

lemma ip_labels_run_all:
  "ip_labels (uir_instance (fold run_update_op ops r)) = labels_since_set ops (ip_labels (uir_instance r))"
proof (induction ops rule: rev_induct)
  case Nil
  then show ?case by (simp add: labels_since_set_def)
next
  case (snoc x ops)
  then show ?case by (simp add: ip_labels_run labels_since_set_snoc)
qed

lemma run_update_ops_mask:
  "distinct (uir_field_mask r) \<Longrightarrow> distinct (uir_field_mask (fold run_update_op ops r)) \<and>
     set (uir_field_mask (fold run_update_op ops r)) =
       set (uir_field_mask r) \<union> {path. Some path \<in> op_path ` set ops}"
proof (induction ops arbitrary: r)
  case (Cons oper ops)
  have "distinct (uir_field_mask (run_update_op oper r))"
    using Cons.prems by (simp add: uir_field_mask_run split: option.split)
  from Cons.IH [OF this] show ?case by (auto simp: uir_field_mask_run split: option.splits if_splits)
qed simp

section \<open>Properties\<close>

text \<open>
  C40: The request of an update, for whatever calls of the setters in whatever order on a builder with
  an empty mask. Its field mask lists the path of each field that a call of \<open>SetDisplayName\<close>,
  \<open>SetNodeCount\<close>, \<open>AddLabels\<close> or \<open>SetLabels\<close> sets, once each, and no other; \<open>SetName\<close>, which says what
  instance is meant, adds no path. The name, the display name and the number of nodes are the last
  that were set, or those the builder began with; the labels are the entries since the last
  \<open>SetLabels\<close>, or all and those the builder began with, which an entry added later does not replace;
  the configuration stays.
\<close>

theorem update_mask_exact:
  assumes "uir_field_mask r0 = []" "r = fold run_update_op ops r0"
  shows "distinct (uir_field_mask r) \<and> set (uir_field_mask r) = {path. Some path \<in> op_path ` set ops} \<and>
    ip_name (uir_instance r) = latest set_name ops (ip_name (uir_instance r0)) \<and>
    ip_display_name (uir_instance r) = latest set_display_name ops (ip_display_name (uir_instance r0)) \<and>
    ip_node_count (uir_instance r) = latest set_node_count ops (ip_node_count (uir_instance r0)) \<and>
    ip_labels (uir_instance r) = labels_since_set ops (ip_labels (uir_instance r0)) \<and>
    ip_config (uir_instance r) = ip_config (uir_instance r0)"
  using run_update_ops_mask [of r0 ops] assms by (simp add: ip_fields_run_all ip_labels_run_all)

theorem update_mask_exact_witness:
  "let r = fold run_update_op [SetNodeCount 2, AddLabels [(''j'', ''u'')], SetLabels [(''k'', ''v'')],
       SetName ''n'', AddLabels [(''k'', ''w''), (''l'', ''x'')], SetNodeCount 3] UpdateInstanceRequestBuilder
   in set (uir_field_mask r) = {''node_count'', ''labels''} \<and> ip_name (uir_instance r) = ''n'' \<and>
     ip_node_count (uir_instance r) = 3 \<and> ip_display_name (uir_instance r) = [] \<and>
     ip_labels (uir_instance r) = [''l'' \<mapsto> ''x'', ''k'' \<mapsto> ''v'']"
proof -
  let ?ops = "[SetNodeCount 2, AddLabels [(''j'', ''u'')], SetLabels [(''k'', ''v'')],
       SetName ''n'', AddLabels [(''k'', ''w''), (''l'', ''x'')], SetNodeCount 3]"
  have mask: "uir_field_mask UpdateInstanceRequestBuilder = []" by (simp add: UpdateInstanceRequestBuilder_def)
  have paths: "{path. Some path \<in> op_path ` set ?ops} = {''node_count'', ''labels''}" by auto
  have labels: "labels_since_set ?ops m = [''l'' \<mapsto> ''x'', ''k'' \<mapsto> ''v'']" for m
    by (simp add: labels_since_set_def fun_upd_twist)
  show ?thesis using update_mask_exact [OF mask refl, of ?ops]
    unfolding Let_def paths labels by (simp add: UpdateInstanceRequestBuilder_def default_instance_def)
qed

lemma admin_call_total:
  assumes "re_policy (ap_retry ap) = limited_error_count SafeGrpcRetry_IsPermanentFailure" "0 < ap_policy ap"
  shows "admin_call ap i rpc request location w \<noteq> None"
proof -
  let ?rl = "RetryLoop_while (ap_retry ap) i rpc request location (ap_policy ap) (ap_backoff ap) ok_status w"
  have ne: "\<not> IsExhausted (limited_error_count SafeGrpcRetry_IsPermanentFailure) (ap_policy ap)"
    using assms(2) by (simp add: limited_error_count_def)
  have "?rl \<noteq> None"
    using grpc_retry.RetryLoop_while_outcome [OF assms(1) ne, of rpc request "ap_backoff ap" w i location ok_status]
    by (elim exE conjE) (simp only: option.distinct not_False_eq_True)
  then show ?thesis by (simp add: admin_call_def RetryLoop_def)
qed

text \<open>
  C30: The update of an instance's policy always returns: with policies that count failures, after at
  most \<open>n\<close> attempts, whose failures but for the last were all transient, and with what the last one
  gives; it reports a transient failure only after \<open>n\<close> attempts.
\<close>

theorem policy_update_ends:
  assumes "re_policy env = limited_error_count SafeTransactionRerun_IsPermanentFailure" "0 < n"
    and "re_policy (ap_retry (ic_policies c)) = limited_error_count SafeGrpcRetry_IsPermanentFailure"
    and "0 < ap_policy (ic_policies c)"
    and "attempt = iam_attempt (Client_GetIamPolicy c inst) (Client_SetIamPolicy c inst) updater"
  shows "\<exists>sts q' d' w1 r w'. iam_run env attempt n d w sts q' d' w1 \<and> length sts < n \<and>
    (\<forall>st \<in> set sts. \<not> SafeTransactionRerun_IsPermanentFailure st) \<and> attempt w1 = Some (r, w') \<and>
    Instance_SetIamPolicy_updater env c inst updater n d w = Some (r, w') \<and>
    (\<forall>st. r = Inl st \<longrightarrow> SafeTransactionRerun_IsPermanentFailure st \<or> length sts + 1 = n)"
proof -
  have total: "Client_GetIamPolicy c inst w \<noteq> None" "Client_SetIamPolicy c inst p w \<noteq> None" for p w
    using admin_call_total [OF assms(3,4)]
    by (simp_all add: Client_GetIamPolicy_def Instance_GetIamPolicy_def admin_GetIamPolicy_def
        Client_SetIamPolicy_def Instance_SetIamPolicy_def admin_SetIamPolicy_def Let_def)
  have at: "attempt w \<noteq> None" for w
    unfolding assms(5) iam_attempt_def using total by (auto split: option.splits sum.splits)
  obtain sts q' d' w1 where r: "iam_run env attempt n d w sts q' d' w1" "length sts < n"
    "\<forall>st \<in> set sts. \<not> SafeTransactionRerun_IsPermanentFailure st"
    "Instance_SetIamPolicy_updater env c inst updater n d w = attempt w1"
    "\<forall>st w2. attempt w1 = Some (Inl st, w2) \<longrightarrow>
       SafeTransactionRerun_IsPermanentFailure st \<or> length sts + 1 = n"
    using SetIamPolicy_loop_counted [OF assms(1,2), of "Client_GetIamPolicy c inst" "Client_SetIamPolicy c inst"
        updater d w] unfolding assms(5) Instance_SetIamPolicy_updater_def by blast
  obtain x w' where "attempt w1 = Some (x, w')" using at [of w1] by auto
  with r show ?thesis by (intro exI [of _ sts] exI [of _ q'] exI [of _ d'] exI [of _ w1] exI [of _ x] exI [of _ w']) auto
qed

text \<open>A service whose policy is always changed by somebody else; the state counts the writes.\<close>

definition busy_set :: "set_iam_request \<Rightarrow> nat \<Rightarrow> iam_policy status_or \<times> nat" where
  "busy_set req w = (Inl (Status kAborted ''conflict''), w + 1)"

definition busy_get :: "string \<Rightarrow> nat \<Rightarrow> iam_policy status_or \<times> nat" where
  "busy_get req w = (Inr \<lparr>policy_version = 1, policy_bindings = [], policy_etag = ''e''\<rparr>, w)"

definition busy_admin :: "(nat, int, nat) instance_admin" where
  "busy_admin =
     (let env = \<lparr>re_policy = limited_error_count SafeGrpcRetry_IsPermanentFailure, re_backoff = (\<lambda>b. (b, 2 * b)),
            re_sleeper = (\<lambda>d w. w), re_show = message\<rparr>
      in \<lparr>ic_policies = \<lparr>ap_retry = env, ap_policy = 2, ap_backoff = 10, ap_polling = env, ap_polling_policy = (2, 10)\<rparr>,
          ic_stub = \<lparr>ia_GetInstance = (\<lambda>req w. (Inl (Status kUnavailable ''down''), w)),
            ia_CreateInstance = (\<lambda>req w. (Inl (Status kUnavailable ''down''), w)),
            ia_UpdateInstance = (\<lambda>req w. (Inl (Status kUnavailable ''down''), w)),
            ia_DeleteInstance = (\<lambda>req w. (Inl (Status kUnavailable ''down''), w)),
            ia_GetInstanceConfig = (\<lambda>req w. (Inl (Status kUnavailable ''down''), w)),
            ia_ListInstanceConfigs = (\<lambda>req w. (Inl (Status kUnavailable ''down''), w)),
            ia_ListInstances = (\<lambda>req w. (Inl (Status kUnavailable ''down''), w)),
            ia_GetIamPolicy = busy_get, ia_SetIamPolicy = busy_set,
            ia_TestIamPermissions = (\<lambda>req w. (Inl (Status kUnavailable ''down''), w)),
            ia_GetOperation = (\<lambda>req w. (Inl (Status kUnavailable ''down''), w))\<rparr>\<rparr>)"

definition busy_rerun :: "(nat, int, nat) retry_env" where
  "busy_rerun = \<lparr>re_policy = limited_error_count SafeTransactionRerun_IsPermanentFailure,
     re_backoff = (\<lambda>b. (b, 2 * b)), re_sleeper = (\<lambda>d w. w), re_show = message\<rparr>"

theorem policy_update_ends_witness:
  "\<exists>st. Instance_SetIamPolicy_updater busy_rerun busy_admin \<lparr>project_id = ''p'', instance_id = ''i''\<rparr> Some 3 100 0 =
     Some (Inl st, 3) \<and> code st = kAborted \<and>
   (\<exists>r w'. Instance_SetIamPolicy_updater busy_rerun busy_admin \<lparr>project_id = ''p'', instance_id = ''i''\<rparr>
      (\<lambda>p. None) 3 100 0 = Some (r, w'))"
proof -
  let ?i = "\<lparr>project_id = ''p'', instance_id = ''i''\<rparr>"
  have h: "re_policy busy_rerun = limited_error_count SafeTransactionRerun_IsPermanentFailure" "0 < (3 :: nat)"
    "re_policy (ap_retry (ic_policies busy_admin)) = limited_error_count SafeGrpcRetry_IsPermanentFailure"
    "0 < ap_policy (ic_policies busy_admin)"
    by (simp_all add: busy_rerun_def busy_admin_def Let_def)
  have "\<exists>r w'. Instance_SetIamPolicy_updater busy_rerun busy_admin ?i (\<lambda>p. None) 3 100 0 = Some (r, w')"
    using policy_update_ends [OF h refl, of ?i "\<lambda>p. None" 100 0] by blast
  moreover have "\<exists>st. Instance_SetIamPolicy_updater busy_rerun busy_admin ?i Some 3 100 0 = Some (Inl st, 3) \<and>
      code st = kAborted"
    by (simp add: Instance_SetIamPolicy_updater_def SetIamPolicy_loop.simps iam_attempt_def Client_GetIamPolicy_def
        Client_SetIamPolicy_def Instance_GetIamPolicy_def Instance_SetIamPolicy_def admin_GetIamPolicy_def
        admin_SetIamPolicy_def admin_call_def RetryLoop_def RetryLoop_while.simps busy_admin_def busy_get_def
        busy_set_def busy_rerun_def limited_error_count_def SafeGrpcRetry_IsPermanentFailure_def
        SafeGrpcRetry_IsTransientFailure_def SafeTransactionRerun_IsPermanentFailure_def
        SafeTransactionRerun_IsTransientFailure_def RetryLoopError_def Let_def)
  ultimately show ?thesis by blast
qed

end
