(* ===== verification/Admin_Stubs.thy ===== *)
theory Admin_Stubs
  imports Stub_Decorators Loop_Images Database_Admin Instance_Admin
begin

text \<open>
  The stubs that the admin connections are given: gRPC's own ones, which are parameters
  (\<open>internal/database_admin_stub.cc\<close>, \<open>internal/instance_admin_stub.cc\<close>), wrapped by the decorators that
  add routing headers (\<open>internal/database_admin_metadata.cc\<close>, \<open>internal/instance_admin_metadata.cc\<close>) and,
  when RPCs are traced, by those that log (\<open>internal/database_admin_logging.cc\<close>,
  \<open>internal/instance_admin_logging.cc\<close>). The operations of the admin connections on these stubs refine
  the same operations on gRPC itself.
\<close>

section \<open>Databases\<close>

text \<open>A call whose response is empty gives a status.\<close>

definition empty_result :: "('e, 'z) grpc_statuses_scheme \<Rightarrow> 'e \<Rightarrow> status" where
  "empty_result g e = (if \<not> grpc_ok g e then MakeStatusFromRpcError g e else ok_status)"

text \<open>The calls of \<open>DatabaseAdminStub\<close>, and gRPC's stubs \<open>DatabaseAdmin::Stub\<close> and \<open>Operations::Stub\<close>.\<close>

record 'w database_admin_rpcs =
  dr_CreateDatabase :: "(create_database_request, operation status_or, 'w) rpc"
  dr_GetDatabase :: "(string, string status_or, 'w) rpc"
  dr_GetDatabaseDdl :: "(string, string list status_or, 'w) rpc"
  dr_UpdateDatabase :: "(update_ddl_request, operation status_or, 'w) rpc"
  dr_DropDatabase :: "(string, status, 'w) rpc"
  dr_ListDatabases :: "(list_request, string list_response status_or, 'w) rpc"
  dr_RestoreDatabase :: "(restore_request, operation status_or, 'w) rpc"
  dr_GetIamPolicy :: "(string, iam_policy status_or, 'w) rpc"
  dr_SetIamPolicy :: "(set_iam_request, iam_policy status_or, 'w) rpc"
  dr_TestIamPermissions :: "(test_iam_request, string list status_or, 'w) rpc"
  dr_CreateBackup :: "(create_backup_request, operation status_or, 'w) rpc"
  dr_GetBackup :: "(string, backup_proto status_or, 'w) rpc"
  dr_DeleteBackup :: "(string, status, 'w) rpc"
  dr_ListBackups :: "(filtered_list_request, backup_proto list_response status_or, 'w) rpc"
  dr_UpdateBackup :: "(update_backup_request, backup_proto status_or, 'w) rpc"
  dr_ListBackupOperations :: "(filtered_list_request, operation list_response status_or, 'w) rpc"
  dr_ListDatabaseOperations :: "(filtered_list_request, operation list_response status_or, 'w) rpc"
  dr_GetOperation :: "(string, operation status_or, 'w) rpc"
  dr_CancelOperation :: "(string, status, 'w) rpc"

record ('e, 'w) grpc_database_admin = "'e grpc_statuses" +
  gd_CreateDatabase :: "context_md \<Rightarrow> create_database_request \<Rightarrow> 'w \<Rightarrow> ('e \<times> operation) \<times> 'w"
  gd_GetDatabase :: "context_md \<Rightarrow> string \<Rightarrow> 'w \<Rightarrow> ('e \<times> string) \<times> 'w"
  gd_GetDatabaseDdl :: "context_md \<Rightarrow> string \<Rightarrow> 'w \<Rightarrow> ('e \<times> string list) \<times> 'w"
  gd_UpdateDatabase :: "context_md \<Rightarrow> update_ddl_request \<Rightarrow> 'w \<Rightarrow> ('e \<times> operation) \<times> 'w"
  gd_DropDatabase :: "context_md \<Rightarrow> string \<Rightarrow> 'w \<Rightarrow> 'e \<times> 'w"
  gd_ListDatabases :: "context_md \<Rightarrow> list_request \<Rightarrow> 'w \<Rightarrow> ('e \<times> string list_response) \<times> 'w"
  gd_RestoreDatabase :: "context_md \<Rightarrow> restore_request \<Rightarrow> 'w \<Rightarrow> ('e \<times> operation) \<times> 'w"
  gd_GetIamPolicy :: "context_md \<Rightarrow> string \<Rightarrow> 'w \<Rightarrow> ('e \<times> iam_policy) \<times> 'w"
  gd_SetIamPolicy :: "context_md \<Rightarrow> set_iam_request \<Rightarrow> 'w \<Rightarrow> ('e \<times> iam_policy) \<times> 'w"
  gd_TestIamPermissions :: "context_md \<Rightarrow> test_iam_request \<Rightarrow> 'w \<Rightarrow> ('e \<times> string list) \<times> 'w"
  gd_CreateBackup :: "context_md \<Rightarrow> create_backup_request \<Rightarrow> 'w \<Rightarrow> ('e \<times> operation) \<times> 'w"
  gd_GetBackup :: "context_md \<Rightarrow> string \<Rightarrow> 'w \<Rightarrow> ('e \<times> backup_proto) \<times> 'w"
  gd_DeleteBackup :: "context_md \<Rightarrow> string \<Rightarrow> 'w \<Rightarrow> 'e \<times> 'w"
  gd_ListBackups :: "context_md \<Rightarrow> filtered_list_request \<Rightarrow> 'w \<Rightarrow> ('e \<times> backup_proto list_response) \<times> 'w"
  gd_UpdateBackup :: "context_md \<Rightarrow> update_backup_request \<Rightarrow> 'w \<Rightarrow> ('e \<times> backup_proto) \<times> 'w"
  gd_ListBackupOperations :: "context_md \<Rightarrow> filtered_list_request \<Rightarrow> 'w \<Rightarrow> ('e \<times> operation list_response) \<times> 'w"
  gd_ListDatabaseOperations :: "context_md \<Rightarrow> filtered_list_request \<Rightarrow> 'w \<Rightarrow> ('e \<times> operation list_response) \<times> 'w"
  gd_GetOperation :: "context_md \<Rightarrow> string \<Rightarrow> 'w \<Rightarrow> ('e \<times> operation) \<times> 'w"
  gd_CancelOperation :: "context_md \<Rightarrow> string \<Rightarrow> 'w \<Rightarrow> 'e \<times> 'w"

definition DefaultDatabaseAdminStub :: "('e, 'w) grpc_database_admin \<Rightarrow> 'w database_admin_rpcs" where
  "DefaultDatabaseAdminStub g =
     \<lparr>dr_CreateDatabase = default_rpc (unary_result g) (gd_CreateDatabase g),
      dr_GetDatabase = default_rpc (unary_result g) (gd_GetDatabase g),
      dr_GetDatabaseDdl = default_rpc (unary_result g) (gd_GetDatabaseDdl g),
      dr_UpdateDatabase = default_rpc (unary_result g) (gd_UpdateDatabase g),
      dr_DropDatabase = default_rpc (empty_result g) (gd_DropDatabase g),
      dr_ListDatabases = default_rpc (unary_result g) (gd_ListDatabases g),
      dr_RestoreDatabase = default_rpc (unary_result g) (gd_RestoreDatabase g),
      dr_GetIamPolicy = default_rpc (unary_result g) (gd_GetIamPolicy g),
      dr_SetIamPolicy = default_rpc (unary_result g) (gd_SetIamPolicy g),
      dr_TestIamPermissions = default_rpc (unary_result g) (gd_TestIamPermissions g),
      dr_CreateBackup = default_rpc (unary_result g) (gd_CreateBackup g),
      dr_GetBackup = default_rpc (unary_result g) (gd_GetBackup g),
      dr_DeleteBackup = default_rpc (empty_result g) (gd_DeleteBackup g),
      dr_ListBackups = default_rpc (unary_result g) (gd_ListBackups g),
      dr_UpdateBackup = default_rpc (unary_result g) (gd_UpdateBackup g),
      dr_ListBackupOperations = default_rpc (unary_result g) (gd_ListBackupOperations g),
      dr_ListDatabaseOperations = default_rpc (unary_result g) (gd_ListDatabaseOperations g),
      dr_GetOperation = default_rpc (unary_result g) (gd_GetOperation g),
      dr_CancelOperation = default_rpc (empty_result g) (gd_CancelOperation g)\<rparr>"

definition DatabaseAdminMetadata :: "string \<Rightarrow> 'w database_admin_rpcs \<Rightarrow> 'w database_admin_rpcs" where
  "DatabaseAdminMetadata header child =
     \<lparr>dr_CreateDatabase = with_metadata header (\<lambda>r. ''parent='' @ cdr_parent r)
          (dr_CreateDatabase child),
      dr_GetDatabase = with_metadata header (\<lambda>r. ''name='' @ r) (dr_GetDatabase child),
      dr_GetDatabaseDdl = with_metadata header (\<lambda>r. ''name='' @ r) (dr_GetDatabaseDdl child),
      dr_UpdateDatabase = with_metadata header (\<lambda>r. ''database='' @ udr_database r)
          (dr_UpdateDatabase child),
      dr_DropDatabase = with_metadata header (\<lambda>r. ''database='' @ r) (dr_DropDatabase child),
      dr_ListDatabases = with_metadata header (\<lambda>r. ''parent='' @ lr_parent r) (dr_ListDatabases child),
      dr_RestoreDatabase = with_metadata header (\<lambda>r. ''parent='' @ rdr_parent r)
          (dr_RestoreDatabase child),
      dr_GetIamPolicy = with_metadata header (\<lambda>r. ''resource='' @ r) (dr_GetIamPolicy child),
      dr_SetIamPolicy = with_metadata header (\<lambda>r. ''resource='' @ sir_resource r)
          (dr_SetIamPolicy child),
      dr_TestIamPermissions = with_metadata header (\<lambda>r. ''resource='' @ tir_resource r)
          (dr_TestIamPermissions child),
      dr_CreateBackup = with_metadata header (\<lambda>r. ''parent='' @ cbr_parent r) (dr_CreateBackup child),
      dr_GetBackup = with_metadata header (\<lambda>r. ''name='' @ r) (dr_GetBackup child),
      dr_DeleteBackup = with_metadata header (\<lambda>r. ''name='' @ r) (dr_DeleteBackup child),
      dr_ListBackups = with_metadata header (\<lambda>r. ''parent='' @ flr_parent r) (dr_ListBackups child),
      dr_UpdateBackup = with_metadata header (\<lambda>r. ''backup.name='' @ bkp_name (ubr_backup r))
          (dr_UpdateBackup child),
      dr_ListBackupOperations = with_metadata header (\<lambda>r. ''parent='' @ flr_parent r)
          (dr_ListBackupOperations child),
      dr_ListDatabaseOperations = with_metadata header (\<lambda>r. ''parent='' @ flr_parent r)
          (dr_ListDatabaseOperations child),
      dr_GetOperation = with_metadata header (\<lambda>r. ''name='' @ r) (dr_GetOperation child),
      dr_CancelOperation = with_metadata header (\<lambda>r. ''name='' @ r) (dr_CancelOperation child)\<rparr>"

datatype database_admin_message =
    DCreateDatabaseRequest create_database_request | DOperation operation
    | DGetDatabaseRequest string | DDatabase string | DGetDatabaseDdlRequest string
    | DDdl "string list" | DUpdateDatabaseRequest update_ddl_request
    | DDropDatabaseRequest string | DListDatabasesRequest list_request
    | DDatabases "string list_response" | DRestoreDatabaseRequest restore_request
    | DGetIamPolicyRequest string | DPolicy iam_policy | DSetIamPolicyRequest set_iam_request
    | DTestIamPermissionsRequest test_iam_request | DPermissions "string list"
    | DCreateBackupRequest create_backup_request | DGetBackupRequest string
    | DBackup backup_proto | DDeleteBackupRequest string
    | DListBackupsRequest filtered_list_request | DBackups "backup_proto list_response"
    | DUpdateBackupRequest update_backup_request
    | DListBackupOperationsRequest filtered_list_request | DOperations "operation list_response"
    | DListDatabaseOperationsRequest filtered_list_request | DGetOperationRequest string
    | DCancelOperationRequest string

definition DatabaseAdminLogging :: "database_admin_message printers \<Rightarrow> 'w database_admin_rpcs \<Rightarrow> 'w database_admin_rpcs" where
  "DatabaseAdminLogging pr child =
     \<lparr>dr_CreateDatabase = LogWrapper_StatusOr pr DCreateDatabaseRequest DOperation ''CreateDatabase''
          (dr_CreateDatabase child),
      dr_GetDatabase = LogWrapper_StatusOr pr DGetDatabaseRequest DDatabase ''GetDatabase''
          (dr_GetDatabase child),
      dr_GetDatabaseDdl = LogWrapper_StatusOr pr DGetDatabaseDdlRequest DDdl ''GetDatabaseDdl''
          (dr_GetDatabaseDdl child),
      dr_UpdateDatabase = LogWrapper_StatusOr pr DUpdateDatabaseRequest DOperation ''UpdateDatabase''
          (dr_UpdateDatabase child),
      dr_DropDatabase = LogWrapper_Status pr DDropDatabaseRequest ''DropDatabase'' (dr_DropDatabase child),
      dr_ListDatabases = LogWrapper_StatusOr pr DListDatabasesRequest DDatabases ''ListDatabases''
          (dr_ListDatabases child),
      dr_RestoreDatabase = LogWrapper_StatusOr pr DRestoreDatabaseRequest DOperation ''RestoreDatabase''
          (dr_RestoreDatabase child),
      dr_GetIamPolicy = LogWrapper_StatusOr pr DGetIamPolicyRequest DPolicy ''GetIamPolicy''
          (dr_GetIamPolicy child),
      dr_SetIamPolicy = LogWrapper_StatusOr pr DSetIamPolicyRequest DPolicy ''SetIamPolicy''
          (dr_SetIamPolicy child),
      dr_TestIamPermissions = LogWrapper_StatusOr pr DTestIamPermissionsRequest DPermissions ''TestIamPermissions''
          (dr_TestIamPermissions child),
      dr_CreateBackup = LogWrapper_StatusOr pr DCreateBackupRequest DOperation ''CreateBackup''
          (dr_CreateBackup child),
      dr_GetBackup = LogWrapper_StatusOr pr DGetBackupRequest DBackup ''GetBackup'' (dr_GetBackup child),
      dr_DeleteBackup = LogWrapper_Status pr DDeleteBackupRequest ''DeleteBackup'' (dr_DeleteBackup child),
      dr_ListBackups = LogWrapper_StatusOr pr DListBackupsRequest DBackups ''ListBackups''
          (dr_ListBackups child),
      dr_UpdateBackup = LogWrapper_StatusOr pr DUpdateBackupRequest DBackup ''UpdateBackup''
          (dr_UpdateBackup child),
      dr_ListBackupOperations = LogWrapper_StatusOr pr DListBackupOperationsRequest DOperations ''ListBackupOperations''
          (dr_ListBackupOperations child),
      dr_ListDatabaseOperations = LogWrapper_StatusOr pr DListDatabaseOperationsRequest DOperations ''ListDatabaseOperations''
          (dr_ListDatabaseOperations child),
      dr_GetOperation = LogWrapper_StatusOr pr DGetOperationRequest DOperation ''GetOperation''
          (dr_GetOperation child),
      dr_CancelOperation = LogWrapper_Status pr DCancelOperationRequest ''CancelOperation''
          (dr_CancelOperation child)\<rparr>"

definition CreateDefaultDatabaseAdminStub ::
    "string \<Rightarrow> database_admin_message printers \<Rightarrow> bool \<Rightarrow> ('e, 'w) grpc_database_admin \<Rightarrow> 'w database_admin_rpcs" where
  "CreateDefaultDatabaseAdminStub api_client_header pr rpc_tracing_enabled g =
     (let stub = DefaultDatabaseAdminStub g;
          stub = DatabaseAdminMetadata api_client_header stub
      in if rpc_tracing_enabled then DatabaseAdminLogging pr stub else stub)"


section \<open>Instances\<close>

record 'w instance_admin_rpcs =
  ir_GetInstance :: "(string, instance_proto status_or, 'w) rpc"
  ir_CreateInstance :: "(create_instance_request, operation status_or, 'w) rpc"
  ir_UpdateInstance :: "(update_instance_request, operation status_or, 'w) rpc"
  ir_DeleteInstance :: "(string, status, 'w) rpc"
  ir_GetInstanceConfig :: "(string, string status_or, 'w) rpc"
  ir_ListInstanceConfigs :: "(list_request, string list_response status_or, 'w) rpc"
  ir_ListInstances :: "(filtered_list_request, instance_proto list_response status_or, 'w) rpc"
  ir_GetIamPolicy :: "(string, iam_policy status_or, 'w) rpc"
  ir_SetIamPolicy :: "(set_iam_request, iam_policy status_or, 'w) rpc"
  ir_TestIamPermissions :: "(test_iam_request, string list status_or, 'w) rpc"
  ir_GetOperation :: "(string, operation status_or, 'w) rpc"

record ('e, 'w) grpc_instance_admin = "'e grpc_statuses" +
  gi_GetInstance :: "context_md \<Rightarrow> string \<Rightarrow> 'w \<Rightarrow> ('e \<times> instance_proto) \<times> 'w"
  gi_CreateInstance :: "context_md \<Rightarrow> create_instance_request \<Rightarrow> 'w \<Rightarrow> ('e \<times> operation) \<times> 'w"
  gi_UpdateInstance :: "context_md \<Rightarrow> update_instance_request \<Rightarrow> 'w \<Rightarrow> ('e \<times> operation) \<times> 'w"
  gi_DeleteInstance :: "context_md \<Rightarrow> string \<Rightarrow> 'w \<Rightarrow> 'e \<times> 'w"
  gi_GetInstanceConfig :: "context_md \<Rightarrow> string \<Rightarrow> 'w \<Rightarrow> ('e \<times> string) \<times> 'w"
  gi_ListInstanceConfigs :: "context_md \<Rightarrow> list_request \<Rightarrow> 'w \<Rightarrow> ('e \<times> string list_response) \<times> 'w"
  gi_ListInstances :: "context_md \<Rightarrow> filtered_list_request \<Rightarrow> 'w \<Rightarrow> ('e \<times> instance_proto list_response) \<times> 'w"
  gi_GetIamPolicy :: "context_md \<Rightarrow> string \<Rightarrow> 'w \<Rightarrow> ('e \<times> iam_policy) \<times> 'w"
  gi_SetIamPolicy :: "context_md \<Rightarrow> set_iam_request \<Rightarrow> 'w \<Rightarrow> ('e \<times> iam_policy) \<times> 'w"
  gi_TestIamPermissions :: "context_md \<Rightarrow> test_iam_request \<Rightarrow> 'w \<Rightarrow> ('e \<times> string list) \<times> 'w"
  gi_GetOperation :: "context_md \<Rightarrow> string \<Rightarrow> 'w \<Rightarrow> ('e \<times> operation) \<times> 'w"

definition DefaultInstanceAdminStub :: "('e, 'w) grpc_instance_admin \<Rightarrow> 'w instance_admin_rpcs" where
  "DefaultInstanceAdminStub g =
     \<lparr>ir_GetInstance = default_rpc (unary_result g) (gi_GetInstance g),
      ir_CreateInstance = default_rpc (unary_result g) (gi_CreateInstance g),
      ir_UpdateInstance = default_rpc (unary_result g) (gi_UpdateInstance g),
      ir_DeleteInstance = default_rpc (empty_result g) (gi_DeleteInstance g),
      ir_GetInstanceConfig = default_rpc (unary_result g) (gi_GetInstanceConfig g),
      ir_ListInstanceConfigs = default_rpc (unary_result g) (gi_ListInstanceConfigs g),
      ir_ListInstances = default_rpc (unary_result g) (gi_ListInstances g),
      ir_GetIamPolicy = default_rpc (unary_result g) (gi_GetIamPolicy g),
      ir_SetIamPolicy = default_rpc (unary_result g) (gi_SetIamPolicy g),
      ir_TestIamPermissions = default_rpc (unary_result g) (gi_TestIamPermissions g),
      ir_GetOperation = default_rpc (unary_result g) (gi_GetOperation g)\<rparr>"

definition InstanceAdminMetadata :: "string \<Rightarrow> 'w instance_admin_rpcs \<Rightarrow> 'w instance_admin_rpcs" where
  "InstanceAdminMetadata header child =
     \<lparr>ir_GetInstance = with_metadata header (\<lambda>r. ''name='' @ r) (ir_GetInstance child),
      ir_CreateInstance = with_metadata header (\<lambda>r. ''parent='' @ cir_parent r)
          (ir_CreateInstance child),
      ir_UpdateInstance = with_metadata header (\<lambda>r. ''instance.name='' @ ip_name (uir_instance r))
          (ir_UpdateInstance child),
      ir_DeleteInstance = with_metadata header (\<lambda>r. ''name='' @ r) (ir_DeleteInstance child),
      ir_GetInstanceConfig = with_metadata header (\<lambda>r. ''name='' @ r) (ir_GetInstanceConfig child),
      ir_ListInstanceConfigs = with_metadata header (\<lambda>r. ''parent='' @ lr_parent r)
          (ir_ListInstanceConfigs child),
      ir_ListInstances = with_metadata header (\<lambda>r. ''parent='' @ flr_parent r) (ir_ListInstances child),
      ir_GetIamPolicy = with_metadata header (\<lambda>r. ''resource='' @ r) (ir_GetIamPolicy child),
      ir_SetIamPolicy = with_metadata header (\<lambda>r. ''resource='' @ sir_resource r)
          (ir_SetIamPolicy child),
      ir_TestIamPermissions = with_metadata header (\<lambda>r. ''resource='' @ tir_resource r)
          (ir_TestIamPermissions child),
      ir_GetOperation = with_metadata header (\<lambda>r. ''name='' @ r) (ir_GetOperation child)\<rparr>"

datatype instance_admin_message =
    IGetInstanceRequest string | IInstance instance_proto
    | ICreateInstanceRequest create_instance_request | IOperation operation
    | IUpdateInstanceRequest update_instance_request | IDeleteInstanceRequest string
    | IGetInstanceConfigRequest string | IInstanceConfig string
    | IListInstanceConfigsRequest list_request | IInstanceConfigs "string list_response"
    | IListInstancesRequest filtered_list_request | IInstances "instance_proto list_response"
    | IGetIamPolicyRequest string | IPolicy iam_policy | ISetIamPolicyRequest set_iam_request
    | ITestIamPermissionsRequest test_iam_request | IPermissions "string list"
    | IGetOperationRequest string

definition InstanceAdminLogging :: "instance_admin_message printers \<Rightarrow> 'w instance_admin_rpcs \<Rightarrow> 'w instance_admin_rpcs" where
  "InstanceAdminLogging pr child =
     \<lparr>ir_GetInstance = LogWrapper_StatusOr pr IGetInstanceRequest IInstance ''GetInstance''
          (ir_GetInstance child),
      ir_CreateInstance = LogWrapper_StatusOr pr ICreateInstanceRequest IOperation ''CreateInstance''
          (ir_CreateInstance child),
      ir_UpdateInstance = LogWrapper_StatusOr pr IUpdateInstanceRequest IOperation ''UpdateInstance''
          (ir_UpdateInstance child),
      ir_DeleteInstance = LogWrapper_Status pr IDeleteInstanceRequest ''DeleteInstance''
          (ir_DeleteInstance child),
      ir_GetInstanceConfig = LogWrapper_StatusOr pr IGetInstanceConfigRequest IInstanceConfig ''GetInstanceConfig''
          (ir_GetInstanceConfig child),
      ir_ListInstanceConfigs = LogWrapper_StatusOr pr IListInstanceConfigsRequest IInstanceConfigs ''ListInstanceConfigs''
          (ir_ListInstanceConfigs child),
      ir_ListInstances = LogWrapper_StatusOr pr IListInstancesRequest IInstances ''ListInstances''
          (ir_ListInstances child),
      ir_GetIamPolicy = LogWrapper_StatusOr pr IGetIamPolicyRequest IPolicy ''GetIamPolicy''
          (ir_GetIamPolicy child),
      ir_SetIamPolicy = LogWrapper_StatusOr pr ISetIamPolicyRequest IPolicy ''SetIamPolicy''
          (ir_SetIamPolicy child),
      ir_TestIamPermissions = LogWrapper_StatusOr pr ITestIamPermissionsRequest IPermissions ''TestIamPermissions''
          (ir_TestIamPermissions child),
      ir_GetOperation = LogWrapper_StatusOr pr IGetOperationRequest IOperation ''GetOperation''
          (ir_GetOperation child)\<rparr>"

definition CreateDefaultInstanceAdminStub ::
    "string \<Rightarrow> instance_admin_message printers \<Rightarrow> bool \<Rightarrow> ('e, 'w) grpc_instance_admin \<Rightarrow> 'w instance_admin_rpcs" where
  "CreateDefaultInstanceAdminStub api_client_header pr rpc_tracing_enabled g =
     (let stub = DefaultInstanceAdminStub g;
          stub = InstanceAdminMetadata api_client_header stub
      in if rpc_tracing_enabled then InstanceAdminLogging pr stub else stub)"


section \<open>Calls of a connection\<close>

text \<open>
  \<open>RetryLoop\<close> and \<open>PollingLoop\<close> call the stub with a new context for each attempt. An empty response of
  a connection's call is a \<open>Status\<close>, here a \<open>StatusOr\<close> of nothing.
\<close>

definition fresh_call :: "('req, 'a, 'w) rpc \<Rightarrow> 'req \<Rightarrow> 'w \<times> string list \<Rightarrow> 'a \<times> 'w \<times> string list" where
  "fresh_call rpc request = rpc [] request"

definition no_response :: "status \<Rightarrow> unit status_or" where
  "no_response st = (if status_ok st then Inr () else Inl st)"

definition fresh_status_call ::
    "('req, status, 'w) rpc \<Rightarrow> 'req \<Rightarrow> 'w \<times> string list \<Rightarrow> unit status_or \<times> 'w \<times> string list" where
  "fresh_status_call rpc request s = map_prod no_response id (rpc [] request s)"

definition database_admin_calls :: "'w database_admin_rpcs \<Rightarrow> ('w \<times> string list) database_admin_stub" where
  "database_admin_calls child =
     \<lparr>da_CreateDatabase = fresh_call (dr_CreateDatabase child),
      da_GetDatabase = fresh_call (dr_GetDatabase child),
      da_GetDatabaseDdl = fresh_call (dr_GetDatabaseDdl child),
      da_UpdateDatabase = fresh_call (dr_UpdateDatabase child),
      da_DropDatabase = fresh_status_call (dr_DropDatabase child),
      da_ListDatabases = fresh_call (dr_ListDatabases child),
      da_RestoreDatabase = fresh_call (dr_RestoreDatabase child),
      da_GetIamPolicy = fresh_call (dr_GetIamPolicy child),
      da_SetIamPolicy = fresh_call (dr_SetIamPolicy child),
      da_TestIamPermissions = fresh_call (dr_TestIamPermissions child),
      da_CreateBackup = fresh_call (dr_CreateBackup child),
      da_GetBackup = fresh_call (dr_GetBackup child),
      da_DeleteBackup = fresh_status_call (dr_DeleteBackup child),
      da_ListBackups = fresh_call (dr_ListBackups child),
      da_UpdateBackup = fresh_call (dr_UpdateBackup child),
      da_ListBackupOperations = fresh_call (dr_ListBackupOperations child),
      da_ListDatabaseOperations = fresh_call (dr_ListDatabaseOperations child),
      da_GetOperation = fresh_call (dr_GetOperation child),
      da_CancelOperation = fresh_status_call (dr_CancelOperation child)\<rparr>"

definition instance_admin_calls :: "'w instance_admin_rpcs \<Rightarrow> ('w \<times> string list) instance_admin_stub" where
  "instance_admin_calls child =
     \<lparr>ia_GetInstance = fresh_call (ir_GetInstance child),
      ia_CreateInstance = fresh_call (ir_CreateInstance child),
      ia_UpdateInstance = fresh_call (ir_UpdateInstance child),
      ia_DeleteInstance = fresh_status_call (ir_DeleteInstance child),
      ia_GetInstanceConfig = fresh_call (ir_GetInstanceConfig child),
      ia_ListInstanceConfigs = fresh_call (ir_ListInstanceConfigs child),
      ia_ListInstances = fresh_call (ir_ListInstances child),
      ia_GetIamPolicy = fresh_call (ir_GetIamPolicy child),
      ia_SetIamPolicy = fresh_call (ir_SetIamPolicy child),
      ia_TestIamPermissions = fresh_call (ir_TestIamPermissions child),
      ia_GetOperation = fresh_call (ir_GetOperation child)\<rparr>"

section \<open>Calls of gRPC\<close>

text \<open>
  What is to be refined: a connection that calls gRPC itself, with the routing header of a request and
  the client's header, and keeps no log.
\<close>

definition direct_call ::
    "string \<Rightarrow> ('req \<Rightarrow> string) \<Rightarrow> ('x \<Rightarrow> 'a) \<Rightarrow> (context_md \<Rightarrow> 'req \<Rightarrow> 'w \<Rightarrow> 'x \<times> 'w) \<Rightarrow> 'req \<Rightarrow> 'w \<Rightarrow> 'a \<times> 'w" where
  "direct_call header params result call request w =
     map_prod result id
       (call [(''x-goog-request-params'', params request), (''x-goog-api-client'', header)] request w)"

definition direct_status_call where
  "direct_status_call header params result = direct_call header params (no_response \<circ> result)"

definition direct_database_admin_stub :: "string \<Rightarrow> ('e, 'w) grpc_database_admin \<Rightarrow> 'w database_admin_stub" where
  "direct_database_admin_stub header g =
     \<lparr>da_CreateDatabase = direct_call header (\<lambda>r. ''parent='' @ cdr_parent r) (unary_result g)
          (gd_CreateDatabase g),
      da_GetDatabase = direct_call header (\<lambda>r. ''name='' @ r) (unary_result g) (gd_GetDatabase g),
      da_GetDatabaseDdl = direct_call header (\<lambda>r. ''name='' @ r) (unary_result g) (gd_GetDatabaseDdl g),
      da_UpdateDatabase = direct_call header (\<lambda>r. ''database='' @ udr_database r) (unary_result g)
          (gd_UpdateDatabase g),
      da_DropDatabase = direct_status_call header (\<lambda>r. ''database='' @ r) (empty_result g)
          (gd_DropDatabase g),
      da_ListDatabases = direct_call header (\<lambda>r. ''parent='' @ lr_parent r) (unary_result g)
          (gd_ListDatabases g),
      da_RestoreDatabase = direct_call header (\<lambda>r. ''parent='' @ rdr_parent r) (unary_result g)
          (gd_RestoreDatabase g),
      da_GetIamPolicy = direct_call header (\<lambda>r. ''resource='' @ r) (unary_result g) (gd_GetIamPolicy g),
      da_SetIamPolicy = direct_call header (\<lambda>r. ''resource='' @ sir_resource r) (unary_result g)
          (gd_SetIamPolicy g),
      da_TestIamPermissions = direct_call header (\<lambda>r. ''resource='' @ tir_resource r) (unary_result g)
          (gd_TestIamPermissions g),
      da_CreateBackup = direct_call header (\<lambda>r. ''parent='' @ cbr_parent r) (unary_result g)
          (gd_CreateBackup g),
      da_GetBackup = direct_call header (\<lambda>r. ''name='' @ r) (unary_result g) (gd_GetBackup g),
      da_DeleteBackup = direct_status_call header (\<lambda>r. ''name='' @ r) (empty_result g)
          (gd_DeleteBackup g),
      da_ListBackups = direct_call header (\<lambda>r. ''parent='' @ flr_parent r) (unary_result g)
          (gd_ListBackups g),
      da_UpdateBackup = direct_call header (\<lambda>r. ''backup.name='' @ bkp_name (ubr_backup r)) (unary_result g)
          (gd_UpdateBackup g),
      da_ListBackupOperations = direct_call header (\<lambda>r. ''parent='' @ flr_parent r) (unary_result g)
          (gd_ListBackupOperations g),
      da_ListDatabaseOperations = direct_call header (\<lambda>r. ''parent='' @ flr_parent r) (unary_result g)
          (gd_ListDatabaseOperations g),
      da_GetOperation = direct_call header (\<lambda>r. ''name='' @ r) (unary_result g) (gd_GetOperation g),
      da_CancelOperation = direct_status_call header (\<lambda>r. ''name='' @ r) (empty_result g)
          (gd_CancelOperation g)\<rparr>"

definition direct_instance_admin_stub :: "string \<Rightarrow> ('e, 'w) grpc_instance_admin \<Rightarrow> 'w instance_admin_stub" where
  "direct_instance_admin_stub header g =
     \<lparr>ia_GetInstance = direct_call header (\<lambda>r. ''name='' @ r) (unary_result g)
          (gi_GetInstance g),
      ia_CreateInstance = direct_call header (\<lambda>r. ''parent='' @ cir_parent r) (unary_result g)
          (gi_CreateInstance g),
      ia_UpdateInstance = direct_call header (\<lambda>r. ''instance.name='' @ ip_name (uir_instance r)) (unary_result g)
          (gi_UpdateInstance g),
      ia_DeleteInstance = direct_status_call header (\<lambda>r. ''name='' @ r) (empty_result g)
          (gi_DeleteInstance g),
      ia_GetInstanceConfig = direct_call header (\<lambda>r. ''name='' @ r) (unary_result g)
          (gi_GetInstanceConfig g),
      ia_ListInstanceConfigs = direct_call header (\<lambda>r. ''parent='' @ lr_parent r) (unary_result g)
          (gi_ListInstanceConfigs g),
      ia_ListInstances = direct_call header (\<lambda>r. ''parent='' @ flr_parent r) (unary_result g)
          (gi_ListInstances g),
      ia_GetIamPolicy = direct_call header (\<lambda>r. ''resource='' @ r) (unary_result g) (gi_GetIamPolicy g),
      ia_SetIamPolicy = direct_call header (\<lambda>r. ''resource='' @ sir_resource r) (unary_result g)
          (gi_SetIamPolicy g),
      ia_TestIamPermissions = direct_call header (\<lambda>r. ''resource='' @ tir_resource r) (unary_result g)
          (gi_TestIamPermissions g),
      ia_GetOperation = direct_call header (\<lambda>r. ''name='' @ r) (unary_result g)
          (gi_GetOperation g)\<rparr>"

section \<open>What the stubs relay\<close>

lemma database_admin_relays:
  "relays header traced (\<lambda>r. ''parent='' @ cdr_parent r) (unary_result g) (gd_CreateDatabase g)
    (dr_CreateDatabase (CreateDefaultDatabaseAdminStub header pr traced g))"
  "relays header traced (\<lambda>r. ''name='' @ r) (unary_result g) (gd_GetDatabase g)
    (dr_GetDatabase (CreateDefaultDatabaseAdminStub header pr traced g))"
  "relays header traced (\<lambda>r. ''name='' @ r) (unary_result g) (gd_GetDatabaseDdl g)
    (dr_GetDatabaseDdl (CreateDefaultDatabaseAdminStub header pr traced g))"
  "relays header traced (\<lambda>r. ''database='' @ udr_database r) (unary_result g) (gd_UpdateDatabase g)
    (dr_UpdateDatabase (CreateDefaultDatabaseAdminStub header pr traced g))"
  "relays header traced (\<lambda>r. ''database='' @ r) (empty_result g) (gd_DropDatabase g)
    (dr_DropDatabase (CreateDefaultDatabaseAdminStub header pr traced g))"
  "relays header traced (\<lambda>r. ''parent='' @ lr_parent r) (unary_result g) (gd_ListDatabases g)
    (dr_ListDatabases (CreateDefaultDatabaseAdminStub header pr traced g))"
  "relays header traced (\<lambda>r. ''parent='' @ rdr_parent r) (unary_result g) (gd_RestoreDatabase g)
    (dr_RestoreDatabase (CreateDefaultDatabaseAdminStub header pr traced g))"
  "relays header traced (\<lambda>r. ''resource='' @ r) (unary_result g) (gd_GetIamPolicy g)
    (dr_GetIamPolicy (CreateDefaultDatabaseAdminStub header pr traced g))"
  "relays header traced (\<lambda>r. ''resource='' @ sir_resource r) (unary_result g) (gd_SetIamPolicy g)
    (dr_SetIamPolicy (CreateDefaultDatabaseAdminStub header pr traced g))"
  "relays header traced (\<lambda>r. ''resource='' @ tir_resource r) (unary_result g) (gd_TestIamPermissions g)
    (dr_TestIamPermissions (CreateDefaultDatabaseAdminStub header pr traced g))"
  "relays header traced (\<lambda>r. ''parent='' @ cbr_parent r) (unary_result g) (gd_CreateBackup g)
    (dr_CreateBackup (CreateDefaultDatabaseAdminStub header pr traced g))"
  "relays header traced (\<lambda>r. ''name='' @ r) (unary_result g) (gd_GetBackup g)
    (dr_GetBackup (CreateDefaultDatabaseAdminStub header pr traced g))"
  "relays header traced (\<lambda>r. ''name='' @ r) (empty_result g) (gd_DeleteBackup g)
    (dr_DeleteBackup (CreateDefaultDatabaseAdminStub header pr traced g))"
  "relays header traced (\<lambda>r. ''parent='' @ flr_parent r) (unary_result g) (gd_ListBackups g)
    (dr_ListBackups (CreateDefaultDatabaseAdminStub header pr traced g))"
  "relays header traced (\<lambda>r. ''backup.name='' @ bkp_name (ubr_backup r)) (unary_result g) (gd_UpdateBackup g)
    (dr_UpdateBackup (CreateDefaultDatabaseAdminStub header pr traced g))"
  "relays header traced (\<lambda>r. ''parent='' @ flr_parent r) (unary_result g) (gd_ListBackupOperations g)
    (dr_ListBackupOperations (CreateDefaultDatabaseAdminStub header pr traced g))"
  "relays header traced (\<lambda>r. ''parent='' @ flr_parent r) (unary_result g) (gd_ListDatabaseOperations g)
    (dr_ListDatabaseOperations (CreateDefaultDatabaseAdminStub header pr traced g))"
  "relays header traced (\<lambda>r. ''name='' @ r) (unary_result g) (gd_GetOperation g)
    (dr_GetOperation (CreateDefaultDatabaseAdminStub header pr traced g))"
  "relays header traced (\<lambda>r. ''name='' @ r) (empty_result g) (gd_CancelOperation g)
    (dr_CancelOperation (CreateDefaultDatabaseAdminStub header pr traced g))"
  by (cases traced; simp add: CreateDefaultDatabaseAdminStub_def DatabaseAdminMetadata_def DatabaseAdminLogging_def
      DefaultDatabaseAdminStub_def LogWrapper_Status_def LogWrapper_StatusOr_def relays_metadata relays_logged)+

lemma instance_admin_relays:
  "relays header traced (\<lambda>r. ''name='' @ r) (unary_result g) (gi_GetInstance g)
    (ir_GetInstance (CreateDefaultInstanceAdminStub header pr traced g))"
  "relays header traced (\<lambda>r. ''parent='' @ cir_parent r) (unary_result g) (gi_CreateInstance g)
    (ir_CreateInstance (CreateDefaultInstanceAdminStub header pr traced g))"
  "relays header traced (\<lambda>r. ''instance.name='' @ ip_name (uir_instance r)) (unary_result g) (gi_UpdateInstance g)
    (ir_UpdateInstance (CreateDefaultInstanceAdminStub header pr traced g))"
  "relays header traced (\<lambda>r. ''name='' @ r) (empty_result g) (gi_DeleteInstance g)
    (ir_DeleteInstance (CreateDefaultInstanceAdminStub header pr traced g))"
  "relays header traced (\<lambda>r. ''name='' @ r) (unary_result g) (gi_GetInstanceConfig g)
    (ir_GetInstanceConfig (CreateDefaultInstanceAdminStub header pr traced g))"
  "relays header traced (\<lambda>r. ''parent='' @ lr_parent r) (unary_result g) (gi_ListInstanceConfigs g)
    (ir_ListInstanceConfigs (CreateDefaultInstanceAdminStub header pr traced g))"
  "relays header traced (\<lambda>r. ''parent='' @ flr_parent r) (unary_result g) (gi_ListInstances g)
    (ir_ListInstances (CreateDefaultInstanceAdminStub header pr traced g))"
  "relays header traced (\<lambda>r. ''resource='' @ r) (unary_result g) (gi_GetIamPolicy g)
    (ir_GetIamPolicy (CreateDefaultInstanceAdminStub header pr traced g))"
  "relays header traced (\<lambda>r. ''resource='' @ sir_resource r) (unary_result g) (gi_SetIamPolicy g)
    (ir_SetIamPolicy (CreateDefaultInstanceAdminStub header pr traced g))"
  "relays header traced (\<lambda>r. ''resource='' @ tir_resource r) (unary_result g) (gi_TestIamPermissions g)
    (ir_TestIamPermissions (CreateDefaultInstanceAdminStub header pr traced g))"
  "relays header traced (\<lambda>r. ''name='' @ r) (unary_result g) (gi_GetOperation g)
    (ir_GetOperation (CreateDefaultInstanceAdminStub header pr traced g))"
  by (cases traced; simp add: CreateDefaultInstanceAdminStub_def InstanceAdminMetadata_def InstanceAdminLogging_def
      DefaultInstanceAdminStub_def LogWrapper_Status_def LogWrapper_StatusOr_def relays_metadata relays_logged)+

lemma relays_call:
  assumes "relays header traced params result call rpc"
  shows "map_prod id fst (rpc [] req v) = direct_call header params result call req (fst v)"
proof -
  obtain lines where "rpc [] req (fst v, snd v) =
      (case call [(''x-goog-request-params'', params req), (''x-goog-api-client'', header)] req (fst v) of
         (x, w') \<Rightarrow> (result x, (w', snd v @ lines)))"
    using assms [unfolded relays_def, rule_format, of "[]" req "fst v" "snd v"] by auto
  then show ?thesis by (simp add: direct_call_def split: prod.splits)
qed

lemma relays_direct:
  "relays header traced params result call rpc \<Longrightarrow>
    call_image fst (direct_call header params result call) (fresh_call rpc)"
  by (simp add: call_image_def fresh_call_def relays_call)

lemma relays_direct_status:
  assumes "relays header traced params result call rpc"
  shows "call_image fst (direct_status_call header params result call) (fresh_status_call rpc)"
proof -
  have "direct_status_call header params result call req (fst v) = map_prod id fst (fresh_status_call rpc req v)" for req v
  proof -
    have "direct_status_call header params result call req (fst v) =
        map_prod no_response id (direct_call header params result call req (fst v))"
      by (simp add: direct_status_call_def direct_call_def prod.map_comp)
    also have "\<dots> = map_prod no_response id (map_prod id fst (rpc [] req v))"
      by (simp only: relays_call [OF assms])
    finally show ?thesis by (simp add: fresh_status_call_def prod.map_comp comp_def id_def)
  qed
  then show ?thesis by (simp add: call_image_def del: split_paired_All)
qed

lemma database_admin_images:
  "call_image fst (da_CreateDatabase (direct_database_admin_stub header g))
    (da_CreateDatabase (database_admin_calls (CreateDefaultDatabaseAdminStub header pr traced g)))"
  "call_image fst (da_GetDatabase (direct_database_admin_stub header g))
    (da_GetDatabase (database_admin_calls (CreateDefaultDatabaseAdminStub header pr traced g)))"
  "call_image fst (da_GetDatabaseDdl (direct_database_admin_stub header g))
    (da_GetDatabaseDdl (database_admin_calls (CreateDefaultDatabaseAdminStub header pr traced g)))"
  "call_image fst (da_UpdateDatabase (direct_database_admin_stub header g))
    (da_UpdateDatabase (database_admin_calls (CreateDefaultDatabaseAdminStub header pr traced g)))"
  "call_image fst (da_DropDatabase (direct_database_admin_stub header g))
    (da_DropDatabase (database_admin_calls (CreateDefaultDatabaseAdminStub header pr traced g)))"
  "call_image fst (da_ListDatabases (direct_database_admin_stub header g))
    (da_ListDatabases (database_admin_calls (CreateDefaultDatabaseAdminStub header pr traced g)))"
  "call_image fst (da_RestoreDatabase (direct_database_admin_stub header g))
    (da_RestoreDatabase (database_admin_calls (CreateDefaultDatabaseAdminStub header pr traced g)))"
  "call_image fst (da_GetIamPolicy (direct_database_admin_stub header g))
    (da_GetIamPolicy (database_admin_calls (CreateDefaultDatabaseAdminStub header pr traced g)))"
  "call_image fst (da_SetIamPolicy (direct_database_admin_stub header g))
    (da_SetIamPolicy (database_admin_calls (CreateDefaultDatabaseAdminStub header pr traced g)))"
  "call_image fst (da_TestIamPermissions (direct_database_admin_stub header g))
    (da_TestIamPermissions (database_admin_calls (CreateDefaultDatabaseAdminStub header pr traced g)))"
  "call_image fst (da_CreateBackup (direct_database_admin_stub header g))
    (da_CreateBackup (database_admin_calls (CreateDefaultDatabaseAdminStub header pr traced g)))"
  "call_image fst (da_GetBackup (direct_database_admin_stub header g))
    (da_GetBackup (database_admin_calls (CreateDefaultDatabaseAdminStub header pr traced g)))"
  "call_image fst (da_DeleteBackup (direct_database_admin_stub header g))
    (da_DeleteBackup (database_admin_calls (CreateDefaultDatabaseAdminStub header pr traced g)))"
  "call_image fst (da_ListBackups (direct_database_admin_stub header g))
    (da_ListBackups (database_admin_calls (CreateDefaultDatabaseAdminStub header pr traced g)))"
  "call_image fst (da_UpdateBackup (direct_database_admin_stub header g))
    (da_UpdateBackup (database_admin_calls (CreateDefaultDatabaseAdminStub header pr traced g)))"
  "call_image fst (da_ListBackupOperations (direct_database_admin_stub header g))
    (da_ListBackupOperations (database_admin_calls (CreateDefaultDatabaseAdminStub header pr traced g)))"
  "call_image fst (da_ListDatabaseOperations (direct_database_admin_stub header g))
    (da_ListDatabaseOperations (database_admin_calls (CreateDefaultDatabaseAdminStub header pr traced g)))"
  "call_image fst (da_GetOperation (direct_database_admin_stub header g))
    (da_GetOperation (database_admin_calls (CreateDefaultDatabaseAdminStub header pr traced g)))"
  "call_image fst (da_CancelOperation (direct_database_admin_stub header g))
    (da_CancelOperation (database_admin_calls (CreateDefaultDatabaseAdminStub header pr traced g)))"
  unfolding direct_database_admin_stub_def database_admin_calls_def database_admin_stub.simps
  by (rule relays_direct relays_direct_status, rule database_admin_relays)+

lemma instance_admin_images:
  "call_image fst (ia_GetInstance (direct_instance_admin_stub header g))
    (ia_GetInstance (instance_admin_calls (CreateDefaultInstanceAdminStub header pr traced g)))"
  "call_image fst (ia_CreateInstance (direct_instance_admin_stub header g))
    (ia_CreateInstance (instance_admin_calls (CreateDefaultInstanceAdminStub header pr traced g)))"
  "call_image fst (ia_UpdateInstance (direct_instance_admin_stub header g))
    (ia_UpdateInstance (instance_admin_calls (CreateDefaultInstanceAdminStub header pr traced g)))"
  "call_image fst (ia_DeleteInstance (direct_instance_admin_stub header g))
    (ia_DeleteInstance (instance_admin_calls (CreateDefaultInstanceAdminStub header pr traced g)))"
  "call_image fst (ia_GetInstanceConfig (direct_instance_admin_stub header g))
    (ia_GetInstanceConfig (instance_admin_calls (CreateDefaultInstanceAdminStub header pr traced g)))"
  "call_image fst (ia_ListInstanceConfigs (direct_instance_admin_stub header g))
    (ia_ListInstanceConfigs (instance_admin_calls (CreateDefaultInstanceAdminStub header pr traced g)))"
  "call_image fst (ia_ListInstances (direct_instance_admin_stub header g))
    (ia_ListInstances (instance_admin_calls (CreateDefaultInstanceAdminStub header pr traced g)))"
  "call_image fst (ia_GetIamPolicy (direct_instance_admin_stub header g))
    (ia_GetIamPolicy (instance_admin_calls (CreateDefaultInstanceAdminStub header pr traced g)))"
  "call_image fst (ia_SetIamPolicy (direct_instance_admin_stub header g))
    (ia_SetIamPolicy (instance_admin_calls (CreateDefaultInstanceAdminStub header pr traced g)))"
  "call_image fst (ia_TestIamPermissions (direct_instance_admin_stub header g))
    (ia_TestIamPermissions (instance_admin_calls (CreateDefaultInstanceAdminStub header pr traced g)))"
  "call_image fst (ia_GetOperation (direct_instance_admin_stub header g))
    (ia_GetOperation (instance_admin_calls (CreateDefaultInstanceAdminStub header pr traced g)))"
  unfolding direct_instance_admin_stub_def instance_admin_calls_def instance_admin_stub.simps
  by (rule relays_direct relays_direct_status, rule instance_admin_relays)+

section \<open>Admin connections\<close>

text \<open>The policies and the sleeper of a connection do not look at the log.\<close>

definition logged_env :: "('p, 'b, 'w) retry_env \<Rightarrow> ('p, 'b, 'w \<times> string list) retry_env" where
  "logged_env env =
     \<lparr>re_policy = re_policy env, re_backoff = re_backoff env,
      re_sleeper = (\<lambda>d (w, log). (re_sleeper env d w, log)), re_show = re_show env\<rparr>"

definition logged_policies :: "('p, 'b, 'w) admin_policies \<Rightarrow> ('p, 'b, 'w \<times> string list) admin_policies" where
  "logged_policies ap =
     \<lparr>ap_retry = logged_env (ap_retry ap), ap_policy = ap_policy ap, ap_backoff = ap_backoff ap,
      ap_polling = logged_env (ap_polling ap), ap_polling_policy = ap_polling_policy ap\<rparr>"

interpretation logged: loop_image fst env "logged_env env" for env
  by unfold_locales (auto simp: logged_env_def)

lemma logged_policies_image: "policies_image fst ap (logged_policies ap)"
  by (simp add: policies_image_def logged_policies_def logged.loop_image_axioms)

text \<open>
  \<open>MakeDatabaseAdminConnection\<close> and \<open>MakeInstanceAdminConnection\<close>, whose policies are arguments, and
  the same connections on gRPC itself.
\<close>

definition MakeDatabaseAdminConnection ::
    "string \<Rightarrow> database_admin_message printers \<Rightarrow> bool \<Rightarrow> ('e, 'w) grpc_database_admin \<Rightarrow>
     ('p, 'b, 'w) admin_policies \<Rightarrow> ('p, 'b, 'w \<times> string list) database_admin" where
  "MakeDatabaseAdminConnection header pr traced g ap =
     \<lparr>dc_policies = logged_policies ap,
      dc_stub = database_admin_calls (CreateDefaultDatabaseAdminStub header pr traced g)\<rparr>"

definition MakeInstanceAdminConnection ::
    "string \<Rightarrow> instance_admin_message printers \<Rightarrow> bool \<Rightarrow> ('e, 'w) grpc_instance_admin \<Rightarrow>
     ('p, 'b, 'w) admin_policies \<Rightarrow> ('p, 'b, 'w \<times> string list) instance_admin" where
  "MakeInstanceAdminConnection header pr traced g ap =
     \<lparr>ic_policies = logged_policies ap,
      ic_stub = instance_admin_calls (CreateDefaultInstanceAdminStub header pr traced g)\<rparr>"

definition direct_database_admin ::
    "string \<Rightarrow> ('e, 'w) grpc_database_admin \<Rightarrow> ('p, 'b, 'w) admin_policies \<Rightarrow> ('p, 'b, 'w) database_admin" where
  "direct_database_admin header g ap = \<lparr>dc_policies = ap, dc_stub = direct_database_admin_stub header g\<rparr>"

definition direct_instance_admin ::
    "string \<Rightarrow> ('e, 'w) grpc_instance_admin \<Rightarrow> ('p, 'b, 'w) admin_policies \<Rightarrow> ('p, 'b, 'w) instance_admin" where
  "direct_instance_admin header g ap = \<lparr>ic_policies = ap, ic_stub = direct_instance_admin_stub header g\<rparr>"

lemmas logged_call = admin_call_image [OF logged_policies_image]
  and logged_await = admin_await_image [OF logged_policies_image]
  and logged_long_running = long_running_image [OF logged_policies_image]

lemma run_image_value: "run_image fst (\<lambda>w. Some (x, w)) (\<lambda>v. Some (x, v))"
  by (simp add: run_image_def)

lemma run_image_None: "run_image fst (\<lambda>w. None) (\<lambda>v. None)"
  by (simp add: run_image_def)

lemmas run_images = logged_call logged_await logged_long_running run_image_map run_image_value run_image_None
  logged.SetIamPolicy_loop_image

lemmas database_operations =
  CreateDatabase_def [abs_def] GetDatabase_def UpdateDatabase_def GetDatabaseDdl_def DropDatabase_def [abs_def]
  RestoreDatabase_def ListDatabases_def ListBackups_def ListBackupOperations_def ListDatabaseOperations_def
  Database_GetIamPolicy_def Database_SetIamPolicy_def [abs_def] Database_TestIamPermissions_def admin_GetIamPolicy_def
  admin_SetIamPolicy_def [abs_def] Let_def GetBackup_def DeleteBackup_def [abs_def] UpdateBackup_def
  Database_SetIamPolicy_updater_def AwaitDatabase_def AwaitUpdateDatabase_def AwaitCreateBackup_def

lemma CreateBackup_image:
  assumes "dc_policies d = ap" and "dc_policies c = logged_policies ap"
    and "call_image fst (da_CreateBackup (dc_stub d)) (da_CreateBackup (dc_stub c))"
    and "call_image fst (da_GetOperation (dc_stub d)) (da_GetOperation (dc_stub c))"
  shows "run_image fst (CreateBackup d period db bid t) (CreateBackup c period db bid t)"
proof (cases "ConvertTimePointToProtoTimestamp period t")
  case (Some r)
  then show ?thesis using assms
    by (cases r) (auto simp: CreateBackup_def [abs_def] AwaitCreateBackup_def intro!: run_images)
qed (auto simp: CreateBackup_def [abs_def] intro: run_images)

lemma database_updater_image:
  "run_image fst (Database_SetIamPolicy_updater env (direct_database_admin header g ap) db updater q b)
     (Database_SetIamPolicy_updater (logged_env env) (MakeDatabaseAdminConnection header pr traced g ap) db updater q b)"
  by (simp add: database_operations direct_database_admin_def MakeDatabaseAdminConnection_def;
    (intro run_images database_admin_images)?)

section \<open>Properties\<close>

text \<open>
  C32: The decorators of the database admin stub and the tracing change nothing that a caller or the
  service can see. Every operation of a connection, long running ones and the loop that updates a policy
  included, traced or not, gives the result and makes the changes that it would give and make on gRPC
  itself, called once per attempt with a fresh context that carries the routing header of the request
  (the parent, the resource, or the name that the request is about).
\<close>

theorem database_admin_transparent:
  fixes ap :: "('p, 'b, 'w) admin_policies" and g :: "('e, 'w) grpc_database_admin"
  shows "let d = direct_database_admin header g ap; c = MakeDatabaseAdminConnection header pr traced g ap in
    run_image fst (CreateDatabase d db statements)
      (CreateDatabase c db statements) \<and>
    run_image fst (GetDatabase d db)
      (GetDatabase c db) \<and>
    run_image fst (GetDatabaseDdl d db)
      (GetDatabaseDdl c db) \<and>
    run_image fst (UpdateDatabase d db statements)
      (UpdateDatabase c db statements) \<and>
    run_image fst (DropDatabase d db)
      (DropDatabase c db) \<and>
    run_image fst (RestoreDatabase d db backup_name)
      (RestoreDatabase c db backup_name) \<and>
    run_image fst (ListDatabases d (\<lambda>_ load _. load page) inst)
      (ListDatabases c (\<lambda>_ load _. load page) inst) \<and>
    run_image fst (ListBackups d (\<lambda>_ load _. load fpage) inst flt)
      (ListBackups c (\<lambda>_ load _. load fpage) inst flt) \<and>
    run_image fst (ListBackupOperations d (\<lambda>_ load _. load fpage) inst flt)
      (ListBackupOperations c (\<lambda>_ load _. load fpage) inst flt) \<and>
    run_image fst (ListDatabaseOperations d (\<lambda>_ load _. load fpage) inst flt)
      (ListDatabaseOperations c (\<lambda>_ load _. load fpage) inst flt) \<and>
    run_image fst (Database_GetIamPolicy d db)
      (Database_GetIamPolicy c db) \<and>
    run_image fst (Database_SetIamPolicy d db policy)
      (Database_SetIamPolicy c db policy) \<and>
    run_image fst (Database_SetIamPolicy_updater env d db updater q b)
      (Database_SetIamPolicy_updater (logged_env env) c db updater q b) \<and>
    run_image fst (Database_TestIamPermissions d db permissions)
      (Database_TestIamPermissions c db permissions) \<and>
    run_image fst (CreateBackup d period db bid expire_time)
      (CreateBackup c period db bid expire_time) \<and>
    run_image fst (GetBackup d name)
      (GetBackup c name) \<and>
    run_image fst (DeleteBackup d name)
      (DeleteBackup c name) \<and>
    run_image fst (UpdateBackup d request)
      (UpdateBackup c request)"
  unfolding Let_def
  by (intro conjI; (rule CreateBackup_image)?;
    simp add: database_operations direct_database_admin_def MakeDatabaseAdminConnection_def;
    (intro run_images database_admin_images)?)

text \<open>
  The same of the instance admin connection: its decorators and its tracing change neither a result
  nor what the service does, for every operation.
\<close>

theorem instance_admin_transparent:
  fixes ap :: "('p, 'b, 'w) admin_policies" and g :: "('e, 'w) grpc_instance_admin"
  shows "let d = direct_instance_admin header g ap; c = MakeInstanceAdminConnection header pr traced g ap in
    run_image fst (GetInstance d name)
      (GetInstance c name) \<and>
    run_image fst (CreateInstance d cir)
      (CreateInstance c cir) \<and>
    run_image fst (UpdateInstance d uir)
      (UpdateInstance c uir) \<and>
    run_image fst (DeleteInstance d name)
      (DeleteInstance c name) \<and>
    run_image fst (GetInstanceConfig d name)
      (GetInstanceConfig c name) \<and>
    run_image fst (ListInstanceConfigs d (\<lambda>_ load _. load page) project)
      (ListInstanceConfigs c (\<lambda>_ load _. load page) project) \<and>
    run_image fst (ListInstances d (\<lambda>_ load _. load fpage) project flt)
      (ListInstances c (\<lambda>_ load _. load fpage) project flt) \<and>
    run_image fst (Instance_GetIamPolicy d name)
      (Instance_GetIamPolicy c name) \<and>
    run_image fst (Instance_SetIamPolicy d name policy)
      (Instance_SetIamPolicy c name policy) \<and>
    run_image fst (Instance_TestIamPermissions d name permissions)
      (Instance_TestIamPermissions c name permissions) \<and>
    run_image fst (Instance_SetIamPolicy_updater env d inst updater q b)
      (Instance_SetIamPolicy_updater (logged_env env) c inst updater q b)"
  unfolding Let_def
  by (intro conjI;
    simp add: GetInstance_def CreateInstance_def DeleteInstance_def [abs_def] UpdateInstance_def GetInstanceConfig_def
      ListInstanceConfigs_def ListInstances_def Instance_GetIamPolicy_def Instance_SetIamPolicy_def [abs_def]
      Instance_TestIamPermissions_def Instance_SetIamPolicy_updater_def Client_GetIamPolicy_def Client_SetIamPolicy_def [abs_def]
      AwaitCreateOrUpdateInstance_def admin_GetIamPolicy_def admin_SetIamPolicy_def [abs_def] Let_def
      direct_instance_admin_def MakeInstanceAdminConnection_def;
    (intro run_images instance_admin_images)?)

end
