(* ===== verification/Admin_Clients.thy ===== *)
theory Admin_Clients
  imports Admin_Stubs
begin

text \<open>
  The interfaces of the admin connections (\<open>database_admin_connection.h\<close>, \<open>instance_admin_connection.h\<close>),
  whose methods a class overrides or inherits, and the clients as callers of any connection
  (\<open>database_admin_client.cc\<close>, \<open>instance_admin_client.cc\<close>). The parameter structs are the arguments of the
  methods.
\<close>

section \<open>Connections to databases\<close>

text \<open>A range is made of a first request, the loader of a page and the items of a page.\<close>

type_synonym ('req, 'resp, 'item, 'w) page_range =
  "'req \<times> ('req \<Rightarrow> 'w \<Rightarrow> ('resp status_or \<times> 'w) option) \<times> ('resp \<Rightarrow> 'item list)"

text \<open>The pure virtual methods, and then those that have a body; a time point is a count of periods.\<close>

record 'w database_admin_pure =
  dm_CreateDatabase :: "database \<Rightarrow> string list \<Rightarrow> 'w \<Rightarrow> (any status_or \<times> 'w) option"
  dm_GetDatabase :: "database \<Rightarrow> 'w \<Rightarrow> (string status_or \<times> 'w) option"
  dm_GetDatabaseDdl :: "database \<Rightarrow> 'w \<Rightarrow> (string list status_or \<times> 'w) option"
  dm_UpdateDatabase :: "database \<Rightarrow> string list \<Rightarrow> 'w \<Rightarrow> (any status_or \<times> 'w) option"
  dm_DropDatabase :: "database \<Rightarrow> 'w \<Rightarrow> (status \<times> 'w) option"
  dm_ListDatabases :: "cloud_instance \<Rightarrow> (list_request, string list_response, string, 'w) page_range"
  dm_GetIamPolicy :: "database \<Rightarrow> 'w \<Rightarrow> (iam_policy status_or \<times> 'w) option"
  dm_SetIamPolicy :: "database \<Rightarrow> iam_policy \<Rightarrow> 'w \<Rightarrow> (iam_policy status_or \<times> 'w) option"
  dm_TestIamPermissions :: "database \<Rightarrow> string list \<Rightarrow> 'w \<Rightarrow> (string list status_or \<times> 'w) option"

record 'w database_admin_methods = "'w database_admin_pure" +
  dm_RestoreDatabase :: "database \<Rightarrow> string \<Rightarrow> 'w \<Rightarrow> (any status_or \<times> 'w) option"
  dm_CreateBackup :: "database \<Rightarrow> string \<Rightarrow> int \<Rightarrow> 'w \<Rightarrow> (any status_or \<times> 'w) option"
  dm_GetBackup :: "string \<Rightarrow> 'w \<Rightarrow> (backup_proto status_or \<times> 'w) option"
  dm_DeleteBackup :: "string \<Rightarrow> 'w \<Rightarrow> (status \<times> 'w) option"
  dm_ListBackups ::
    "cloud_instance \<Rightarrow> string \<Rightarrow> (filtered_list_request, backup_proto list_response, backup_proto, 'w) page_range"
  dm_UpdateBackup :: "update_backup_request \<Rightarrow> 'w \<Rightarrow> (backup_proto status_or \<times> 'w) option"
  dm_ListBackupOperations ::
    "cloud_instance \<Rightarrow> string \<Rightarrow> (filtered_list_request, operation list_response, operation, 'w) page_range"
  dm_ListDatabaseOperations ::
    "cloud_instance \<Rightarrow> string \<Rightarrow> (filtered_list_request, operation list_response, operation, 'w) page_range"

text \<open>The bodies of \<open>DatabaseAdminConnection\<close>.\<close>

definition not_implemented :: status where
  "not_implemented = Status kUnimplemented ''not implemented''"

definition unimplemented_range :: "(filtered_list_request, 'item list_response, 'item, 'w) page_range" where
  "unimplemented_range =
     (\<lparr>flr_parent = [], flr_filter = [], flr_page_token = []\<rparr>, \<lambda>_ w. Some (Inl not_implemented, w), \<lambda>_. [])"

definition Base_CreateBackup :: "database \<Rightarrow> string \<Rightarrow> int \<Rightarrow> 'w \<Rightarrow> (any status_or \<times> 'w) option" where
  "Base_CreateBackup db bid expire_time w = Some (Inl not_implemented, w)"

definition Base_RestoreDatabase :: "database \<Rightarrow> string \<Rightarrow> 'w \<Rightarrow> (any status_or \<times> 'w) option" where
  "Base_RestoreDatabase db backup_full_name w = Some (Inl not_implemented, w)"

definition Base_GetBackup :: "string \<Rightarrow> 'w \<Rightarrow> (backup_proto status_or \<times> 'w) option" where
  "Base_GetBackup name w = Some (Inl not_implemented, w)"

definition Base_DeleteBackup :: "string \<Rightarrow> 'w \<Rightarrow> (status \<times> 'w) option" where
  "Base_DeleteBackup name w = Some (not_implemented, w)"

definition Base_ListBackups ::
    "cloud_instance \<Rightarrow> string \<Rightarrow> (filtered_list_request, backup_proto list_response, backup_proto, 'w) page_range" where
  "Base_ListBackups inst flt = unimplemented_range"

definition Base_UpdateBackup :: "update_backup_request \<Rightarrow> 'w \<Rightarrow> (backup_proto status_or \<times> 'w) option" where
  "Base_UpdateBackup request w = Some (Inl not_implemented, w)"

definition Base_ListBackupOperations ::
    "cloud_instance \<Rightarrow> string \<Rightarrow> (filtered_list_request, operation list_response, operation, 'w) page_range" where
  "Base_ListBackupOperations inst flt = unimplemented_range"

definition Base_ListDatabaseOperations ::
    "cloud_instance \<Rightarrow> string \<Rightarrow> (filtered_list_request, operation list_response, operation, 'w) page_range" where
  "Base_ListDatabaseOperations inst flt = unimplemented_range"

text \<open>A class that overrides what it must, and the class of the library, which overrides all.\<close>

definition DatabaseAdminConnection :: "'w database_admin_pure \<Rightarrow> 'w database_admin_methods" where
  "DatabaseAdminConnection m = database_admin_pure.extend m
     \<lparr>dm_RestoreDatabase = Base_RestoreDatabase, dm_CreateBackup = Base_CreateBackup,
      dm_GetBackup = Base_GetBackup, dm_DeleteBackup = Base_DeleteBackup, dm_ListBackups = Base_ListBackups,
      dm_UpdateBackup = Base_UpdateBackup, dm_ListBackupOperations = Base_ListBackupOperations,
      dm_ListDatabaseOperations = Base_ListDatabaseOperations\<rparr>"

definition DatabaseAdminConnectionImpl ::
    "int \<times> int \<Rightarrow> ('p, 'b, 'w) database_admin \<Rightarrow> 'w database_admin_methods" where
  "DatabaseAdminConnectionImpl period c =
     \<lparr>dm_CreateDatabase = CreateDatabase c, dm_GetDatabase = GetDatabase c, dm_GetDatabaseDdl = GetDatabaseDdl c,
      dm_UpdateDatabase = UpdateDatabase c, dm_DropDatabase = DropDatabase c,
      dm_ListDatabases = ListDatabases c (\<lambda>r load items. (r, load, items)),
      dm_GetIamPolicy = Database_GetIamPolicy c, dm_SetIamPolicy = Database_SetIamPolicy c,
      dm_TestIamPermissions = Database_TestIamPermissions c, dm_RestoreDatabase = RestoreDatabase c,
      dm_CreateBackup = CreateBackup c period, dm_GetBackup = GetBackup c, dm_DeleteBackup = DeleteBackup c,
      dm_ListBackups = ListBackups c (\<lambda>r load items. (r, load, items)), dm_UpdateBackup = UpdateBackup c,
      dm_ListBackupOperations = ListBackupOperations c (\<lambda>r load items. (r, load, items)),
      dm_ListDatabaseOperations = ListDatabaseOperations c (\<lambda>r load items. (r, load, items))\<rparr>"

section \<open>The database admin client\<close>

definition DatabaseAdminClient_CreateDatabase where
  "DatabaseAdminClient_CreateDatabase conn db extra_statements = dm_CreateDatabase conn db extra_statements"

definition DatabaseAdminClient_GetDatabase where
  "DatabaseAdminClient_GetDatabase conn db = dm_GetDatabase conn db"

definition DatabaseAdminClient_GetDatabaseDdl where
  "DatabaseAdminClient_GetDatabaseDdl conn db = dm_GetDatabaseDdl conn db"

definition DatabaseAdminClient_UpdateDatabase where
  "DatabaseAdminClient_UpdateDatabase conn db statements = dm_UpdateDatabase conn db statements"

definition DatabaseAdminClient_ListDatabases where
  "DatabaseAdminClient_ListDatabases conn inst = dm_ListDatabases conn inst"

definition DatabaseAdminClient_DropDatabase where
  "DatabaseAdminClient_DropDatabase conn db = dm_DropDatabase conn db"

definition DatabaseAdminClient_RestoreDatabase ::
    "'w database_admin_methods \<Rightarrow> database \<Rightarrow> backup \<Rightarrow> 'w \<Rightarrow> (any status_or \<times> 'w) option" where
  "DatabaseAdminClient_RestoreDatabase conn db b = dm_RestoreDatabase conn db (Backup_FullName b)"

definition DatabaseAdminClient_RestoreDatabase_proto ::
    "'w database_admin_methods \<Rightarrow> database \<Rightarrow> backup_proto \<Rightarrow> 'w \<Rightarrow> (any status_or \<times> 'w) option" where
  "DatabaseAdminClient_RestoreDatabase_proto conn db b = dm_RestoreDatabase conn db (bkp_name b)"

definition DatabaseAdminClient_GetIamPolicy where
  "DatabaseAdminClient_GetIamPolicy conn db = dm_GetIamPolicy conn db"

definition DatabaseAdminClient_SetIamPolicy where
  "DatabaseAdminClient_SetIamPolicy conn db policy = dm_SetIamPolicy conn db policy"

definition DatabaseAdminClient_SetIamPolicy_updater ::
    "('q, 'd, 'w) retry_env \<Rightarrow> 'w database_admin_methods \<Rightarrow> database \<Rightarrow> (iam_policy \<Rightarrow> iam_policy option) \<Rightarrow>
     'q \<Rightarrow> 'd \<Rightarrow> 'w \<Rightarrow> (iam_policy status_or \<times> 'w) option" where
  "DatabaseAdminClient_SetIamPolicy_updater env conn db updater =
     SetIamPolicy_loop env (DatabaseAdminClient_GetIamPolicy conn db) (DatabaseAdminClient_SetIamPolicy conn db) updater"

definition DatabaseAdminClient_TestIamPermissions where
  "DatabaseAdminClient_TestIamPermissions conn db permissions = dm_TestIamPermissions conn db permissions"

definition DatabaseAdminClient_CreateBackup where
  "DatabaseAdminClient_CreateBackup conn db bid expire_time = dm_CreateBackup conn db bid expire_time"

definition DatabaseAdminClient_GetBackup :: "'w database_admin_methods \<Rightarrow> backup \<Rightarrow> 'w \<Rightarrow> (backup_proto status_or \<times> 'w) option" where
  "DatabaseAdminClient_GetBackup conn b = dm_GetBackup conn (Backup_FullName b)"

definition DatabaseAdminClient_DeleteBackup :: "'w database_admin_methods \<Rightarrow> backup \<Rightarrow> 'w \<Rightarrow> (status \<times> 'w) option" where
  "DatabaseAdminClient_DeleteBackup conn b = dm_DeleteBackup conn (Backup_FullName b)"

definition DatabaseAdminClient_DeleteBackup_proto ::
    "'w database_admin_methods \<Rightarrow> backup_proto \<Rightarrow> 'w \<Rightarrow> (status \<times> 'w) option" where
  "DatabaseAdminClient_DeleteBackup_proto conn b = dm_DeleteBackup conn (bkp_name b)"

definition DatabaseAdminClient_ListBackups where
  "DatabaseAdminClient_ListBackups conn inst flt = dm_ListBackups conn inst flt"

text \<open>The expiration of a backup by its name, for a \<open>Backup\<close> and for the proto of one.\<close>

definition DatabaseAdminClient_UpdateBackupExpireTime ::
    "int \<times> int \<Rightarrow> 'w database_admin_methods \<Rightarrow> string \<Rightarrow> int \<Rightarrow> 'w \<Rightarrow> (backup_proto status_or \<times> 'w) option" where
  "DatabaseAdminClient_UpdateBackupExpireTime period conn name expire_time w =
     (case ConvertTimePointToProtoTimestamp period expire_time of
        None \<Rightarrow> None
      | Some (Inl status) \<Rightarrow> Some (Inl status, w)
      | Some (Inr proto_expire_time) \<Rightarrow>
          dm_UpdateBackup conn
            \<lparr>ubr_backup = \<lparr>bkp_name = name, bkp_database = [], bkp_expire_time = Some proto_expire_time\<rparr>,
             ubr_update_mask = [''expire_time'']\<rparr> w)"

definition DatabaseAdminClient_ListBackupOperations where
  "DatabaseAdminClient_ListBackupOperations conn inst flt = dm_ListBackupOperations conn inst flt"

definition DatabaseAdminClient_ListDatabaseOperations where
  "DatabaseAdminClient_ListDatabaseOperations conn inst flt = dm_ListDatabaseOperations conn inst flt"

section \<open>Instances\<close>

record 'w instance_admin_methods =
  im_GetInstance :: "string \<Rightarrow> 'w \<Rightarrow> (instance_proto status_or \<times> 'w) option"
  im_CreateInstance :: "create_instance_request \<Rightarrow> 'w \<Rightarrow> (any status_or \<times> 'w) option"
  im_UpdateInstance :: "update_instance_request \<Rightarrow> 'w \<Rightarrow> (any status_or \<times> 'w) option"
  im_DeleteInstance :: "string \<Rightarrow> 'w \<Rightarrow> (status \<times> 'w) option"
  im_GetInstanceConfig :: "string \<Rightarrow> 'w \<Rightarrow> (string status_or \<times> 'w) option"
  im_ListInstanceConfigs :: "string \<Rightarrow> (list_request, string list_response, string, 'w) page_range"
  im_ListInstances ::
    "string \<Rightarrow> string \<Rightarrow> (filtered_list_request, instance_proto list_response, instance_proto, 'w) page_range"
  im_GetIamPolicy :: "string \<Rightarrow> 'w \<Rightarrow> (iam_policy status_or \<times> 'w) option"
  im_SetIamPolicy :: "string \<Rightarrow> iam_policy \<Rightarrow> 'w \<Rightarrow> (iam_policy status_or \<times> 'w) option"
  im_TestIamPermissions :: "string \<Rightarrow> string list \<Rightarrow> 'w \<Rightarrow> (string list status_or \<times> 'w) option"

definition InstanceAdminConnectionImpl :: "('p, 'b, 'w) instance_admin \<Rightarrow> 'w instance_admin_methods" where
  "InstanceAdminConnectionImpl c =
     \<lparr>im_GetInstance = GetInstance c, im_CreateInstance = CreateInstance c, im_UpdateInstance = UpdateInstance c,
      im_DeleteInstance = DeleteInstance c, im_GetInstanceConfig = GetInstanceConfig c,
      im_ListInstanceConfigs = ListInstanceConfigs c (\<lambda>r load items. (r, load, items)),
      im_ListInstances = ListInstances c (\<lambda>r load items. (r, load, items)),
      im_GetIamPolicy = Instance_GetIamPolicy c, im_SetIamPolicy = Instance_SetIamPolicy c,
      im_TestIamPermissions = Instance_TestIamPermissions c\<rparr>"

definition InstanceAdminClient_GetInstance :: "'w instance_admin_methods \<Rightarrow> cloud_instance \<Rightarrow> 'w \<Rightarrow> (instance_proto status_or \<times> 'w) option" where
  "InstanceAdminClient_GetInstance conn inst = im_GetInstance conn (Instance_FullName inst)"

definition InstanceAdminClient_CreateInstance where
  "InstanceAdminClient_CreateInstance conn request = im_CreateInstance conn request"

definition InstanceAdminClient_UpdateInstance where
  "InstanceAdminClient_UpdateInstance conn request = im_UpdateInstance conn request"

definition InstanceAdminClient_DeleteInstance :: "'w instance_admin_methods \<Rightarrow> cloud_instance \<Rightarrow> 'w \<Rightarrow> (status \<times> 'w) option" where
  "InstanceAdminClient_DeleteInstance conn inst = im_DeleteInstance conn (Instance_FullName inst)"

definition InstanceAdminClient_GetInstanceConfig where
  "InstanceAdminClient_GetInstanceConfig conn name = im_GetInstanceConfig conn name"

definition InstanceAdminClient_ListInstanceConfigs where
  "InstanceAdminClient_ListInstanceConfigs conn project = im_ListInstanceConfigs conn project"

definition InstanceAdminClient_ListInstances where
  "InstanceAdminClient_ListInstances conn project flt = im_ListInstances conn project flt"

definition InstanceAdminClient_GetIamPolicy ::
    "'w instance_admin_methods \<Rightarrow> cloud_instance \<Rightarrow> 'w \<Rightarrow> (iam_policy status_or \<times> 'w) option" where
  "InstanceAdminClient_GetIamPolicy conn inst = im_GetIamPolicy conn (Instance_FullName inst)"

definition InstanceAdminClient_SetIamPolicy ::
    "'w instance_admin_methods \<Rightarrow> cloud_instance \<Rightarrow> iam_policy \<Rightarrow> 'w \<Rightarrow> (iam_policy status_or \<times> 'w) option" where
  "InstanceAdminClient_SetIamPolicy conn inst policy = im_SetIamPolicy conn (Instance_FullName inst) policy"

definition InstanceAdminClient_SetIamPolicy_updater ::
    "('q, 'd, 'w) retry_env \<Rightarrow> 'w instance_admin_methods \<Rightarrow> cloud_instance \<Rightarrow> (iam_policy \<Rightarrow> iam_policy option) \<Rightarrow>
     'q \<Rightarrow> 'd \<Rightarrow> 'w \<Rightarrow> (iam_policy status_or \<times> 'w) option" where
  "InstanceAdminClient_SetIamPolicy_updater env conn inst updater =
     SetIamPolicy_loop env (InstanceAdminClient_GetIamPolicy conn inst)
       (InstanceAdminClient_SetIamPolicy conn inst) updater"

definition InstanceAdminClient_TestIamPermissions where
  "InstanceAdminClient_TestIamPermissions conn inst permissions =
     im_TestIamPermissions conn (Instance_FullName inst) permissions"

section \<open>The clients of the library's connections\<close>

text \<open>What a client calls on the connections of the library is the operation of that connection.\<close>

lemmas database_client_defs =
  DatabaseAdminClient_CreateDatabase_def DatabaseAdminClient_GetDatabase_def DatabaseAdminClient_GetDatabaseDdl_def
  DatabaseAdminClient_UpdateDatabase_def DatabaseAdminClient_ListDatabases_def DatabaseAdminClient_DropDatabase_def
  DatabaseAdminClient_RestoreDatabase_def DatabaseAdminClient_RestoreDatabase_proto_def
  DatabaseAdminClient_GetIamPolicy_def DatabaseAdminClient_SetIamPolicy_def DatabaseAdminClient_TestIamPermissions_def
  DatabaseAdminClient_CreateBackup_def DatabaseAdminClient_GetBackup_def DatabaseAdminClient_DeleteBackup_def
  DatabaseAdminClient_DeleteBackup_proto_def DatabaseAdminClient_ListBackups_def
  DatabaseAdminClient_ListBackupOperations_def DatabaseAdminClient_ListDatabaseOperations_def

lemma database_client_Impl [simp]:
  "DatabaseAdminClient_GetIamPolicy (DatabaseAdminConnectionImpl period c) = Database_GetIamPolicy c"
  "DatabaseAdminClient_SetIamPolicy (DatabaseAdminConnectionImpl period c) = Database_SetIamPolicy c"
  "DatabaseAdminClient_SetIamPolicy_updater env (DatabaseAdminConnectionImpl period c) = Database_SetIamPolicy_updater env c"
  "DatabaseAdminClient_GetBackup (DatabaseAdminConnectionImpl period c) b = Client_GetBackup c b"
  "DatabaseAdminClient_DeleteBackup (DatabaseAdminConnectionImpl period c) b = Client_DeleteBackup c b"
  "DatabaseAdminClient_RestoreDatabase (DatabaseAdminConnectionImpl period c) db b = Client_RestoreDatabase c db b"
  "DatabaseAdminClient_UpdateBackupExpireTime period (DatabaseAdminConnectionImpl period c) =
     UpdateBackupExpireTime_named c period"
  by (auto simp: fun_eq_iff database_client_defs DatabaseAdminConnectionImpl_def Database_SetIamPolicy_updater_def
      DatabaseAdminClient_SetIamPolicy_updater_def Client_GetBackup_def Client_DeleteBackup_def Client_RestoreDatabase_def
      DatabaseAdminClient_SetIamPolicy_def [abs_def] DatabaseAdminClient_UpdateBackupExpireTime_def UpdateBackupExpireTime_named_def split: option.splits sum.splits)

lemma instance_client_Impl [simp]:
  "InstanceAdminClient_SetIamPolicy_updater env (InstanceAdminConnectionImpl c) = Instance_SetIamPolicy_updater env c"
  by (auto simp: fun_eq_iff InstanceAdminConnectionImpl_def Instance_SetIamPolicy_updater_def
      InstanceAdminClient_SetIamPolicy_updater_def InstanceAdminClient_GetIamPolicy_def [abs_def]
      InstanceAdminClient_SetIamPolicy_def [abs_def] Client_GetIamPolicy_def [abs_def] Client_SetIamPolicy_def [abs_def])

section \<open>Properties\<close>

text \<open>The first page of a range, which is loaded with its first request.\<close>

definition first_page ::
    "('req, 'resp, 'item, 'w) page_range \<Rightarrow> 'w \<Rightarrow> ('resp status_or \<times> 'w) option" where
  "first_page = (\<lambda>(request, load, items). load request)"

text \<open>
  A connection class that was written before there were backups, and so overrides only the pure
  methods, answers every operation on backups and every list of operations with \<open>kUnimplemented\<close>, also
  through the client and its overloads, and does nothing; an expiration time is checked first, so that
  one that no timestamp can hold is answered with the error of its conversion. The other operations are
  its own.
\<close>

theorem backups_unimplemented:
  "let conn = DatabaseAdminConnection m in
    DatabaseAdminClient_CreateBackup conn db bid t w = Some (Inl not_implemented, w) \<and>
    DatabaseAdminClient_RestoreDatabase conn db b w = Some (Inl not_implemented, w) \<and>
    DatabaseAdminClient_RestoreDatabase_proto conn db bp w = Some (Inl not_implemented, w) \<and>
    DatabaseAdminClient_GetBackup conn b w = Some (Inl not_implemented, w) \<and>
    DatabaseAdminClient_DeleteBackup conn b w = Some (not_implemented, w) \<and>
    DatabaseAdminClient_DeleteBackup_proto conn bp w = Some (not_implemented, w) \<and>
    first_page (DatabaseAdminClient_ListBackups conn inst flt) w = Some (Inl not_implemented, w) \<and>
    first_page (DatabaseAdminClient_ListBackupOperations conn inst flt) w = Some (Inl not_implemented, w) \<and>
    first_page (DatabaseAdminClient_ListDatabaseOperations conn inst flt) w = Some (Inl not_implemented, w) \<and>
    DatabaseAdminClient_UpdateBackupExpireTime period conn name t w =
      (case MakeTimestamp period t of
         None \<Rightarrow> None
       | Some (Inl st) \<Rightarrow> Some (Inl st, w)
       | Some (Inr _) \<Rightarrow> Some (Inl not_implemented, w)) \<and>
    database_admin_pure.truncate conn = m"
  by (auto simp: Let_def fun_eq_iff database_client_defs DatabaseAdminConnection_def database_admin_pure.defs
      Base_CreateBackup_def Base_RestoreDatabase_def Base_GetBackup_def Base_DeleteBackup_def Base_ListBackups_def
      Base_UpdateBackup_def Base_ListBackupOperations_def Base_ListDatabaseOperations_def unimplemented_range_def
      first_page_def DatabaseAdminClient_UpdateBackupExpireTime_def ConvertTimePointToProtoTimestamp_def
      split: option.splits sum.splits)

text \<open>
  C8: From the client to the wire: when an update of a database's policy succeeds through the client, the
  library's connection and its decorators, traced or not, then gRPC was called to write, in one step of the
  service, what the updater made of the policy that this write replaced, with the header that routes
  to the database; or the updater saw a policy that was in force and asked for no change. gRPC's calls
  are those of a service that checks etags.
\<close>

theorem client_update_end_to_end:
  assumes "iam_service current (da_GetIamPolicy (direct_database_admin_stub header g))
      (da_SetIamPolicy (direct_database_admin_stub header g))"
    and "DatabaseAdminClient_SetIamPolicy_updater (logged_env env)
      (DatabaseAdminConnectionImpl period (MakeDatabaseAdminConnection header pr traced g ap)) db updater q b (w, log) =
      Some (Inr r, (w', log'))"
    and "resource = Database_FullName db"
  shows "(\<exists>w1. r = current resource w1 \<and> updater r = None) \<or>
    (\<exists>w1 desired e. updater (current resource w1) = Some desired \<and> grpc_ok g e \<and>
       gd_SetIamPolicy g [(''x-goog-request-params'', ''resource='' @ resource), (''x-goog-api-client'', header)]
         \<lparr>sir_resource = resource, sir_policy = desired\<lparr>policy_etag := policy_etag (current resource w1)\<rparr>\<rparr> w1 =
       ((e, r), w'))"
proof -
  let ?stub = "direct_database_admin_stub header g"
  have call: "\<exists>e. grpc_ok g e \<and> gd_SetIamPolicy g [(''x-goog-request-params'', ''resource='' @ sir_resource req),
      (''x-goog-api-client'', header)] req w1 = ((e, x), w2)"
    if "da_SetIamPolicy ?stub req w1 = (Inr x, w2)" for req w1 x w2
    using that by (auto simp: direct_database_admin_stub_def direct_call_def unary_result_def map_prod_def
        split: prod.splits if_splits)
  have "SetIamPolicy_loop env (admin_GetIamPolicy ap (da_GetIamPolicy ?stub) resource)
      (admin_SetIamPolicy ap (da_SetIamPolicy ?stub) resource) updater q b w = Some (Inr r, w')"
    using run_imageD [OF database_updater_image [of env header g ap db updater q b pr traced], of "(w, log)"] assms(2,3)
    by (simp add: Database_SetIamPolicy_updater_def [of env] Database_GetIamPolicy_def [abs_def]
        Database_SetIamPolicy_def [abs_def] direct_database_admin_def)
  from iam_service.SetIamPolicy_atomic [OF assms(1) this] show ?thesis
    by (auto dest!: call)
qed

text \<open>The service of \<open>demo_iam\<close> behind gRPC, whose statuses are those of the library.\<close>

definition demo_grpc_call ::
    "('req \<Rightarrow> string \<Rightarrow> iam_policy status_or \<times> string) \<Rightarrow> context_md \<Rightarrow> 'req \<Rightarrow> string \<Rightarrow>
     (status \<times> iam_policy) \<times> string" where
  "demo_grpc_call call md req w =
     (case call req w of
        (Inl st, w') \<Rightarrow> ((st, demo_current [] []), w')
      | (Inr p, w') \<Rightarrow> ((ok_status, p), w'))"

definition demo_grpc_down :: "context_md \<Rightarrow> 'req \<Rightarrow> string \<Rightarrow> (status \<times> 'a) \<times> string" where
  "demo_grpc_down md req w = ((Status kUnavailable ''down'', undefined), w)"

definition demo_grpc :: "(status, string) grpc_database_admin" where
  "demo_grpc =
     \<lparr>grpc_ok = status_ok, MakeStatusFromRpcError = (\<lambda>st. st),
      gd_CreateDatabase = demo_grpc_down, gd_GetDatabase = demo_grpc_down,
      gd_GetDatabaseDdl = demo_grpc_down, gd_UpdateDatabase = demo_grpc_down,
      gd_DropDatabase = (\<lambda>_ _ w. (Status kUnavailable ''down'', w)), gd_ListDatabases = demo_grpc_down,
      gd_RestoreDatabase = demo_grpc_down, gd_GetIamPolicy = demo_grpc_call demo_get_policy,
      gd_SetIamPolicy = demo_grpc_call demo_set_policy, gd_TestIamPermissions = demo_grpc_down,
      gd_CreateBackup = demo_grpc_down, gd_GetBackup = demo_grpc_down,
      gd_DeleteBackup = (\<lambda>_ _ w. (Status kUnavailable ''down'', w)), gd_ListBackups = demo_grpc_down,
      gd_UpdateBackup = demo_grpc_down, gd_ListBackupOperations = demo_grpc_down,
      gd_ListDatabaseOperations = demo_grpc_down, gd_GetOperation = demo_grpc_down,
      gd_CancelOperation = (\<lambda>_ _ w. (Status kUnavailable ''down'', w))\<rparr>"

definition demo_printers :: "database_admin_message printers" where
  "demo_printers = \<lparr>DebugString = (\<lambda>_. ''message''), print_status = message\<rparr>"

definition demo_connection :: "(nat, int, string \<times> string list) database_admin" where
  "demo_connection = MakeDatabaseAdminConnection ''client'' demo_printers True demo_grpc demo_policies"

lemma demo_direct_calls:
  "da_GetIamPolicy (direct_database_admin_stub ''client'' demo_grpc) = demo_get_policy"
  "da_SetIamPolicy (direct_database_admin_stub ''client'' demo_grpc) = demo_set_policy"
  by (auto simp: fun_eq_iff direct_database_admin_stub_def direct_call_def demo_grpc_def demo_grpc_call_def
      unary_result_def demo_get_policy_def demo_set_policy_def Let_def)

lemma demo_direct_update:
  "Database_SetIamPolicy_updater demo_rerun (direct_database_admin ''client'' demo_grpc demo_policies) demo_database
     demo_updater 3 100 ''a'' = Some (Inr (demo_current (Database_FullName demo_database) ''abc''), ''abc'')"
  by (simp add: Database_SetIamPolicy_updater_def Database_GetIamPolicy_def Database_SetIamPolicy_def
      SetIamPolicy_loop.simps direct_database_admin_def demo_direct_calls demo_admin_simps)

theorem client_update_end_to_end_witness:
  "\<exists>w1 log'. w1 = ''ab'' \<and> demo_updater (demo_current (Database_FullName demo_database) w1) \<noteq> None \<and>
     DatabaseAdminClient_SetIamPolicy_updater (logged_env demo_rerun) (DatabaseAdminConnectionImpl (1, 1) demo_connection)
       demo_database demo_updater 3 100 (''a'', []) =
       Some (Inr (demo_current (Database_FullName demo_database) (w1 @ ''c'')), (w1 @ ''c'', log'))"
proof -
  let ?run = "DatabaseAdminClient_SetIamPolicy_updater (logged_env demo_rerun)
      (DatabaseAdminConnectionImpl (1, 1) demo_connection) demo_database demo_updater 3 100 (''a'', [])"
  have s: "iam_service demo_current (da_GetIamPolicy (direct_database_admin_stub ''client'' demo_grpc))
      (da_SetIamPolicy (direct_database_admin_stub ''client'' demo_grpc))"
    using demo_iam.iam_service_axioms by (simp add: demo_direct_calls)
  have "map_option (map_prod id fst) ?run = Some (Inr (demo_current (Database_FullName demo_database) ''abc''), ''abc'')"
    using run_imageD [OF database_updater_image [of demo_rerun "''client''" demo_grpc demo_policies demo_database
        demo_updater 3 100 demo_printers True], of "(''a'', [])"]
    by (simp add: demo_direct_update demo_connection_def)
  then obtain log' where run: "?run = Some (Inr (demo_current (Database_FullName demo_database) ''abc''), (''abc'', log'))"
    by auto
  have n: "demo_updater x \<noteq> None" for x by (simp add: demo_updater_def)
  obtain w1 desired e where u: "demo_updater (demo_current (Database_FullName demo_database) w1) = Some desired"
    "grpc_ok demo_grpc e" and c: "gd_SetIamPolicy demo_grpc
      [(''x-goog-request-params'', ''resource='' @ Database_FullName demo_database), (''x-goog-api-client'', ''client'')]
      \<lparr>sir_resource = Database_FullName demo_database, sir_policy = desired\<lparr>policy_etag :=
        policy_etag (demo_current (Database_FullName demo_database) w1)\<rparr>\<rparr> w1 =
      ((e, demo_current (Database_FullName demo_database) ''abc''), ''abc'')"
    using client_update_end_to_end [OF s run [unfolded demo_connection_def] refl] n by blast
  then have "w1 @ ''c'' = ''abc''"
    by (auto simp: demo_grpc_def demo_grpc_call_def demo_set_policy_def demo_updater_def demo_current_def Let_def)
  then have "w1 @ ''c'' = ''ab'' @ ''c''" by (simp only: append.simps)
  then have "w1 = ''ab''" by blast
  then show ?thesis using run by (auto simp: demo_updater_def)
qed

end
