(* ===== verification/Connection_Config.thy ===== *)
theory Connection_Config
  imports Admin_Stubs
begin

text \<open>
  What connections are configured with: the version of the library and the compiler it was built with
  (\<open>version.cc\<close>, \<open>internal/compiler_info.cc\<close>), the client's header made of them
  (\<open>internal/api_client_header.cc\<close>), connection options (\<open>connection_options.cc\<close>) and the default policies
  of the connections. The macros of the compiler, the generated build information and the environment
  are arguments.
\<close>

section \<open>Version and compiler\<close>

record version_info =
  VersionMajor :: int
  VersionMinor :: int
  VersionPatch :: int
  BuildMetadata :: string

definition Version :: "version_info \<Rightarrow> int" where
  "Version v = 100 * (100 * VersionMajor v + VersionMinor v) + VersionPatch v"

definition VersionString :: "version_info \<Rightarrow> string" where
  "VersionString v =
     ''v'' @ to_string (VersionMajor v) @ ''.'' @ to_string (VersionMinor v) @ ''.'' @ to_string (VersionPatch v) @
     (if BuildMetadata v \<noteq> [] then ''+'' @ BuildMetadata v else [])"

text \<open>The macros that the compilers define.\<close>

record compiler =
  apple_build_version :: "int option"
  clang :: "(int \<times> int \<times> int) option"
  gnuc :: "(int \<times> int \<times> int) option"
  msc_ver :: "int option"
  msc_full_ver :: "int option"
  have_exceptions :: bool
  cplusplus :: int

definition CompilerId :: "compiler \<Rightarrow> string" where
  "CompilerId c =
     (if apple_build_version c \<noteq> None \<and> clang c \<noteq> None then ''AppleClang''
      else if clang c \<noteq> None then ''Clang''
      else if gnuc c \<noteq> None then ''GNU''
      else if msc_ver c \<noteq> None then ''MSVC''
      else ''Unknown'')"

fun dotted :: "int \<times> int \<times> int \<Rightarrow> string" where
  "dotted (major, minor, patch) = to_string major @ ''.'' @ to_string minor @ ''.'' @ to_string patch"

definition CompilerVersion :: "compiler \<Rightarrow> string" where
  "CompilerVersion c =
     (case (clang c, apple_build_version c, gnuc c, msc_ver c) of
        (Some v, Some build, _, _) \<Rightarrow> dotted v @ ''.'' @ to_string build
      | (Some v, None, _, _) \<Rightarrow> dotted v
      | (None, _, Some v, _) \<Rightarrow> dotted v
      | (None, _, None, Some msc) \<Rightarrow>
          to_string (msc sdiv 100) @ ''.'' @ to_string (msc smod 100) @
          (case msc_full_ver c of
             None \<Rightarrow> []
           | Some full \<Rightarrow> ''.'' @ to_string (if msc \<ge> 1400 then full smod 100000 else full smod 10000))
      | (None, _, None, None) \<Rightarrow> ''Unknown'')"

definition CompilerFeatures :: "compiler \<Rightarrow> string" where
  "CompilerFeatures c = (if have_exceptions c then ''ex'' else ''noex'')"

definition LanguageVersion :: "compiler \<Rightarrow> string" where
  "LanguageVersion c =
     (if cplusplus c = 199711 then ''1998''
      else if cplusplus c = 201103 then ''2011''
      else if cplusplus c = 201402 then ''2014''
      else if cplusplus c = 201703 then ''2017''
      else ''unknown'')"

definition ApiClientHeader :: "version_info \<Rightarrow> compiler \<Rightarrow> string" where
  "ApiClientHeader v c =
     ''gl-cpp/'' @ CompilerId c @ ''-'' @ CompilerVersion c @ ''-'' @ CompilerFeatures c @ ''-'' @
     LanguageVersion c @ '' gccl/'' @ VersionString v"

section \<open>Connection options\<close>

text \<open>
  Credentials are the insecure ones or others, of type \<open>'c\<close>. The library's \<open>ConnectionOptions\<close> are built
  from the traits; of their other parts only the tracing components matter here.
\<close>

datatype 'c credentials = InsecureChannelCredentials | Credentials 'c

record 'c connection_options =
  endpoint :: string
  credentials :: "'c credentials"
  num_channels :: int
  user_agent_prefix :: string
  tracing_components :: "string set"

type_synonym environment = "string \<rightharpoonup> string"

definition default_endpoint :: "environment \<Rightarrow> string" where
  "default_endpoint GetEnv =
     (case GetEnv ''GOOGLE_CLOUD_CPP_SPANNER_DEFAULT_ENDPOINT'' of
        Some e \<Rightarrow> e | None \<Rightarrow> ''spanner.googleapis.com'')"

definition default_user_agent_prefix :: "version_info \<Rightarrow> compiler \<Rightarrow> string" where
  "default_user_agent_prefix v c =
     ''gcloud-cpp/'' @ VersionString v @ '' ('' @ CompilerId c @ ''-'' @ CompilerVersion c @ ''; '' @
     CompilerFeatures c @ '')''"

definition default_num_channels :: int where "default_num_channels = 4"

definition EmulatorOverrides :: "environment \<Rightarrow> 'c connection_options \<Rightarrow> 'c connection_options" where
  "EmulatorOverrides GetEnv options =
     (case GetEnv ''SPANNER_EMULATOR_HOST'' of
        Some emulator_addr \<Rightarrow> options\<lparr>endpoint := emulator_addr, credentials := InsecureChannelCredentials\<rparr>
      | None \<Rightarrow> options)"

section \<open>Default policies\<close>

text \<open>
  Policies of the common library, made by \<open>limited_time\<close> from a duration and by \<open>exponential\<close> from an
  initial and a maximum delay and a scaling; durations are in milliseconds.
\<close>

definition DefaultConnectionRetryPolicy :: "(int \<Rightarrow> 'p) \<Rightarrow> 'p" where
  "DefaultConnectionRetryPolicy limited_time = limited_time (10 * 60 * 1000)"

definition DefaultConnectionBackoffPolicy :: "(int \<Rightarrow> int \<Rightarrow> int \<Rightarrow> 'b) \<Rightarrow> 'b" where
  "DefaultConnectionBackoffPolicy exponential = (let kBackoffScaling = 2 in exponential 100 (1 * 60 * 1000) kBackoffScaling)"

definition DefaultAdminRetryPolicy :: "(int \<Rightarrow> 'p) \<Rightarrow> 'p" where
  "DefaultAdminRetryPolicy limited_time = limited_time (30 * 60 * 1000)"

definition DefaultAdminBackoffPolicy :: "(int \<Rightarrow> int \<Rightarrow> int \<Rightarrow> 'b) \<Rightarrow> 'b" where
  "DefaultAdminBackoffPolicy exponential =
     (let kBackoffScaling = 2 in exponential (1 * 1000) (5 * 60 * 1000) kBackoffScaling)"

definition DefaultAdminPollingPolicy :: "(int \<Rightarrow> 'p) \<Rightarrow> (int \<Rightarrow> int \<Rightarrow> int \<Rightarrow> 'b) \<Rightarrow> 'p \<times> 'b" where
  "DefaultAdminPollingPolicy limited_time exponential =
     (let kBackoffScaling = 2
      in (limited_time (30 * 60 * 1000), exponential (10 * 1000) (5 * 60 * 1000) kBackoffScaling))"

definition DefaultInstanceAdminRetryPolicy :: "(int \<Rightarrow> 'p) \<Rightarrow> 'p" where
  "DefaultInstanceAdminRetryPolicy limited_time = limited_time (30 * 60 * 1000)"

definition DefaultInstanceAdminBackoffPolicy :: "(int \<Rightarrow> int \<Rightarrow> int \<Rightarrow> 'b) \<Rightarrow> 'b" where
  "DefaultInstanceAdminBackoffPolicy exponential =
     (let kBackoffScaling = 2 in exponential (1 * 1000) (5 * 60 * 1000) kBackoffScaling)"

definition DefaultInstanceAdminPollingPolicy :: "(int \<Rightarrow> 'p) \<Rightarrow> (int \<Rightarrow> int \<Rightarrow> int \<Rightarrow> 'b) \<Rightarrow> 'p \<times> 'b" where
  "DefaultInstanceAdminPollingPolicy limited_time exponential =
     (let kBackoffScaling = 2
      in (limited_time (30 * 60 * 1000), exponential (10 * 1000) (5 * 60 * 1000) kBackoffScaling))"

section \<open>Stubs of a connection\<close>

text \<open>
  A gRPC channel is what it is made from: its endpoint, its credentials and the id that keeps channels
  with the same arguments apart. \<open>NewStub\<close> is gRPC's.
\<close>

record 'c grpc_channel =
  ch_endpoint :: string
  ch_credentials :: "'c credentials"
  ch_id :: "nat option"

definition CreateCustomChannel :: "'c connection_options \<Rightarrow> nat option \<Rightarrow> 'c grpc_channel" where
  "CreateCustomChannel options channel_id =
     \<lparr>ch_endpoint = endpoint options, ch_credentials = credentials options, ch_id = channel_id\<rparr>"

definition tracing_enabled :: "'c connection_options \<Rightarrow> string \<Rightarrow> bool" where
  "tracing_enabled options component \<longleftrightarrow> component \<in> tracing_components options"

definition DefaultSpannerStub_for ::
    "environment \<Rightarrow> string \<Rightarrow> log_message printers \<Rightarrow> ('c grpc_channel \<Rightarrow> ('e, 'r, 'h, 'w) grpc_stub) \<Rightarrow>
     'c connection_options \<Rightarrow> nat \<Rightarrow> ('r, 'h, 'w) rpc_stub" where
  "DefaultSpannerStub_for GetEnv header pr NewStub options channel_id =
     (let options = EmulatorOverrides GetEnv options
      in CreateDefaultSpannerStub header pr (tracing_enabled options ''rpc'')
           (NewStub (CreateCustomChannel options (Some channel_id))))"

definition DefaultDatabaseAdminStub_for ::
    "environment \<Rightarrow> string \<Rightarrow> database_admin_message printers \<Rightarrow>
     ('c grpc_channel \<Rightarrow> ('e, 'w) grpc_database_admin) \<Rightarrow> 'c connection_options \<Rightarrow> 'w database_admin_rpcs" where
  "DefaultDatabaseAdminStub_for GetEnv header pr NewStub options =
     (let options = EmulatorOverrides GetEnv options
      in CreateDefaultDatabaseAdminStub header pr (tracing_enabled options ''rpc'')
           (NewStub (CreateCustomChannel options None)))"

definition DefaultInstanceAdminStub_for ::
    "environment \<Rightarrow> string \<Rightarrow> instance_admin_message printers \<Rightarrow>
     ('c grpc_channel \<Rightarrow> ('e, 'w) grpc_instance_admin) \<Rightarrow> 'c connection_options \<Rightarrow> 'w instance_admin_rpcs" where
  "DefaultInstanceAdminStub_for GetEnv header pr NewStub options =
     (let options = EmulatorOverrides GetEnv options
      in CreateDefaultInstanceAdminStub header pr (tracing_enabled options ''rpc'')
           (NewStub (CreateCustomChannel options None)))"

text \<open>The stubs that \<open>MakeConnection\<close> gives to the connection: one for each channel, at least one.\<close>

definition connection_stubs ::
    "environment \<Rightarrow> string \<Rightarrow> log_message printers \<Rightarrow> ('c grpc_channel \<Rightarrow> ('e, 'r, 'h, 'w) grpc_stub) \<Rightarrow>
     'c connection_options \<Rightarrow> ('r, 'h, 'w) rpc_stub list" where
  "connection_stubs GetEnv header pr NewStub options =
     (let channels = max (num_channels options) 1
      in map (DefaultSpannerStub_for GetEnv header pr NewStub options) [0..<nat channels])"

section \<open>Properties\<close>

text \<open>Where a channel goes: to the emulator, without credentials, when the environment names one.\<close>

definition channel_to :: "environment \<Rightarrow> 'c connection_options \<Rightarrow> 'c grpc_channel \<Rightarrow> bool" where
  "channel_to GetEnv options ch \<longleftrightarrow>
     (case GetEnv ''SPANNER_EMULATOR_HOST'' of
        Some addr \<Rightarrow> ch_endpoint ch = addr \<and> ch_credentials ch = InsecureChannelCredentials
      | None \<Rightarrow> ch_endpoint ch = endpoint options \<and> ch_credentials ch = credentials options)"

lemma channel_to_override: "channel_to GetEnv options (CreateCustomChannel (EmulatorOverrides GetEnv options) i)"
  by (simp add: channel_to_def CreateCustomChannel_def EmulatorOverrides_def split: option.splits)

lemma tracing_enabled_override: "tracing_enabled (EmulatorOverrides GetEnv options) c = tracing_enabled options c"
  by (simp add: tracing_enabled_def EmulatorOverrides_def split: option.splits)

text \<open>
  C34: When the environment names an emulator, no stub talks to another endpoint or sends credentials,
  whatever the options say: all channels of a connection and of both admin connections go there; else
  they go where the options say. A connection has as many stubs as its options ask for and at least one,
  each over a channel of its own (gRPC would share one between equal arguments), and tracing is as asked.
\<close>

theorem connection_channels:
  "(\<exists>chs. connection_stubs GetEnv header pr NewStub options =
       map (\<lambda>ch. CreateDefaultSpannerStub header pr (tracing_enabled options ''rpc'') (NewStub ch)) chs \<and>
     length chs = nat (max (num_channels options) 1) \<and> chs \<noteq> [] \<and> distinct chs \<and>
     list_all (channel_to GetEnv options) chs) \<and>
   (\<exists>ch. DefaultDatabaseAdminStub_for GetEnv header dpr NewDatabaseStub options =
       CreateDefaultDatabaseAdminStub header dpr (tracing_enabled options ''rpc'') (NewDatabaseStub ch) \<and>
     channel_to GetEnv options ch) \<and>
   (\<exists>ch. DefaultInstanceAdminStub_for GetEnv header ipr NewInstanceStub options =
       CreateDefaultInstanceAdminStub header ipr (tracing_enabled options ''rpc'') (NewInstanceStub ch) \<and>
     channel_to GetEnv options ch)"
proof (intro conjI)
  let ?o = "EmulatorOverrides GetEnv options"
  let ?chs = "map (\<lambda>i. CreateCustomChannel ?o (Some i)) [0..<nat (max (num_channels options) 1)]"
  have "distinct ?chs"
    by (auto simp: distinct_map inj_on_def CreateCustomChannel_def)
  moreover have "list_all (channel_to GetEnv options) ?chs"
    by (simp add: list_all_iff channel_to_override)
  ultimately show "\<exists>chs. connection_stubs GetEnv header pr NewStub options =
       map (\<lambda>ch. CreateDefaultSpannerStub header pr (tracing_enabled options ''rpc'') (NewStub ch)) chs \<and>
     length chs = nat (max (num_channels options) 1) \<and> chs \<noteq> [] \<and> distinct chs \<and>
     list_all (channel_to GetEnv options) chs"
    by (intro exI [of _ ?chs])
      (simp add: connection_stubs_def DefaultSpannerStub_for_def Let_def tracing_enabled_override)
qed (auto simp: DefaultDatabaseAdminStub_for_def DefaultInstanceAdminStub_for_def Let_def tracing_enabled_override
    intro: channel_to_override)

end
