(* ===== verification/Reader_Images.thy ===== *)
theory Reader_Images
  imports Loop_Images Connection
begin

text \<open>
  Readers over a state and over an image of it: sources of rows on two readers, one of which is an image
  of the other, give the same rows, and so do the readers that resume their streams.
\<close>

section \<open>Readers and sources\<close>

locale reader_image =
  fixes \<phi> :: "'b \<Rightarrow> 'a"
    and rd :: "'a reader"
    and rd' :: "'b reader"
  assumes reads: "run_image \<phi> (Read rd) (Read rd')"
    and finishes: "Finish rd (\<phi> r) = map_prod id \<phi> (Finish rd' r)"
    and cancels: "TryCancel rd (\<phi> r) = \<phi> (TryCancel rd' r)"

definition source_map :: "('b \<Rightarrow> 'a) \<Rightarrow> 'b source \<Rightarrow> 'a source" where
  "source_map \<phi> s =
     \<lparr>src_reader = \<phi> (src_reader s), src_metadata = src_metadata s, src_stats = src_stats s,
      src_buffer = src_buffer s, src_chunk = src_chunk s, src_columns = src_columns s,
      src_finished = src_finished s\<rparr>"

lemma source_map_simps [simp]:
  "src_reader (source_map \<phi> s) = \<phi> (src_reader s)" "src_metadata (source_map \<phi> s) = src_metadata s"
  "src_stats (source_map \<phi> s) = src_stats s" "src_buffer (source_map \<phi> s) = src_buffer s"
  "src_chunk (source_map \<phi> s) = src_chunk s" "src_columns (source_map \<phi> s) = src_columns s"
  "src_finished (source_map \<phi> s) = src_finished s"
  by (simp_all add: source_map_def)

lemma store_image:
  "store_metadata m (source_map \<phi> s) = source_map \<phi> (store_metadata m s)"
  "store_stats m (source_map \<phi> s) = source_map \<phi> (store_stats m s)"
  "store_values m (source_map \<phi> s) = map_prod id (source_map \<phi>) (store_values m s)"
  by (auto simp: store_metadata_def store_stats_def store_values_def source_map_def Let_def
      split: option.splits list.splits sum.splits)

context reader_image
begin

lemma ReadFromStream_image: "run_image (source_map \<phi>) (ReadFromStream rd) (ReadFromStream rd')"
  unfolding run_image_def
proof
  fix s
  have u: "(source_map \<phi> s)\<lparr>src_reader := \<phi> r\<rparr> = source_map \<phi> (s\<lparr>src_reader := r\<rparr>)" for r
    by (simp add: source_map_def)
  have f: "source_map \<phi> s\<lparr>src_finished := True, src_reader := \<phi> r\<rparr> =
      source_map \<phi> (s\<lparr>src_finished := True, src_reader := r\<rparr>)" for r
    by (simp add: source_map_def)
  show "ReadFromStream rd (source_map \<phi> s) = map_option (map_prod id (source_map \<phi>)) (ReadFromStream rd' s)"
    by (auto simp: ReadFromStream_def run_imageD [OF reads] finishes u f store_image
        split: option.splits prod.splits)
qed

lemma Source_Create_image:
  "Source_Create rd (\<phi> r) = map_option (map_sum id (source_map \<phi>)) (Source_Create rd' r)"
proof -
  let ?s = "\<lambda>r. \<lparr>src_reader = r, src_metadata = None, src_stats = None, src_buffer = [],
    src_chunk = None, src_columns = None, src_finished = False\<rparr>"
  have "?s (\<phi> r) = source_map \<phi> (?s r)" by (simp add: source_map_def)
  then have e: "ReadFromStream rd (?s (\<phi> r)) = map_option (map_prod id (source_map \<phi>)) (ReadFromStream rd' (?s r))"
    by (simp only: run_imageD [OF ReadFromStream_image])
  show ?thesis
  proof (cases "ReadFromStream rd' (?s r)")
    case None
    then show ?thesis using e by (simp add: Source_Create_def)
  next
    case (Some a)
    then show ?thesis using e by (cases a) (simp add: Source_Create_def)
  qed
qed

lemma NextRow_fill_forth:
  assumes "NextRow_fill rd' s = Some y"
  shows "NextRow_fill rd (source_map \<phi> s) = Some (map_prod id (source_map \<phi>) y)"
proof (rule NextRow_fill.raw_induct [OF _ assms, where P = "\<lambda>e s y. e = rd' \<longrightarrow>
    NextRow_fill rd (source_map \<phi> s) = Some (map_prod id (source_map \<phi>) y)", THEN mp, OF _ refl], intro impI, goal_cases)
  case (1 nf e s y)
  note IH = 1(1) [rule_format, OF _ refl] and y = 1(2) [unfolded 1(3)]
  show ?case
  proof (cases "ReadFromStream rd' s")
    case None
    then show ?thesis using y
      by (subst NextRow_fill.simps) (auto simp: run_imageD [OF ReadFromStream_image] split: if_splits)
  next
    case (Some a)
    obtain st s1 where "a = (st, s1)" by (cases a)
    then show ?thesis using y IH [of s1 y] Some
      by (subst NextRow_fill.simps) (auto simp: run_imageD [OF ReadFromStream_image] split: if_splits)
  qed
qed

lemma NextRow_fill_back:
  assumes "NextRow_fill rd (source_map \<phi> s) = Some y"
  shows "\<exists>y'. NextRow_fill rd' s = Some y'"
proof (rule NextRow_fill.raw_induct [OF _ assms, where P = "\<lambda>e z y. e = rd \<longrightarrow>
    (\<forall>s. z = source_map \<phi> s \<longrightarrow> (\<exists>y'. NextRow_fill rd' s = Some y'))", rule_format, OF _ refl refl], goal_cases)
  case (1 nf e z y s)
  note IH = 1(1) [rule_format, OF _ refl refl] and y = 1(2) [unfolded 1(3,4)]
  show ?case
  proof (cases "ReadFromStream rd' s")
    case None
    then show ?thesis using y
      by (subst NextRow_fill.simps) (auto simp: run_imageD [OF ReadFromStream_image] split: if_splits)
  next
    case (Some a)
    obtain st s1 where "a = (st, s1)" by (cases a)
    then show ?thesis using y IH [of s1 y] Some
      by (subst NextRow_fill.simps) (auto simp: run_imageD [OF ReadFromStream_image] split: if_splits)
  qed
qed

lemma NextRow_fill_image: "run_image (source_map \<phi>) (NextRow_fill rd) (NextRow_fill rd')"
  by (rule run_imageI) (rule NextRow_fill_forth NextRow_fill_back, assumption)+

lemma NextRow_image: "run_image (source_map \<phi>) (NextRow rd) (NextRow rd')"
  unfolding run_image_def
proof
  fix s
  have u: "(source_map \<phi> s)\<lparr>src_buffer := b\<rparr> = source_map \<phi> (s\<lparr>src_buffer := b\<rparr>)" for s b
    by (simp add: source_map_def)
  show "NextRow rd (source_map \<phi> s) = map_option (map_prod id (source_map \<phi>)) (NextRow rd' s)"
    by (auto simp: NextRow_def run_imageD [OF NextRow_fill_image] u Let_def split: option.splits sum.splits)
qed

end

section \<open>Resumption\<close>

definition resume_map :: "('v \<Rightarrow> 'w) \<Rightarrow> ('r, 'p, 'b, 'v) resume \<Rightarrow> ('r, 'p, 'b, 'w) resume" where
  "resume_map \<pi> s =
     \<lparr>rs_retry = rs_retry s, rs_backoff = rs_backoff s, rs_token = rs_token s, rs_child = rs_child s,
      rs_last_status = rs_last_status s, rs_world = \<pi> (rs_world s)\<rparr>"

lemma resume_map_simps [simp]:
  "rs_retry (resume_map \<pi> s) = rs_retry s" "rs_backoff (resume_map \<pi> s) = rs_backoff s"
  "rs_token (resume_map \<pi> s) = rs_token s" "rs_child (resume_map \<pi> s) = rs_child s"
  "rs_last_status (resume_map \<pi> s) = rs_last_status s" "rs_world (resume_map \<pi> s) = \<pi> (rs_world s)"
  by (simp_all add: resume_map_def)

lemma resume_map_update [simp]:
  "(resume_map \<pi> s)\<lparr>rs_retry := p\<rparr> = resume_map \<pi> (s\<lparr>rs_retry := p\<rparr>)"
  "(resume_map \<pi> s)\<lparr>rs_backoff := b\<rparr> = resume_map \<pi> (s\<lparr>rs_backoff := b\<rparr>)"
  "(resume_map \<pi> s)\<lparr>rs_token := t\<rparr> = resume_map \<pi> (s\<lparr>rs_token := t\<rparr>)"
  "(resume_map \<pi> s)\<lparr>rs_child := c\<rparr> = resume_map \<pi> (s\<lparr>rs_child := c\<rparr>)"
  "(resume_map \<pi> s)\<lparr>rs_last_status := st\<rparr> = resume_map \<pi> (s\<lparr>rs_last_status := st\<rparr>)"
  "(resume_map \<pi> s)\<lparr>rs_world := \<pi> v\<rparr> = resume_map \<pi> (s\<lparr>rs_world := v\<rparr>)"
  by (simp_all add: resume_map_def)

locale resume_image = loop_image \<pi> "rc_env cfg" "rc_env cfg'"
  for \<pi> :: "'v \<Rightarrow> 'w" and cfg :: "('r, 'p, 'b, 'w) resume_config" and cfg' :: "('r, 'p, 'b, 'v) resume_config" +
  assumes reader: "rc_reader cfg' = rc_reader cfg"
    and idempotent: "rc_idempotent cfg' = rc_idempotent cfg"
    and factory: "call_image \<pi> (rc_factory cfg) (rc_factory cfg')"
begin

lemma Resume_Finish_image: "Resume_Finish cfg (resume_map \<pi> s) = map_prod id (resume_map \<pi>) (Resume_Finish cfg' s)"
  by (auto simp: Resume_Finish_def reader split: option.splits prod.splits)

lemma factory_eq: "rc_factory cfg token (\<pi> v) = map_prod id \<pi> (rc_factory cfg' token v)"
  using factory by (simp add: call_image_def)

lemma Resume_Create_image: "Resume_Create cfg p b (\<pi> v) = resume_map \<pi> (Resume_Create cfg' p b v)"
  by (simp add: Resume_Create_def factory_eq resume_map_def split: prod.splits)

lemma Resume_Read_forth:
  assumes "Resume_Read cfg' s = Some y"
  shows "Resume_Read cfg (resume_map \<pi> s) = Some (map_prod id (resume_map \<pi>) y)"
proof (rule Resume_Read.raw_induct [OF _ assms, where P = "\<lambda>e s y. e = cfg' \<longrightarrow>
    Resume_Read cfg (resume_map \<pi> s) = Some (map_prod id (resume_map \<pi>) y)", THEN mp, OF _ refl], intro impI, goal_cases)
  case (1 rr e s y)
  note IH = 1(1) [rule_format, OF _ refl] and y = 1(2) [unfolded 1(3)]
  obtain r s2 where "y = (r, s2)" by (cases y)
  with y IH show ?case
    by (subst Resume_Read.simps)
      (auto simp: reader idempotent policy backoff factory_eq Resume_Finish_image sleeper [symmetric] Let_def
        split: if_splits option.splits prod.splits)
qed

lemma Resume_Read_back:
  assumes "Resume_Read cfg (resume_map \<pi> s) = Some y"
  shows "\<exists>y'. Resume_Read cfg' s = Some y'"
proof (rule Resume_Read.raw_induct [OF _ assms, where P = "\<lambda>e z y. e = cfg \<longrightarrow>
    (\<forall>s. z = resume_map \<pi> s \<longrightarrow> (\<exists>y'. Resume_Read cfg' s = Some y'))", rule_format, OF _ refl refl], goal_cases)
  case (1 rr e z y s)
  note IH = 1(1) [rule_format, OF _ refl refl] and y = 1(2) [unfolded 1(3,4)]
  obtain r s2 where "y = (r, s2)" by (cases y)
  with y IH show ?case
    by (subst Resume_Read.simps)
      (auto simp: reader idempotent policy backoff factory_eq Resume_Finish_image sleeper [symmetric] Let_def
        split: if_splits option.splits prod.splits)
qed

lemma Resume_Read_image: "run_image (resume_map \<pi>) (Resume_Read cfg) (Resume_Read cfg')"
  by (rule run_imageI) (rule Resume_Read_forth Resume_Read_back, assumption)+

end

sublocale resume_image \<subseteq> readers: reader_image "resume_map \<pi>" "resume_reader cfg" "resume_reader cfg'"
  by unfold_locales
    (simp_all add: resume_reader_def Resume_Read_image Resume_Finish_image Resume_TryCancel_def reader)

context resume_image
begin

lemma rows_image:
  "NextRow (resume_reader cfg) (source_map (resume_map \<pi>) s) =
   map_option (map_prod id (source_map (resume_map \<pi>))) (NextRow (resume_reader cfg') s)"
  by (rule run_imageD [OF readers.NextRow_image])

lemma opened_image:
  "Source_Create (resume_reader cfg) (Resume_Create cfg p b (\<pi> v)) =
   map_option (map_sum id (source_map (resume_map \<pi>))) (Source_Create (resume_reader cfg') (Resume_Create cfg' p b v))"
  by (simp only: Resume_Create_image readers.Source_Create_image)

end

end
