(* ===== verification/Connection_Stubs.thy ===== *)
theory Connection_Stubs
  imports Reader_Images Connection_Operations Admin_Stubs
begin

text \<open>
  The connection that \<open>MakeConnection\<close> makes, on the decorated stubs of \<open>CreateDefaultSpannerStub\<close>: all
  its operations refine those on gRPC itself, whether calls are traced or not.
\<close>

section \<open>Images of a world\<close>

definition world_image :: "('v \<Rightarrow> 'w) \<Rightarrow> ('s, 'g, 'v) client_world \<Rightarrow> ('s, 'g, 'w) client_world" where
  "world_image \<pi> W =
     \<lparr>cw_pool = cw_pool W, cw_sessions = cw_sessions W, cw_txns = cw_txns W,
      cw_streams = (\<lambda>k. \<pi> (cw_streams W k)), cw_opened = cw_opened W, cw_service = \<pi> (cw_service W)\<rparr>"

lemma world_image_simps [simp]:
  "cw_pool (world_image \<pi> W) = cw_pool W" "cw_sessions (world_image \<pi> W) = cw_sessions W"
  "cw_txns (world_image \<pi> W) = cw_txns W" "cw_streams (world_image \<pi> W) k = \<pi> (cw_streams W k)"
  "cw_opened (world_image \<pi> W) = cw_opened W" "cw_service (world_image \<pi> W) = \<pi> (cw_service W)"
  by (simp_all add: world_image_def)

lemma world_image_update [simp]:
  "(world_image \<pi> W)\<lparr>cw_pool := p\<rparr> = world_image \<pi> (W\<lparr>cw_pool := p\<rparr>)"
  "(world_image \<pi> W)\<lparr>cw_sessions := ss\<rparr> = world_image \<pi> (W\<lparr>cw_sessions := ss\<rparr>)"
  "(world_image \<pi> W)\<lparr>cw_txns := ts\<rparr> = world_image \<pi> (W\<lparr>cw_txns := ts\<rparr>)"
  "(world_image \<pi> W)\<lparr>cw_opened := k\<rparr> = world_image \<pi> (W\<lparr>cw_opened := k\<rparr>)"
  "(world_image \<pi> W)\<lparr>cw_service := \<pi> v\<rparr> = world_image \<pi> (W\<lparr>cw_service := v\<rparr>)"
  by (simp_all add: world_image_def)

lemma world_steps_image:
  "the_session (world_image \<pi> W) h = the_session W h"
  "note_status h st (world_image \<pi> W) = world_image \<pi> (note_status h st W)"
  "add_session holder (world_image \<pi> W) = map_prod id (world_image \<pi>) (add_session holder W)"
  "add_transaction ti (world_image \<pi> W) = map_prod id (world_image \<pi>) (add_transaction ti W)"
  "Connection_GetStub h (world_image \<pi> W) = map_prod id (world_image \<pi>) (Connection_GetStub h W)"
  by (simp_all add: the_session_def note_status_def set_bad_def add_session_def add_transaction_def
      Connection_GetStub_def split: prod.splits)

text \<open>Results of two runs agree, up to \<open>R\<close>, and one world is the image of the other.\<close>

definition runs_agree ::
    "('v \<Rightarrow> 'w) \<Rightarrow> ('a \<Rightarrow> 'c \<Rightarrow> bool) \<Rightarrow> ('a \<times> ('s, 'g, 'w) client_world) option \<Rightarrow>
     ('c \<times> ('s, 'g, 'v) client_world) option \<Rightarrow> bool" where
  "runs_agree \<pi> R = rel_option (rel_prod R (\<lambda>W W'. W = world_image \<pi> W'))"

definition visits_agree ::
    "('v \<Rightarrow> 'w) \<Rightarrow> ('a \<Rightarrow> 'c \<Rightarrow> bool) \<Rightarrow> ('a \<times> 'x \<times> ('s, 'g, 'w) client_world) option \<Rightarrow>
     ('c \<times> 'x \<times> ('s, 'g, 'v) client_world) option \<Rightarrow> bool" where
  "visits_agree \<pi> R = rel_option (rel_prod R (rel_prod (=) (\<lambda>W W'. W = world_image \<pi> W')))"

lemma runs_agree_simps [simp]:
  "runs_agree \<pi> R None None" "\<not> runs_agree \<pi> R None (Some y)" "\<not> runs_agree \<pi> R (Some x) None"
  "runs_agree \<pi> R (Some (a, W)) (Some (b, W')) \<longleftrightarrow> R a b \<and> W = world_image \<pi> W'"
  by (simp_all add: runs_agree_def)

lemma visits_agree_simps [simp]:
  "visits_agree \<pi> R None None" "\<not> visits_agree \<pi> R None (Some y)" "\<not> visits_agree \<pi> R (Some x) None"
  "visits_agree \<pi> R (Some (a, s, W)) (Some (b, s', W')) \<longleftrightarrow> R a b \<and> s = s' \<and> W = world_image \<pi> W'"
  by (simp_all add: visits_agree_def)

lemma runs_agree_cases:
  assumes "runs_agree \<pi> R x y"
  obtains "x = None" "y = None" | a b W where "x = Some (a, world_image \<pi> W)" "y = Some (b, W)" "R a b"
proof (cases x)
  case None
  then show ?thesis using assms that(1) by (cases y) simp_all
next
  case (Some p)
  then obtain a V where x: "x = Some (a, V)" by (cases p) simp
  then obtain b W where "y = Some (b, W)" using assms by (cases y) auto
  then show ?thesis using assms that(2) x by simp
qed

text \<open>Results on two readers, one of which is an image of the other, give the same rows.\<close>

inductive results_agree ::
    "('v \<Rightarrow> 'w) \<Rightarrow> ('r, 'p, 'b, 'w) result_source \<Rightarrow> ('r, 'p, 'b, 'v) result_source \<Rightarrow> bool"
  for \<pi> where
  stream: "resume_image \<pi> cfg cfg' \<Longrightarrow>
    results_agree \<pi> (StreamSource cfg (source_map (resume_map \<pi>) s)) (StreamSource cfg' s)"
| status: "results_agree \<pi> (StatusOnly st) (StatusOnly st)"
| dml: "results_agree \<pi> (DmlSource rs) (DmlSource rs)"

declare results_agree.status [simp] results_agree.dml [simp]

lemma results_agree_data:
  "results_agree \<pi> r r' \<Longrightarrow> result_Metadata r = result_Metadata r' \<and> result_Stats r = result_Stats r'"
  by (induction rule: results_agree.induct) simp_all

lemma results_agree_NextRow:
  assumes "results_agree \<pi> r r'"
  shows "rel_option (rel_prod (=) (results_agree \<pi>)) (result_NextRow r) (result_NextRow r')"
  using assms
proof (induction rule: results_agree.induct)
  case (stream cfg cfg' s)
  show ?case
    by (cases "NextRow (resume_reader cfg') s")
      (auto simp: resume_image.rows_image [OF stream] intro: results_agree.stream [OF stream])
qed (auto intro: results_agree.intros)

section \<open>Two connections\<close>

locale connection_image = loop_image \<pi> "pe_retry (cn_pool_env c)" "pe_retry (cn_pool_env c')"
  for \<pi> :: "'v \<Rightarrow> 'w" and c :: "('s, 'g, 'p, 'b, 'w, 'r) connection" and c' :: "('s, 'g, 'p, 'b, 'v, 'r) connection" +
  assumes policies: "pe_policy (cn_pool_env c') = pe_policy (cn_pool_env c)"
      "pe_backoff (cn_pool_env c') = pe_backoff (cn_pool_env c)"
      "pe_shuffle (cn_pool_env c') = pe_shuffle (cn_pool_env c)"
    and tracing: "cn_tracing c' = cn_tracing c"
    and reader: "stub_reader (cn_stub c') = stub_reader (cn_stub c)"
    and create: "call_image \<pi> (pe_create (cn_pool_env c) stub) (pe_create (cn_pool_env c') stub)"
    and read_call: "call_image \<pi> (StreamingRead (cn_stub c) stub) (StreamingRead (cn_stub c') stub)"
    and query_call: "call_image \<pi> (ExecuteStreamingSql (cn_stub c) stub) (ExecuteStreamingSql (cn_stub c') stub)"
    and sql_call: "call_image \<pi> (stub_ExecuteSql (cn_stub c) stub) (stub_ExecuteSql (cn_stub c') stub)"
    and dml_call: "call_image \<pi> (stub_ExecuteBatchDml (cn_stub c) stub) (stub_ExecuteBatchDml (cn_stub c') stub)"
    and partition_read_call: "call_image \<pi> (stub_PartitionRead (cn_stub c) stub) (stub_PartitionRead (cn_stub c') stub)"
    and partition_query_call: "call_image \<pi> (stub_PartitionQuery (cn_stub c) stub) (stub_PartitionQuery (cn_stub c') stub)"
    and begin_call: "call_image \<pi> (stub_BeginTransaction (cn_stub c) stub) (stub_BeginTransaction (cn_stub c') stub)"
    and commit_call: "call_image \<pi> (stub_Commit (cn_stub c) stub) (stub_Commit (cn_stub c') stub)"
    and rollback_call: "call_image \<pi> (stub_Rollback (cn_stub c) stub) (stub_Rollback (cn_stub c') stub)"
begin

text \<open>Sessions.\<close>

lemma CreateSessionsSync_image:
  "CreateSessionsSync (cn_pool_env c) i n p (\<pi> v) =
   map_option (\<lambda>(st, p, v). (st, p, \<pi> v)) (CreateSessionsSync (cn_pool_env c') i n p v)"
proof -
  have r: "RetryLoop (pe_retry (cn_pool_env c)) q b True (pe_create (cn_pool_env c) stub) req loc (\<pi> v) =
      map_option (map_prod id \<pi>) (RetryLoop (pe_retry (cn_pool_env c')) q b True (pe_create (cn_pool_env c') stub) req loc v)"
    for q b stub req loc by (rule run_imageD [OF RetryLoop_image [OF create]])
  show ?thesis by (auto simp: CreateSessionsSync_def r policies split: option.splits prod.splits)
qed

lemma CreateSessions_wait_image:
  "CreateSessions_wait (cn_pool_env c) ops st p (\<pi> v) =
   map_option (\<lambda>(st, p, v). (st, p, \<pi> v)) (CreateSessions_wait (cn_pool_env c') ops st p v)"
proof (induction ops arbitrary: st p v)
  case (Cons op ops)
  obtain i n where op: "op = (i, n)" by (cases op)
  show ?case
  proof (cases "CreateSessionsSync (cn_pool_env c') i n p v")
    case None
    then show ?thesis by (simp add: op CreateSessionsSync_image)
  next
    case (Some y)
    then show ?thesis by (cases y) (simp add: op CreateSessionsSync_image Cons.IH)
  qed
qed simp

lemma Grow_wait_image:
  "Grow_wait (cn_pool_env c) n p (\<pi> v) =
   map_option (\<lambda>(st, p, v). (st, p, \<pi> v)) (Grow_wait (cn_pool_env c') n p v)"
  by (auto simp: Grow_wait_def CreateSessions_wait_image split: sum.splits)

lemma Allocate_forth:
  assumes "Allocate (cn_pool_env c') d p v = Some y"
  shows "Allocate (cn_pool_env c) d p (\<pi> v) = Some (case y of (r, p, v) \<Rightarrow> (r, p, \<pi> v))"
proof (rule Allocate.raw_induct [OF _ assms, where P = "\<lambda>e d p v y. e = cn_pool_env c' \<longrightarrow>
    Allocate (cn_pool_env c) d p (\<pi> v) = Some (case y of (r, p, v) \<Rightarrow> (r, p, \<pi> v))", THEN mp, OF _ refl],
    intro impI, goal_cases)
  case (1 al e d p v y)
  note IH = 1(1) [rule_format, OF _ refl] and y = 1(2) [unfolded 1(3)]
  obtain a p1 where a: "Allocate_turn d p = (a, p1)" by (cases "Allocate_turn d p")
  show ?case
  proof (cases "\<exists>n. a = GrowBy n")
    case True
    then obtain n where n: "a = GrowBy n" ..
    obtain st p2 v2 where g: "Grow_wait (cn_pool_env c') n p1 v = Some (st, p2, v2)"
      using y a n by (cases "Grow_wait (cn_pool_env c') n p1 v") auto
    show ?thesis using y IH
      by (subst Allocate.simps) (auto simp: a n g Grow_wait_image split: if_splits)
  next
    case False
    then show ?thesis using y by (subst Allocate.simps) (cases a; auto simp: a)
  qed
qed

lemma Allocate_back:
  assumes "Allocate (cn_pool_env c) d p (\<pi> v) = Some y"
  shows "\<exists>y'. Allocate (cn_pool_env c') d p v = Some y'"
proof (rule Allocate.raw_induct [OF _ assms, where P = "\<lambda>e d p w y. e = cn_pool_env c \<longrightarrow>
    (\<forall>v. w = \<pi> v \<longrightarrow> (\<exists>y'. Allocate (cn_pool_env c') d p v = Some y'))", rule_format, OF _ refl refl], goal_cases)
  case (1 al e d p w y v)
  note IH = 1(1) [rule_format, OF _ refl refl] and y = 1(2) [unfolded 1(3,4)]
  obtain a p1 where a: "Allocate_turn d p = (a, p1)" by (cases "Allocate_turn d p")
  show ?case
  proof (cases "\<exists>n. a = GrowBy n")
    case True
    then obtain n where n: "a = GrowBy n" ..
    obtain st p2 v2 where g: "Grow_wait (cn_pool_env c') n p1 v = Some (st, p2, v2)"
      using y a n by (cases "Grow_wait (cn_pool_env c') n p1 v") (auto simp: Grow_wait_image)
    show ?thesis using y IH
      by (subst Allocate.simps) (auto simp: a n g Grow_wait_image split: if_splits)
  next
    case False
    then show ?thesis by (subst Allocate.simps) (cases a; auto simp: a)
  qed
qed

lemma Allocate_image:
  "Allocate (cn_pool_env c) d p (\<pi> v) = map_option (\<lambda>(r, p, v). (r, p, \<pi> v)) (Allocate (cn_pool_env c') d p v)"
proof (cases "Allocate (cn_pool_env c') d p v")
  case None
  then show ?thesis using Allocate_back [of d p v] by (cases "Allocate (cn_pool_env c) d p (\<pi> v)") auto
next
  case (Some y)
  then show ?thesis using Allocate_forth [OF Some] by (cases y) simp
qed

lemma PrepareSession_image:
  "PrepareSession c d session (world_image \<pi> W) =
   map_option (map_prod id (world_image \<pi>)) (PrepareSession c' d session W)"
  by (cases session)
    (auto simp: PrepareSession_def Allocate_image world_steps_image add_session_def Let_def
      split: option.splits allocated.splits)

text \<open>Unary calls.\<close>

lemma call_rpc_image:
  assumes "call_image \<pi> rpc rpc'"
  shows "call_rpc c rpc req loc h (world_image \<pi> W) =
    map_option (map_prod id (world_image \<pi>)) (call_rpc c' rpc' req loc h W)"
  by (auto simp: call_rpc_def run_imageD [OF RetryLoop_image [OF assms]] policies world_steps_image Let_def
      split: option.splits sum.splits)

text \<open>Streams.\<close>

lemma stream_config_image:
  assumes "call_image \<pi> rpc rpc'"
  shows "resume_image \<pi> (stream_config c rpc request) (stream_config c' rpc' request)"
  by unfold_locales
    (use assms in \<open>auto simp: stream_config_def stream_factory_def call_image_def policy backoff shown sleeper
      reader tracing split: prod.splits\<close>)

lemma open_stream_image:
  assumes "call_image \<pi> rpc rpc'"
  shows "runs_agree \<pi> (rel_sum (=) (results_agree \<pi>)) (open_stream c rpc request (world_image \<pi> W))
    (open_stream c' rpc' request W)"
proof -
  let ?cfg = "stream_config c rpc request" and ?cfg' = "stream_config c' rpc' request"
  note i = stream_config_image [OF assms, of request]
  let ?r = "Resume_Create ?cfg' (pe_policy (cn_pool_env c')) (pe_backoff (cn_pool_env c')) (cw_streams W (cw_opened W))"
  show ?thesis
  proof (cases "Source_Create (resume_reader ?cfg') ?r")
    case None
    then show ?thesis
      by (simp add: open_stream_def Let_def resume_image.opened_image [OF i] policies [symmetric])
  next
    case (Some x)
    then show ?thesis
      by (cases x) (auto simp: open_stream_def Let_def resume_image.opened_image [OF i] policies [symmetric]
          intro: results_agree.stream [OF i])
  qed
qed

text \<open>The frame of the functors, and a visit.\<close>

lemma with_session_image:
  assumes body: "\<And>h s W. visits_agree \<pi> R (body h s (world_image \<pi> W)) (body' h s W)"
    and failure: "\<And>st. R (failure st) (failure' st)"
  shows "rel_option (rel_prod R (rel_prod (=) (rel_prod (=) (\<lambda>W W'. W = world_image \<pi> W'))))
    (with_session c d failure body session s (world_image \<pi> W)) (with_session c' d failure' body' session s W)"
proof (cases "PrepareSession c' d session W")
  case None
  then show ?thesis by (simp add: with_session_def PrepareSession_image)
next
  case (Some p)
  obtain r W1 where p: "p = (r, W1)" by (cases p)
  show ?thesis
  proof (cases r)
    case (Inl st)
    then show ?thesis using Some failure by (simp add: with_session_def PrepareSession_image p)
  next
    case (Inr h)
    show ?thesis
      using body [of h s W1] Some Inr
      by (cases "body' h s W1"; cases "body h s (world_image \<pi> W1)")
        (auto simp: with_session_def PrepareSession_image p visits_agree_def)
  qed
qed

lemma VisitTransaction_image:
  assumes f: "\<And>session s n W. rel_option (rel_prod R (rel_prod (=) (rel_prod (=) (\<lambda>W W'. W = world_image \<pi> W'))))
    (f session s n (world_image \<pi> W)) (f' session s n W)"
  shows "runs_agree \<pi> R (VisitTransaction f txn (world_image \<pi> W)) (VisitTransaction f' txn W)"
proof -
  let ?ti = "cw_txns W ! txn"
  show ?thesis
    using f [of "ti_session ?ti" "ti_selector ?ti" "ti_seqno ?ti + 1" W]
    by (cases "f' (ti_session ?ti) (ti_selector ?ti) (ti_seqno ?ti + 1) W";
        cases "f (ti_session ?ti) (ti_selector ?ti) (ti_seqno ?ti + 1) (world_image \<pi> W)")
      (auto simp: VisitTransaction_def Visit_def Let_def split: txn_state.splits)
qed

lemma functor_image:
  assumes "\<And>n h s W. visits_agree \<pi> R (body n h s (world_image \<pi> W)) (body' n h s W)"
    and "\<And>st. R (failure st) (failure' st)"
  shows "runs_agree \<pi> R
    (VisitTransaction (\<lambda>session s n. with_session c d failure (body n) session s) txn (world_image \<pi> W))
    (VisitTransaction (\<lambda>session s n. with_session c' d failure' (body' n) session s) txn W)"
  by (rule VisitTransaction_image) (rule with_session_image, fact+)

text \<open>The bodies.\<close>

lemma PartitionRead_body_image: "visits_agree \<pi> (=) (PartitionRead_body c params opts h s (world_image \<pi> W)) (PartitionRead_body c' params opts h s W)"
  by (cases "Connection_GetStub h W")
    (auto simp: PartitionRead_body_def Let_def world_steps_image call_rpc_image [OF partition_read_call] split: option.splits sum.splits list.splits)

lemma PartitionQuery_body_image: "visits_agree \<pi> (=) (PartitionQuery_body c st opts h s (world_image \<pi> W)) (PartitionQuery_body c' st opts h s W)"
  by (cases "Connection_GetStub h W")
    (auto simp: PartitionQuery_body_def Let_def world_steps_image call_rpc_image [OF partition_query_call] split: option.splits sum.splits list.splits)

lemma ExecuteBatchDml_body_image: "visits_agree \<pi> (=) (ExecuteBatchDml_body c n statements h s (world_image \<pi> W)) (ExecuteBatchDml_body c' n statements h s W)"
  by (cases "Connection_GetStub h W")
    (auto simp: ExecuteBatchDml_body_def Let_def world_steps_image call_rpc_image [OF dml_call] split: option.splits sum.splits list.splits)

lemma Rollback_body_image: "visits_agree \<pi> (=) (Rollback_body c  h s (world_image \<pi> W)) (Rollback_body c'  h s W)"
  by (cases s; cases "Connection_GetStub h W")
    (auto simp: Rollback_body_def Let_def world_steps_image call_rpc_image [OF rollback_call] split: option.splits sum.splits list.splits)

lemma Commit_with_id_image: "visits_agree \<pi> (=) (Commit_with_id c mutations name h s (world_image \<pi> W)) (Commit_with_id c' mutations name h s W)"
  by (cases "Connection_GetStub h W")
    (auto simp: Commit_with_id_def Let_def world_steps_image call_rpc_image [OF commit_call] split: option.splits sum.splits list.splits)

lemma Commit_begin_image:
  "visits_agree \<pi> (=) (Commit_begin c mutations name opts h s (world_image \<pi> W)) (Commit_begin c' mutations name opts h s W)"
proof -
  obtain stub W1 where g: "Connection_GetStub h W = (stub, W1)" by (cases "Connection_GetStub h W")
  show ?thesis
    using Commit_with_id_image
    by (auto simp: Commit_begin_def g world_steps_image call_rpc_image [OF begin_call] split: option.splits sum.splits)
qed

lemma Commit_body_image:
  "visits_agree \<pi> (=) (Commit_body c mutations h s (world_image \<pi> W)) (Commit_body c' mutations h s W)"
  by (cases s) (simp_all add: Commit_body_def world_steps_image Commit_with_id_image Commit_begin_image)

lemma ExecutePartitionedDml_body_image:
  "visits_agree \<pi> (=) (ExecutePartitionedDml_body c n st h s (world_image \<pi> W)) (ExecutePartitionedDml_body c' n st h s W)"
proof -
  obtain stub W1 where g: "Connection_GetStub h W = (stub, W1)" by (cases "Connection_GetStub h W")
  show ?thesis
    by (auto simp: ExecutePartitionedDml_body_def g Let_def world_steps_image call_rpc_image [OF begin_call]
        call_rpc_image [OF sql_call] split: option.splits sum.splits)
qed

lemma begun_by_image: "results_agree \<pi> r r' \<Longrightarrow> begun_by where_text s r = begun_by where_text s r'"
  using results_agree_data [of \<pi> r r'] by (simp add: begun_by_def)

lemma Read_body_image:
  "visits_agree \<pi> (results_agree \<pi>) (Read_body c params h s (world_image \<pi> W)) (Read_body c' params h s W)"
proof -
  obtain stub W1 where g: "Connection_GetStub h W = (stub, W1)" by (cases "Connection_GetStub h W")
  let ?req = "read_request_for (session_name (the_session W1 h)) s params"
  show ?thesis
    using open_stream_image [OF read_call, of stub ?req W1]
  proof (cases rule: runs_agree_cases)
    case 1
    then show ?thesis by (simp add: Read_body_def g world_steps_image)
  next
    case (2 a b W2)
    then show ?thesis
      by (cases a; cases b)
        (auto simp: Read_body_def g world_steps_image begun_by_image intro: results_agree.intros split: sum.splits)
  qed
qed

lemma ExecuteSqlImpl_image:
  assumes "\<And>request W. runs_agree \<pi> (rel_sum (=) (results_agree \<pi>)) (fn request (world_image \<pi> W)) (fn' request W)"
  shows "visits_agree \<pi> (rel_sum (=) (results_agree \<pi>))
    (ExecuteSqlImpl n params mode fn h s (world_image \<pi> W)) (ExecuteSqlImpl n params mode fn' h s W)"
  using assms [of "sql_request_for (session_name (the_session W h)) s n params mode" W]
proof (cases rule: runs_agree_cases)
  case 1
  then show ?thesis by (simp add: ExecuteSqlImpl_def world_steps_image)
next
  case (2 a b W2)
  then show ?thesis
    by (cases a; cases b) (auto simp: ExecuteSqlImpl_def world_steps_image begun_by_image split: sum.splits)
qed

lemma CommonQuery_body_image:
  "visits_agree \<pi> (results_agree \<pi>) (CommonQuery_body c n params mode h s (world_image \<pi> W))
    (CommonQuery_body c' n params mode h s W)"
proof -
  obtain stub W1 where g: "Connection_GetStub h W = (stub, W1)" by (cases "Connection_GetStub h W")
  let ?x = "ExecuteSqlImpl n params mode (open_stream c (ExecuteStreamingSql (cn_stub c) stub)) h s (world_image \<pi> W1)"
  let ?y = "ExecuteSqlImpl n params mode (open_stream c' (ExecuteStreamingSql (cn_stub c') stub)) h s W1"
  have "visits_agree \<pi> (rel_sum (=) (results_agree \<pi>)) ?x ?y"
    by (rule ExecuteSqlImpl_image) (rule open_stream_image [OF query_call])
  then show ?thesis
    by (cases ?x; cases ?y)
      (auto simp: CommonQuery_body_def g world_steps_image visits_agree_def rel_sum.simps
        intro: results_agree.intros)
qed

lemma CommonDml_body_image:
  "visits_agree \<pi> (rel_sum (=) (results_agree \<pi>)) (CommonDml_body c n params mode h s (world_image \<pi> W))
    (CommonDml_body c' n params mode h s W)"
proof -
  obtain stub W1 where g: "Connection_GetStub h W = (stub, W1)" by (cases "Connection_GetStub h W")
  have r: "runs_agree \<pi> (rel_sum (=) (results_agree \<pi>))
      (map_option (\<lambda>(response, W). (map_sum (\<lambda>x. x) DmlSource response, W))
        (call_rpc c (stub_ExecuteSql (cn_stub c) stub) req loc h (world_image \<pi> W)))
      (map_option (\<lambda>(response, W). (map_sum (\<lambda>x. x) DmlSource response, W))
        (call_rpc c' (stub_ExecuteSql (cn_stub c') stub) req loc h W))" for req loc W
  proof (cases "call_rpc c' (stub_ExecuteSql (cn_stub c') stub) req loc h W")
    case (Some x)
    obtain r W2 where "x = (r, W2)" by (cases x)
    then show ?thesis using Some
      by (cases r) (auto simp: call_rpc_image [OF sql_call] intro: results_agree.intros)
  qed (simp add: call_rpc_image [OF sql_call])
  show ?thesis unfolding CommonDml_body_def g world_steps_image map_prod_simp Let_def prod.case id_apply
    by (rule ExecuteSqlImpl_image) (rule r)
qed

text \<open>The operations.\<close>

lemma Connection_Read_image:
  "runs_agree \<pi> (results_agree \<pi>) (Connection_Read c params (world_image \<pi> W)) (Connection_Read c' params W)"
  unfolding Connection_Read_def ReadImpl_def by (rule functor_image) (simp_all add: Read_body_image)

lemma Connection_PartitionRead_image:
  "runs_agree \<pi> (=) (Connection_PartitionRead c params opts (world_image \<pi> W)) (Connection_PartitionRead c' params opts W)"
  unfolding Connection_PartitionRead_def PartitionReadImpl_def
  by (rule functor_image) (simp_all add: PartitionRead_body_image)

lemma Connection_Query_image:
  "runs_agree \<pi> (results_agree \<pi>) (Connection_Query c mode params (world_image \<pi> W)) (Connection_Query c' mode params W)"
  unfolding Connection_Query_def CommonQueryImpl_def by (rule functor_image) (simp_all add: CommonQuery_body_image)

lemma Connection_Dml_image:
  "runs_agree \<pi> (rel_sum (=) (results_agree \<pi>)) (Connection_Dml c mode params (world_image \<pi> W))
    (Connection_Dml c' mode params W)"
  unfolding Connection_Dml_def CommonDmlImpl_def by (rule functor_image) (simp_all add: CommonDml_body_image)

lemma Connection_AnalyzeSql_image:
  "runs_agree \<pi> (=) (Connection_AnalyzeSql c params (world_image \<pi> W)) (Connection_AnalyzeSql c' params W)"
  unfolding Connection_AnalyzeSql_def
proof (rule VisitTransaction_image)
  fix session s n W
  let ?x = "CommonDmlImpl c n params PLAN session s (world_image \<pi> W)" and ?y = "CommonDmlImpl c' n params PLAN session s W"
  have r: "rel_option (rel_prod (rel_sum (=) (results_agree \<pi>)) (rel_prod (=) (rel_prod (=) (\<lambda>W W'. W = world_image \<pi> W')))) ?x ?y"
    unfolding CommonDmlImpl_def by (rule with_session_image) (simp_all add: CommonDml_body_image)
  show "rel_option (rel_prod (=) (rel_prod (=) (rel_prod (=) (\<lambda>W W'. W = world_image \<pi> W'))))
      (AnalyzeSqlImpl c n params session s (world_image \<pi> W)) (AnalyzeSqlImpl c' n params session s W)"
    using r by (cases ?x; cases ?y) (auto simp: AnalyzeSqlImpl_def rel_sum.simps dest!: results_agree_data)
qed

lemma Connection_PartitionQuery_image:
  "runs_agree \<pi> (=) (Connection_PartitionQuery c txn st opts (world_image \<pi> W)) (Connection_PartitionQuery c' txn st opts W)"
  unfolding Connection_PartitionQuery_def PartitionQueryImpl_def
  by (rule functor_image) (simp_all add: PartitionQuery_body_image)

lemma Connection_ExecuteBatchDml_image:
  "runs_agree \<pi> (=) (Connection_ExecuteBatchDml c txn statements (world_image \<pi> W))
    (Connection_ExecuteBatchDml c' txn statements W)"
  unfolding Connection_ExecuteBatchDml_def ExecuteBatchDmlImpl_def
  by (rule functor_image) (simp_all add: ExecuteBatchDml_body_image)

lemma Connection_ExecutePartitionedDml_image:
  "runs_agree \<pi> (=) (Connection_ExecutePartitionedDml c st (world_image \<pi> W)) (Connection_ExecutePartitionedDml c' st W)"
proof -
  obtain t W1 where m: "add_transaction (Transaction_ReadOnly ReadOnlyOptions_strong) W = (t, W1)" by fastforce
  show ?thesis
    unfolding Connection_ExecutePartitionedDml_def MakeReadOnlyTransaction_def world_steps_image m map_prod_simp
      Let_def prod.case id_apply ExecutePartitionedDmlImpl_def
    by (rule functor_image) (simp_all add: ExecutePartitionedDml_body_image)
qed

lemma Connection_Commit_image:
  "runs_agree \<pi> (=) (Connection_Commit c txn mutations (world_image \<pi> W)) (Connection_Commit c' txn mutations W)"
  unfolding Connection_Commit_def CommitImpl_def by (rule functor_image) (simp_all add: Commit_body_image)

lemma Connection_Rollback_image:
  "runs_agree \<pi> (=) (Connection_Rollback c txn (world_image \<pi> W)) (Connection_Rollback c' txn W)"
  unfolding Connection_Rollback_def RollbackImpl_def by (rule functor_image) (simp_all add: Rollback_body_image)

end

section \<open>The connection on the decorated stubs\<close>

text \<open>
  The stub of a channel is gRPC's stub \<open>g\<close> with its decorators. A connection calls it with contexts
  of its own; \<open>open_reader\<close> stands for the reader made of such a context and the stream.
\<close>

definition opened_stream :: "('c \<Rightarrow> 'r) \<Rightarrow> ('req \<Rightarrow> 'w \<Rightarrow> 'c \<times> 'w) \<Rightarrow> 'req \<Rightarrow> 'w \<Rightarrow> 'r \<times> 'w" where
  "opened_stream open_reader call request w = map_prod open_reader id (call request w)"

definition spanner_calls ::
    "('c option \<Rightarrow> 'r) \<Rightarrow> 'r reader \<Rightarrow> ('k \<Rightarrow> ('c, 'h, 'w) rpc_stub) \<Rightarrow>
     ('k, 'w \<times> string list, 'r) spanner_stub" where
  "spanner_calls open_reader rd stub =
     \<lparr>stub_reader = rd,
      StreamingRead = (\<lambda>g. opened_stream open_reader (fresh_call (rpc_StreamingRead (stub g)))),
      ExecuteStreamingSql = (\<lambda>g. opened_stream open_reader (fresh_call (rpc_ExecuteStreamingSql (stub g)))),
      stub_ExecuteSql = (\<lambda>g. fresh_call (rpc_ExecuteSql (stub g))),
      stub_ExecuteBatchDml = (\<lambda>g. fresh_call (rpc_ExecuteBatchDml (stub g))),
      stub_PartitionRead = (\<lambda>g. fresh_call (rpc_PartitionRead (stub g))),
      stub_PartitionQuery = (\<lambda>g. fresh_call (rpc_PartitionQuery (stub g))),
      stub_BeginTransaction = (\<lambda>g. fresh_call (rpc_BeginTransaction (stub g))),
      stub_Commit = (\<lambda>g. fresh_call (rpc_Commit (stub g))),
      stub_Rollback = (\<lambda>g. fresh_status_call (rpc_Rollback (stub g)))\<rparr>"

definition MakeConnectionImpl ::
    "string \<Rightarrow> log_message printers \<Rightarrow> bool \<Rightarrow> bool \<Rightarrow> ('c option \<Rightarrow> 'r) \<Rightarrow> 'r reader \<Rightarrow>
     ('p, 'b, 'w) retry_env \<Rightarrow> 'p \<Rightarrow> 'b \<Rightarrow> ('g \<Rightarrow> session list \<Rightarrow> session list \<times> 'g) \<Rightarrow>
     (('e, 'c, 'h, 'w) grpc_stub, 'g, 'p, 'b, 'w \<times> string list, 'r) connection" where
  "MakeConnectionImpl header pr trace_rpc trace_streams open_reader rd env retry_prototype backoff_prototype shuffle =
     \<lparr>cn_pool_env =
        \<lparr>pe_retry = logged_env env, pe_policy = retry_prototype, pe_backoff = backoff_prototype,
         pe_create = (\<lambda>g. fresh_call (rpc_BatchCreateSessions (CreateDefaultSpannerStub header pr trace_rpc g))),
         pe_shuffle = shuffle\<rparr>,
      cn_tracing = trace_streams,
      cn_stub = spanner_calls open_reader rd (CreateDefaultSpannerStub header pr trace_rpc)\<rparr>"

text \<open>The same connection on gRPC itself.\<close>

definition direct_spanner_stub ::
    "string \<Rightarrow> ('c option \<Rightarrow> 'r) \<Rightarrow> 'r reader \<Rightarrow> (('e, 'c, 'h, 'w) grpc_stub, 'w, 'r) spanner_stub" where
  "direct_spanner_stub header open_reader rd =
     \<lparr>stub_reader = rd,
      StreamingRead = (\<lambda>g. opened_stream open_reader
        (direct_call header (\<lambda>r. ''session='' @ rq_session r) (\<lambda>x. x) (grpc_StreamingRead g))),
      ExecuteStreamingSql = (\<lambda>g. opened_stream open_reader
        (direct_call header (\<lambda>r. ''session='' @ sq_session r) (\<lambda>x. x) (grpc_ExecuteStreamingSql g))),
      stub_ExecuteSql = (\<lambda>g.
        direct_call header (\<lambda>r. ''session='' @ sq_session r) (unary_result g) (grpc_ExecuteSql g)),
      stub_ExecuteBatchDml = (\<lambda>g.
        direct_call header (\<lambda>r. ''session='' @ bdr_session r) (unary_result g) (grpc_ExecuteBatchDml g)),
      stub_PartitionRead = (\<lambda>g.
        direct_call header (\<lambda>r. ''session='' @ prr_session r) (unary_result g) (grpc_PartitionRead g)),
      stub_PartitionQuery = (\<lambda>g.
        direct_call header (\<lambda>r. ''session='' @ pqr_session r) (unary_result g) (grpc_PartitionQuery g)),
      stub_BeginTransaction = (\<lambda>g.
        direct_call header (\<lambda>r. ''session='' @ br_session r) (unary_result g) (grpc_BeginTransaction g)),
      stub_Commit = (\<lambda>g.
        direct_call header (\<lambda>r. ''session='' @ cr_session r) (unary_result g) (grpc_Commit g)),
      stub_Rollback = (\<lambda>g. direct_status_call header (\<lambda>r. ''session='' @ rr_session r)
        (MakeStatusFromRpcError g) (grpc_Rollback g))\<rparr>"

definition direct_connection ::
    "string \<Rightarrow> bool \<Rightarrow> ('c option \<Rightarrow> 'r) \<Rightarrow> 'r reader \<Rightarrow>
     ('p, 'b, 'w) retry_env \<Rightarrow> 'p \<Rightarrow> 'b \<Rightarrow> ('g \<Rightarrow> session list \<Rightarrow> session list \<times> 'g) \<Rightarrow>
     (('e, 'c, 'h, 'w) grpc_stub, 'g, 'p, 'b, 'w, 'r) connection" where
  "direct_connection header trace_streams open_reader rd env retry_prototype backoff_prototype shuffle =
     \<lparr>cn_pool_env =
        \<lparr>pe_retry = env, pe_policy = retry_prototype, pe_backoff = backoff_prototype,
         pe_create = (\<lambda>g. direct_call header (\<lambda>r. ''database='' @ request_database r) (unary_result g)
           (grpc_BatchCreateSessions g)),
         pe_shuffle = shuffle\<rparr>,
      cn_tracing = trace_streams,
      cn_stub = direct_spanner_stub header open_reader rd\<rparr>"

lemma opened_stream_image:
  "call_image \<pi> call call' \<Longrightarrow> call_image \<pi> (opened_stream open_reader call) (opened_stream open_reader call')"
  by (simp add: call_image_def opened_stream_def map_prod_def case_prod_beta)

lemma decorated_images:
  "call_image fst
    (pe_create (cn_pool_env (direct_connection header trace_streams open_reader rd env retry_prototype backoff_prototype shuffle)) g)
    (pe_create (cn_pool_env (MakeConnectionImpl header pr trace_rpc trace_streams open_reader rd env retry_prototype backoff_prototype shuffle)) g)"
  "call_image fst
    (StreamingRead (cn_stub (direct_connection header trace_streams open_reader rd env retry_prototype backoff_prototype shuffle)) g)
    (StreamingRead (cn_stub (MakeConnectionImpl header pr trace_rpc trace_streams open_reader rd env retry_prototype backoff_prototype shuffle)) g)"
  "call_image fst
    (ExecuteStreamingSql (cn_stub (direct_connection header trace_streams open_reader rd env retry_prototype backoff_prototype shuffle)) g)
    (ExecuteStreamingSql (cn_stub (MakeConnectionImpl header pr trace_rpc trace_streams open_reader rd env retry_prototype backoff_prototype shuffle)) g)"
  "call_image fst
    (stub_ExecuteSql (cn_stub (direct_connection header trace_streams open_reader rd env retry_prototype backoff_prototype shuffle)) g)
    (stub_ExecuteSql (cn_stub (MakeConnectionImpl header pr trace_rpc trace_streams open_reader rd env retry_prototype backoff_prototype shuffle)) g)"
  "call_image fst
    (stub_ExecuteBatchDml (cn_stub (direct_connection header trace_streams open_reader rd env retry_prototype backoff_prototype shuffle)) g)
    (stub_ExecuteBatchDml (cn_stub (MakeConnectionImpl header pr trace_rpc trace_streams open_reader rd env retry_prototype backoff_prototype shuffle)) g)"
  "call_image fst
    (stub_PartitionRead (cn_stub (direct_connection header trace_streams open_reader rd env retry_prototype backoff_prototype shuffle)) g)
    (stub_PartitionRead (cn_stub (MakeConnectionImpl header pr trace_rpc trace_streams open_reader rd env retry_prototype backoff_prototype shuffle)) g)"
  "call_image fst
    (stub_PartitionQuery (cn_stub (direct_connection header trace_streams open_reader rd env retry_prototype backoff_prototype shuffle)) g)
    (stub_PartitionQuery (cn_stub (MakeConnectionImpl header pr trace_rpc trace_streams open_reader rd env retry_prototype backoff_prototype shuffle)) g)"
  "call_image fst
    (stub_BeginTransaction (cn_stub (direct_connection header trace_streams open_reader rd env retry_prototype backoff_prototype shuffle)) g)
    (stub_BeginTransaction (cn_stub (MakeConnectionImpl header pr trace_rpc trace_streams open_reader rd env retry_prototype backoff_prototype shuffle)) g)"
  "call_image fst
    (stub_Commit (cn_stub (direct_connection header trace_streams open_reader rd env retry_prototype backoff_prototype shuffle)) g)
    (stub_Commit (cn_stub (MakeConnectionImpl header pr trace_rpc trace_streams open_reader rd env retry_prototype backoff_prototype shuffle)) g)"
  "call_image fst
    (stub_Rollback (cn_stub (direct_connection header trace_streams open_reader rd env retry_prototype backoff_prototype shuffle)) g)
    (stub_Rollback (cn_stub (MakeConnectionImpl header pr trace_rpc trace_streams open_reader rd env retry_prototype backoff_prototype shuffle)) g)"
  unfolding direct_connection_def MakeConnectionImpl_def direct_spanner_stub_def spanner_calls_def
    connection.simps pool_env.simps spanner_stub.simps
  by ((rule opened_stream_image)?, rule relays_direct relays_direct_status, rule spanner_stub_relays)+

interpretation decorated: connection_image fst
  "direct_connection header trace_streams open_reader rd env retry_prototype backoff_prototype shuffle"
  "MakeConnectionImpl header pr trace_rpc trace_streams open_reader rd env retry_prototype backoff_prototype shuffle"
  for header trace_streams open_reader rd env retry_prototype backoff_prototype shuffle pr trace_rpc
  by (unfold_locales; (rule decorated_images)?;
    auto simp: MakeConnectionImpl_def direct_connection_def spanner_calls_def direct_spanner_stub_def logged_env_def)

section \<open>Properties\<close>

text \<open>The first \<open>n\<close> rows of a result, with what it then says of itself.\<close>

fun next_rows ::
    "nat \<Rightarrow> ('r, 'p, 'b, 'w) result_source \<Rightarrow>
     (row status_or list \<times> result_metadata option \<times> result_stats option) option" where
  "next_rows 0 r = Some ([], result_Metadata r, result_Stats r)"
| "next_rows (Suc n) r =
     (case result_NextRow r of
        None \<Rightarrow> None
      | Some (x, r) \<Rightarrow> map_option (\<lambda>(xs, about). (x # xs, about)) (next_rows n r))"

definition same_results ::
    "('r, 'p, 'b, 'w) result_source \<Rightarrow> ('r, 'p, 'b, 'v) result_source \<Rightarrow> bool" where
  "same_results r r' \<longleftrightarrow> (\<forall>n. next_rows n r = next_rows n r')"

lemma results_agree_same: "results_agree \<pi> r r' \<Longrightarrow> same_results r r'"
proof -
  have "results_agree \<pi> r r' \<Longrightarrow> next_rows n r = next_rows n r'" for n
  proof (induction n arbitrary: r r')
    case 0
    then show ?case by (auto dest!: results_agree_data)
  next
    case (Suc n)
    then show ?case
      using results_agree_NextRow [OF Suc.prems]
      by (cases "result_NextRow r"; cases "result_NextRow r'") (auto simp: Suc.IH)
  qed
  then show "results_agree \<pi> r r' \<Longrightarrow> same_results r r'" by (simp add: same_results_def)
qed

lemma runs_agree_mono: "runs_agree \<pi> R x y \<Longrightarrow> (\<And>a b. R a b \<Longrightarrow> S a b) \<Longrightarrow> runs_agree \<pi> S x y"
  by (erule runs_agree_cases) simp_all

lemma runs_same: "runs_agree \<pi> (results_agree \<pi>) x y \<Longrightarrow> runs_agree \<pi> same_results x y"
  by (erule runs_agree_mono) (rule results_agree_same)

lemma runs_same_sum:
  "runs_agree \<pi> (rel_sum (=) (results_agree \<pi>)) x y \<Longrightarrow> runs_agree \<pi> (rel_sum (=) same_results) x y"
  by (erule runs_agree_mono) (auto simp: rel_sum.simps intro: results_agree_same)

text \<open>The world that a connection works in, without the log.\<close>

abbreviation without_log :: "('s, 'g, 'w \<times> string list) client_world \<Rightarrow> ('s, 'g, 'w) client_world" where
  "without_log \<equiv> world_image fst"

text \<open>
  C33: The decorators of the stubs do not show: whether calls and streams are traced or not, every
  operation of a connection on the decorated stubs ends when the same operation on gRPC itself does (with
  the routing header of the request), with the same result, the same sessions and transactions and the
  same state of the service. The rows of a result are the same however many are read, through all
  failures and resumptions of the stream.
\<close>

theorem connection_transparent:
  "let direct = direct_connection header trace_streams open_reader rd env retry_prototype backoff_prototype shuffle;
       decorated = MakeConnectionImpl header pr trace_rpc trace_streams open_reader rd env
         retry_prototype backoff_prototype shuffle
   in runs_agree fst same_results
        (Connection_Read direct rp (without_log W)) (Connection_Read decorated rp W) \<and>
      runs_agree fst (=)
        (Connection_PartitionRead direct rp po (without_log W)) (Connection_PartitionRead decorated rp po W) \<and>
      runs_agree fst same_results
        (Connection_Query direct mode sp (without_log W)) (Connection_Query decorated mode sp W) \<and>
      runs_agree fst (rel_sum (=) same_results)
        (Connection_Dml direct mode sp (without_log W)) (Connection_Dml decorated mode sp W) \<and>
      runs_agree fst (=)
        (Connection_AnalyzeSql direct sp (without_log W)) (Connection_AnalyzeSql decorated sp W) \<and>
      runs_agree fst (=)
        (Connection_PartitionQuery direct t st po (without_log W)) (Connection_PartitionQuery decorated t st po W) \<and>
      runs_agree fst (=)
        (Connection_ExecuteBatchDml direct t sts (without_log W)) (Connection_ExecuteBatchDml decorated t sts W) \<and>
      runs_agree fst (=)
        (Connection_ExecutePartitionedDml direct st (without_log W)) (Connection_ExecutePartitionedDml decorated st W) \<and>
      runs_agree fst (=)
        (Connection_Commit direct t ms (without_log W)) (Connection_Commit decorated t ms W) \<and>
      runs_agree fst (=)
        (Connection_Rollback direct t (without_log W)) (Connection_Rollback decorated t W)"
  unfolding Let_def
  by (intro conjI runs_same [OF decorated.Connection_Read_image] runs_same [OF decorated.Connection_Query_image]
      runs_same_sum [OF decorated.Connection_Dml_image] decorated.Connection_PartitionRead_image
      decorated.Connection_AnalyzeSql_image decorated.Connection_PartitionQuery_image
      decorated.Connection_ExecuteBatchDml_image decorated.Connection_ExecutePartitionedDml_image
      decorated.Connection_Commit_image decorated.Connection_Rollback_image)

end
