(* ===== verification/Benchmarks.thy ===== *)
theory Benchmarks
  imports Client Connection_Config
begin

text \<open>
  The parts of the benchmark programs that are not measurements: their flags
  (\<open>benchmarks/benchmarks_config.cc\<close>), the tasks that fill the table that is read
  (\<open>benchmarks/single_row_throughput_benchmark.cc\<close>) and the keys that are drawn
  (\<open>benchmarks/multiple_rows_cpu_benchmark.cc\<close>).
\<close>

section \<open>The configuration\<close>

record bench_config =
  bc_experiment :: string
  bc_project_id :: string
  bc_instance_id :: string
  bc_database_id :: string
  bc_samples :: int
  bc_iteration_duration :: int
  bc_minimum_threads :: int
  bc_maximum_threads :: int
  bc_minimum_clients :: int
  bc_maximum_clients :: int
  bc_table_size :: int
  bc_query_size :: int
  bc_use_only_clients :: bool
  bc_use_only_stubs :: bool

definition default_config :: bench_config where
  "default_config =
     \<lparr>bc_experiment = [], bc_project_id = [], bc_instance_id = [], bc_database_id = [],
      bc_samples = 2, bc_iteration_duration = 5, bc_minimum_threads = 1, bc_maximum_threads = 1,
      bc_minimum_clients = 1, bc_maximum_clients = 1, bc_table_size = 1000 * 1000, bc_query_size = 1000,
      bc_use_only_clients = False, bc_use_only_stubs = False\<rparr>"

text \<open>
  The text of a configuration. How a \<open>bool\<close> prints is a flag of the stream, which the programs set; the
  build flags are generated.
\<close>

definition bool_text :: "bool \<Rightarrow> bool \<Rightarrow> string" where
  "bool_text boolalpha b =
     (if boolalpha then (if b then ''true'' else ''false'') else if b then ''1'' else ''0'')"

definition print_config :: "compiler \<Rightarrow> string \<Rightarrow> bool \<Rightarrow> bench_config \<Rightarrow> string" where
  "print_config compiler build_flags boolalpha config =
     ''# Experiment: '' @ bc_experiment config @
     [CHR 0x0A] @ ''# Project: '' @ bc_project_id config @
     [CHR 0x0A] @ ''# Instance: '' @ bc_instance_id config @
     [CHR 0x0A] @ ''# Database: '' @ bc_database_id config @
     [CHR 0x0A] @ ''# Samples: '' @ to_string (bc_samples config) @
     [CHR 0x0A] @ ''# Minimum Threads: '' @ to_string (bc_minimum_threads config) @
     [CHR 0x0A] @ ''# Maximum Threads: '' @ to_string (bc_maximum_threads config) @
     [CHR 0x0A] @ ''# Minimum Clients/Channels: '' @ to_string (bc_minimum_clients config) @
     [CHR 0x0A] @ ''# Maximum Clients/Channels: '' @ to_string (bc_maximum_clients config) @
     [CHR 0x0A] @ ''# Iteration Duration: '' @ to_string (bc_iteration_duration config) @ ''s'' @
     [CHR 0x0A] @ ''# Table Size: '' @ to_string (bc_table_size config) @
     [CHR 0x0A] @ ''# Query Size: '' @ to_string (bc_query_size config) @
     [CHR 0x0A] @ ''# Use Only Stubs: '' @ bool_text boolalpha (bc_use_only_stubs config) @
     [CHR 0x0A] @ ''# Use Only Clients: '' @ bool_text boolalpha (bc_use_only_clients config) @
     [CHR 0x0A] @ ''# Compiler: '' @ CompilerId compiler @ ''-'' @ CompilerVersion compiler @
     [CHR 0x0A] @ ''# Build Flags: '' @ build_flags @ [CHR 0x0A]"

text \<open>
  \<open>std::stoi\<close> and \<open>std::stol\<close>: what follows a number is ignored, and where there is none, or it is out of
  range, they throw. Nothing catches these exceptions.
\<close>

datatype std_exception = std_invalid_argument | std_out_of_range

definition sto :: "int \<Rightarrow> int \<Rightarrow> string \<Rightarrow> std_exception + int" where
  "sto lo hi s =
     (case scan_int lo hi (takeWhile (\<lambda>c. c \<noteq> CHR 0x00) s) of
        NoMatch \<Rightarrow> Inl std_invalid_argument
      | Undefined \<Rightarrow> Inl std_out_of_range
      | Scanned i rest \<Rightarrow> Inr i)"

abbreviation stoi :: "string \<Rightarrow> std_exception + int" where "stoi \<equiv> sto int32_min int32_max"

abbreviation stol :: "string \<Rightarrow> std_exception + int" where "stol \<equiv> sto int64_min int64_max"

definition invalid_argument :: "string \<Rightarrow> status" where
  "invalid_argument msg = Status kInvalidArgument msg"

type_synonym flag_parser = "bench_config \<Rightarrow> string \<Rightarrow> std_exception + bench_config"

definition flags :: "(string \<times> flag_parser) list" where
  "flags =
     [(''--experiment='', \<lambda>c v. Inr (c\<lparr>bc_experiment := v\<rparr>)),
      (''--project='', \<lambda>c v. Inr (c\<lparr>bc_project_id := v\<rparr>)),
      (''--instance='', \<lambda>c v. Inr (c\<lparr>bc_instance_id := v\<rparr>)),
      (''--database='', \<lambda>c v. Inr (c\<lparr>bc_database_id := v\<rparr>)),
      (''--samples='', \<lambda>c v. map_sum id (\<lambda>i. c\<lparr>bc_samples := i\<rparr>) (stoi v)),
      (''--iteration-duration='', \<lambda>c v. map_sum id (\<lambda>i. c\<lparr>bc_iteration_duration := i\<rparr>) (stoi v)),
      (''--minimum-threads='', \<lambda>c v. map_sum id (\<lambda>i. c\<lparr>bc_minimum_threads := i\<rparr>) (stoi v)),
      (''--maximum-threads='', \<lambda>c v. map_sum id (\<lambda>i. c\<lparr>bc_maximum_threads := i\<rparr>) (stoi v)),
      (''--minimum-clients='', \<lambda>c v. map_sum id (\<lambda>i. c\<lparr>bc_minimum_clients := i\<rparr>) (stoi v)),
      (''--minimum-channels='', \<lambda>c v. map_sum id (\<lambda>i. c\<lparr>bc_minimum_clients := i\<rparr>) (stoi v)),
      (''--maximum-clients='', \<lambda>c v. map_sum id (\<lambda>i. c\<lparr>bc_maximum_clients := i\<rparr>) (stoi v)),
      (''--maximum-channels='', \<lambda>c v. map_sum id (\<lambda>i. c\<lparr>bc_maximum_clients := i\<rparr>) (stoi v)),
      (''--table-size='', \<lambda>c v. map_sum id (\<lambda>i. c\<lparr>bc_table_size := i\<rparr>) (stol v)),
      (''--query-size='', \<lambda>c v. map_sum id (\<lambda>i. c\<lparr>bc_query_size := i\<rparr>) (stol v)),
      (''--use-only-stubs'', \<lambda>c v. Inr (c\<lparr>bc_use_only_stubs := True\<rparr>)),
      (''--use-only-clients'', \<lambda>c v. Inr (c\<lparr>bc_use_only_clients := True\<rparr>))]"

definition starts_with :: "string \<Rightarrow> string \<Rightarrow> bool" where
  "starts_with p s \<longleftrightarrow> take (length p) s = p"

fun parse_flags :: "bench_config \<Rightarrow> string list \<Rightarrow> std_exception + bench_config status_or" where
  "parse_flags config [] = Inr (Inr config)"
| "parse_flags config (arg # args) =
     (case find (\<lambda>flag. starts_with (fst flag) arg) flags of
        Some (flag_name, parser) \<Rightarrow>
          (case parser config (drop (length flag_name) arg) of
             Inl e \<Rightarrow> Inl e
           | Inr config \<Rightarrow> parse_flags config args)
      | None \<Rightarrow>
          if starts_with ''--'' arg then Inr (Inl (invalid_argument (''Unexpected command-line flag '' @ arg)))
          else parse_flags config args)"

definition check_config :: "bench_config \<Rightarrow> bench_config status_or" where
  "check_config config =
     (if bc_experiment config = [] then Inl (invalid_argument ''Missing value for --experiment flag'')
      else if bc_project_id config = [] then
        Inl (invalid_argument
          (''The project id is not set, provide a value in the --project flag,'' @
           '' or set the GOOGLE_CLOUD_PROJECT environment variable''))
      else if bc_minimum_threads config \<le> 0 then
        Inl (invalid_argument
          (''The minimum number of threads ('' @ to_string (bc_minimum_threads config) @ '')'' @
           '' must be greater than zero''))
      else if bc_maximum_threads config < bc_minimum_threads config then
        Inl (invalid_argument
          (''The maximum number of threads ('' @ to_string (bc_maximum_threads config) @ '')'' @
           '' must be greater or equal than the minimum number of threads ('' @
           to_string (bc_minimum_threads config) @ '')''))
      else if bc_minimum_clients config \<le> 0 then
        Inl (invalid_argument
          (''The minimum number of clients ('' @ to_string (bc_minimum_clients config) @ '')'' @
           '' must be greater than zero''))
      else if bc_maximum_clients config < bc_minimum_clients config then
        Inl (invalid_argument
          (''The maximum number of clients ('' @ to_string (bc_maximum_clients config) @ '')'' @
           '' must be greater or equal than the minimum number of clients ('' @
           to_string (bc_minimum_clients config) @ '')''))
      else if bc_query_size config \<le> 0 then
        Inl (invalid_argument
          (''The query size ('' @ to_string (bc_query_size config) @ '') should be > 0''))
      else if bc_table_size config < bc_query_size config then
        Inl (invalid_argument
          (''The table size ('' @ to_string (bc_table_size config) @ '') should be greater'' @
           '' than the query size ('' @ to_string (bc_query_size config) @ '')''))
      else if bc_use_only_stubs config \<and> bc_use_only_clients config then
        Inl (invalid_argument ''Only one of --use-only-stubs or --use-only-clients can be set'')
      else Inr config)"

text \<open>\<open>std::next(args.begin())\<close> is undefined when there is not even a program name.\<close>

definition ParseArgs :: "environment \<Rightarrow> string list \<Rightarrow> (std_exception + bench_config status_or) option" where
  "ParseArgs GetEnv args =
     (if args = [] then None
      else
        let config = default_config
              \<lparr>bc_experiment := ''run-all'',
               bc_project_id := (case GetEnv ''GOOGLE_CLOUD_PROJECT'' of Some v \<Rightarrow> v | None \<Rightarrow> []),
               bc_instance_id :=
                 (case GetEnv ''GOOGLE_CLOUD_CPP_SPANNER_INSTANCE'' of Some v \<Rightarrow> v | None \<Rightarrow> [])\<rparr>
        in Some (case parse_flags config (tl args) of
             Inl e \<Rightarrow> Inl e
           | Inr (Inl status) \<Rightarrow> Inr (Inl status)
           | Inr (Inr config) \<Rightarrow> Inr (check_config config)))"

section \<open>Filling the table\<close>

text \<open>
  A task that is filling the table: the mutation it is building, the number of rows in it, and the next
  key. \<open>commit\<close> is the client's \<open>Commit\<close> of one list of mutations. Its failures are only logged.
\<close>

record fill_task =
  ft_mutation :: mutation
  ft_current :: int
  ft_key :: int
  ft_done :: bool

definition key_value_builder :: mutation where
  "key_value_builder = WriteMutationBuilder InsertOrUpdateOp ''KeyValue'' [''Key'', ''Data'']"

definition FillTableTask_start :: fill_task where
  "FillTableTask_start = \<lparr>ft_mutation = key_value_builder, ft_current = 0, ft_key = 0, ft_done = False\<rparr>"

definition maybe_flush ::
    "(mutation list \<Rightarrow> 'w \<Rightarrow> ('a \<times> 'w) option) \<Rightarrow> bool \<Rightarrow> fill_task \<Rightarrow> 'w \<Rightarrow> (fill_task \<times> 'w) option" where
  "maybe_flush commit force t w =
     (if ft_current t = 0 then Some (t, w)
      else if \<not> force \<and> ft_current t < 1000 then Some (t, w)
      else
        map_option (\<lambda>(result, w). (t\<lparr>ft_mutation := key_value_builder, ft_current := 0\<rparr>, w))
          (commit [ft_mutation t] w))"

text \<open>
  One turn of the loop, or, behind the last key, the last flush. \<open>None\<close> is a commit that does not return
  or a value that cannot be written.
\<close>

definition FillTableTask_turn ::
    "(mutation list \<Rightarrow> 'w \<Rightarrow> ('a \<times> 'w) option) \<Rightarrow> bench_config \<Rightarrow> string \<Rightarrow> int \<Rightarrow> int \<Rightarrow> fill_task \<Rightarrow> 'w \<Rightarrow>
     (fill_task \<times> 'w) option" where
  "FillTableTask_turn commit config data task_count task_id t w =
     (let key = ft_key t
      in if key = bc_table_size config then
           map_option (\<lambda>(t, w). (t\<lparr>ft_done := True\<rparr>, w)) (maybe_flush commit True t w)
         else if key smod task_count \<noteq> task_id then Some (t\<lparr>ft_key := key + 1\<rparr>, w)
         else
           case EmplaceRow InsertOrUpdateOp [(CInt64, VInt64 key), (CString, VString data)] (ft_mutation t) of
             None \<Rightarrow> None
           | Some m \<Rightarrow>
               map_option (\<lambda>(t, w). (t\<lparr>ft_key := key + 1\<rparr>, w))
                 (maybe_flush commit False (t\<lparr>ft_mutation := m, ft_current := ft_current t + 1\<rparr>) w))"

text \<open>The tasks run at the same time: any that is not done takes the next turn.\<close>

definition fill_task_count :: int where "fill_task_count = 16"

record 'w fill_state =
  fs_tasks :: "fill_task list"
  fs_world :: 'w

definition FillTable_start :: "'w \<Rightarrow> 'w fill_state" where
  "FillTable_start w = \<lparr>fs_tasks = replicate (nat fill_task_count) FillTableTask_start, fs_world = w\<rparr>"

inductive fill_step ::
    "(mutation list \<Rightarrow> 'w \<Rightarrow> ('a \<times> 'w) option) \<Rightarrow> bench_config \<Rightarrow> string \<Rightarrow> 'w fill_state \<Rightarrow> 'w fill_state \<Rightarrow> bool"
  for commit config data where
  turn: "i < length (fs_tasks z) \<Longrightarrow> \<not> ft_done (fs_tasks z ! i) \<Longrightarrow>
    FillTableTask_turn commit config data fill_task_count (int i) (fs_tasks z ! i) (fs_world z) = Some (t, w) \<Longrightarrow>
    fill_step commit config data z \<lparr>fs_tasks = (fs_tasks z)[i := t], fs_world = w\<rparr>"

definition FillTable_done :: "'w fill_state \<Rightarrow> bool" where
  "FillTable_done z \<longleftrightarrow> list_all ft_done (fs_tasks z)"

section \<open>The keys of the measurements\<close>

text \<open>
  \<open>std::uniform_int_distribution\<close> is a parameter: \<open>uniform a b\<close> draws from the generator. It promises a
  value between \<open>a\<close> and \<open>b\<close>, where \<open>a \<le> b\<close>.
\<close>

definition RandomKey :: "(int \<Rightarrow> int \<Rightarrow> 'g \<Rightarrow> int \<times> 'g) \<Rightarrow> bench_config \<Rightarrow> 'g \<Rightarrow> int \<times> 'g" where
  "RandomKey uniform config = uniform 0 (bc_table_size config - 1)"

text \<open>The programs that read or write one row draw a key otherwise.\<close>

definition single_row_random_key :: "(int \<Rightarrow> int \<Rightarrow> 'g \<Rightarrow> int \<times> 'g) \<Rightarrow> bench_config \<Rightarrow> 'g \<Rightarrow> int \<times> 'g" where
  "single_row_random_key uniform config = uniform 0 (bc_table_size config)"

definition RandomKeySetBegin :: "(int \<Rightarrow> int \<Rightarrow> 'g \<Rightarrow> int \<times> 'g) \<Rightarrow> bench_config \<Rightarrow> 'g \<Rightarrow> int \<times> 'g" where
  "RandomKeySetBegin uniform config = uniform 0 (bc_table_size config - bc_query_size config)"

definition key_bound_of :: "int \<Rightarrow> key_bound option" where
  "key_bound_of key = MakeKeyBoundClosed [(CInt64, VInt64 key)]"

definition RandomKeySet ::
    "(int \<Rightarrow> int \<Rightarrow> 'g \<Rightarrow> int \<times> 'g) \<Rightarrow> bench_config \<Rightarrow> 'g \<Rightarrow> (key_set \<times> 'g) option" where
  "RandomKeySet uniform config g =
     (let (begin_key, g) = RandomKeySetBegin uniform config g;
          end_key = begin_key + bc_query_size config - 1
      in case (key_bound_of begin_key, key_bound_of end_key) of
           (Some b, Some e) \<Rightarrow> Some (AddRange b e KeySet, g)
         | _ \<Rightarrow> None)"

definition UseStub :: "(int \<Rightarrow> int \<Rightarrow> 'g \<Rightarrow> int \<times> 'g) \<Rightarrow> bench_config \<Rightarrow> 'g \<Rightarrow> bool \<times> 'g" where
  "UseStub uniform config g =
     (if bc_use_only_clients config then (False, g)
      else if bc_use_only_stubs config then (True, g)
      else map_prod (\<lambda>i. i = 1) id (uniform 0 1 g))"

definition ThreadCount :: "(int \<Rightarrow> int \<Rightarrow> 'g \<Rightarrow> int \<times> 'g) \<Rightarrow> bench_config \<Rightarrow> 'g \<Rightarrow> int \<times> 'g" where
  "ThreadCount uniform config = uniform (bc_minimum_threads config) (bc_maximum_threads config)"

definition ClientCount :: "(int \<Rightarrow> int \<Rightarrow> 'g \<Rightarrow> int \<times> 'g) \<Rightarrow> bench_config \<Rightarrow> 'g \<Rightarrow> int \<times> 'g" where
  "ClientCount uniform config = uniform (bc_minimum_clients config) (bc_maximum_clients config)"

section \<open>What ParseArgs accepts\<close>

definition config_ok :: "bench_config \<Rightarrow> bool" where
  "config_ok c \<longleftrightarrow>
     bc_experiment c \<noteq> [] \<and> bc_project_id c \<noteq> [] \<and> in_int32 (bc_samples c) \<and> in_int32 (bc_iteration_duration c) \<and>
     0 < bc_minimum_threads c \<and> bc_minimum_threads c \<le> bc_maximum_threads c \<and> in_int32 (bc_maximum_threads c) \<and>
     0 < bc_minimum_clients c \<and> bc_minimum_clients c \<le> bc_maximum_clients c \<and> in_int32 (bc_maximum_clients c) \<and>
     0 < bc_query_size c \<and> bc_query_size c \<le> bc_table_size c \<and> in_int64 (bc_table_size c) \<and>
     \<not> (bc_use_only_stubs c \<and> bc_use_only_clients c)"

text \<open>The flags that set every field of a configuration.\<close>

definition flags_of :: "bench_config \<Rightarrow> string list" where
  "flags_of c =
     [''--experiment='' @ bc_experiment c, ''--project='' @ bc_project_id c, ''--instance='' @ bc_instance_id c,
      ''--database='' @ bc_database_id c, ''--samples='' @ to_string (bc_samples c),
      ''--iteration-duration='' @ to_string (bc_iteration_duration c),
      ''--minimum-threads='' @ to_string (bc_minimum_threads c),
      ''--maximum-threads='' @ to_string (bc_maximum_threads c),
      ''--minimum-clients='' @ to_string (bc_minimum_clients c),
      ''--maximum-channels='' @ to_string (bc_maximum_clients c),
      ''--table-size='' @ to_string (bc_table_size c), ''--query-size='' @ to_string (bc_query_size c)] @
     (if bc_use_only_stubs c then [''--use-only-stubs''] else []) @
     (if bc_use_only_clients c then [''--use-only-clients''] else [])"

lemma sto_to_string [simp]: "lo \<le> i \<Longrightarrow> i \<le> hi \<Longrightarrow> sto lo hi (to_string i) = Inr i"
proof -
  assume "lo \<le> i" "i \<le> hi"
  then have "scan_int lo hi (to_string i @ []) = Scanned i []"
    unfolding printf0_to_string [symmetric] by (intro scan_int_printf0) simp_all
  moreover have t: "takeWhile (\<lambda>c. c \<noteq> CHR 0x00) (to_string i) = to_string i"
    using printf0_no_NUL [of 0 i] by (simp add: printf0_to_string takeWhile_eq_all_conv) metis
  ultimately show ?thesis by (simp add: sto_def t)
qed

lemma sto_range: "sto lo hi s = Inr i \<Longrightarrow> lo \<le> i \<and> i \<le> hi"
  by (auto simp: sto_def scan_int_def Let_def split: if_splits scanned.splits)

text \<open>Every number that a flag sets has the range of its type.\<close>

definition config_typed :: "bench_config \<Rightarrow> bool" where
  "config_typed c \<longleftrightarrow> in_int32 (bc_samples c) \<and> in_int32 (bc_iteration_duration c) \<and>
     in_int32 (bc_maximum_threads c) \<and> in_int32 (bc_maximum_clients c) \<and> in_int64 (bc_table_size c)"

lemma typed_number:
  assumes "map_sum id f (sto lo hi v) = Inr c'" "\<And>i. lo \<le> i \<Longrightarrow> i \<le> hi \<Longrightarrow> config_typed (f i)"
  shows "config_typed c'"
  using assms by (cases "sto lo hi v") (auto dest: sto_range)

lemma flag_typed:
  assumes "flag \<in> set flags" "snd flag c v = Inr c'" "config_typed c"
  shows "config_typed c'"
proof -
  have "list_all (\<lambda>flag. snd flag c v = Inr c' \<longrightarrow> config_typed c') flags"
    unfolding flags_def list.pred_inject(2) list.pred_inject(1) snd_conv
    by (intro conjI impI TrueI; (erule typed_number)?;
      (use assms(3) in \<open>auto simp: config_typed_def in_int32_def in_int64_def\<close>))
  then show ?thesis using assms(1,2) unfolding list_all_iff by blast
qed

lemma parse_flags_typed: "parse_flags c args = Inr (Inr c') \<Longrightarrow> config_typed c \<Longrightarrow> config_typed c'"
proof (induction c args rule: parse_flags.induct)
  case (2 c arg args)
  show ?case
  proof (cases "find (\<lambda>flag. starts_with (fst flag) arg) flags")
    case None
    then show ?thesis using 2 by (simp split: if_splits)
  next
    case (Some flag)
    have "flag \<in> set flags" using Some by (auto simp: find_Some_iff)
    moreover obtain c1 where "snd flag c (drop (length (fst flag)) arg) = Inr c1" "parse_flags c1 args = Inr (Inr c')"
      using 2(3) Some by (auto split: sum.splits prod.splits)
    ultimately show ?thesis
      using 2(2) [OF Some prod.collapse] 2(4) flag_typed by blast
  qed
qed simp

lemma check_config_cases: "check_config c = Inr c' \<longleftrightarrow> c = c' \<and> bc_experiment c \<noteq> [] \<and> bc_project_id c \<noteq> [] \<and>
    0 < bc_minimum_threads c \<and> bc_minimum_threads c \<le> bc_maximum_threads c \<and>
    0 < bc_minimum_clients c \<and> bc_minimum_clients c \<le> bc_maximum_clients c \<and>
    0 < bc_query_size c \<and> bc_query_size c \<le> bc_table_size c \<and> \<not> (bc_use_only_stubs c \<and> bc_use_only_clients c)"
  unfolding check_config_def by (auto simp: not_le not_less)

lemma config_ok_check: "config_ok c \<longleftrightarrow> config_typed c \<and> check_config c = Inr c"
  by (auto simp: config_ok_def config_typed_def check_config_cases)

lemma find_flag:
  "find (\<lambda>flag. starts_with (fst flag) s) ((name, p) # fs) =
   (if starts_with name s then Some (name, p) else find (\<lambda>flag. starts_with (fst flag) s) fs)"
  by simp

lemma parse_flags_of:
  assumes "config_ok c" "\<not> bc_use_only_clients d" "\<not> bc_use_only_stubs d"
  shows "parse_flags d (flags_of c) = Inr (Inr c)"
proof -
  note ok = assms(1) [unfolded config_ok_def in_int32_def in_int64_def]
  show ?thesis
    using ok assms(2,3)
    by (cases "bc_use_only_stubs c"; cases "bc_use_only_clients c")
      (simp_all add: flags_of_def flags_def starts_with_def)
qed

lemma default_typed: "config_typed (default_config\<lparr>bc_experiment := e, bc_project_id := p, bc_instance_id := i\<rparr>)"
  by (simp add: config_typed_def default_config_def in_int32_def in_int64_def)

text \<open>
  The flags of the benchmarks. Whatever the command line, a configuration that \<open>ParseArgs\<close> returns has
  an experiment and a project, at least one thread and one client, no maximum below its minimum, a query
  that is not larger than the table, numbers in the range of their types, and at most one of the two
  restrictions; and every such configuration is returned for the flags that set it.
\<close>

theorem parse_args_exact:
  "(ParseArgs GetEnv args = Some (Inr (Inr c)) \<longrightarrow> config_ok c) \<and>
   (config_ok c \<longrightarrow> ParseArgs GetEnv (program # flags_of c) = Some (Inr (Inr c)))"
proof (intro conjI impI)
  assume "ParseArgs GetEnv args = Some (Inr (Inr c))"
  then obtain c1 where "parse_flags (default_config\<lparr>bc_experiment := ''run-all'',
        bc_project_id := (case GetEnv ''GOOGLE_CLOUD_PROJECT'' of Some v \<Rightarrow> v | None \<Rightarrow> []),
        bc_instance_id := (case GetEnv ''GOOGLE_CLOUD_CPP_SPANNER_INSTANCE'' of Some v \<Rightarrow> v | None \<Rightarrow> [])\<rparr>)
      (tl args) = Inr (Inr c1)" and c: "check_config c1 = Inr c"
    by (auto simp: ParseArgs_def Let_def split: if_splits sum.splits)
  from parse_flags_typed [OF this(1) default_typed] c show "config_ok c"
    by (auto simp: config_ok_check check_config_cases)
next
  assume "config_ok c"
  then show "ParseArgs GetEnv (program # flags_of c) = Some (Inr (Inr c))"
    by (simp add: ParseArgs_def Let_def parse_flags_of default_config_def) (simp add: config_ok_check)
qed

definition demo_config :: bench_config where
  "demo_config = default_config
     \<lparr>bc_experiment := ''read'', bc_project_id := ''p'', bc_maximum_threads := 4, bc_table_size := 20, bc_query_size := 5\<rparr>"

lemma parse_args_exact_witness:
  "config_ok demo_config \<and>
   ParseArgs (\<lambda>_. None) (''bench'' # flags_of demo_config) = Some (Inr (Inr demo_config))"
proof -
  have ok: "config_ok demo_config"
    by (simp add: demo_config_def default_config_def config_ok_def in_int32_def in_int64_def)
  then show ?thesis using parse_args_exact [of "\<lambda>_. None" "[]" demo_config "''bench''"] by blast
qed

section \<open>What the tasks write\<close>

text \<open>The rows of a mutation and of a sequence of commits, and the row of a key.\<close>

fun mutation_rows :: "mutation \<Rightarrow> pvalue list list" where
  "mutation_rows (Write op w) = wr_values w"
| "mutation_rows _ = []"

definition commit_rows :: "mutation list \<Rightarrow> pvalue list list" where
  "commit_rows ms = concat (map mutation_rows ms)"

definition key_value_row :: "string \<Rightarrow> int \<Rightarrow> pvalue list" where
  "key_value_row data key = [PString (to_string key), PString data]"

text \<open>A service that writes down what it is asked to commit, whatever it answers.\<close>

definition logging_commit ::
    "(mutation list \<Rightarrow> 'w \<Rightarrow> ('a \<times> 'w) option) \<Rightarrow> mutation list \<Rightarrow> 'w \<times> mutation list list \<Rightarrow>
     ('a \<times> 'w \<times> mutation list list) option" where
  "logging_commit commit ms v = map_option (\<lambda>(result, w). (result, w, snd v @ [ms])) (commit ms (fst v))"

definition sent :: "mutation list list \<Rightarrow> pvalue list multiset" where
  "sent log = (\<Sum>ms\<leftarrow>log. mset (commit_rows ms))"

lemma sent_snoc [simp]: "sent [] = {#}" "sent (log @ [ms]) = sent log + mset (commit_rows ms)"
  by (simp_all add: sent_def)

text \<open>The rows of the keys below \<open>k\<close> that a task has.\<close>

definition share_rows :: "string \<Rightarrow> nat \<Rightarrow> int \<Rightarrow> pvalue list multiset" where
  "share_rows data i k = mset (map (key_value_row data) (filter (\<lambda>j. j mod fill_task_count = int i) [0..k - 1]))"

lemma share_rows_0 [simp]: "share_rows data i 0 = {#}"
  by (simp add: share_rows_def)

lemma share_rows_step:
  "0 \<le> k \<Longrightarrow> share_rows data i (k + 1) =
   share_rows data i k + (if k mod fill_task_count = int i then {#key_value_row data k#} else {#})"
  by (simp add: share_rows_def upto_rec2)

lemma share_rows_all:
  "(\<Sum>i<nat fill_task_count. mset (map f (filter (\<lambda>j. j mod fill_task_count = int i) js))) = mset (map f js)"
proof (induction js)
  case (Cons j js)
  have "nat (j mod fill_task_count) < nat fill_task_count" by (simp add: fill_task_count_def)
  then have "(\<Sum>i<nat fill_task_count. if j mod fill_task_count = int i then {#f j#} else {#}) = {#f j#}"
    by (subst sum.remove [of _ "nat (j mod fill_task_count)"])
      (auto simp: fill_task_count_def intro!: sum.neutral split: if_splits)
  moreover have "mset (map f (filter (\<lambda>j. j mod fill_task_count = int i) (j # js))) =
      (if j mod fill_task_count = int i then {#f j#} else {#}) +
      mset (map f (filter (\<lambda>j. j mod fill_task_count = int i) js))" for i
    by simp
  ultimately show ?case using Cons.IH by (simp only: sum.distrib) simp
qed simp

text \<open>A task between two turns.\<close>

definition fill_task_ok :: "bench_config \<Rightarrow> fill_task \<Rightarrow> bool" where
  "fill_task_ok config t \<longleftrightarrow>
     0 \<le> ft_key t \<and> ft_key t \<le> bc_table_size config \<and>
     (\<exists>rows. ft_mutation t = Write InsertOrUpdateOp
        \<lparr>wr_table = ''KeyValue'', wr_columns = [''Key'', ''Data''], wr_values = rows\<rparr> \<and>
        ft_current t = int (length rows) \<and> length rows < 1000) \<and>
     (ft_done t \<longrightarrow> ft_key t = bc_table_size config \<and> ft_current t = 0)"

definition pending :: "fill_task \<Rightarrow> pvalue list multiset" where
  "pending t = mset (mutation_rows (ft_mutation t))"

text \<open>A commit of the tasks: one mutation of 1 to 1000 rows.\<close>

definition fill_commit_ok :: "mutation list \<Rightarrow> bool" where
  "fill_commit_ok ms \<longleftrightarrow> (\<exists>rows. rows \<noteq> [] \<and> length rows \<le> 1000 \<and>
     ms = [Write InsertOrUpdateOp \<lparr>wr_table = ''KeyValue'', wr_columns = [''Key'', ''Data''], wr_values = rows\<rparr>])"

lemma key_value_builder: "key_value_builder = Write InsertOrUpdateOp
    \<lparr>wr_table = ''KeyValue'', wr_columns = [''Key'', ''Data''], wr_values = []\<rparr>"
  by (simp add: key_value_builder_def WriteMutationBuilder_def default_write_def Let_def)

lemma EmplaceRow_key_value:
  "EmplaceRow InsertOrUpdateOp [(CInt64, VInt64 key), (CString, VString data)] (Write InsertOrUpdateOp w) =
   Some (Write InsertOrUpdateOp (w\<lparr>wr_values := wr_values w @ [key_value_row data key]\<rparr>))"
  by (simp add: EmplaceRow_def AddRow_def Let_def MakeValue_def key_value_row_def Value_ToProto_def
      MakeValueProto_int64_def MakeValueProto_string_def)

lemma maybe_flush_logged:
  assumes "maybe_flush (logging_commit commit) force t (w, log) = Some (t', w', log')"
    "ft_mutation t = Write InsertOrUpdateOp
       \<lparr>wr_table = ''KeyValue'', wr_columns = [''Key'', ''Data''], wr_values = rows\<rparr>"
    "ft_current t = int (length rows)" "length rows \<le> 1000" "list_all fill_commit_ok log"
  shows "\<exists>rows'. t' = t\<lparr>ft_mutation := Write InsertOrUpdateOp
          \<lparr>wr_table = ''KeyValue'', wr_columns = [''Key'', ''Data''], wr_values = rows'\<rparr>,
        ft_current := int (length rows')\<rparr> \<and> length rows' < 1000 \<and> (force \<longrightarrow> rows' = []) \<and>
      sent log' + mset rows' = sent log + mset rows \<and> list_all fill_commit_ok log'"
proof (cases "rows = [] \<or> \<not> force \<and> length rows < 1000")
  case True
  then show ?thesis
    using assms by (intro exI [of _ rows]) (cases t; auto simp: maybe_flush_def split: if_splits)
next
  case False
  then show ?thesis
    using assms by (auto simp: maybe_flush_def logging_commit_def key_value_builder commit_rows_def
        fill_commit_ok_def split: if_splits)
qed

lemma FillTableTask_turn_logged:
  assumes "FillTableTask_turn (logging_commit commit) config data fill_task_count (int i) t (w, log) = Some (t', w', log')"
    "fill_task_ok config t" "\<not> ft_done t" "list_all fill_commit_ok log"
  shows "fill_task_ok config t'" "list_all fill_commit_ok log'"
    "sent log' + pending t' + share_rows data i (ft_key t) = sent log + pending t + share_rows data i (ft_key t')"
    "ft_key t' + of_bool (ft_done t') = ft_key t + 1"
proof -
  obtain rows where m: "ft_mutation t = Write InsertOrUpdateOp
        \<lparr>wr_table = ''KeyValue'', wr_columns = [''Key'', ''Data''], wr_values = rows\<rparr>"
      and n: "ft_current t = int (length rows)" "length rows < 1000"
    using assms(2) by (auto simp: fill_task_ok_def)
  have k: "0 \<le> ft_key t" "ft_key t \<le> bc_table_size config" using assms(2) by (simp_all add: fill_task_ok_def)
  have sm: "ft_key t smod fill_task_count = ft_key t mod fill_task_count"
    using k by (simp add: fill_task_count_def smod_nonneg)
  note turn = assms(1) [unfolded FillTableTask_turn_def Let_def sm]
  have "fill_task_ok config t' \<and> list_all fill_commit_ok log' \<and>
    sent log' + pending t' + share_rows data i (ft_key t) = sent log + pending t + share_rows data i (ft_key t') \<and>
    ft_key t' + of_bool (ft_done t') = ft_key t + 1"
  proof (cases "ft_key t = bc_table_size config")
    case True
    then obtain u where u: "maybe_flush (logging_commit commit) True t (w, log) = Some (u, w', log')"
        "t' = u\<lparr>ft_done := True\<rparr>"
      using turn by auto
    show ?thesis
      using maybe_flush_logged [OF u(1) m n(1) _ assms(4)] True k n u(2) m
      by (auto simp: fill_task_ok_def pending_def)
  next
    case False
    show ?thesis
    proof (cases "ft_key t mod fill_task_count = int i")
      case True
      let ?u = "t\<lparr>ft_mutation := Write InsertOrUpdateOp \<lparr>wr_table = ''KeyValue'', wr_columns = [''Key'', ''Data''],
          wr_values = rows @ [key_value_row data (ft_key t)]\<rparr>, ft_current := ft_current t + 1\<rparr>"
      obtain u where u: "maybe_flush (logging_commit commit) False ?u (w, log) = Some (u, w', log')"
          "t' = u\<lparr>ft_key := ft_key t + 1\<rparr>"
        using turn True False by (auto simp: m EmplaceRow_key_value)
      show ?thesis
        using maybe_flush_logged [OF u(1), of "rows @ [key_value_row data (ft_key t)]"] assms(3,4) True False k n u(2) m
        by (auto simp: fill_task_ok_def pending_def share_rows_step)
    next
      case no: False
      then show ?thesis
        using turn False assms(2-4) k by (auto simp: fill_task_ok_def pending_def share_rows_step)
    qed
  qed
  then show "fill_task_ok config t'" "list_all fill_commit_ok log'"
    "sent log' + pending t' + share_rows data i (ft_key t) = sent log + pending t + share_rows data i (ft_key t')"
    "ft_key t' + of_bool (ft_done t') = ft_key t + 1"
    by blast+
qed

text \<open>The tasks together.\<close>

lemma sum_nth_update:
  fixes f :: "nat \<Rightarrow> 'a \<Rightarrow> 'b::comm_monoid_add"
  assumes "i < length xs"
  shows "(\<Sum>j<length xs. f j (xs[i := x] ! j)) + f i (xs ! i) = (\<Sum>j<length xs. f j (xs ! j)) + f i x"
proof -
  have "(\<Sum>j<length xs. f j (xs[i := x] ! j)) = f i x + (\<Sum>j\<in>{..<length xs} - {i}. f j (xs[i := x] ! j))"
    using sum.remove [of "{..<length xs}" i "\<lambda>j. f j (xs[i := x] ! j)"] assms by simp
  moreover have "(\<Sum>j<length xs. f j (xs ! j)) = f i (xs ! i) + (\<Sum>j\<in>{..<length xs} - {i}. f j (xs ! j))"
    using sum.remove [of "{..<length xs}" i "\<lambda>j. f j (xs ! j)"] assms by simp
  moreover have "(\<Sum>j\<in>{..<length xs} - {i}. f j (xs[i := x] ! j)) = (\<Sum>j\<in>{..<length xs} - {i}. f j (xs ! j))"
    by (rule sum.cong) auto
  ultimately show ?thesis by (simp add: ac_simps)
qed

lemma balance_step:
  fixes L L' P P' S S' p p' s s' :: "'a multiset"
  assumes "P' + p = P + p'" "S' + s = S + s'" "L' + p' + s = L + p + s'" "L + P = S"
  shows "L' + P' = S'"
proof -
  have "(L' + P') + (p + s) = (L' + s) + (P' + p)" by (simp add: ac_simps)
  also have "\<dots> = (L' + p' + s) + P" by (simp add: assms(1) ac_simps)
  also have "\<dots> = (L + P) + (p + s')" by (simp only: assms(3)) (simp add: ac_simps)
  also have "\<dots> = (S' + s) + p" by (simp add: assms(2,4) ac_simps)
  finally show ?thesis by (simp add: ac_simps)
qed

definition fill_inv :: "bench_config \<Rightarrow> string \<Rightarrow> ('w \<times> mutation list list) fill_state \<Rightarrow> bool" where
  "fill_inv config data z \<longleftrightarrow>
     length (fs_tasks z) = nat fill_task_count \<and> list_all (fill_task_ok config) (fs_tasks z) \<and>
     list_all fill_commit_ok (snd (fs_world z)) \<and>
     sent (snd (fs_world z)) + (\<Sum>i<nat fill_task_count. pending (fs_tasks z ! i)) =
       (\<Sum>i<nat fill_task_count. share_rows data i (ft_key (fs_tasks z ! i)))"

definition fill_progress :: "'w fill_state \<Rightarrow> int" where
  "fill_progress z = (\<Sum>i<nat fill_task_count. ft_key (fs_tasks z ! i) + of_bool (ft_done (fs_tasks z ! i)))"

lemma fill_step_inv:
  assumes "fill_step (logging_commit commit) config data z z'" "fill_inv config data z"
  shows "fill_inv config data z' \<and> fill_progress z' = fill_progress z + 1"
  using assms
proof (induction rule: fill_step.induct)
  case (turn i z t' v')
  let ?t = "fs_tasks z ! i"
  obtain w log w' log' where v: "fs_world z = (w, log)" "v' = (w', log')" by (cases "fs_world z", cases v')
  note inv = turn(4) [unfolded fill_inv_def]
  have ok: "fill_task_ok config ?t" using inv turn(1) by (simp add: list_all_length)
  have n: "i < nat fill_task_count" using inv turn(1) by simp
  have "list_all fill_commit_ok log" using inv by (simp add: v)
  note step = FillTableTask_turn_logged [OF turn(3) [unfolded v] ok turn(2) this]
  note upd = sum_nth_update [OF turn(1), where x = t', unfolded conjunct1 [OF inv]]
  have rows: "sent log' + (\<Sum>j<nat fill_task_count. pending ((fs_tasks z)[i := t'] ! j)) =
      (\<Sum>j<nat fill_task_count. share_rows data j (ft_key ((fs_tasks z)[i := t'] ! j)))"
    by (rule balance_step [OF upd [of "\<lambda>_. pending"] upd [of "\<lambda>j t. share_rows data j (ft_key t)"] step(3)])
      (use inv in \<open>simp add: v\<close>)
  have "(\<Sum>j<nat fill_task_count. ft_key ((fs_tasks z)[i := t'] ! j) + of_bool (ft_done ((fs_tasks z)[i := t'] ! j))) =
      fill_progress z + 1"
    using upd [of "\<lambda>_ t. ft_key t + of_bool (ft_done t)"] step(4) turn(2) inv v by (simp add: fill_progress_def)
  moreover have "list_all (fill_task_ok config) ((fs_tasks z)[i := t'])"
    using inv step(1) set_update_subset_insert [of "fs_tasks z" i t'] by (auto simp: list_all_iff)
  ultimately show ?case
    using rows step(2) inv v(2) by (simp add: fill_inv_def fill_progress_def)
qed

lemma fill_inv_start: "0 \<le> bc_table_size config \<Longrightarrow> fill_inv config data (FillTable_start (w, []))"
  by (auto simp: fill_inv_def FillTable_start_def FillTableTask_start_def fill_task_ok_def key_value_builder
      list_all_length pending_def)

lemma fill_progress_start: "fill_progress (FillTable_start w) = 0"
  by (simp add: fill_progress_def FillTable_start_def FillTableTask_start_def)

lemma fill_steps_inv:
  assumes "(fill_step (logging_commit commit) config data ^^ n) z z'" "fill_inv config data z"
  shows "fill_inv config data z' \<and> fill_progress z' = fill_progress z + int n"
  using assms
proof (induction n arbitrary: z')
  case (Suc n)
  then obtain z1 where "(fill_step (logging_commit commit) config data ^^ n) z z1"
      "fill_step (logging_commit commit) config data z1 z'"
    by auto
  with Suc.IH [of z1] Suc.prems(2) fill_step_inv [of commit config data z1 z'] show ?case by simp
qed simp

lemma fill_progress_bound:
  assumes "fill_inv config data z"
  shows "fill_progress z \<le> fill_task_count * (bc_table_size config + 1)"
proof -
  have "fill_progress z \<le> (\<Sum>i<nat fill_task_count. bc_table_size config + 1)"
    unfolding fill_progress_def
    using assms by (intro sum_mono) (auto simp: fill_inv_def list_all_length fill_task_ok_def)
  then show ?thesis by (simp add: fill_task_count_def)
qed

lemma fill_done_rows:
  assumes "fill_inv config data z" "FillTable_done z" "0 \<le> bc_table_size config"
  shows "sent (snd (fs_world z)) = mset (map (key_value_row data) [0..bc_table_size config - 1])"
proof -
  have t: "ft_key (fs_tasks z ! i) = bc_table_size config \<and> pending (fs_tasks z ! i) = {#}"
    if "i < nat fill_task_count" for i
    using assms(1,2) that
    by (auto simp: fill_inv_def FillTable_done_def fill_task_ok_def pending_def list_all_length)
  have "sent (snd (fs_world z)) = (\<Sum>i<nat fill_task_count. share_rows data i (bc_table_size config))"
    using assms(1) t by (simp add: fill_inv_def)
  then show ?thesis unfolding share_rows_def share_rows_all .
qed

lemma fill_step_possible:
  assumes "fill_inv config data z" "\<not> FillTable_done z" "\<And>ms w. commit ms w \<noteq> None"
  shows "\<exists>z'. fill_step (logging_commit commit) config data z z'"
proof -
  obtain i where i: "i < length (fs_tasks z)" "\<not> ft_done (fs_tasks z ! i)"
    using assms(2) by (auto simp: FillTable_done_def list_all_length)
  have "fill_task_ok config (fs_tasks z ! i)" using assms(1) i by (simp add: fill_inv_def list_all_length)
  then obtain w where "ft_mutation (fs_tasks z ! i) = Write InsertOrUpdateOp w" by (auto simp: fill_task_ok_def)
  moreover have flush: "\<exists>u v'. maybe_flush (logging_commit commit) force t v = Some (u, v')" for force t v
    using assms(3) [of "[ft_mutation t]" "fst v"] by (auto simp: maybe_flush_def logging_commit_def)
  have "map_option g (maybe_flush (logging_commit commit) force t v) \<noteq> None" for g force t v
    using flush [of force t v] by (auto simp del: split_paired_Ex)
  ultimately have "FillTableTask_turn (logging_commit commit) config data fill_task_count (int i)
      (fs_tasks z ! i) (fs_world z) \<noteq> None"
    by (simp add: FillTableTask_turn_def EmplaceRow_key_value Let_def del: not_None_eq)
  then show ?thesis using fill_step.turn [OF i] by (metis not_None_eq prod.collapse)
qed

lemma fill_runs_end:
  assumes "fill_inv config data z" "\<And>ms w. commit ms w \<noteq> None"
  shows "\<exists>n z'. (fill_step (logging_commit commit) config data ^^ n) z z' \<and> FillTable_done z'"
  using assms(1)
proof (induction "nat (fill_task_count * (bc_table_size config + 1) - fill_progress z)" arbitrary: z
    rule: less_induct)
  case less
  show ?case
  proof (cases "FillTable_done z")
    case True
    then show ?thesis by (intro exI [of _ 0] exI [of _ z]) simp
  next
    case False
    obtain z1 where z1: "fill_step (logging_commit commit) config data z z1"
      using fill_step_possible [OF less(2) False, of commit] assms(2) by blast
    have inv: "fill_inv config data z1" "fill_progress z1 = fill_progress z + 1"
      using fill_step_inv [OF z1 less(2)] by simp_all
    then obtain n z' where "(fill_step (logging_commit commit) config data ^^ n) z1 z'" "FillTable_done z'"
      using less(1) [OF _ inv(1)] fill_progress_bound [OF inv(1)] by auto
    then show ?thesis using z1 by (meson relpowp_Suc_I2)
  qed
qed

text \<open>
  C39: Filling the table. However the sixteen tasks interleave and whatever their commits answer, each
  commit has one mutation of 1 to 1000 rows; the tasks take at most \<open>16 * (table_size + 1)\<close> turns, and as
  long as one is not done there is a next turn when commits return; and when all are done, the row of
  every key below the table size has been sent exactly once, and no other.
\<close>

theorem fill_table_exact:
  assumes "(fill_step (logging_commit commit) config data ^^ n) (FillTable_start (w, [])) z"
    "0 \<le> bc_table_size config"
  shows "list_all fill_commit_ok (snd (fs_world z)) \<and>
    int n \<le> fill_task_count * (bc_table_size config + 1) \<and>
    (FillTable_done z \<longrightarrow>
      sent (snd (fs_world z)) = mset (map (key_value_row data) [0..bc_table_size config - 1])) \<and>
    (\<not> FillTable_done z \<longrightarrow> (\<forall>ms w. commit ms w \<noteq> None) \<longrightarrow>
      (\<exists>z'. fill_step (logging_commit commit) config data z z'))"
proof -
  have inv: "fill_inv config data z" "fill_progress z = int n"
    using fill_steps_inv [OF assms(1) fill_inv_start [OF assms(2)]] by (simp_all add: fill_progress_start)
  show ?thesis
    using inv fill_progress_bound [OF inv(1)] fill_done_rows [OF inv(1) _ assms(2)]
      fill_step_possible [OF inv(1), of commit]
    by (auto simp: fill_inv_def)
qed

lemma fill_table_exact_witness:
  "\<exists>n z. (fill_step (logging_commit (\<lambda>ms w. Some (Status kUnavailable ''busy'', w + 1)))
        (demo_config\<lparr>bc_table_size := 2\<rparr>) ''A'' ^^ n) (FillTable_start (0 :: nat, [])) z \<and>
     FillTable_done z \<and> n \<le> 48 \<and>
     sent (snd (fs_world z)) = {#[PString ''0'', PString ''A''], [PString ''1'', PString ''A'']#}"
proof -
  let ?config = "demo_config\<lparr>bc_table_size := 2\<rparr>"
    and ?commit = "\<lambda>(ms :: mutation list) (w :: nat). Some (Status kUnavailable ''busy'', w + 1)"
  obtain n z where z: "(fill_step (logging_commit ?commit) ?config ''A'' ^^ n) (FillTable_start (0, [])) z"
      "FillTable_done z"
    using fill_runs_end [OF fill_inv_start [of ?config "''A''" 0], of ?commit] by auto
  have up: "[0..1] = [0, 1 :: int]" by code_simp
  have digits: "to_string 0 = ''0''" "to_string 1 = ''1''" by code_simp+
  show ?thesis
    using fill_table_exact [OF z(1)] z
    by (intro exI [of _ n] exI [of _ z]) (auto simp: fill_task_count_def key_value_row_def up digits)
qed

section \<open>The keys that are read\<close>

definition draws_between :: "(int \<Rightarrow> int \<Rightarrow> 'g \<Rightarrow> int \<times> 'g) \<Rightarrow> bool" where
  "draws_between uniform \<longleftrightarrow> (\<forall>a b g. a \<le> b \<longrightarrow> a \<le> fst (uniform a b g) \<and> fst (uniform a b g) \<le> b)"

lemma key_bound_of: "key_bound_of k = Some (KeyBound [Value TInt64 (PString (to_string k))] kClosed)"
  by (simp add: key_bound_of_def MakeKeyBoundClosed_def MakeValue_def MakeValueProto_int64_def)

text \<open>
  A range that is read with a configuration of \<open>ParseArgs\<close> is closed, has \<open>query_size\<close> keys, and all of
  them are keys of the table; so is a key of \<open>RandomKey\<close>. The numbers of threads and clients are between
  their bounds.
\<close>

theorem random_keys_in_table:
  assumes "draws_between uniform" "config_ok config"
  shows "(\<exists>a b. RandomKeySet uniform config g =
        Some (AddRange (KeyBound [Value TInt64 (PString (to_string a))] kClosed)
            (KeyBound [Value TInt64 (PString (to_string b))] kClosed) KeySet,
          snd (RandomKeySetBegin uniform config g)) \<and>
        b - a + 1 = bc_query_size config \<and> 0 \<le> a \<and> b < bc_table_size config) \<and>
    0 \<le> fst (RandomKey uniform config g) \<and> fst (RandomKey uniform config g) < bc_table_size config \<and>
    0 < fst (ThreadCount uniform config g) \<and> fst (ThreadCount uniform config g) \<le> bc_maximum_threads config \<and>
    0 < fst (ClientCount uniform config g) \<and> fst (ClientCount uniform config g) \<le> bc_maximum_clients config"
proof -
  note ok = assms(2) [unfolded config_ok_def]
  have between: "x \<le> y \<Longrightarrow> x \<le> fst (uniform x y g) \<and> fst (uniform x y g) \<le> y" for x y
    using assms(1) by (simp add: draws_between_def)
  have keys: "0 \<le> fst (RandomKey uniform config g)" "fst (RandomKey uniform config g) < bc_table_size config"
    using between [of 0 "bc_table_size config - 1"] ok by (simp_all add: RandomKey_def)
  have counts: "0 < fst (ThreadCount uniform config g)" "fst (ThreadCount uniform config g) \<le> bc_maximum_threads config"
    "0 < fst (ClientCount uniform config g)" "fst (ClientCount uniform config g) \<le> bc_maximum_clients config"
    using between [of "bc_minimum_threads config" "bc_maximum_threads config"]
      between [of "bc_minimum_clients config" "bc_maximum_clients config"] ok
    by (simp_all add: ThreadCount_def ClientCount_def)
  have "\<exists>a b. RandomKeySet uniform config g =
        Some (AddRange (KeyBound [Value TInt64 (PString (to_string a))] kClosed)
            (KeyBound [Value TInt64 (PString (to_string b))] kClosed) KeySet,
          snd (RandomKeySetBegin uniform config g)) \<and>
        b - a + 1 = bc_query_size config \<and> 0 \<le> a \<and> b < bc_table_size config"
    using between [of 0 "bc_table_size config - bc_query_size config"] ok
    by (intro exI [of _ "fst (RandomKeySetBegin uniform config g)"]
        exI [of _ "fst (RandomKeySetBegin uniform config g) + bc_query_size config - 1"])
      (simp add: RandomKeySet_def RandomKeySetBegin_def key_bound_of split: prod.splits)
  then show ?thesis using keys counts by blast
qed

lemma random_keys_in_table_witness:
  "fst (RandomKey (\<lambda>a b g. (a + g mod (b - a + 1), g)) demo_config 47) < 20 \<and>
   RandomKey (\<lambda>a b g. (a + g mod (b - a + 1), g)) demo_config 47 = (7, 47)"
proof -
  let ?u = "\<lambda>a b (g :: int). (a + g mod (b - a + 1), g)"
  have "draws_between ?u"
    by (auto simp: draws_between_def) (smt (verit) pos_mod_bound)
  moreover have "config_ok demo_config"
    by (simp add: demo_config_def default_config_def config_ok_def in_int32_def in_int64_def)
  ultimately show ?thesis
    using random_keys_in_table [of ?u demo_config 47]
    by (simp add: RandomKey_def demo_config_def default_config_def)
qed

text \<open>Where one row is read, the key behind the last one can be drawn: it is in no row of the table.\<close>

theorem single_row_key_missing:
  "single_row_random_key (\<lambda>a b g. (b, g)) config g = (bc_table_size config, g) \<and>
   bc_table_size config \<notin> set [0..bc_table_size config - 1]"
  by (simp add: single_row_random_key_def)

end
