(* ===== verification/Metadata_Checks.thy ===== *)
theory Metadata_Checks
  imports Admin_Stubs "HOL-Library.List_Lexorder" "HOL-Library.Char_ord"
begin

text \<open>
  \<open>testing/validate_metadata.cc\<close>: the check, by the unit tests of the stubs, that a context routes a
  request the way the service's API demands; and that the metadata decorators pass it for every
  resource name, not only for those of the tests.
\<close>

section \<open>The routing header\<close>

text \<open>The matches of \<open>[^&]+\<close> in a header.\<close>

fun pair_matches :: "string \<Rightarrow> string \<Rightarrow> string list" where
  "pair_matches run [] = (if run = [] then [] else [run])"
| "pair_matches run (c # s) =
     (if c = CHR ''&'' then (if run = [] then pair_matches [] s else run # pair_matches [] s)
      else pair_matches (run @ [c]) s)"

text \<open>\<open>([^=]+)=([^=]+)\<close>, matched with a whole text.\<close>

definition assign_match :: "string \<Rightarrow> (string \<times> string) option" where
  "assign_match s =
     (let left = takeWhile (\<lambda>c. c \<noteq> CHR ''='') s; rest = dropWhile (\<lambda>c. c \<noteq> CHR ''='') s
      in if left = [] \<or> rest = [] \<or> tl rest = [] \<or> CHR ''='' \<in> set (tl rest) then None
         else Some (left, tl rest))"

fun ExtractMD_loop :: "(string \<rightharpoonup> string) \<Rightarrow> string list \<Rightarrow> (string \<rightharpoonup> string) status_or" where
  "ExtractMD_loop res [] = Inr res"
| "ExtractMD_loop res (s # ss) =
     (case assign_match s of
        None \<Rightarrow>
          Inl (Status kInvalidArgument
            (''Bad header format. The header should be a series of '' @ [CHR 0x22] @ ''a=b'' @ [CHR 0x22] @
             '' delimited with '' @ [CHR 0x22] @ ''&'' @ [CHR 0x22] @ '', but is '' @ [CHR 0x22] @ s @ [CHR 0x22]))
      | Some (param, v) \<Rightarrow>
          if res param \<noteq> None then
            Inl (Status kInvalidArgument (''Param '' @ param @ '' is listed more then once''))
          else ExtractMD_loop (res(param \<mapsto> v)) ss)"

definition ExtractMDFromHeader :: "string \<Rightarrow> (string \<rightharpoonup> string) status_or" where
  "ExtractMDFromHeader header = ExtractMD_loop (\<lambda>_. None) (pair_matches [] header)"

definition headers_named :: "string \<Rightarrow> context_md \<Rightarrow> string list" where
  "headers_named key headers = map snd (filter (\<lambda>h. fst h = key) headers)"

definition ExtractMDFromHeaders :: "context_md \<Rightarrow> (string \<rightharpoonup> string) status_or" where
  "ExtractMDFromHeaders headers =
     (case headers_named ''x-goog-request-params'' headers of
        [] \<Rightarrow> Inl (Status kInvalidArgument ''Expected header not found'')
      | [v] \<Rightarrow> ExtractMDFromHeader v
      | _ \<Rightarrow> Inl (Status kInvalidArgument ''Multiple headers found''))"

section \<open>The patterns of a method\<close>

text \<open>
  A pattern becomes a regular expression by putting \<open>[^/]+\<close> for each star. Characters with a meaning of
  their own in regular expressions are not in the patterns of the API; with one of them the model has no
  result.
\<close>

definition plain_pattern :: "string \<Rightarrow> bool" where
  "plain_pattern p \<longleftrightarrow> list_all (\<lambda>c. c \<notin> set ''^$.+?()[]{}|'' \<and> c \<noteq> CHR 0x5C) p"

fun glob :: "string \<Rightarrow> string \<Rightarrow> bool" where
  "glob [] v \<longleftrightarrow> v = []"
| "glob (p # ps) [] \<longleftrightarrow> False"
| "glob (p # ps) (c # v) \<longleftrightarrow>
     (if p = CHR ''*'' then c \<noteq> CHR ''/'' \<and> (glob ps v \<or> glob (p # ps) v)
      else c = p \<and> glob ps v)"

definition ValueMatchesPattern :: "string \<Rightarrow> string \<Rightarrow> bool option" where
  "ValueMatchesPattern val pattern = (if plain_pattern pattern then Some (glob pattern val) else None)"

text \<open>The descriptor of a method, from the generated pool, has the option \<open>google.api.http\<close> or not.\<close>

record http_rule =
  http_get :: string
  http_put :: string
  http_post :: string
  http_delete :: string
  http_patch :: string
  http_custom :: "string option"

definition http_pattern :: "http_rule \<Rightarrow> string" where
  "http_pattern http =
     (let pattern = [];
          pattern = (if http_get http \<noteq> [] then http_get http else pattern);
          pattern = (if http_put http \<noteq> [] then http_put http else pattern);
          pattern = (if http_post http \<noteq> [] then http_post http else pattern);
          pattern = (if http_delete http \<noteq> [] then http_delete http else pattern);
          pattern = (if http_patch http \<noteq> [] then http_patch http else pattern)
      in case http_custom http of Some path \<Rightarrow> path | None \<Rightarrow> pattern)"

text \<open>\<open>\{([^{}=]+)=([^{}=]+)\}\<close> at the front of a text, and all matches from left to right.\<close>

definition subst_char :: "char \<Rightarrow> bool" where
  "subst_char c \<longleftrightarrow> c \<noteq> CHR ''{'' \<and> c \<noteq> CHR ''}'' \<and> c \<noteq> CHR ''=''"

definition subst_match :: "string \<Rightarrow> ((string \<times> string) \<times> string) option" where
  "subst_match s =
     (let s1 = tl s; param = takeWhile subst_char s1; s2 = dropWhile subst_char s1;
          s3 = tl s2; pattern = takeWhile subst_char s3; s4 = dropWhile subst_char s3
      in if s \<noteq> [] \<and> hd s = CHR ''{'' \<and> param \<noteq> [] \<and> s2 \<noteq> [] \<and> hd s2 = CHR ''='' \<and>
            pattern \<noteq> [] \<and> s4 \<noteq> [] \<and> hd s4 = CHR ''}''
         then Some ((param, pattern), tl s4) else None)"

lemma length_dropWhile_tl: "length (dropWhile P (tl s)) \<le> length s"
  using length_dropWhile_le [of P "tl s"] by simp

lemma subst_match_shorter: "subst_match s = Some (p, rest) \<Longrightarrow> length rest < length s"
proof -
  let ?s4 = "dropWhile subst_char (tl (dropWhile subst_char (tl s)))"
  assume "subst_match s = Some (p, rest)"
  then have "rest = tl ?s4" "?s4 \<noteq> []" "s \<noteq> []" by (auto simp: subst_match_def Let_def split: if_splits)
  moreover have "length ?s4 \<le> length s"
    using length_dropWhile_tl [of subst_char "dropWhile subst_char (tl s)"] length_dropWhile_tl [of subst_char s]
    by (rule le_trans)
  ultimately show "length rest < length s" by (cases ?s4) simp_all
qed

function subst_matches :: "string \<Rightarrow> (string \<times> string) list" where
  "subst_matches s =
     (if s = [] then []
      else case subst_match s of
             Some (p, rest) \<Rightarrow> p # subst_matches rest
           | None \<Rightarrow> subst_matches (tl s))"
  by pat_completeness auto

termination
  by (relation "measure length") (auto dest: subst_match_shorter)

declare subst_matches.simps [simp del]

text \<open>The result is a \<open>std::map\<close>, a list in the order of its keys: the first match of a parameter counts.\<close>

definition method_error :: "string \<Rightarrow> string \<Rightarrow> status" where
  "method_error method what = Status kInvalidArgument (''Method '' @ method @ what)"

fun insert_param :: "string \<times> string \<Rightarrow> (string \<times> string) list \<Rightarrow> (string \<times> string) list" where
  "insert_param (param, pattern) res = (if map_of res param \<noteq> None then res else insort_key fst (param, pattern) res)"

definition ExtractParamsFromMethod ::
    "(string \<Rightarrow> http_rule option option) \<Rightarrow> string \<Rightarrow> (string \<times> string) list status_or" where
  "ExtractParamsFromMethod FindMethodByName method =
     (case FindMethodByName method of
        None \<Rightarrow> Inl (method_error method '' is unknown.'')
      | Some None \<Rightarrow> Inl (method_error method '' doesn't have a http option.'')
      | Some (Some http) \<Rightarrow>
          if http_pattern http = [] then
            Inl (method_error method '' has a http option with an empty pattern.'')
          else Inr (fold insert_param (subst_matches (http_pattern http)) []))"

section \<open>The check\<close>

fun check_params ::
    "(string \<rightharpoonup> string) \<Rightarrow> (string \<times> string) list \<Rightarrow> status option" where
  "check_params md [] = Some (Status kOk [])"
| "check_params md ((param, expected_pattern) # params) =
     (case md param of
        None \<Rightarrow>
          Some (Status kInvalidArgument
            (''Expected param '' @ [CHR 0x22] @ param @ [CHR 0x22] @ '' not found in metadata''))
      | Some v \<Rightarrow>
          (case ValueMatchesPattern v expected_pattern of
             None \<Rightarrow> None
           | Some False \<Rightarrow>
               Some (Status kInvalidArgument
                 (''Expected param '' @ [CHR 0x22] @ param @ [CHR 0x22] @ '' found, but its value ('' @ [CHR 0x22] @
                  v @ [CHR 0x22] @ '') does not satisfy the pattern ('' @ [CHR 0x22] @ expected_pattern @
                  [CHR 0x22] @ '').''))
           | Some True \<Rightarrow> check_params md params))"

definition check_client_header :: "string \<Rightarrow> context_md \<Rightarrow> status" where
  "check_client_header api_client_header headers =
     (case headers_named ''x-goog-api-client'' headers of
        [] \<Rightarrow> Status kInvalidArgument ''Expected x-goog-api-client metadata''
      | v # _ \<Rightarrow>
          if v \<noteq> api_client_header then
            Status kInvalidArgument (''Expected x-goog-api-client to be '' @ api_client_header @ '', was '' @ v)
          else Status kOk [])"

text \<open>
  \<open>GetMetadata\<close> sends the context through a server of gRPC, which is a parameter: it shows the server's
  view of the metadata. \<open>None\<close> is a pattern that the model does not cover.
\<close>

definition IsContextMDValid ::
    "(string \<Rightarrow> http_rule option option) \<Rightarrow> (context_md \<Rightarrow> context_md) \<Rightarrow> context_md \<Rightarrow> string \<Rightarrow> string \<Rightarrow>
     status option" where
  "IsContextMDValid FindMethodByName GetMetadata context method api_client_header =
     (let headers = GetMetadata context
      in case ExtractMDFromHeaders headers of
           Inl status \<Rightarrow> Some status
         | Inr md \<Rightarrow>
             (case ExtractParamsFromMethod FindMethodByName method of
                Inl status \<Rightarrow> Some status
              | Inr params \<Rightarrow>
                  (case check_params md params of
                     None \<Rightarrow> None
                   | Some status \<Rightarrow>
                       if \<not> status_ok status then Some status
                       else Some (check_client_header api_client_header headers))))"

section \<open>What the decorators send\<close>

text \<open>
  What gRPC delivers: the metadata of a client under the names of the library's headers, and nothing else
  under them.
\<close>

definition delivers :: "(context_md \<Rightarrow> context_md) \<Rightarrow> bool" where
  "delivers GetMetadata \<longleftrightarrow> (\<forall>context. \<forall>key \<in> {''x-goog-request-params'', ''x-goog-api-client''}.
     headers_named key (GetMetadata context) = headers_named key context)"

text \<open>The API routes a method by one parameter of the request, which has a pattern.\<close>

definition routes_by ::
    "(string \<Rightarrow> http_rule option option) \<Rightarrow> string \<Rightarrow> string \<Rightarrow> string \<Rightarrow> bool" where
  "routes_by FindMethodByName method param pattern \<longleftrightarrow>
     (case FindMethodByName method of
        Some (Some http) \<Rightarrow> http_pattern http \<noteq> [] \<and> subst_matches (http_pattern http) = [(param, pattern)]
      | _ \<Rightarrow> False)"

text \<open>A text that cannot be taken for the syntax of the header.\<close>

definition plain_text :: "string \<Rightarrow> bool" where
  "plain_text s \<longleftrightarrow> s \<noteq> [] \<and> CHR ''&'' \<notin> set s \<and> CHR ''='' \<notin> set s"

lemma pair_matches_plain:
  "CHR ''&'' \<notin> set s \<Longrightarrow> pair_matches run s = (if run @ s = [] then [] else [run @ s])"
  by (induction s arbitrary: run) auto

lemma assign_match_plain: "plain_text k \<Longrightarrow> plain_text v \<Longrightarrow> assign_match (k @ ''='' @ v) = Some (k, v)"
proof -
  assume k: "plain_text k" and v: "plain_text v"
  then have "takeWhile (\<lambda>c. c \<noteq> CHR ''='') (k @ ''='' @ v) = k"
      "dropWhile (\<lambda>c. c \<noteq> CHR ''='') (k @ ''='' @ v) = ''='' @ v"
    by (subst takeWhile_append2 dropWhile_append2; auto simp: plain_text_def)+
  then show ?thesis using k v by (simp add: assign_match_def Let_def plain_text_def)
qed

lemma ExtractMDFromHeader_plain:
  assumes "plain_text k" "plain_text v"
  shows "ExtractMDFromHeader (k @ ''='' @ v) = Inr [k \<mapsto> v]"
proof -
  have "pair_matches [] (k @ ''='' @ v) = [k @ ''='' @ v]"
    using assms by (subst pair_matches_plain) (auto simp: plain_text_def)
  then show ?thesis using assign_match_plain [OF assms] by (simp add: ExtractMDFromHeader_def)
qed

lemma headers_named_SetMetadata:
  "headers_named key (SetMetadata header params context) = headers_named key context @
   (if key = ''x-goog-request-params'' then [params] else []) @
   (if key = ''x-goog-api-client'' then [header] else [])"
  by (simp add: headers_named_def SetMetadata_def)

text \<open>A context that has none of the two headers yet, as those that the library makes.\<close>

definition fresh_context :: "context_md \<Rightarrow> bool" where
  "fresh_context context \<longleftrightarrow>
     headers_named ''x-goog-request-params'' context = [] \<and> headers_named ''x-goog-api-client'' context = []"

lemma routed_header:
  assumes "delivers GetMetadata" "fresh_context context" "plain_text k" "plain_text v"
    "routes_by FindMethodByName method param pattern"
  shows "IsContextMDValid FindMethodByName GetMetadata (SetMetadata header (k @ ''='' @ v) context) method header =
    check_params [k \<mapsto> v] [(param, pattern)]"
proof -
  let ?ctx = "SetMetadata header (k @ ''='' @ v) context"
  have named: "headers_named ''x-goog-request-params'' (GetMetadata ?ctx) = [k @ ''='' @ v]"
      "headers_named ''x-goog-api-client'' (GetMetadata ?ctx) = [header]"
    using assms(1,2) by (simp_all add: delivers_def fresh_context_def headers_named_SetMetadata)
  obtain http where http: "FindMethodByName method = Some (Some http)" "http_pattern http \<noteq> []"
      "subst_matches (http_pattern http) = [(param, pattern)]"
    using assms(5) by (auto simp: routes_by_def split: option.splits)
  have params: "ExtractParamsFromMethod FindMethodByName method = Inr [(param, pattern)]"
    using http by (simp add: ExtractParamsFromMethod_def)
  have "ExtractMDFromHeaders (GetMetadata ?ctx) = Inr [k \<mapsto> v]"
    unfolding ExtractMDFromHeaders_def named(1) using ExtractMDFromHeader_plain [OF assms(3,4)] by simp
  moreover have "check_client_header header (GetMetadata ?ctx) = Status kOk []"
    unfolding check_client_header_def named(2) by simp
  ultimately show ?thesis
    unfolding IsContextMDValid_def Let_def params
    by (auto simp del: append.simps simp: IsContextMDValid_def split: option.splits bool.splits)
qed

text \<open>Names match their patterns: a star matches a component.\<close>

definition component :: "string \<Rightarrow> bool" where
  "component s \<longleftrightarrow> s \<noteq> [] \<and> CHR ''/'' \<notin> set s"

lemma glob_literal: "CHR ''*'' \<notin> set p \<Longrightarrow> glob ps v \<Longrightarrow> glob (p @ ps) (p @ v)"
  by (induction p) auto

lemma glob_component: "component s \<Longrightarrow> glob ps v \<Longrightarrow> glob (CHR ''*'' # ps) (s @ v)"
proof (induction s)
  case (Cons c s)
  then show ?case by (cases "s = []") (auto simp: component_def)
qed (simp add: component_def)

lemma glob_star: "component s \<Longrightarrow> glob ''*'' s"
  using glob_component [of s "[]" "[]"] by simp

text \<open>The call of a decorated stub is the call of its child with a context that passes the check.\<close>

definition sends_valid ::
    "(context_md \<Rightarrow> string \<Rightarrow> status option) \<Rightarrow> context_md \<Rightarrow> string \<Rightarrow> ('req, 'a, 'w) rpc \<Rightarrow> ('req, 'a, 'w) rpc \<Rightarrow>
     'req \<Rightarrow> bool" where
  "sends_valid check context method rpc child request \<longleftrightarrow>
     (\<exists>context'. (\<forall>w. rpc context request w = child context' request w) \<and>
       check context' method = Some (Status kOk []))"

lemma sends_valid:
  assumes "delivers GetMetadata" "fresh_context context" "routes_by FindMethodByName (service @ method) param pattern"
    "plain_text param" "plain_pattern pattern" "key = param @ ''=''"
    "plain_text (value_of request)" "glob pattern (value_of request)"
  shows "sends_valid (\<lambda>context method. IsContextMDValid FindMethodByName GetMetadata context (service @ method) header) context method (with_metadata header (\<lambda>r. key @ value_of r) child) child request"
  using routed_header [OF assms(1,2,4,7,3)] assms(5,6,8)
  by (auto simp: sends_valid_def with_metadata_def ValueMatchesPattern_def simp del: append.simps)

definition instance_pattern :: string where "instance_pattern = ''projects/*/instances/*''"

definition database_pattern :: string where "database_pattern = instance_pattern @ ''/databases/*''"

definition session_pattern :: string where "session_pattern = database_pattern @ ''/sessions/*''"

text \<open>How the API of the service routes its methods.\<close>

definition spanner_api :: "(string \<Rightarrow> http_rule option option) \<Rightarrow> bool" where
  "spanner_api FindMethodByName \<longleftrightarrow>
     list_all (\<lambda>m. routes_by FindMethodByName (''google.spanner.v1.Spanner.'' @ m) ''database'' database_pattern)
       [''CreateSession'', ''BatchCreateSessions'', ''ListSessions''] \<and>
     list_all (\<lambda>m. routes_by FindMethodByName (''google.spanner.v1.Spanner.'' @ m) ''name'' session_pattern)
       [''GetSession'', ''DeleteSession''] \<and>
     list_all (\<lambda>m. routes_by FindMethodByName (''google.spanner.v1.Spanner.'' @ m) ''session'' session_pattern)
       [''ExecuteSql'', ''ExecuteStreamingSql'', ''ExecuteBatchDml'', ''StreamingRead'', ''BeginTransaction'',
        ''Commit'', ''Rollback'', ''PartitionQuery'', ''PartitionRead'']"

text \<open>The ids of resources: components without the syntax of the header.\<close>

definition route_id :: "string \<Rightarrow> bool" where
  "route_id s \<longleftrightarrow> component s \<and> plain_text s"

definition database_ids :: "database \<Rightarrow> bool" where
  "database_ids d \<longleftrightarrow>
     route_id (project_id (db_instance d)) \<and> route_id (instance_id (db_instance d)) \<and> route_id (database_id d)"

lemma database_route:
  assumes "database_ids d"
  shows "plain_text (Database_FullName d @ rest) \<longleftrightarrow> CHR ''&'' \<notin> set rest \<and> CHR ''='' \<notin> set rest"
    "glob ps rest \<Longrightarrow> glob (database_pattern @ ps) (Database_FullName d @ rest)"
proof -
  note ids = assms [unfolded database_ids_def route_id_def]
  show "plain_text (Database_FullName d @ rest) \<longleftrightarrow> CHR ''&'' \<notin> set rest \<and> CHR ''='' \<notin> set rest"
    using ids by (auto simp: plain_text_def Database_FullName_def Instance_FullName_def)
  assume rest: "glob ps rest"
  have "glob (''projects/'' @ CHR ''*'' # ''/instances/'' @ CHR ''*'' # ''/databases/'' @ CHR ''*'' # ps)
      (''projects/'' @ project_id (db_instance d) @ ''/instances/'' @ instance_id (db_instance d) @
       ''/databases/'' @ database_id d @ rest)"
    by (intro glob_literal glob_component rest) (use ids in simp_all)
  then show "glob (database_pattern @ ps) (Database_FullName d @ rest)"
    by (simp add: database_pattern_def instance_pattern_def Database_FullName_def Instance_FullName_def)
qed

lemma database_name_route:
  assumes "database_ids d"
  shows "plain_text (Database_FullName d)" "glob database_pattern (Database_FullName d)"
  using database_route [OF assms, of "[]"] by (auto dest: meta_spec [of _ "[]"])

lemma session_name_route:
  assumes "database_ids d" "route_id s"
  shows "plain_text (Database_FullName d @ ''/sessions/'' @ s)"
    "glob session_pattern (Database_FullName d @ ''/sessions/'' @ s)"
proof -
  have s: "component s" "plain_text s" using assms(2) by (simp_all add: route_id_def)
  then show "plain_text (Database_FullName d @ ''/sessions/'' @ s)"
    using database_route(1) [OF assms(1), of "''/sessions/'' @ s"] by (auto simp: plain_text_def)
  have "glob (''/sessions/'' @ ''*'') (''/sessions/'' @ s)" by (rule glob_literal) (simp_all add: glob_star s)
  from database_route(2) [OF assms(1) this] show "glob session_pattern (Database_FullName d @ ''/sessions/'' @ s)"
    by (simp add: session_pattern_def)
qed

lemma patterns_plain: "plain_pattern database_pattern" "plain_pattern session_pattern"
  by code_simp+

lemma params_plain: "plain_text ''database''" "plain_text ''name''" "plain_text ''session''"
  by code_simp+

lemma spanner_calls_valid:
  assumes "delivers GetMetadata" "fresh_context context" "spanner_api FindMethodByName"
  shows "plain_text (value_of r) \<Longrightarrow> glob database_pattern (value_of r) \<Longrightarrow>
      m \<in> set [''CreateSession'', ''BatchCreateSessions'', ''ListSessions''] \<Longrightarrow>
      sends_valid (\<lambda>context method. IsContextMDValid FindMethodByName GetMetadata context
          (''google.spanner.v1.Spanner.'' @ method) header) context m
        (with_metadata header (\<lambda>r. ''database='' @ value_of r) call) call r"
    "plain_text (value_of r) \<Longrightarrow> glob session_pattern (value_of r) \<Longrightarrow>
      m \<in> set [''GetSession'', ''DeleteSession''] \<Longrightarrow>
      sends_valid (\<lambda>context method. IsContextMDValid FindMethodByName GetMetadata context
          (''google.spanner.v1.Spanner.'' @ method) header) context m
        (with_metadata header (\<lambda>r. ''name='' @ value_of r) call) call r"
    "plain_text (value_of r) \<Longrightarrow> glob session_pattern (value_of r) \<Longrightarrow>
      m \<in> set [''ExecuteSql'', ''ExecuteStreamingSql'', ''ExecuteBatchDml'', ''StreamingRead'', ''BeginTransaction'',
        ''Commit'', ''Rollback'', ''PartitionQuery'', ''PartitionRead''] \<Longrightarrow>
      sends_valid (\<lambda>context method. IsContextMDValid FindMethodByName GetMetadata context
          (''google.spanner.v1.Spanner.'' @ method) header) context m
        (with_metadata header (\<lambda>r. ''session='' @ value_of r) call) call r"
proof -
  note api = assms(3) [unfolded spanner_api_def list_all_iff]
  {
    assume "plain_text (value_of r)" "glob database_pattern (value_of r)"
      "m \<in> set [''CreateSession'', ''BatchCreateSessions'', ''ListSessions'']"
    then show "sends_valid (\<lambda>context method. IsContextMDValid FindMethodByName GetMetadata context
          (''google.spanner.v1.Spanner.'' @ method) header) context m
        (with_metadata header (\<lambda>r. ''database='' @ value_of r) call) call r"
      by (intro sends_valid [OF assms(1,2) bspec [OF conjunct1 [OF api]] params_plain(1) patterns_plain(1)]) simp_all
  next
    assume "plain_text (value_of r)" "glob session_pattern (value_of r)" "m \<in> set [''GetSession'', ''DeleteSession'']"
    then show "sends_valid (\<lambda>context method. IsContextMDValid FindMethodByName GetMetadata context
          (''google.spanner.v1.Spanner.'' @ method) header) context m
        (with_metadata header (\<lambda>r. ''name='' @ value_of r) call) call r"
      by (intro sends_valid [OF assms(1,2) bspec [OF conjunct1 [OF conjunct2 [OF api]]] params_plain(2)
            patterns_plain(2)]) simp_all
  next
    assume "plain_text (value_of r)" "glob session_pattern (value_of r)"
      "m \<in> set [''ExecuteSql'', ''ExecuteStreamingSql'', ''ExecuteBatchDml'', ''StreamingRead'', ''BeginTransaction'',
        ''Commit'', ''Rollback'', ''PartitionQuery'', ''PartitionRead'']"
    then show "sends_valid (\<lambda>context method. IsContextMDValid FindMethodByName GetMetadata context
          (''google.spanner.v1.Spanner.'' @ method) header) context m
        (with_metadata header (\<lambda>r. ''session='' @ value_of r) call) call r"
      by (intro sends_valid [OF assms(1,2) bspec [OF conjunct2 [OF conjunct2 [OF api]]] params_plain(3)
            patterns_plain(2)]) simp_all
  }
qed

text \<open>
  C37: The routing headers. With the context of a call, fresh or with metadata of other names, every
  method of the stub's metadata decorator, the asynchronous ones included, calls its child with a
  context that the check accepts for the method, for all names of databases and sessions whose ids are
  not empty and have none of the characters \<open>/\<close>, \<open>&\<close> and \<open>=\<close>. The library does not check ids; the
  service's grammar of ids has none of these characters.
\<close>

theorem routing_headers_valid:
  assumes "delivers GetMetadata" "spanner_api FindMethodByName" "fresh_context context"
    "database_ids d" "route_id s"
  shows "let valid = \<lambda>context method. IsContextMDValid FindMethodByName GetMetadata context
           (''google.spanner.v1.Spanner.'' @ method) header;
         stub = MetadataSpannerStub header child;
         database = Database_FullName d; session = database @ ''/sessions/'' @ s
     in sends_valid valid context ''CreateSession'' (rpc_CreateSession stub) (rpc_CreateSession child) database \<and>
       (\<forall>r. request_database r = database \<longrightarrow>
          sends_valid valid context ''BatchCreateSessions'' (rpc_BatchCreateSessions stub) (rpc_BatchCreateSessions child) r \<and>
          sends_valid valid context ''BatchCreateSessions'' (rpc_AsyncBatchCreateSessions stub)
            (rpc_AsyncBatchCreateSessions child) r) \<and>
       (\<forall>r. lsr_database r = database \<longrightarrow>
          sends_valid valid context ''ListSessions'' (rpc_ListSessions stub) (rpc_ListSessions child) r) \<and>
       sends_valid valid context ''GetSession'' (rpc_GetSession stub) (rpc_GetSession child) session \<and>
       sends_valid valid context ''GetSession'' (rpc_AsyncGetSession stub) (rpc_AsyncGetSession child) session \<and>
       sends_valid valid context ''DeleteSession'' (rpc_DeleteSession stub) (rpc_DeleteSession child) session \<and>
       sends_valid valid context ''DeleteSession'' (rpc_AsyncDeleteSession stub) (rpc_AsyncDeleteSession child) session \<and>
       (\<forall>r. sq_session r = session \<longrightarrow>
          sends_valid valid context ''ExecuteSql'' (rpc_ExecuteSql stub) (rpc_ExecuteSql child) r \<and>
          sends_valid valid context ''ExecuteStreamingSql'' (rpc_ExecuteStreamingSql stub) (rpc_ExecuteStreamingSql child) r) \<and>
       (\<forall>r. bdr_session r = session \<longrightarrow>
          sends_valid valid context ''ExecuteBatchDml'' (rpc_ExecuteBatchDml stub) (rpc_ExecuteBatchDml child) r) \<and>
       (\<forall>r. rq_session r = session \<longrightarrow>
          sends_valid valid context ''StreamingRead'' (rpc_StreamingRead stub) (rpc_StreamingRead child) r) \<and>
       (\<forall>r. br_session r = session \<longrightarrow>
          sends_valid valid context ''BeginTransaction'' (rpc_BeginTransaction stub) (rpc_BeginTransaction child) r) \<and>
       (\<forall>r. cr_session r = session \<longrightarrow>
          sends_valid valid context ''Commit'' (rpc_Commit stub) (rpc_Commit child) r) \<and>
       (\<forall>r. rr_session r = session \<longrightarrow>
          sends_valid valid context ''Rollback'' (rpc_Rollback stub) (rpc_Rollback child) r) \<and>
       (\<forall>r. pqr_session r = session \<longrightarrow>
          sends_valid valid context ''PartitionQuery'' (rpc_PartitionQuery stub) (rpc_PartitionQuery child) r) \<and>
       (\<forall>r. prr_session r = session \<longrightarrow>
          sends_valid valid context ''PartitionRead'' (rpc_PartitionRead stub) (rpc_PartitionRead child) r)"
proof -
  note call = spanner_calls_valid [OF assms(1,3,2)]
  note db = database_name_route [OF assms(4)] and ses = session_name_route [OF assms(4,5)]
  show ?thesis
    unfolding Let_def MetadataSpannerStub_def rpc_stub.simps
    by (intro conjI allI impI; (rule call(1) | rule call(2) | rule call(3)); simp add: db ses [simplified])
qed

text \<open>An API with the rules of three kinds of methods, and a gRPC that adds a header of its own.\<close>

definition demo_rule :: "string \<Rightarrow> http_rule" where
  "demo_rule path = \<lparr>http_get = [], http_put = [], http_post = path, http_delete = [], http_patch = [],
     http_custom = None\<rparr>"

definition demo_api :: "string \<Rightarrow> http_rule option option" where
  "demo_api method =
     (let m = drop (length ''google.spanner.v1.Spanner.'') method
      in Some (Some (demo_rule (
        if m \<in> set [''CreateSession'', ''BatchCreateSessions'', ''ListSessions''] then
          ''/v1/{database=projects/*/instances/*/databases/*}/sessions''
        else if m \<in> set [''GetSession'', ''DeleteSession''] then
          ''/v1/{name=projects/*/instances/*/databases/*/sessions/*}''
        else if m = ''GetDatabaseDdl'' then ''/v1/{database=projects/*/instances/*/databases/*}/ddl''
        else ''/v1/{session=projects/*/instances/*/databases/*/sessions/*}:commit''))))"

definition demo_metadata :: "context_md \<Rightarrow> context_md" where
  "demo_metadata context = (''user-agent'', ''grpc-c++'') # context"

definition routed_database :: database where
  "routed_database = \<lparr>db_instance = \<lparr>project_id = ''p'', instance_id = ''i''\<rparr>, database_id = ''d''\<rparr>"

lemma demo_facts:
  "delivers demo_metadata" "spanner_api demo_api" "fresh_context []" "database_ids routed_database" "route_id ''s''"
proof -
  show "delivers demo_metadata" by (simp add: delivers_def demo_metadata_def headers_named_def)
  show "spanner_api demo_api" by code_simp
  show "fresh_context []" "database_ids routed_database" "route_id ''s''" by code_simp+
qed

lemma routing_headers_valid_witness:
  "\<forall>child :: (unit, unit, nat) rpc_stub. sends_valid (\<lambda>context method. IsContextMDValid demo_api demo_metadata context
       (''google.spanner.v1.Spanner.'' @ method) ''gl-cpp'') [] ''Commit''
     (rpc_Commit (MetadataSpannerStub ''gl-cpp'' child)) (rpc_Commit child)
     \<lparr>cr_session = ''projects/p/instances/i/databases/d/sessions/s'', cr_mutations = [], cr_transaction_id = ''t''\<rparr>"
proof
  fix child :: "(unit, unit, nat) rpc_stub"
  let ?r = "\<lparr>cr_session = ''projects/p/instances/i/databases/d/sessions/s'', cr_mutations = [], cr_transaction_id = ''t''\<rparr>"
  have "cr_session ?r = Database_FullName routed_database @ ''/sessions/'' @ ''s''" by code_simp
  then show "sends_valid (\<lambda>context method. IsContextMDValid demo_api demo_metadata context
       (''google.spanner.v1.Spanner.'' @ method) ''gl-cpp'') [] ''Commit''
     (rpc_Commit (MetadataSpannerStub ''gl-cpp'' child)) (rpc_Commit child) ?r"
    using routing_headers_valid [OF demo_facts, of "''gl-cpp''" child, unfolded Let_def] by blast
qed

text \<open>
  The routing header of \<open>GetDatabaseDdl\<close> is called \<open>name\<close>. An API that routes the method by the field of
  its request, \<open>database\<close>, does not accept it, whatever the pattern.
\<close>

theorem ddl_header_rejected:
  assumes "delivers GetMetadata" "fresh_context context" "database_ids d"
    "routes_by FindMethodByName method ''database'' pattern"
  shows "\<exists>context'.
    (\<forall>w. dr_GetDatabaseDdl (DatabaseAdminMetadata header child) context (Database_FullName d) w =
      dr_GetDatabaseDdl child context' (Database_FullName d) w) \<and>
    IsContextMDValid FindMethodByName GetMetadata context' method header =
      Some (Status kInvalidArgument
        (''Expected param '' @ [CHR 0x22] @ ''database'' @ [CHR 0x22] @ '' not found in metadata''))"
proof (intro exI conjI allI)
  let ?params = "''name'' @ ''='' @ Database_FullName d"
  show "dr_GetDatabaseDdl (DatabaseAdminMetadata header child) context (Database_FullName d) w =
      dr_GetDatabaseDdl child (SetMetadata header ?params context) (Database_FullName d) w" for w
    by (simp add: DatabaseAdminMetadata_def with_metadata_def)
  show "IsContextMDValid FindMethodByName GetMetadata (SetMetadata header ?params context) method header =
      Some (Status kInvalidArgument
        (''Expected param '' @ [CHR 0x22] @ ''database'' @ [CHR 0x22] @ '' not found in metadata''))"
    unfolding routed_header [OF assms(1,2) params_plain(2) database_name_route(1) [OF assms(3)] assms(4)] by simp
qed

lemma ddl_header_rejected_witness:
  "\<forall>child :: nat database_admin_rpcs. \<exists>context'.
     (\<forall>w. dr_GetDatabaseDdl (DatabaseAdminMetadata ''gl-cpp'' child) [] (Database_FullName routed_database) w =
       dr_GetDatabaseDdl child context' (Database_FullName routed_database) w) \<and>
     IsContextMDValid demo_api demo_metadata context' ''google.spanner.v1.Spanner.GetDatabaseDdl'' ''gl-cpp'' \<noteq>
       Some (Status kOk [])"
proof
  fix child :: "nat database_admin_rpcs"
  have "routes_by demo_api ''google.spanner.v1.Spanner.GetDatabaseDdl'' ''database'' database_pattern" by code_simp
  from ddl_header_rejected [OF demo_facts(1,3,4) this, of "''gl-cpp''" child]
  show "\<exists>context'. (\<forall>w. dr_GetDatabaseDdl (DatabaseAdminMetadata ''gl-cpp'' child) [] (Database_FullName routed_database) w =
       dr_GetDatabaseDdl child context' (Database_FullName routed_database) w) \<and>
     IsContextMDValid demo_api demo_metadata context' ''google.spanner.v1.Spanner.GetDatabaseDdl'' ''gl-cpp'' \<noteq>
       Some (Status kOk [])" by auto
qed

end
