(* ===== verification/Testing_Utilities.thy ===== *)
theory Testing_Utilities
  imports Admin_Clients Connection_Config "HOL-Library.List_Lexorder" "HOL-Library.Char_ord"
begin

text \<open>
  The helpers of the integration tests in \<open>testing/\<close>: the names of temporary resources
  (\<open>random_database_name.cc\<close>, \<open>random_backup_name.cc\<close>, \<open>random_instance_name.cc\<close>), the choice of an
  instance and of a configuration (\<open>pick_random_instance.cc\<close>, \<open>pick_instance_config.cc\<close>), the removal of
  old instances (\<open>cleanup_stale_instances.cc\<close>) and the clock that tests set (\<open>fake_clock.h\<close>).
\<close>

section \<open>Random names\<close>

text \<open>\<open>google::cloud::internal::Sample\<close> draws \<open>n\<close> characters of a population; it is a parameter.\<close>

type_synonym 'g sampler = "'g \<Rightarrow> int \<Rightarrow> string \<Rightarrow> string \<times> 'g"

definition random_name :: "'g sampler \<Rightarrow> 'g \<Rightarrow> int \<Rightarrow> string \<Rightarrow> string \<Rightarrow> string \<Rightarrow> string \<times> 'g" where
  "random_name Sample generator max_size prefix middle end_chars =
     (let name_size = max_size - 1 - int (length prefix);
          (a, generator) = Sample generator name_size middle;
          (b, generator) = Sample generator 1 end_chars
      in (prefix @ a @ b, generator))"

definition RandomDatabaseName :: "'g sampler \<Rightarrow> 'g \<Rightarrow> string \<times> 'g" where
  "RandomDatabaseName Sample generator =
     random_name Sample generator 30 ''db-'' ''abcdefghijlkmnopqrstuvwxyz012345689_-''
       ''abcdefghijlkmnopqrstuvwxyz0123456789''"

definition RandomBackupName :: "'g sampler \<Rightarrow> 'g \<Rightarrow> string \<times> 'g" where
  "RandomBackupName Sample generator =
     random_name Sample generator 60 ''backup-'' ''abcdefghijlkmnopqrstuvwxyz012345689_-''
       ''abcdefghijlkmnopqrstuvwxyz0123456789''"

text \<open>The date is what \<open>strftime\<close> writes of the local time, ten characters long.\<close>

definition RandomInstanceName :: "'g sampler \<Rightarrow> string \<Rightarrow> 'g \<Rightarrow> string \<times> 'g" where
  "RandomInstanceName Sample date generator =
     random_name Sample generator 64 (''temporary-instance-'' @ date @ ''-'')
       ''abcdefghijlkmnopqrstuvwxyz012345689-'' ''abcdefghijlkmnopqrstuvwxyz''"

section \<open>Lists of the service\<close>

text \<open>
  Going through a range of the library: the next item, or an error, and the rest of the range; loading a
  page may change the service. \<open>PaginationRange\<close> is a parameter that makes such a range of the first
  request, the loader and the items of a page.
\<close>

type_synonym ('r, 'item, 'w) range_next = "'r \<Rightarrow> 'w \<Rightarrow> (('item status_or \<times> 'r) option \<times> 'w) option"

text \<open>\<open>std::string::rfind\<close>: where the last occurrence begins.\<close>

definition rfind :: "string \<Rightarrow> string \<Rightarrow> nat option" where
  "rfind p s = find (\<lambda>i. take (length p) (drop i s) = p) (rev [0..<Suc (length s)])"

definition test_instance_id :: "string \<Rightarrow> string option" where
  "test_instance_id name =
     (let sep = ''/instances/''; valid_instance_name = sep @ ''test-instance-''
      in case rfind valid_instance_name name of
           Some pos \<Rightarrow> Some (drop (pos + length sep) name)
         | None \<Rightarrow> None)"

partial_function (option) PickRandomInstance_loop ::
    "('r, instance_proto, 'w) range_next \<Rightarrow> 'r \<Rightarrow> string list \<Rightarrow> 'w \<Rightarrow> (string list status_or \<times> 'w) option" where
  "PickRandomInstance_loop next_item r instance_ids w =
     (case next_item r w of
        None \<Rightarrow> None
      | Some (None, w) \<Rightarrow> Some (Inr instance_ids, w)
      | Some (Some (Inl status, r), w) \<Rightarrow> Some (Inl status, w)
      | Some (Some (Inr inst, r), w) \<Rightarrow>
          PickRandomInstance_loop next_item r
            (case test_instance_id (ip_name inst) of Some i \<Rightarrow> instance_ids @ [i] | None \<Rightarrow> instance_ids) w)"

definition create_test_instance ::
    "'w instance_admin_methods \<Rightarrow> environment \<Rightarrow> string \<Rightarrow> 'w \<Rightarrow> (string list \<times> 'w) option" where
  "create_test_instance conn GetEnv project w =
     (if GetEnv ''SPANNER_EMULATOR_HOST'' = None then Some ([], w)
      else
        let inst = \<lparr>project_id = project, instance_id = ''test-instance-a''\<rparr>;
            request = CreateInstanceRequestBuilder inst
              (''projects/'' @ project_id inst @ ''/instanceConfigs/emulator-config'')
        in map_option
             (\<lambda>(result, w). (if is_value result \<or> code (result_status result) = kAlreadyExists
                then [instance_id inst] else [], w))
             (InstanceAdminClient_CreateInstance conn request w))"

definition PickRandomInstance ::
    "'w instance_admin_methods \<Rightarrow>
     ((filtered_list_request, instance_proto list_response, instance_proto, 'w) page_range \<Rightarrow> 'r) \<Rightarrow>
     ('r, instance_proto, 'w) range_next \<Rightarrow> (int \<Rightarrow> int \<Rightarrow> 'g \<Rightarrow> int \<times> 'g) \<Rightarrow> environment \<Rightarrow> string \<Rightarrow> 'g \<Rightarrow> 'w \<Rightarrow>
     (string status_or \<times> 'g \<times> 'w) option" where
  "PickRandomInstance conn make_range next_item uniform GetEnv project g w =
     (case PickRandomInstance_loop next_item (make_range (InstanceAdminClient_ListInstances conn project [])) [] w of
        None \<Rightarrow> None
      | Some (Inl status, w) \<Rightarrow> Some (Inl status, g, w)
      | Some (Inr instance_ids, w) \<Rightarrow>
          (case if instance_ids = [] then create_test_instance conn GetEnv project w else Some (instance_ids, w) of
             None \<Rightarrow> None
           | Some (instance_ids, w) \<Rightarrow>
               if instance_ids = [] then Some (Inl (Status kInternal ''No available instances for test''), g, w)
               else
                 let (random_index, g) = uniform 0 (int (length instance_ids) - 1) g
                 in Some (Inr (instance_ids ! nat random_index), g, w)))"

text \<open>A regular expression is matched by a parameter.\<close>

partial_function (option) PickInstanceConfig_loop ::
    "('r, string, 'w) range_next \<Rightarrow> (string \<Rightarrow> bool) \<Rightarrow> 'r \<Rightarrow> string \<Rightarrow> string list \<Rightarrow> 'w \<Rightarrow>
     (string \<times> string list \<times> 'w) option" where
  "PickInstanceConfig_loop next_item regex_match r first ret w =
     (case next_item r w of
        None \<Rightarrow> None
      | Some (None, w) \<Rightarrow> Some (first, ret, w)
      | Some (Some (Inl status, r), w) \<Rightarrow> Some (first, ret, w)
      | Some (Some (Inr config, r), w) \<Rightarrow>
          PickInstanceConfig_loop next_item regex_match r (if first = [] then config else first)
            (if regex_match config then ret @ [config] else ret) w)"

definition PickInstanceConfig where
  "PickInstanceConfig conn make_range next_item uniform project regex_match g w =
     map_option
       (\<lambda>(first, ret, w).
          if ret \<noteq> [] then
            let (random_index, g) = uniform (0 :: int) (int (length ret) - 1) g
            in (ret ! nat random_index, g, w)
          else (first, g, w))
       (PickInstanceConfig_loop next_item regex_match
         (make_range (InstanceAdminClient_ListInstanceConfigs conn project)) [] [] w)"

section \<open>Stale instances\<close>

text \<open>The groups of the regular expression are the id and its date. The cutoff is the date of a day ago.\<close>

partial_function (option) stale_instances ::
    "('r, instance_proto, 'w) range_next \<Rightarrow> (string \<Rightarrow> (string \<times> string) option) \<Rightarrow> ('w \<Rightarrow> string) \<Rightarrow> 'r \<Rightarrow>
     string list \<Rightarrow> 'w \<Rightarrow> (string list \<times> 'w) option" where
  "stale_instances next_item regex_match cutoff r instance_ids w =
     (case next_item r w of
        None \<Rightarrow> None
      | Some (None, w) \<Rightarrow> Some (instance_ids, w)
      | Some (Some (Inl status, r), w) \<Rightarrow> Some (instance_ids, w)
      | Some (Some (Inr inst, r), w) \<Rightarrow>
          stale_instances next_item regex_match cutoff r
            (case regex_match (ip_name inst) of
               Some (i, date) \<Rightarrow> if date < take 10 (cutoff w) then instance_ids @ [i] else instance_ids
             | None \<Rightarrow> instance_ids) w)"

text \<open>Results of the deletions are ignored; the value of a backup that could not be listed throws.\<close>

datatype cleanup_outcome = CleanupReturns status | CleanupThrows status

partial_function (option) delete_backups ::
    "'w database_admin_methods \<Rightarrow> ('r, backup_proto, 'w) range_next \<Rightarrow> 'r \<Rightarrow> 'w \<Rightarrow>
     (status option \<times> 'w) option" where
  "delete_backups conn next_item r w =
     (case next_item r w of
        None \<Rightarrow> None
      | Some (None, w) \<Rightarrow> Some (None, w)
      | Some (Some (Inl status, r), w) \<Rightarrow> Some (Some status, w)
      | Some (Some (Inr b, r), w) \<Rightarrow>
          (case DatabaseAdminClient_DeleteBackup_proto conn b w of
             None \<Rightarrow> None
           | Some (ignored, w) \<Rightarrow> delete_backups conn next_item r w))"

fun delete_instances ::
    "'w database_admin_methods \<Rightarrow> 'w instance_admin_methods \<Rightarrow>
     ((filtered_list_request, backup_proto list_response, backup_proto, 'w) page_range \<Rightarrow> 'r) \<Rightarrow>
     ('r, backup_proto, 'w) range_next \<Rightarrow> string \<Rightarrow> string list \<Rightarrow> 'w \<Rightarrow> (cleanup_outcome \<times> 'w) option" where
  "delete_instances dconn iconn make_range next_item project [] w = Some (CleanupReturns (Status kOk []), w)"
| "delete_instances dconn iconn make_range next_item project (i # ids) w =
     (let inst = \<lparr>project_id = project, instance_id = i\<rparr>
      in case delete_backups dconn next_item (make_range (DatabaseAdminClient_ListBackups dconn inst [])) w of
           None \<Rightarrow> None
         | Some (Some thrown, w) \<Rightarrow> Some (CleanupThrows thrown, w)
         | Some (None, w) \<Rightarrow>
             (case InstanceAdminClient_DeleteInstance iconn inst w of
                None \<Rightarrow> None
              | Some (ignored, w) \<Rightarrow> delete_instances dconn iconn make_range next_item project ids w))"

definition CleanupStaleInstances where
  "CleanupStaleInstances dconn iconn make_instances next_instance make_backups next_backup regex_match cutoff
       project w =
     (case stale_instances next_instance regex_match cutoff
             (make_instances (InstanceAdminClient_ListInstances iconn project [])) [] w of
        None \<Rightarrow> None
      | Some (instance_ids, w) \<Rightarrow>
          if length instance_ids > 20 then
            Some (CleanupReturns (Status kInternal ''too many stale instances''), w)
          else delete_instances dconn iconn make_backups next_backup project instance_ids w)"

section \<open>Names that the service accepts\<close>

text \<open>
  What the service demands of an id: its length, a letter in front, and characters of two sets in the
  middle and at the end.
\<close>

definition lower_case :: string where "lower_case = ''abcdefghijklmnopqrstuvwxyz''"

definition fits :: "nat \<Rightarrow> string \<Rightarrow> string \<Rightarrow> string \<Rightarrow> bool" where
  "fits max_size middle end_chars s \<longleftrightarrow>
     2 \<le> length s \<and> length s \<le> max_size \<and> hd s \<in> set lower_case \<and> set s \<subseteq> set middle \<and> last s \<in> set end_chars"

definition samples :: "'g sampler \<Rightarrow> bool" where
  "samples Sample \<longleftrightarrow> (\<forall>g n population. 0 \<le> n \<longrightarrow> population \<noteq> [] \<longrightarrow>
     int (length (fst (Sample g n population))) = n \<and> set (fst (Sample g n population)) \<subseteq> set population)"

lemma random_name_fits:
  assumes "samples Sample" "int (length prefix) < max_size" "prefix \<noteq> []" "middle \<noteq> []" "end_chars \<noteq> []"
    "hd prefix \<in> set lower_case" "set prefix \<union> set middle \<union> set end_chars \<subseteq> set allowed"
    "set end_chars \<subseteq> set allowed_end"
  shows "int (length (fst (random_name Sample g max_size prefix middle end_chars))) = max_size \<and>
    fits (nat max_size) allowed allowed_end (fst (random_name Sample g max_size prefix middle end_chars))"
proof -
  define n where "n = max_size - 1 - int (length prefix)"
  obtain a g1 where a: "Sample g n middle = (a, g1)" by (cases "Sample g n middle")
  obtain b g2 where b: "Sample g1 1 end_chars = (b, g2)" by (cases "Sample g1 1 end_chars")
  have la: "int (length a) = n" "set a \<subseteq> set middle"
    using assms(1) [unfolded samples_def, rule_format, of n middle g] a assms(2,4) by (simp_all add: n_def)
  have "int (length b) = 1" "set b \<subseteq> set end_chars"
    using assms(1) [unfolded samples_def, rule_format, of 1 end_chars g1] b assms(5) by simp_all
  then obtain c where c: "b = [c]" "c \<in> set end_chars" by (cases b) auto
  have "random_name Sample g max_size prefix middle end_chars = (prefix @ a @ [c], g2)"
    using a b by (simp add: random_name_def Let_def n_def [symmetric] c(1))
  moreover have "int (length (prefix @ a @ [c])) = max_size" using la(1) by (simp add: n_def)
  ultimately show ?thesis
    using assms(3,6,7,8) la c(2) by (cases prefix) (auto simp: fits_def)
qed

text \<open>
  The names of temporary databases, backups and instances are as long as allowed and have the form that
  the service demands: \<open>[a-z][a-z0-9_\-]*[a-z0-9]\<close>, for instances without the underscore.
\<close>

theorem random_names_fit:
  assumes "samples Sample" "length date = 10" "set date \<subseteq> set ''0123456789-''"
  shows "fits 30 (lower_case @ ''0123456789_-'') (lower_case @ ''0123456789'') (fst (RandomDatabaseName Sample g)) \<and>
    fits 60 (lower_case @ ''0123456789_-'') (lower_case @ ''0123456789'') (fst (RandomBackupName Sample g)) \<and>
    fits 64 (lower_case @ ''0123456789-'') (lower_case @ ''0123456789'') (fst (RandomInstanceName Sample date g))"
proof (intro conjI)
  have sets: "set ''db-'' \<union> set ''abcdefghijlkmnopqrstuvwxyz012345689_-'' \<union> set ''abcdefghijlkmnopqrstuvwxyz0123456789''
      \<subseteq> set (lower_case @ ''0123456789_-'')"
    "set ''backup-'' \<union> set ''abcdefghijlkmnopqrstuvwxyz012345689_-'' \<union> set ''abcdefghijlkmnopqrstuvwxyz0123456789''
      \<subseteq> set (lower_case @ ''0123456789_-'')"
    "set ''abcdefghijlkmnopqrstuvwxyz0123456789'' \<subseteq> set (lower_case @ ''0123456789'')"
    "set ''abcdefghijlkmnopqrstuvwxyz'' \<subseteq> set (lower_case @ ''0123456789'')"
    "set ''temporary-instance-'' \<union> set ''abcdefghijlkmnopqrstuvwxyz012345689-'' \<union> set ''abcdefghijlkmnopqrstuvwxyz''
      \<union> set ''0123456789-'' \<subseteq> set (lower_case @ ''0123456789-'')"
    "set ''-'' \<subseteq> set ''0123456789-''"
    "hd ''db-'' \<in> set lower_case" "hd ''backup-'' \<in> set lower_case" "hd ''temporary-instance-'' \<in> set lower_case"
    by code_simp+
  show "fits 30 (lower_case @ ''0123456789_-'') (lower_case @ ''0123456789'') (fst (RandomDatabaseName Sample g))"
    using random_name_fits [OF assms(1) _ _ _ _ sets(7) sets(1) sets(3), of 30 g] by (simp add: RandomDatabaseName_def)
  show "fits 60 (lower_case @ ''0123456789_-'') (lower_case @ ''0123456789'') (fst (RandomBackupName Sample g))"
    using random_name_fits [OF assms(1) _ _ _ _ sets(8) sets(2) sets(3), of 60 g] by (simp add: RandomBackupName_def)
  have "set (''temporary-instance-'' @ date @ ''-'') \<union> set ''abcdefghijlkmnopqrstuvwxyz012345689-'' \<union>
      set ''abcdefghijlkmnopqrstuvwxyz'' \<subseteq> set (lower_case @ ''0123456789-'')"
    using assms(3) sets(5,6) unfolding set_append by blast
  from random_name_fits [OF assms(1) _ _ _ _ _ this sets(4), of 64 g] assms(2) sets(9)
  show "fits 64 (lower_case @ ''0123456789-'') (lower_case @ ''0123456789'') (fst (RandomInstanceName Sample date g))"
    by (simp add: RandomInstanceName_def)
qed

lemma random_names_fit_witness:
  "fits 30 (lower_case @ ''0123456789_-'') (lower_case @ ''0123456789'')
     (fst (RandomDatabaseName (\<lambda>g n population. (replicate (nat n) (hd population), g)) ()))"
  by (rule conjunct1 [OF random_names_fit [where date = "''2020-02-29''"]])
    (auto simp: samples_def)

section \<open>The instances of tests\<close>

lemma take_drop_append: "take (length (a @ b)) s = a @ b \<Longrightarrow> take (length b) (drop (length a) s) = b"
proof -
  assume "take (length (a @ b)) s = a @ b"
  then have "drop (length a) (take (length (a @ b)) s) = b" by simp
  then show ?thesis unfolding drop_take by simp
qed

lemma test_instance_id_prefix:
  "test_instance_id name = Some i \<Longrightarrow> take (length ''test-instance-'') i = ''test-instance-''"
proof -
  assume "test_instance_id name = Some i"
  then obtain pos where pos: "rfind (''/instances/'' @ ''test-instance-'') name = Some pos"
      and i: "i = drop (pos + length ''/instances/'') name"
    by (auto simp: test_instance_id_def Let_def split: option.splits)
  have "take (length (''/instances/'' @ ''test-instance-'')) (drop pos name) = ''/instances/'' @ ''test-instance-''"
    using pos by (auto simp: rfind_def find_Some_iff simp del: append.simps)
  from take_drop_append [OF this] show ?thesis unfolding i drop_drop by (simp add: add.commute)
qed

text \<open>The ids of test instances.\<close>

definition test_ids :: "string list \<Rightarrow> bool" where
  "test_ids ids \<longleftrightarrow> list_all (\<lambda>i. take (length ''test-instance-'') i = ''test-instance-'') ids"

lemma test_ids_simps [simp]:
  "test_ids []"
  "test_ids (ids @ [i]) \<longleftrightarrow> test_ids ids \<and> take (length ''test-instance-'') i = ''test-instance-''"
  by (simp_all add: test_ids_def)

lemma PickRandomInstance_loop_ids:
  assumes "PickRandomInstance_loop next_item r ids w = Some (Inr ids', w')" "test_ids ids"
  shows "test_ids ids'"
proof -
  have "PickRandomInstance_loop next_item r ids w = Some y \<Longrightarrow> test_ids ids \<Longrightarrow>
      (\<forall>ids' w'. y = (Inr ids', w') \<longrightarrow> test_ids ids')" for y
  proof (induction arbitrary: rule: PickRandomInstance_loop.raw_induct [rotated, consumes 1])
    case (1 pl next_item r ids w y)
    show ?case
    proof (cases "next_item r w")
      case None
      then show ?thesis using 1(2) by simp
    next
      case (Some p)
      obtain x w1 where p: "p = (x, w1)" by (cases p)
      show ?thesis
      proof (cases "\<exists>inst r1. x = Some (Inr inst, r1)")
        case True
        then obtain inst r1 where x: "x = Some (Inr inst, r1)" by blast
        let ?ids = "case test_instance_id (ip_name inst) of Some i \<Rightarrow> ids @ [i] | None \<Rightarrow> ids"
        have "pl next_item r1 ?ids w1 = Some y" using 1(2) by (simp add: Some p x)
        moreover have "test_ids ?ids" using 1(3) by (auto split: option.splits dest: test_instance_id_prefix)
        ultimately show ?thesis by (rule 1(1))
      next
        case False
        then show ?thesis using 1(2,3) by (cases x) (auto simp: Some p split: sum.splits)
      qed
    qed
  qed
  then show ?thesis using assms by blast
qed

text \<open>
  The integration tests are isolated from those that create and delete temporary instances: whatever the
  service lists, the instance that is picked, if any, has a name that begins with \<open>test-instance-\<close>.
\<close>

theorem picked_instance_isolated:
  assumes "PickRandomInstance conn make_range next_item uniform GetEnv project g w = Some (Inr i, g', w')"
    "\<forall>a b g. a \<le> b \<longrightarrow> a \<le> fst (uniform a b g) \<and> fst (uniform a b g) \<le> b"
  shows "take (length ''test-instance-'') i = ''test-instance-''"
proof -
  obtain ids w1 where loop: "PickRandomInstance_loop next_item
        (make_range (InstanceAdminClient_ListInstances conn project [])) [] w = Some (Inr ids, w1)"
    using assms(1) by (auto simp: PickRandomInstance_def split: option.splits sum.splits)
  from PickRandomInstance_loop_ids [OF loop] have ids: "test_ids ids" by simp
  have created: "test_ids is" if "create_test_instance conn GetEnv project w1 = Some (is, w2)" for "is" w2
    using that by (auto simp: create_test_instance_def Let_def test_ids_def split: if_splits)
  obtain js where js: "test_ids js" "js \<noteq> []" "i = js ! nat (fst (uniform 0 (int (length js) - 1) g))"
    using assms(1) ids created
    by (auto simp: PickRandomInstance_def loop split: if_splits option.splits prod.splits)
  have "nat (fst (uniform 0 (int (length js) - 1) g)) < length js"
    using assms(2) [rule_format, of 0 "int (length js) - 1" g] js(2) by (cases js) auto
  then show ?thesis using js(1,3) by (simp add: test_ids_def list_all_length)
qed

end
